(* ===== verification/Prelude.thy ===== *)
theory Prelude
  imports Main "HOL-Library.Sublist" "HOL-Library.Char_ord" "HOL-Library.List_Lexorder"
begin

text \<open>
  The development's shared ground: the collections of proof rules the component theories fill,
  and the generic lemmas on lists, prefixes and association lists that several of them use.
  Strings are \<^typ>\<open>string\<close>, lists of 8-bit characters, which is what a Go string is (a sequence
  of bytes); \<^theory_text>\<open>sort\<close> on them is the bytewise order of Go's \<^verbatim>\<open>sort.Strings\<close>.
\<close>

named_theorems post_rules \<open>rules that prove a postcondition of an effectful computation\<close>
named_theorems go_simps \<open>equations that evaluate calls of the Go standard library\<close>

type_synonym fields = "(string \<times> string) list"

text \<open>
  A Go \<^verbatim>\<open>map[string]string\<close> is an association list: its order is the iteration order the
  runtime picks for one \<^verbatim>\<open>range\<close> loop, so a theorem about every list is a theorem about every
  order. Reading an absent key gives the zero value, the empty string.
\<close>

definition field :: "fields \<Rightarrow> string \<Rightarrow> string" where
  "field m k = (case map_of m k of None \<Rightarrow> [] | Some v \<Rightarrow> v)"

definition mapKeys :: "('k \<times> 'v) list \<Rightarrow> 'k list" where
  "mapKeys m = map fst m"

lemma field_Nil [simp]: "field [] k = []"
  by (simp add: field_def)

lemma field_Cons [simp]: "field ((k', v) # m) k = (if k' = k then v else field m k)"
  by (simp add: field_def)

subsection \<open>Lists\<close>

lemma distinct_sort_iff [simp]: "distinct (sort xs) = distinct xs"
  by (simp add: distinct_sort)

lemma prefix_drop_append: "prefix p s \<Longrightarrow> p @ drop (length p) s = s"
  by (auto elim: prefixE)

lemma suffix_take_append: "suffix q s \<Longrightarrow> take (length s - length q) s @ q = s"
  by (auto elim: suffixE)

lemma filter_eq_Cons_in: "filter P xs = y # ys \<Longrightarrow> y \<in> set xs \<and> P y"
  by (drule filter_eq_ConsD) auto

lemma inj_on_append_right: "inj_on (\<lambda>x. p @ x) A"
  by (simp add: inj_on_def)

lemma distinct_concat_tagged:
  assumes "distinct xs"
    and "\<And>x. x \<in> set xs \<Longrightarrow> distinct (f x)"
    and "\<And>x y e. x \<in> set xs \<Longrightarrow> e \<in> set (f x) \<Longrightarrow> tag e = x"
  shows "distinct (concat (map f xs))"
  using assms
proof (induction xs)
  case Nil
  then show ?case by simp
next
  case (Cons x xs)
  then have "set (f x) \<inter> (\<Union>y\<in>set xs. set (f y)) = {}"
    by (auto; metis Cons.prems(1,3) distinct.simps(2) list.set_intros)
  with Cons show ?case by auto
qed

lemma sum_list_map_add: "(\<Sum>x\<leftarrow>xs. f x + g x) = sum_list (map f xs) + (sum_list (map g xs) :: nat)"
  by (induction xs) auto

lemma fold_append_concat: "fold (\<lambda>x acc. acc @ f x) xs acc = acc @ concat (map f xs)"
  by (induction xs arbitrary: acc) auto

lemma distinct_map_sort_key: "distinct (map f xs) \<Longrightarrow> distinct (map f (sort_key f xs))"
  by (simp add: distinct_map)

lemma filter_if: "filter P (if b then xs else ys) = (if b then filter P xs else filter P ys)"
  by simp

end
