(* ===== verification/GoStrings.thy ===== *)
theory GoStrings
  imports Prelude
begin

text \<open>
  The part of Go's \<^verbatim>\<open>strings\<close> package the program calls, on byte strings. White space is
  Go's \<^verbatim>\<open>unicode.IsSpace\<close> in UTF-8, exactly. Case mapping (\<^verbatim>\<open>ToLower\<close>, \<^verbatim>\<open>ToUpper\<close>,
  \<^verbatim>\<open>EqualFold\<close>) is the ASCII one: bytes from 0x80 on are left as they are, so on strings with
  letters outside ASCII the model keeps them where Go would map them. Separators of
  \<^verbatim>\<open>Split\<close> and \<^verbatim>\<open>SplitN\<close> are single characters, as in every call of the program.
\<close>

subsection \<open>Prefixes, suffixes, trimming\<close>

definition hasPrefix :: "string \<Rightarrow> string \<Rightarrow> bool" where
  "hasPrefix s p = prefix p s"

definition hasSuffix :: "string \<Rightarrow> string \<Rightarrow> bool" where
  "hasSuffix s q = suffix q s"

definition trimPrefix :: "string \<Rightarrow> string \<Rightarrow> string" where
  "trimPrefix s p = (if hasPrefix s p then drop (length p) s else s)"

definition trimSuffix :: "string \<Rightarrow> string \<Rightarrow> string" where
  "trimSuffix s q = (if hasSuffix s q then take (length s - length q) s else s)"

definition wsSeqs :: "string list" where
  "wsSeqs =
     [[CHR 0x20], [CHR 0x09], [CHR 0x0A], [CHR 0x0B], [CHR 0x0C], [CHR 0x0D],
      [CHR 0xC2, CHR 0x85], [CHR 0xC2, CHR 0xA0], [CHR 0xE1, CHR 0x9A, CHR 0x80],
      [CHR 0xE2, CHR 0x80, CHR 0x80], [CHR 0xE2, CHR 0x80, CHR 0x81],
      [CHR 0xE2, CHR 0x80, CHR 0x82], [CHR 0xE2, CHR 0x80, CHR 0x83],
      [CHR 0xE2, CHR 0x80, CHR 0x84], [CHR 0xE2, CHR 0x80, CHR 0x85],
      [CHR 0xE2, CHR 0x80, CHR 0x86], [CHR 0xE2, CHR 0x80, CHR 0x87],
      [CHR 0xE2, CHR 0x80, CHR 0x88], [CHR 0xE2, CHR 0x80, CHR 0x89],
      [CHR 0xE2, CHR 0x80, CHR 0x8A], [CHR 0xE2, CHR 0x80, CHR 0xA8],
      [CHR 0xE2, CHR 0x80, CHR 0xA9], [CHR 0xE2, CHR 0x80, CHR 0xAF],
      [CHR 0xE2, CHR 0x81, CHR 0x9F], [CHR 0xE3, CHR 0x80, CHR 0x80]]"

text \<open>Drop members of \<open>ws\<close> from the front of \<open>s\<close> as long as one is there.\<close>

function stripSeqs :: "string list \<Rightarrow> string \<Rightarrow> string" where
  "stripSeqs ws s =
     (case filter (\<lambda>w. w \<noteq> [] \<and> prefix w s) ws of
        [] \<Rightarrow> s
      | w # _ \<Rightarrow> stripSeqs ws (drop (length w) s))"
  by pat_completeness auto
termination
  by (relation "measure (\<lambda>(ws, s). length s)")
     (auto dest!: filter_eq_Cons_in prefix_length_le simp: neq_Nil_conv)

declare stripSeqs.simps [simp del]

definition trimSpace :: "string \<Rightarrow> string" where
  "trimSpace s = rev (stripSeqs (map rev wsSeqs) (rev (stripSeqs wsSeqs s)))"

definition trimCut :: "string \<Rightarrow> string \<Rightarrow> string" where
  "trimCut s cs = rev (dropWhile (\<lambda>c. c \<in> set cs) (rev (dropWhile (\<lambda>c. c \<in> set cs) s)))"

definition trimLeftCut :: "string \<Rightarrow> string \<Rightarrow> string" where
  "trimLeftCut s cs = dropWhile (\<lambda>c. c \<in> set cs) s"

subsection \<open>Case mapping\<close>

definition lowerChar :: "char \<Rightarrow> char" where
  "lowerChar c = (if CHR ''A'' \<le> c \<and> c \<le> CHR ''Z'' then char_of (of_char c + 32 :: nat) else c)"

definition upperChar :: "char \<Rightarrow> char" where
  "upperChar c = (if CHR ''a'' \<le> c \<and> c \<le> CHR ''z'' then char_of (of_char c - 32 :: nat) else c)"

definition toLower :: "string \<Rightarrow> string" where
  "toLower s = map lowerChar s"

definition toUpper :: "string \<Rightarrow> string" where
  "toUpper s = map upperChar s"

definition equalFold :: "string \<Rightarrow> string \<Rightarrow> bool" where
  "equalFold s t = (toLower s = toLower t)"

subsection \<open>Splitting, joining, searching\<close>

fun splitOn :: "char \<Rightarrow> string \<Rightarrow> string list" where
  "splitOn sep [] = [[]]"
| "splitOn sep (c # s) =
     (if c = sep then [] # splitOn sep s
      else case splitOn sep s of [] \<Rightarrow> [[c]] | p # ps \<Rightarrow> (c # p) # ps)"

definition splitN2 :: "char \<Rightarrow> string \<Rightarrow> string list" where
  "splitN2 sep s =
     (if sep \<in> set s
      then [takeWhile (\<lambda>c. c \<noteq> sep) s, tl (dropWhile (\<lambda>c. c \<noteq> sep) s)]
      else [s])"

fun joinWith :: "string \<Rightarrow> string list \<Rightarrow> string" where
  "joinWith sep [] = []"
| "joinWith sep [p] = p"
| "joinWith sep (p # q # ps) = p @ sep @ joinWith sep (q # ps)"

definition containsAny :: "string \<Rightarrow> string \<Rightarrow> bool" where
  "containsAny s cs = list_ex (\<lambda>c. c \<in> set cs) s"

definition containsChar :: "string \<Rightarrow> char \<Rightarrow> bool" where
  "containsChar s c = (c \<in> set s)"

text \<open>\<^verbatim>\<open>strconv.Itoa\<close> on a non-negative number.\<close>

fun itoa :: "nat \<Rightarrow> string" where
  "itoa n = (if n < 10 then [char_of (n + 48)] else itoa (n div 10) @ [char_of (n mod 10 + 48)])"

declare itoa.simps [simp del]

text \<open>
  \<^verbatim>\<open>strings.Fields(s)[0]\<close> of a text that does not start with white space (no byte inside a
  character starts a white space), and \<^verbatim>\<open>filepath.Base\<close> on Unix.
\<close>

fun firstField :: "string \<Rightarrow> string" where
  "firstField [] = []"
| "firstField (c # s) = (if list_ex (\<lambda>w. prefix w (c # s)) wsSeqs then [] else c # firstField s)"

definition filepathBase :: "string \<Rightarrow> string" where
  "filepathBase path =
     (if path = [] then ''.''
      else let p = rev (dropWhile (\<lambda>c. c = CHR ''/'') (rev path));
               p = rev (takeWhile (\<lambda>c. c \<noteq> CHR ''/'') (rev p))
           in if p = [] then ''/'' else p)"

subsection \<open>Facts the components use\<close>

lemma hasPrefix_append [simp]: "hasPrefix (p @ s) p"
  by (simp add: hasPrefix_def)

lemma trimPrefix_append [simp]: "trimPrefix (p @ s) p = s"
  by (simp add: trimPrefix_def)

text \<open>
  The guard \<^verbatim>\<open>name == "" || name == key\<close> after \<^verbatim>\<open>name := strings.TrimPrefix(key, p)\<close>:
  what passes it is a key that really starts with the prefix.
\<close>

lemma trimPrefix_proper: "trimPrefix k p \<noteq> k \<Longrightarrow> k = p @ trimPrefix k p"
  by (auto simp: trimPrefix_def hasPrefix_def prefix_drop_append split: if_splits)

lemma trimPrefix_no_prefix: "\<not> hasPrefix k p \<Longrightarrow> trimPrefix k p = k"
  by (simp add: trimPrefix_def)

lemma hasPrefix_trim: "hasPrefix k p \<Longrightarrow> k = p @ trimPrefix k p"
  by (simp add: trimPrefix_def hasPrefix_def prefix_drop_append)

text \<open>A key with the prefix and something after it.\<close>

definition named :: "string \<Rightarrow> string \<Rightarrow> bool" where
  "named pre key = (hasPrefix key pre \<and> key \<noteq> pre)"

lemma trimPrefix_unnamed: "trimPrefix key pre = [] \<or> trimPrefix key pre = key \<longleftrightarrow> \<not> named pre key" if "pre \<noteq> []"
  using that by (auto simp: named_def trimPrefix_def hasPrefix_def elim: prefixE)

lemma splitN2_two:
  assumes "splitN2 sep s = [a, b]"
  shows "s = a @ sep # b \<and> sep \<notin> set a"
proof -
  from assms have in_s: "sep \<in> set s"
    and a: "a = takeWhile (\<lambda>c. c \<noteq> sep) s" and b: "b = tl (dropWhile (\<lambda>c. c \<noteq> sep) s)"
    by (auto simp: splitN2_def split: if_splits)
  from in_s obtain c t where ct: "dropWhile (\<lambda>c. c \<noteq> sep) s = c # t"
    by (cases "dropWhile (\<lambda>c. c \<noteq> sep) s") auto
  then have "c = sep" using hd_dropWhile [of "\<lambda>c. c \<noteq> sep" s] by simp
  with ct b have "dropWhile (\<lambda>c. c \<noteq> sep) s = sep # b" by simp
  then have "s = a @ sep # b" using a by (metis takeWhile_dropWhile_id)
  moreover have "sep \<notin> set a" using a by (auto dest: set_takeWhileD)
  ultimately show ?thesis by simp
qed

lemma splitN2_join: "length (splitN2 sep s) = 2 \<Longrightarrow> s = splitN2 sep s ! 0 @ sep # splitN2 sep s ! 1"
  using splitN2_two [of sep s "splitN2 sep s ! 0" "splitN2 sep s ! 1"]
  by (auto simp: numeral_2_eq_2 length_Suc_conv)

lemma splitN2_len: "length (splitN2 sep s) = 2 \<longleftrightarrow> sep \<in> set s"
  by (simp add: splitN2_def)

lemma splitOn_not_Nil [simp]: "splitOn sep s \<noteq> []"
  by (induction s) (auto split: list.splits)

lemma joinWith_Cons: "ps \<noteq> [] \<Longrightarrow> joinWith sep (p # ps) = p @ sep @ joinWith sep ps"
  by (cases ps) auto

lemma joinWith_head: "joinWith sep ((c # p) # ps) = c # joinWith sep (p # ps)"
  by (cases ps) auto

lemma joinWith_splitOn: "joinWith [sep] (splitOn sep s) = s"
proof (induction s)
  case Nil
  then show ?case by simp
next
  case (Cons c s)
  then show ?case
    by (cases "splitOn sep s") (auto simp: joinWith_Cons joinWith_head)
qed

lemma sep_notin_splitOn: "p \<in> set (splitOn sep s) \<Longrightarrow> sep \<notin> set p"
  by (induction s arbitrary: p) (auto split: list.splits if_splits)

lemma splitOn_no_sep: "sep \<notin> set s \<Longrightarrow> splitOn sep s = [s]"
  by (induction s) auto

lemma splitOn_append: "sep \<notin> set a \<Longrightarrow> splitOn sep (a @ sep # b) = a # splitOn sep b"
  by (induction a) auto

subsection \<open>Trimming\<close>

lemma stripSeqs_suffix: "suffix (stripSeqs ws s) s"
proof (induction ws s rule: stripSeqs.induct)
  case (1 ws s)
  show ?case
  proof (cases "filter (\<lambda>w. w \<noteq> [] \<and> prefix w s) ws")
    case Nil
    then show ?thesis by (simp add: stripSeqs.simps [of ws s])
  next
    case (Cons w us)
    with "1" have "suffix (stripSeqs ws (drop (length w) s)) (drop (length w) s)" by blast
    then have "suffix (stripSeqs ws (drop (length w) s)) s"
      using suffix_drop suffix_order.trans by blast
    with Cons show ?thesis by (simp add: stripSeqs.simps [of ws s])
  qed
qed

lemma set_trimSpace: "set (trimSpace s) \<subseteq> set s"
proof -
  have "set (stripSeqs ws t) \<subseteq> set t" for ws t
    by (rule set_mono_suffix [OF stripSeqs_suffix])
  from this [of "map rev wsSeqs" "rev (stripSeqs wsSeqs s)"] this [of wsSeqs s] show ?thesis
    by (simp add: trimSpace_def)
qed

lemma stripSeqs_done:
  "w \<in> set ws \<Longrightarrow> w \<noteq> [] \<Longrightarrow> \<not> prefix w (stripSeqs ws s)"
proof (induction ws s rule: stripSeqs.induct)
  case (1 ws s)
  show ?case
  proof (cases "filter (\<lambda>w. w \<noteq> [] \<and> prefix w s) ws")
    case Nil
    then show ?thesis using "1.prems"
      by (auto simp: stripSeqs.simps [of ws s] filter_empty_conv)
  next
    case (Cons w' us)
    with "1" show ?thesis by (simp add: stripSeqs.simps [of ws s])
  qed
qed

lemma stripSeqs_id: "(\<And>w. w \<in> set ws \<Longrightarrow> w \<noteq> [] \<Longrightarrow> \<not> prefix w s) \<Longrightarrow> stripSeqs ws s = s"
  by (subst stripSeqs.simps, subst filter_False) auto

lemma stripSeqs_Nil [simp]: "stripSeqs ws [] = []"
  by (rule stripSeqs_id) auto

lemma wsSeqs_nonempty: "w \<in> set wsSeqs \<Longrightarrow> w \<noteq> []"
  by (auto simp: wsSeqs_def)

lemma trimSpace_Nil [simp]: "trimSpace [] = []"
  by (simp add: trimSpace_def)

lemma trimSpace_no_lead: "w \<in> set wsSeqs \<Longrightarrow> \<not> prefix w (trimSpace s)"
proof
  assume w: "w \<in> set wsSeqs" and p: "prefix w (trimSpace s)"
  have "prefix (trimSpace s) (stripSeqs wsSeqs s)"
    using stripSeqs_suffix [of "map rev wsSeqs" "rev (stripSeqs wsSeqs s)"]
    by (simp add: trimSpace_def suffix_to_prefix)
  with p have "prefix w (stripSeqs wsSeqs s)" using prefix_order.trans by blast
  then show False using w stripSeqs_done wsSeqs_nonempty by blast
qed

lemma trimSpace_no_trail: "w \<in> set wsSeqs \<Longrightarrow> \<not> suffix w (trimSpace s)"
proof -
  assume w: "w \<in> set wsSeqs"
  then have "rev w \<in> set (map rev wsSeqs)" and "rev w \<noteq> []"
    using wsSeqs_nonempty by auto
  then have "\<not> prefix (rev w) (stripSeqs (map rev wsSeqs) (rev (stripSeqs wsSeqs s)))"
    by (rule stripSeqs_done)
  then show ?thesis by (simp add: trimSpace_def suffix_to_prefix)
qed

lemma trimSpace_id:
  assumes "\<And>w. w \<in> set wsSeqs \<Longrightarrow> \<not> prefix w s \<and> \<not> suffix w s"
  shows "trimSpace s = s"
proof -
  have "stripSeqs wsSeqs s = s" using assms by (intro stripSeqs_id) blast
  moreover have "stripSeqs (map rev wsSeqs) (rev s) = rev s"
    using assms by (intro stripSeqs_id) (auto simp: suffix_to_prefix)
  ultimately show ?thesis by (simp add: trimSpace_def)
qed

lemma trimSpace_idem [simp]: "trimSpace (trimSpace s) = trimSpace s"
  by (rule trimSpace_id) (simp add: trimSpace_no_lead trimSpace_no_trail)

lemma length_splitOn: "length (splitOn sep s) = Suc (length (filter (\<lambda>c. c = sep) s))"
  by (induction s) (auto split: list.split)

lemma splitOn_two: "sep \<in> set s \<Longrightarrow> 1 < length (splitOn sep s)"
  by (auto simp: length_splitOn filter_empty_conv)

end
