(* ===== verification/GoFloat.thy ===== *)
theory GoFloat
  imports GoStrings
begin

text \<open>
  Go's \<^verbatim>\<open>float64\<close> as the program uses it: IEEE 754 binary64 values, the rounding of an exact
  quotient to the nearest value (ties to even), the arithmetic of the collectors, and
  \<^verbatim>\<open>strconv.ParseFloat(s, 64)\<close>. A finite value \<open>Fin neg m e\<close> is \<open>\<plusminus> m * 2 ^ e\<close> with \<open>m\<close> odd, or
  zero with \<open>e = 0\<close>; zero keeps its sign. ParseFloat is modelled by its documented result
  (the float nearest to the number the string denotes); the exponent's clamp is the code's.
\<close>

datatype f64 = NaN | Inf bool | Fin bool int int

function bitlen :: "int \<Rightarrow> int" where
  "bitlen n = (if n \<le> 0 then 0 else 1 + bitlen (n div 2))"
  by pat_completeness auto
termination
  by (relation "measure nat") auto

declare bitlen.simps [simp del]

function norm2 :: "int \<Rightarrow> int \<Rightarrow> int \<times> int" where
  "norm2 m e = (if m \<le> 0 then (0, 0) else if m mod 2 = 0 then norm2 (m div 2) (e + 1) else (m, e))"
  by pat_completeness auto
termination
  by (relation "measure (\<lambda>(m, e). nat m)") auto

declare norm2.simps [simp del]

definition mkFin :: "bool \<Rightarrow> int \<Rightarrow> int \<Rightarrow> f64" where
  "mkFin neg m e = (case norm2 m e of (m', e') \<Rightarrow> Fin neg m' e')"

definition pow :: "int \<Rightarrow> int \<Rightarrow> int" where
  "pow b k = b ^ nat k"

text \<open>The integer nearest to \<open>num / den\<close>, the even one of two that are equally near.\<close>

definition rne :: "int \<Rightarrow> int \<Rightarrow> int" where
  "rne num den =
     (let q = num div den; r = num mod den
      in if 2 * r < den then q else if den < 2 * r then q + 1
         else if q mod 2 = 0 then q else q + 1)"

text \<open>The largest \<open>k\<close> with \<open>2 ^ k \<le> num / den\<close>, for positive \<open>num\<close> and \<open>den\<close>.\<close>

definition floorLog2 :: "int \<Rightarrow> int \<Rightarrow> int" where
  "floorLog2 num den =
     (let k = bitlen num - bitlen den
      in if den * pow 2 k \<le> num * pow 2 (- k) then k else k - 1)"

text \<open>The float nearest to \<open>num / den\<close>, for \<open>num \<ge> 0\<close> and \<open>den > 0\<close>.\<close>

definition round64 :: "bool \<Rightarrow> int \<Rightarrow> int \<Rightarrow> f64" where
  "round64 neg num den =
     (if num = 0 then Fin neg 0 0
      else let e = max (floorLog2 num den - 52) (- 1074);
               m = rne (num * pow 2 (- e)) (den * pow 2 e)
           in if 1024 < bitlen m + e then Inf neg else mkFin neg m e)"

subsection \<open>Arithmetic\<close>

definition f64_of_int :: "int \<Rightarrow> f64" where
  "f64_of_int z = round64 (z < 0) \<bar>z\<bar> 1"

abbreviation f64_0 :: f64 where "f64_0 \<equiv> Fin False 0 0"
abbreviation f64_1 :: f64 where "f64_1 \<equiv> Fin False 1 0"

fun f64_mul :: "f64 \<Rightarrow> f64 \<Rightarrow> f64" where
  "f64_mul NaN y = NaN"
| "f64_mul x NaN = NaN"
| "f64_mul (Inf s) (Inf t) = Inf (s \<noteq> t)"
| "f64_mul (Inf s) (Fin t m e) = (if m = 0 then NaN else Inf (s \<noteq> t))"
| "f64_mul (Fin s m e) (Inf t) = (if m = 0 then NaN else Inf (s \<noteq> t))"
| "f64_mul (Fin s m e) (Fin t n f) =
     round64 (s \<noteq> t) (m * n * pow 2 (e + f)) (pow 2 (- (e + f)))"

fun f64_div :: "f64 \<Rightarrow> f64 \<Rightarrow> f64" where
  "f64_div NaN y = NaN"
| "f64_div x NaN = NaN"
| "f64_div (Inf s) (Inf t) = NaN"
| "f64_div (Inf s) (Fin t m e) = Inf (s \<noteq> t)"
| "f64_div (Fin s m e) (Inf t) = Fin (s \<noteq> t) 0 0"
| "f64_div (Fin s m e) (Fin t n f) =
     (if n = 0 then (if m = 0 then NaN else Inf (s \<noteq> t))
      else round64 (s \<noteq> t) (m * pow 2 (e - f)) (n * pow 2 (f - e)))"

fun f64_add :: "f64 \<Rightarrow> f64 \<Rightarrow> f64" where
  "f64_add NaN y = NaN"
| "f64_add x NaN = NaN"
| "f64_add (Inf s) (Inf t) = (if s = t then Inf s else NaN)"
| "f64_add (Inf s) (Fin t m e) = Inf s"
| "f64_add (Fin s m e) (Inf t) = Inf t"
| "f64_add (Fin s m e) (Fin t n f) =
     (let g = min e f;
          a = m * pow 2 (e - g); b = n * pow 2 (f - g);
          z = (if s then - a else a) + (if t then - b else b)
      in if z = 0 then Fin (s \<and> t) 0 0
         else round64 (z < 0) (\<bar>z\<bar> * pow 2 g) (pow 2 (- g)))"

text \<open>\<^verbatim>\<open>x < 0\<close>: false for NaN and for both zeros.\<close>

fun f64_negative :: "f64 \<Rightarrow> bool" where
  "f64_negative NaN = False"
| "f64_negative (Inf s) = s"
| "f64_negative (Fin s m e) = (s \<and> m \<noteq> 0)"

text \<open>\<^verbatim>\<open>uint64(x)\<close> and \<^verbatim>\<open>int64(x)\<close> on a finite value: the integer part.\<close>

fun f64_trunc :: "f64 \<Rightarrow> int" where
  "f64_trunc (Fin s m e) = (let z = m * pow 2 e div pow 2 (- e) in if s then - z else z)"
| "f64_trunc x = 0"

subsection \<open>ParseFloat\<close>

definition isDigit :: "char \<Rightarrow> bool" where
  "isDigit c = (CHR ''0'' \<le> c \<and> c \<le> CHR ''9'')"

definition isHexLetter :: "char \<Rightarrow> bool" where
  "isHexLetter c = (CHR ''a'' \<le> lowerChar c \<and> lowerChar c \<le> CHR ''f'')"

definition digitVal :: "char \<Rightarrow> int" where
  "digitVal c = (if isDigit c then of_char c - 48 else of_char (lowerChar c) - 87)"

text \<open>Mantissa: whether a digit was seen, the digits as a number, how many follow the dot, the rest.\<close>

fun scanMant :: "int \<Rightarrow> string \<Rightarrow> bool \<Rightarrow> bool \<Rightarrow> int \<Rightarrow> int \<Rightarrow> bool \<times> int \<times> int \<times> string" where
  "scanMant base [] dot dig m fr = (dig, m, fr, [])"
| "scanMant base (c # s) dot dig m fr =
     (if c = CHR ''_'' then scanMant base s dot dig m fr
      else if c = CHR ''.'' then
        (if dot then (dig, m, fr, c # s) else scanMant base s True dig m fr)
      else if isDigit c \<or> base = 16 \<and> isHexLetter c then
        scanMant base s dot True (m * base + digitVal c) (if dot then fr + 1 else fr)
      else (dig, m, fr, c # s))"

fun scanExp :: "string \<Rightarrow> int \<Rightarrow> int \<times> string" where
  "scanExp [] e = (e, [])"
| "scanExp (c # s) e =
     (if c = CHR ''_'' then scanExp s e
      else if isDigit c then scanExp s (if e < 10000 then e * 10 + digitVal c else e)
      else (e, c # s))"

text \<open>The exponent part after \<^verbatim>\<open>e\<close> or \<^verbatim>\<open>p\<close>: it takes a digit and the whole rest of the string.\<close>

definition readExp :: "string \<Rightarrow> int option" where
  "readExp s =
     (let (sg, t) = (case s of [] \<Rightarrow> (1, [])
                     | c # r \<Rightarrow> if c = CHR ''+'' then (1, r)
                               else if c = CHR ''-'' then (- 1, r) else (1, s))
      in case t of [] \<Rightarrow> None
         | d # _ \<Rightarrow> if isDigit d
                   then (case scanExp t 0 of (e, r) \<Rightarrow> if r = [] then Some (sg * e) else None)
                   else None)"

text \<open>\<^verbatim>\<open>underscoreOK\<close>: an underscore stands between digits (a base prefix counts as one).\<close>

fun underscoreRun :: "bool \<Rightarrow> char \<Rightarrow> string \<Rightarrow> bool" where
  "underscoreRun hex saw [] = (saw \<noteq> CHR ''_'')"
| "underscoreRun hex saw (c # s) =
     (if isDigit c \<or> hex \<and> isHexLetter c then underscoreRun hex CHR ''0'' s
      else if c = CHR ''_'' then (if saw \<noteq> CHR ''0'' then False else underscoreRun hex CHR ''_'' s)
      else if saw = CHR ''_'' then False
      else underscoreRun hex CHR ''!'' s)"

definition dropSign :: "string \<Rightarrow> string" where
  "dropSign s = (case s of c # r \<Rightarrow> if c = CHR ''+'' \<or> c = CHR ''-'' then r else s | [] \<Rightarrow> [])"

definition underscoreOK :: "string \<Rightarrow> bool" where
  "underscoreOK s =
     (case dropSign s of
        z # x # t \<Rightarrow>
          if z = CHR ''0'' \<and> lowerChar x \<in> set ''box''
          then underscoreRun (lowerChar x = CHR ''x'') CHR ''0'' t
          else underscoreRun False CHR ''^'' (z # x # t)
      | t \<Rightarrow> underscoreRun False CHR ''^'' t)"

definition isHexPrefixed :: "string \<Rightarrow> bool" where
  "isHexPrefixed s = (case s of z # x # _ # _ \<Rightarrow> z = CHR ''0'' \<and> lowerChar x = CHR ''x'' | _ \<Rightarrow> False)"

text \<open>\<^verbatim>\<open>readFloat\<close>, on the whole string: the rounded value, or \<open>None\<close> for a syntax error.\<close>

definition readFloat :: "string \<Rightarrow> f64 option" where
  "readFloat s =
     (let neg = (s \<noteq> [] \<and> hd s = CHR ''-'');
          t = dropSign s;
          hex = isHexPrefixed t;
          (dig, m, fr, r) = (if hex then scanMant 16 (drop 2 t) False False 0 0
                             else scanMant 10 t False False 0 0);
          ex = (case r of [] \<Rightarrow> if hex then None else Some 0
                | c # r' \<Rightarrow> if lowerChar c = (if hex then CHR ''p'' else CHR ''e'')
                            then readExp r' else None)
      in if \<not> dig \<or> CHR ''_'' \<in> set s \<and> \<not> underscoreOK s then None
         else case ex of None \<Rightarrow> None
              | Some e \<Rightarrow>
                  if hex then let p = e - 4 * fr in Some (round64 neg (m * pow 2 p) (pow 2 (- p)))
                  else let p = e - fr in Some (round64 neg (m * pow 10 p) (pow 10 (- p))))"

definition special :: "string \<Rightarrow> f64 option" where
  "special s =
     (let t = toLower s
      in if t \<in> set [''inf'', ''+inf'', ''infinity'', ''+infinity''] then Some (Inf False)
         else if t \<in> set [''-inf'', ''-infinity''] then Some (Inf True)
         else if t = ''nan'' then Some NaN else None)"

text \<open>\<open>None\<close> is a non-nil error: bad syntax, or a value out of range (which rounds to an infinity).\<close>

definition ParseFloat :: "string \<Rightarrow> f64 option" where
  "ParseFloat s =
     (case special s of
        Some v \<Rightarrow> Some v
      | None \<Rightarrow> (case readFloat s of
                   None \<Rightarrow> None
                 | Some v \<Rightarrow> (case v of Inf _ \<Rightarrow> None | _ \<Rightarrow> Some v)))"

subsection \<open>Exactness on integers, and decimal numerals\<close>

lemma bitlen_pos: "0 < n \<Longrightarrow> bitlen n = 1 + bitlen (n div 2)"
  by (subst bitlen.simps) simp

lemma bitlen_nonpos [simp]: "n \<le> 0 \<Longrightarrow> bitlen n = 0"
  by (subst bitlen.simps) simp

lemma bitlen_nonneg [simp]: "0 \<le> bitlen n"
proof (induction n rule: bitlen.induct)
  case (1 n)
  then show ?case by (cases "n \<le> 0") (auto simp: bitlen_pos)
qed

lemma bitlen_bounds: "0 < n \<Longrightarrow> 2 ^ nat (bitlen n - 1) \<le> n \<and> n < 2 ^ nat (bitlen n)"
proof (induction n rule: bitlen.induct)
  case (1 n)
  show ?case
  proof (cases "n = 1")
    case True
    then show ?thesis by (simp add: bitlen_pos)
  next
    case False
    with "1.prems" have n2: "0 < n div 2" by simp
    then have ih: "2 ^ nat (bitlen (n div 2) - 1) \<le> n div 2" "n div 2 < 2 ^ nat (bitlen (n div 2))"
      using "1" by auto
    from n2 have "0 < bitlen (n div 2)"
      using bitlen_nonneg [of "n div 2 div 2"] by (simp add: bitlen_pos del: bitlen_nonneg)
    then have e: "nat (bitlen n) = Suc (nat (bitlen (n div 2)))"
      and e': "nat (bitlen n - 1) = Suc (nat (bitlen (n div 2) - 1))"
      using "1.prems" by (simp_all add: bitlen_pos nat_add_distrib)
    have "2 * (n div 2) \<le> n" and "n < 2 * (n div 2) + 2" by arith+
    then show ?thesis using ih unfolding e e' power_Suc by linarith
  qed
qed

lemma bitlen_le: "n < 2 ^ k \<Longrightarrow> bitlen n \<le> int k"
proof (cases "0 < n")
  case True
  assume "n < 2 ^ k"
  with True bitlen_bounds [of n] have "(2::int) ^ nat (bitlen n - 1) < 2 ^ k" by linarith
  then have "nat (bitlen n - 1) < k" by (rule power_less_imp_less_exp [rotated]) simp
  then show ?thesis by linarith
qed simp

lemma bitlen_1 [simp]: "bitlen 1 = 1"
  by (simp add: bitlen_pos)

lemma pow_nonpos [simp]: "k \<le> 0 \<Longrightarrow> pow b k = 1"
  by (simp add: pow_def)

lemma floorLog2_1: "0 < n \<Longrightarrow> floorLog2 n 1 = bitlen n - 1"
  using bitlen_bounds [of n] bitlen_pos [of n] by (simp add: floorLog2_def pow_def)

lemma rne_1 [simp]: "rne m 1 = m"
  by (simp add: rne_def)

lemma norm2_pow: "0 < m \<Longrightarrow> norm2 (m * 2 ^ j) (e - int j) = norm2 m e"
proof (induction j arbitrary: e)
  case 0
  then show ?case by simp
next
  case (Suc j)
  then have "norm2 (m * 2 ^ Suc j) (e - int (Suc j)) = norm2 (m * 2 ^ j) (e - int j)"
  proof -
    have "0 < m * 2 ^ Suc j" using Suc.prems by simp
    then show ?thesis by (subst norm2.simps) (auto simp: algebra_simps)
  qed
  with Suc show ?case by simp
qed

lemma norm2_trunc:
  "0 < m \<Longrightarrow> 0 \<le> e \<Longrightarrow> (case norm2 m e of (m', e') \<Rightarrow> m' * 2 ^ nat e' = m * 2 ^ nat e \<and> 0 \<le> e')"
proof (induction m e rule: norm2.induct)
  case (1 m e)
  show ?case
  proof (cases "m mod 2 = 0")
    case True
    with "1.prems" have "0 < m div 2" by presburger
    with "1" True have ih: "case norm2 (m div 2) (e + 1) of (m', e') \<Rightarrow>
        m' * 2 ^ nat e' = (m div 2) * 2 ^ nat (e + 1) \<and> 0 \<le> e'"
      by auto
    have "norm2 m e = norm2 (m div 2) (e + 1)" using "1.prems" True by (subst norm2.simps) simp
    moreover have "(m div 2) * 2 ^ nat (e + 1) = m * 2 ^ nat e"
      using "1.prems" True by (simp add: nat_add_distrib) (metis dvd_div_mult_self dvd_eq_mod_eq_0 mult.assoc mult.commute)
    ultimately show ?thesis using ih by (simp split: prod.splits)
  next
    case False
    with "1.prems" have "norm2 m e = (m, e)" by (subst norm2.simps) auto
    with "1.prems" show ?thesis by simp
  qed
qed

lemma round64_small:
  assumes "0 < n" and "n < 2 ^ 53"
  shows "round64 neg n 1 = mkFin neg n 0"
proof -
  have b: "bitlen n \<le> 53" "1 \<le> bitlen n"
    using assms bitlen_le [of n 53] bitlen_pos [of n] by simp_all
  let ?e = "max (floorLog2 n 1 - 52) (- 1074)"
  have e: "?e = bitlen n - 53" using assms b by (simp add: floorLog2_1)
  let ?j = "nat (53 - bitlen n)"
  let ?m = "n * 2 ^ ?j"
  have "?m < 2 ^ nat (bitlen n) * 2 ^ ?j" using assms bitlen_bounds [of n] by simp
  also have "\<dots> = 2 ^ 53" using b by (simp add: power_add [symmetric] nat_add_distrib [symmetric])
  finally have "bitlen ?m \<le> 53" using bitlen_le [of ?m 53] by simp
  moreover have "norm2 ?m (0 - int ?j) = norm2 n 0" using assms(1) by (rule norm2_pow)
  ultimately show ?thesis using assms b
    by (simp add: round64_def e pow_def mkFin_def Let_def)
qed

lemma f64_of_int_exact:
  assumes "0 \<le> n" and "n < 2 ^ 53"
  shows "f64_trunc (f64_of_int n) = n"
proof (cases "n = 0")
  case True
  then show ?thesis by (simp add: f64_of_int_def round64_def)
next
  case False
  with assms have n: "0 < n" by simp
  then have "f64_of_int n = mkFin False n 0"
    using assms by (simp add: f64_of_int_def round64_small)
  then show ?thesis using norm2_trunc [OF n, of 0]
    by (simp add: mkFin_def pow_def split: prod.splits)
qed

lemma f64_of_int_Fin:
  assumes "0 \<le> n" "n < 2 ^ 53"
  shows "\<exists>m e. f64_of_int n = Fin False m e \<and> 0 \<le> e \<and> m * 2 ^ nat e = n"
proof (cases "n = 0")
  case True
  then show ?thesis by (auto simp: f64_of_int_def round64_def)
next
  case False
  with assms have n: "0 < n" by simp
  obtain m e where me: "norm2 n 0 = (m, e)" by fastforce
  with norm2_trunc [OF n, of 0] have "m * 2 ^ nat e = n" "0 \<le> e" by simp_all
  moreover have "f64_of_int n = Fin False m e"
    using n assms(2) me by (simp add: f64_of_int_def round64_small mkFin_def)
  ultimately show ?thesis by blast
qed

lemma digit_char: "d < 10 \<Longrightarrow> isDigit (char_of (d + 48 :: nat)) \<and> digitVal (char_of (d + 48)) = int d"
proof -
  assume "d < 10"
  then have "d = 0 \<or> d = 1 \<or> d = 2 \<or> d = 3 \<or> d = 4 \<or> d = 5 \<or> d = 6 \<or> d = 7 \<or> d = 8 \<or> d = 9"
    by arith
  then show ?thesis
    by (elim disjE) (simp_all add: isDigit_def digitVal_def less_eq_char_def char_of_def bit_Suc_0_iff)
qed

lemma itoa_step: "10 \<le> n \<Longrightarrow> itoa n = itoa (n div 10) @ [char_of (n mod 10 + 48)]"
  by (subst itoa.simps) simp

lemma itoa_digit: "n < 10 \<Longrightarrow> itoa n = [char_of (n + 48)]"
  by (subst itoa.simps) simp

lemma itoa_digits: "list_all isDigit (itoa n) \<and> itoa n \<noteq> []
    \<and> foldl (\<lambda>a c. a * 10 + digitVal c) 0 (itoa n) = int n"
proof (induction n rule: itoa.induct)
  case (1 n)
  show ?case
  proof (cases "n < 10")
    case True
    then show ?thesis by (simp add: itoa_digit digit_char)
  next
    case False
    with "1" show ?thesis by (simp add: itoa_step digit_char zmod_int zdiv_int)
  qed
qed

lemma isDigit_not_special: "isDigit c \<Longrightarrow> c \<noteq> CHR ''_'' \<and> c \<noteq> CHR ''.'' \<and> c \<noteq> CHR ''+'' \<and> c \<noteq> CHR ''-''"
  by (auto simp: isDigit_def less_eq_char_def)

lemma scanMant_digits:
  "list_all isDigit s \<Longrightarrow>
    scanMant b s False dig m 0 = (dig \<or> s \<noteq> [], foldl (\<lambda>a c. a * b + digitVal c) m s, 0, [])"
  by (induction s arbitrary: dig m) (auto simp: isDigit_not_special)

lemma lowerChar_digit: "isDigit c \<Longrightarrow> lowerChar c = c"
  by (auto simp: isDigit_def lowerChar_def less_eq_char_def)

lemma digits_not_hex: "list_all isDigit s \<Longrightarrow> \<not> isHexPrefixed s"
  by (auto simp: isHexPrefixed_def lowerChar_digit isDigit_def split: list.splits)

lemma digits_not_special:
  assumes "list_all isDigit s"
  shows "special s = None"
proof -
  have "toLower s = s" using assms by (induction s) (auto simp: toLower_def lowerChar_digit)
  moreover have "s \<noteq> t" if "t \<in> set [''inf'', ''+inf'', ''infinity'', ''+infinity'', ''-inf'', ''-infinity'', ''nan'']" for t
    using assms that by (auto simp: isDigit_def less_eq_char_def)
  ultimately show ?thesis by (simp add: special_def)
qed

lemma readFloat_digits:
  assumes "list_all isDigit s" and "s \<noteq> []"
  shows "readFloat s = Some (round64 False (foldl (\<lambda>a c. a * 10 + digitVal c) 0 s) 1)"
proof -
  obtain c r where s: "s = c # r" using assms(2) by (cases s) auto
  have c: "c \<noteq> CHR ''+''" "c \<noteq> CHR ''-''" and u: "CHR ''_'' \<notin> set s"
    using assms s isDigit_not_special by (auto simp: list_all_iff)
  have "dropSign s = s" using c s by (simp add: dropSign_def)
  with assms c u show ?thesis
    by (simp add: readFloat_def digits_not_hex scanMant_digits Let_def) (simp add: s)
qed

lemma zdiv_le_self: "0 \<le> (a::int) \<Longrightarrow> 0 < b \<Longrightarrow> a div b \<le> a"
  using zdiv_mono2 [of a 1 b] by simp

text \<open>A 64-bit counter never rounds to an infinity.\<close>

lemma round64_finite:
  assumes "0 \<le> n" and "n < 2 ^ 64"
  shows "\<exists>m e. round64 neg n 1 = Fin neg m e"
proof (cases "n = 0")
  case True
  then show ?thesis by (simp add: round64_def)
next
  case False
  with assms have n: "0 < n" by simp
  have b: "bitlen n \<le> 64" using assms bitlen_le [of n 64] by simp
  let ?e = "max (floorLog2 n 1 - 52) (- 1074)"
  have e: "?e = bitlen n - 53" using n bitlen_pos [of n] by (simp add: floorLog2_1)
  let ?m = "rne (n * pow 2 (- ?e)) (1 * pow 2 ?e)"
  have "?m < 2 ^ 128"
  proof -
    have "?m \<le> n * pow 2 (- ?e) div pow 2 ?e + 1" by (simp add: rne_def Let_def)
    also have "n * pow 2 (- ?e) div pow 2 ?e \<le> n * pow 2 (- ?e)"
      using n by (intro zdiv_le_self) (simp_all add: pow_def)
    also have "n * pow 2 (- ?e) \<le> 2 ^ 64 * 2 ^ 53"
      using assms b n unfolding e pow_def
      by (intro mult_mono power_increasing) (auto simp: nat_le_iff)
    finally show ?thesis by simp
  qed
  then have "bitlen ?m + ?e \<le> 1024" using b e bitlen_le [of ?m 128] by simp
  then show ?thesis using n by (simp add: round64_def mkFin_def Let_def split: prod.splits)
qed

lemma ParseFloat_itoa:
  assumes "n < 2 ^ 64"
  shows "ParseFloat (itoa n) = Some (f64_of_int (int n))"
proof -
  obtain m e where "round64 False (int n) 1 = Fin False m e"
    using round64_finite [of "int n" False] assms by auto
  then show ?thesis using itoa_digits [of n]
    by (simp add: ParseFloat_def digits_not_special readFloat_digits f64_of_int_def)
qed

end
