(* ===== verification/GoConv.thy ===== *)
theory GoConv
  imports GoFloat
begin

text \<open>
  The rest of the standard library's conversions the program calls: \<^verbatim>\<open>strconv.Atoi\<close>,
  \<^verbatim>\<open>strconv.ParseBool\<close>, \<^verbatim>\<open>time.ParseDuration\<close>, and the times and durations of package
  \<^verbatim>\<open>time\<close>. \<open>None\<close> is a non-nil error. A \<^verbatim>\<open>time.Time\<close> is its number of nanoseconds since the
  zero Time, so \<^verbatim>\<open>IsZero\<close> is equality with 0; a \<^verbatim>\<open>time.Duration\<close> is an int64 of nanoseconds.
\<close>

subsection \<open>Atoi and ParseBool\<close>

definition maxInt64 :: int where "maxInt64 = 9223372036854775807"
definition minInt64 :: int where "minInt64 = - 9223372036854775808"

definition decimal :: "string \<Rightarrow> int" where
  "decimal s = foldl (\<lambda>a c. a * 10 + digitVal c) 0 s"

definition Atoi :: "string \<Rightarrow> int option" where
  "Atoi s =
     (let neg = (s \<noteq> [] \<and> hd s = CHR ''-''); t = dropSign s
      in if t = [] \<or> \<not> list_all isDigit t then None
         else let v = (if neg then - decimal t else decimal t)
              in if minInt64 \<le> v \<and> v \<le> maxInt64 then Some v else None)"

definition ParseBool :: "string \<Rightarrow> bool option" where
  "ParseBool s =
     (if s \<in> set [''1'', ''t'', ''T'', ''TRUE'', ''true'', ''True''] then Some True
      else if s \<in> set [''0'', ''f'', ''F'', ''FALSE'', ''false'', ''False''] then Some False
      else None)"

subsection \<open>Durations\<close>

type_synonym duration = int
type_synonym gotime = int

abbreviation second :: duration where "second \<equiv> 1000000000"
abbreviation minute :: duration where "minute \<equiv> 60000000000"

definition unitMap :: "(string \<times> int) list" where
  "unitMap =
     [(''ns'', 1), (''us'', 1000), ([CHR 0xC2, CHR 0xB5, CHR ''s''], 1000),
      ([CHR 0xCE, CHR 0xBC, CHR ''s''], 1000), (''ms'', 1000000), (''s'', second),
      (''m'', minute), (''h'', 3600000000000)]"

definition pow63 :: int where "pow63 = 9223372036854775808"

text \<open>\<^verbatim>\<open>leadingInt\<close>: \<open>None\<close> when the digits pass \<open>2 ^ 63\<close>.\<close>

fun leadingInt :: "string \<Rightarrow> int \<Rightarrow> (int \<times> string) option" where
  "leadingInt [] x = Some (x, [])"
| "leadingInt (c # s) x =
     (if isDigit c then
        (if x > pow63 div 10 then None
         else let y = x * 10 + digitVal c in if y > pow63 then None else leadingInt s y)
      else Some (x, c # s))"

text \<open>\<^verbatim>\<open>leadingFraction\<close>: digits beyond the width are consumed and dropped.\<close>

fun leadingFraction :: "string \<Rightarrow> bool \<Rightarrow> int \<Rightarrow> f64 \<Rightarrow> int \<times> f64 \<times> string" where
  "leadingFraction [] ovf x scale = (x, scale, [])"
| "leadingFraction (c # s) ovf x scale =
     (if isDigit c then
        (if ovf then leadingFraction s ovf x scale
         else if x > maxInt64 div 10 then leadingFraction s True x scale
         else let y = x * 10 + digitVal c
              in if y > pow63 then leadingFraction s True x scale
                 else leadingFraction s False y (f64_mul scale (f64_of_int 10)))
      else (x, scale, c # s))"

definition isUnitChar :: "char \<Rightarrow> bool" where
  "isUnitChar c = (c \<noteq> CHR ''.'' \<and> \<not> isDigit c)"

text \<open>One number with its unit: the nanoseconds it adds and the rest of the string.\<close>

definition durationItem :: "string \<Rightarrow> (int \<times> string) option" where
  "durationItem s =
     (case leadingInt s 0 of
        None \<Rightarrow> None
      | Some (v, s1) \<Rightarrow>
          let pre = (s1 \<noteq> s);
              dot = (s1 \<noteq> [] \<and> hd s1 = CHR ''.'');
              (f, scale, s2) = (if dot then leadingFraction (tl s1) False 0 f64_1 else (0, f64_1, s1));
              post = (dot \<and> s2 \<noteq> tl s1);
              u = takeWhile isUnitChar s2; s3 = dropWhile isUnitChar s2
          in if \<not> pre \<and> \<not> post then None
             else if u = [] then None
             else case map_of unitMap u of
                    None \<Rightarrow> None
                  | Some unit \<Rightarrow>
                      if v > pow63 div unit then None
                      else let w = v * unit + (if f > 0 then f64_trunc (f64_mul (f64_of_int f)
                                                 (f64_div (f64_of_int unit) scale)) else 0)
                           in if w > pow63 then None else Some (w, s3))"

lemma leadingInt_length: "leadingInt s x = Some (y, r) \<Longrightarrow> length r \<le> length s"
  by (induction s x rule: leadingInt.induct) (auto simp: Let_def split: if_splits)

lemma leadingFraction_length:
  "leadingFraction s ovf x sc = (y, sc', r) \<Longrightarrow> length r \<le> length s"
  by (induction s ovf x sc rule: leadingFraction.induct) (auto simp: Let_def split: if_splits)

lemma durationItem_shorter:
  assumes "durationItem s = Some (w, r)"
  shows "length r < length s"
proof -
  obtain v s1 where s1: "leadingInt s 0 = Some (v, s1)"
    using assms by (auto simp: durationItem_def split: option.splits)
  obtain f sc s2 where s2: "(if s1 \<noteq> [] \<and> hd s1 = CHR ''.'' then leadingFraction (tl s1) False 0 f64_1
      else (0, f64_1, s1)) = (f, sc, s2)"
    by (cases "if s1 \<noteq> [] \<and> hd s1 = CHR ''.'' then leadingFraction (tl s1) False 0 f64_1
      else (0, f64_1, s1)") auto
  have "length s2 \<le> length s1"
    using s2 by (cases s1) (auto split: if_splits dest!: leadingFraction_length)
  moreover have "length s1 \<le> length s" using s1 by (rule leadingInt_length)
  moreover have "takeWhile isUnitChar s2 \<noteq> []" and r: "r = dropWhile isUnitChar s2"
    using assms s1 s2 by (auto simp: durationItem_def Let_def split: option.splits if_splits)
  then have "length r < length s2"
    by (cases s2) (auto simp: le_imp_less_Suc length_dropWhile_le split: if_splits)
  ultimately show ?thesis by linarith
qed

function durationSum :: "string \<Rightarrow> int \<Rightarrow> int option" where
  "durationSum s d =
     (if s = [] then Some d
      else case durationItem s of
             None \<Rightarrow> None
           | Some (w, r) \<Rightarrow> let d' = (d + w) mod (2 * pow63) in if d' > pow63 then None else durationSum r d')"
  by pat_completeness auto
termination
  by (relation "measure (\<lambda>(s, d). length s)") (auto dest: durationItem_shorter)

declare durationSum.simps [simp del]

definition ParseDuration :: "string \<Rightarrow> duration option" where
  "ParseDuration s =
     (let neg = (s \<noteq> [] \<and> hd s = CHR ''-''); t = dropSign s
      in if t = ''0'' then Some 0
         else if t = [] then None
         else case durationSum t 0 of
                None \<Rightarrow> None
              | Some d \<Rightarrow> if neg then Some (- d)
                          else if d > maxInt64 then None else Some d)"

subsection \<open>Times\<close>

text \<open>\<^verbatim>\<open>t.Sub(u)\<close>, which saturates at the int64 bounds; \<^verbatim>\<open>time.Since(u)\<close> is \<open>timeSub now u\<close>.\<close>

definition timeSub :: "gotime \<Rightarrow> gotime \<Rightarrow> duration" where
  "timeSub t u = max minInt64 (min maxInt64 (t - u))"

text \<open>\<^verbatim>\<open>d.Seconds()\<close>: whole seconds plus the remaining nanoseconds, both truncated towards zero.\<close>

definition durSeconds :: "duration \<Rightarrow> f64" where
  "durSeconds d =
     (let q = sgn d * (\<bar>d\<bar> div second); r = sgn d * (\<bar>d\<bar> mod second)
      in f64_add (f64_of_int q) (f64_div (f64_of_int r) (f64_of_int second)))"

lemma timeSub_mono: "t \<le> t' \<Longrightarrow> timeSub t u \<le> timeSub t' u"
  unfolding timeSub_def by (intro max.mono min.mono) auto

end
