(* ===== verification/GoTime.thy ===== *)
theory GoTime
  imports GoConv
begin

text \<open>
  \<^verbatim>\<open>time.Parse("Mon Jan 02 15:04:05 2006", value)\<close> of the Go library, chunk by chunk: the
  weekday is only checked to be one, names match up to case, spaces match runs of spaces, the hour
  may have one digit, a fraction of a second may follow the seconds, and the date must exist. The
  result is \<^verbatim>\<open>Unix()\<close> of the time, which is in UTC as the layout has no zone.
\<close>

definition cutspace :: "string \<Rightarrow> string" where
  "cutspace s = dropWhile (\<lambda>c. c = CHR '' '') s"

text \<open>\<^verbatim>\<open>skip\<close> of the two prefixes the layout has, a space and a colon.\<close>

definition skipSpace :: "string \<Rightarrow> string option" where
  "skipSpace s = (if s \<noteq> [] \<and> hd s \<noteq> CHR '' '' then None else Some (cutspace s))"

definition skipColon :: "string \<Rightarrow> string option" where
  "skipColon s = (if s = [] \<or> hd s \<noteq> CHR '':'' then None else Some (tl s))"

text \<open>\<^verbatim>\<open>lookup\<close>: the index of the first name at the front of the text, up to the case of letters.\<close>

primrec lookupName :: "nat \<Rightarrow> string list \<Rightarrow> string \<Rightarrow> (nat \<times> string) option" where
  "lookupName i [] s = None"
| "lookupName i (name # names) s =
     (if length name \<le> length s \<and> equalFold (take (length name) s) name then Some (i, drop (length name) s)
      else lookupName (Suc i) names s)"

definition shortDayNames :: "string list" where
  "shortDayNames = [''Sun'', ''Mon'', ''Tue'', ''Wed'', ''Thu'', ''Fri'', ''Sat'']"

definition shortMonthNames :: "string list" where
  "shortMonthNames =
     [''Jan'', ''Feb'', ''Mar'', ''Apr'', ''May'', ''Jun'', ''Jul'', ''Aug'', ''Sep'', ''Oct'', ''Nov'', ''Dec'']"

definition getnum :: "bool \<Rightarrow> string \<Rightarrow> (int \<times> string) option" where
  "getnum fixed s =
     (case s of
        [] \<Rightarrow> None
      | a # t \<Rightarrow>
          if \<not> isDigit a then None
          else (case t of
                  b # u \<Rightarrow> if isDigit b then Some (digitVal a * 10 + digitVal b, u)
                           else if fixed then None else Some (digitVal a, t)
                | [] \<Rightarrow> if fixed then None else Some (digitVal a, t)))"

definition dropFraction :: "string \<Rightarrow> string" where
  "dropFraction s =
     (if 2 \<le> length s \<and> hd s \<in> {CHR ''.'', CHR '',''} \<and> isDigit (s ! 1) then dropWhile isDigit (tl s) else s)"

definition longYear :: "string \<Rightarrow> (int \<times> string) option" where
  "longYear s =
     (if 4 \<le> length s \<and> list_all isDigit (take 4 s)
      then Some (fold (\<lambda>c n. 10 * n + digitVal c) (take 4 s) 0, drop 4 s) else None)"

definition leapYear :: "int \<Rightarrow> bool" where
  "leapYear y = (y mod 4 = 0 \<and> (y mod 100 \<noteq> 0 \<or> y mod 400 = 0))"

definition daysIn :: "nat \<Rightarrow> int \<Rightarrow> int" where
  "daysIn m y = (if m = 2 \<and> leapYear y then 29
     else [31, 28, 31, 30, 31, 30, 31, 31, 30, 31, 30, 31] ! (m - 1))"

text \<open>Days and seconds since the first of January 1970 in the proleptic Gregorian calendar.\<close>

definition unixDays :: "int \<Rightarrow> nat \<Rightarrow> int \<Rightarrow> int" where
  "unixDays y m d =
     365 * (y - 1) + (y - 1) div 4 - (y - 1) div 100 + (y - 1) div 400
       + sum_list (map (\<lambda>k. daysIn k y) [1..<m]) + (d - 1) - 719162"

definition unixSeconds :: "int \<Rightarrow> nat \<Rightarrow> int \<Rightarrow> int \<Rightarrow> int \<Rightarrow> int \<Rightarrow> int" where
  "unixSeconds y m d h mi sec = 86400 * unixDays y m d + 3600 * h + 60 * mi + sec"

definition obind :: "'a option \<Rightarrow> ('a \<Rightarrow> 'b option) \<Rightarrow> 'b option" where
  "obind x f = (case x of None \<Rightarrow> None | Some y \<Rightarrow> f y)"

definition parseEventLayout :: "string \<Rightarrow> int option" where
  "parseEventLayout s =
     obind (lookupName 0 shortDayNames s) (\<lambda>(_, s).
     obind (skipSpace s) (\<lambda>s. obind (lookupName 1 shortMonthNames s) (\<lambda>(month, s).
     obind (skipSpace s) (\<lambda>s. obind (getnum True s) (\<lambda>(day, s).
     obind (skipSpace s) (\<lambda>s. obind (getnum False s) (\<lambda>(hh, s).
     if 24 \<le> hh then None else
     obind (skipColon s) (\<lambda>s. obind (getnum True s) (\<lambda>(mm, s).
     if 60 \<le> mm then None else
     obind (skipColon s) (\<lambda>s. obind (getnum True s) (\<lambda>(sec, s).
     if 60 \<le> sec then None else
     obind (skipSpace (dropFraction s)) (\<lambda>s. obind (longYear s) (\<lambda>(year, s).
     if s \<noteq> [] \<or> day < 1 \<or> daysIn month year < day then None
     else Some (unixSeconds year month day hh mm sec))))))))))))))"


subsection \<open>Times in the layout are read back\<close>

definition twoDigits :: "nat \<Rightarrow> string" where
  "twoDigits n = [char_of (n div 10 + 48), char_of (n mod 10 + 48)]"

definition eventText :: "nat \<Rightarrow> nat \<Rightarrow> nat \<Rightarrow> nat \<Rightarrow> nat \<Rightarrow> nat \<Rightarrow> nat \<Rightarrow> string" where
  "eventText weekday year month day hh mm ss =
     shortDayNames ! weekday @ '' '' @ shortMonthNames ! (month - 1) @ '' '' @ twoDigits day @ '' '' @
     twoDigits hh @ '':'' @ twoDigits mm @ '':'' @ twoDigits ss @ '' '' @
     twoDigits (year div 100) @ twoDigits (year mod 100)"

lemma digit_not_space: "isDigit c \<Longrightarrow> c \<noteq> CHR '' ''"
  by (auto simp: isDigit_def less_eq_char_def)

lemma two_digits:
  "n < 100 \<Longrightarrow> isDigit (char_of (n div 10 + 48 :: nat)) \<and> isDigit (char_of (n mod 10 + 48 :: nat)) \<and>
    digitVal (char_of (n div 10 + 48)) * 10 + digitVal (char_of (n mod 10 + 48)) = int n"
proof -
  assume "n < 100"
  then have "n div 10 < 10" "n mod 10 < 10" by auto
  moreover have "int (n div 10) * 10 + int (n mod 10) = int n"
    by (metis div_mult_mod_eq of_nat_add of_nat_mult of_nat_numeral)
  ultimately show ?thesis using digit_char [of "n div 10"] digit_char [of "n mod 10"] by simp
qed

lemma getnum_two: "n < 100 \<Longrightarrow> getnum fixed (twoDigits n @ s) = Some (int n, s)"
  using two_digits [of n] by (simp add: getnum_def twoDigits_def)

lemma longYear_four: "y < 10000 \<Longrightarrow> longYear (twoDigits (y div 100) @ twoDigits (y mod 100)) = Some (int y, [])"
proof -
  assume "y < 10000"
  then have "y div 100 < 100" "y mod 100 < 100" by auto
  note digits = two_digits [OF this(1)] two_digits [OF this(2)]
  have "int (y div 100) * 100 + int (y mod 100) = int y"
    by (metis div_mult_mod_eq of_nat_add of_nat_mult of_nat_numeral)
  with digits show ?thesis
    unfolding longYear_def twoDigits_def by simp
qed

lemma month_cases: "1 \<le> m \<Longrightarrow> m \<le> 12 \<Longrightarrow> m \<in> {1,2,3,4,5,6,7,8,9,10,11,12 :: nat}"
  unfolding insert_iff empty_iff by presburger

lemma lookupName_append:
  "list_all (\<lambda>name. length name = length x) names \<Longrightarrow>
    lookupName i names (x @ s) = map_option (\<lambda>(k, r). (k, r @ s)) (lookupName i names x)"
  by (induction names arbitrary: i) auto

lemma lookup_day:
  assumes "w < 7"
  shows "lookupName 0 shortDayNames (shortDayNames ! w @ s) = Some (w, s)"
proof -
  have "list_all (\<lambda>w. lookupName 0 shortDayNames (shortDayNames ! w) = Some (w, []) \<and> length (shortDayNames ! w) = 3) [0..<7]"
    and len: "list_all (\<lambda>name. length name = 3) shortDayNames"
    by code_simp+
  then have "lookupName 0 shortDayNames (shortDayNames ! w) = Some (w, [])" "length (shortDayNames ! w) = 3"
    using assms by (simp_all add: list_all_iff)
  then show ?thesis using lookupName_append [of "shortDayNames ! w" shortDayNames] len by simp
qed

lemma lookup_month:
  assumes "1 \<le> m" "m \<le> 12"
  shows "lookupName 1 shortMonthNames (shortMonthNames ! (m - 1) @ s) = Some (m, s)"
proof -
  have "list_all (\<lambda>m. lookupName 1 shortMonthNames (shortMonthNames ! (m - 1)) = Some (m, []) \<and>
      length (shortMonthNames ! (m - 1)) = 3) [1..<13]"
    and len: "list_all (\<lambda>name. length name = 3) shortMonthNames"
    by code_simp+
  then have "lookupName 1 shortMonthNames (shortMonthNames ! (m - 1)) = Some (m, [])" "length (shortMonthNames ! (m - 1)) = 3"
    using assms by (simp_all add: list_all_iff)
  then show ?thesis using lookupName_append [of "shortMonthNames ! (m - 1)" shortMonthNames] len by simp
qed

lemma skip_names:
  "w < 7 \<Longrightarrow> cutspace (shortDayNames ! w @ s) = shortDayNames ! w @ s"
  "1 \<le> m \<Longrightarrow> m \<le> 12 \<Longrightarrow> cutspace (shortMonthNames ! (m - 1) @ s) = shortMonthNames ! (m - 1) @ s"
proof -
  show "cutspace (shortDayNames ! w @ s) = shortDayNames ! w @ s" if "w < 7"
  proof -
    from that have "w \<in> {0,1,2,3,4,5,6}" by auto
    then show ?thesis by (auto simp: shortDayNames_def cutspace_def)
  qed
  show "cutspace (shortMonthNames ! (m - 1) @ s) = shortMonthNames ! (m - 1) @ s" if "1 \<le> m" "m \<le> 12"
  proof -
    from that have "m \<in> {1,2,3,4,5,6,7,8,9,10,11,12}" by (rule month_cases)
    then show ?thesis by (auto simp: shortMonthNames_def cutspace_def)
  qed
qed

lemma cutspace_two: "n < 100 \<Longrightarrow> cutspace (twoDigits n @ s) = twoDigits n @ s"
  using two_digits [of n] digit_not_space [of "char_of (n div 10 + 48)"] by (simp add: cutspace_def twoDigits_def)

lemma daysIn_less: "1 \<le> m \<Longrightarrow> m \<le> 12 \<Longrightarrow> daysIn m y < 100"
proof -
  assume "1 \<le> m" "m \<le> 12"
  then have "m \<in> {1,2,3,4,5,6,7,8,9,10,11,12}" by (rule month_cases)
  then show ?thesis by (auto simp: daysIn_def)
qed

lemma parseEventLayout_text:
  assumes "weekday < 7" "year < 10000" "1 \<le> month" "month \<le> 12" "1 \<le> day" "int day \<le> daysIn month (int year)"
    "hh < 24" "mm < 60" "ss < 60"
  shows "parseEventLayout (eventText weekday year month day hh mm ss) =
    Some (unixSeconds (int year) month (int day) (int hh) (int mm) (int ss))"
proof -
  have "day < 100" "year div 100 < 100"
    using assms(2,6) daysIn_less [OF assms(3,4), of "int year"] by auto
  moreover have "skipSpace (CHR '' '' # s) = Some (cutspace s)" "skipColon (CHR '':'' # s) = Some s"
    "dropFraction (CHR '' '' # s) = CHR '' '' # s" for s
    by (simp_all add: skipSpace_def skipColon_def dropFraction_def cutspace_def)
  ultimately show ?thesis
    using assms
    by (simp add: parseEventLayout_def eventText_def obind_def lookup_day lookup_month [simplified] skip_names [simplified] cutspace_two
        getnum_two longYear_four)
qed

end
