(* ===== verification/GoMatch.thy ===== *)
theory GoMatch
  imports GoStrings
begin

text \<open>
  Go's \<^verbatim>\<open>path.Match\<close>, the standard library's glob matcher, statement by statement
  (\<^verbatim>\<open>scanChunk\<close>, \<^verbatim>\<open>matchChunk\<close>, \<^verbatim>\<open>getEsc\<close>, \<^verbatim>\<open>Match\<close>), with the UTF-8 decoding of
  \<^verbatim>\<open>?\<close> and of character classes, and its equivalence with a backtracking specification
  \<open>glob\<close> on the patterns of \<^verbatim>\<open>*\<close>, \<^verbatim>\<open>?\<close> and literals. \<open>None\<close> is \<^verbatim>\<open>ErrBadPattern\<close>.
\<close>

subsection \<open>UTF-8\<close>

definition byte :: "char \<Rightarrow> int" where "byte c = of_char c"

definition isCont :: "char \<Rightarrow> bool" where "isCont c = (128 \<le> byte c \<and> byte c \<le> 191)"

definition runeError :: int where "runeError = 65533"

text \<open>\<^verbatim>\<open>utf8.DecodeRuneInString\<close>: the rune and the number of bytes it takes.\<close>

fun decodeRune :: "string \<Rightarrow> int \<times> nat" where
  "decodeRune [] = (runeError, 0)"
| "decodeRune (a # s) =
     (let x = byte a in
      if x < 128 then (x, 1)
      else if 194 \<le> x \<and> x \<le> 223 then
        (case s of b # _ \<Rightarrow> if isCont b then ((x - 192) * 64 + (byte b - 128), 2) else (runeError, 1)
         | _ \<Rightarrow> (runeError, 1))
      else if 224 \<le> x \<and> x \<le> 239 then
        (case s of b # c # _ \<Rightarrow>
             if isCont b \<and> isCont c \<and> (x = 224 \<longrightarrow> 160 \<le> byte b) \<and> (x = 237 \<longrightarrow> byte b \<le> 159)
             then ((x - 224) * 4096 + (byte b - 128) * 64 + (byte c - 128), 3) else (runeError, 1)
         | _ \<Rightarrow> (runeError, 1))
      else if 240 \<le> x \<and> x \<le> 244 then
        (case s of b # c # d # _ \<Rightarrow>
             if isCont b \<and> isCont c \<and> isCont d \<and> (x = 240 \<longrightarrow> 144 \<le> byte b) \<and> (x = 244 \<longrightarrow> byte b \<le> 143)
             then ((x - 240) * 262144 + (byte b - 128) * 4096 + (byte c - 128) * 64 + (byte d - 128), 4)
             else (runeError, 1)
         | _ \<Rightarrow> (runeError, 1))
      else (runeError, 1))"

lemma decodeRune_pos: "s \<noteq> [] \<Longrightarrow> 0 < snd (decodeRune s)"
  by (cases s) (auto simp: Let_def split: list.splits)

lemma decodeRune_ascii: "byte a < 128 \<Longrightarrow> decodeRune (a # s) = (byte a, 1)"
  by simp

declare decodeRune.simps [simp del]

subsection \<open>Chunks\<close>

text \<open>The end of the first chunk after the leading stars.\<close>

fun scanEnd :: "bool \<Rightarrow> string \<Rightarrow> string \<times> string" where
  "scanEnd inr [] = ([], [])"
| "scanEnd inr (c # p) =
     (if c = CHR 0x5C then
        (case p of [] \<Rightarrow> ([c], [])
         | d # q \<Rightarrow> (case scanEnd inr q of (ch, rest) \<Rightarrow> (c # d # ch, rest)))
      else if c = CHR ''['' then (case scanEnd True p of (ch, rest) \<Rightarrow> (c # ch, rest))
      else if c = CHR '']'' then (case scanEnd False p of (ch, rest) \<Rightarrow> (c # ch, rest))
      else if c = CHR ''*'' \<and> \<not> inr then ([], c # p)
      else (case scanEnd inr p of (ch, rest) \<Rightarrow> (c # ch, rest)))"

definition scanChunk :: "string \<Rightarrow> bool \<times> string \<times> string" where
  "scanChunk p = (p \<noteq> [] \<and> hd p = CHR ''*'', scanEnd False (dropWhile (\<lambda>c. c = CHR ''*'') p))"

definition getEsc :: "string \<Rightarrow> (int \<times> string) option" where
  "getEsc chunk =
     (if chunk = [] \<or> hd chunk = CHR ''-'' \<or> hd chunk = CHR '']'' then None
      else let ch = (if hd chunk = CHR 0x5C then tl chunk else chunk)
           in if ch = [] then None
              else case decodeRune ch of (r, n) \<Rightarrow>
                if r = runeError \<and> n = 1 \<or> drop n ch = [] then None else Some (r, drop n ch))"

lemma getEsc_shorter: "getEsc ch = Some (r, ch') \<Longrightarrow> length ch' < length ch"
proof -
  assume a: "getEsc ch = Some (r, ch')"
  then obtain n where n: "decodeRune (if hd ch = CHR 0x5C then tl ch else ch) = (r, n)"
    and ch': "ch' = drop n (if hd ch = CHR 0x5C then tl ch else ch)"
    and ne: "(if hd ch = CHR 0x5C then tl ch else ch) \<noteq> []"
    by (auto simp: getEsc_def Let_def split: if_splits prod.splits)
  from n ne decodeRune_pos [of "if hd ch = CHR 0x5C then tl ch else ch"] have "0 < n" by simp
  moreover have "length (if hd ch = CHR 0x5C then tl ch else ch) \<le> length ch" by simp
  moreover have "0 < length (if hd ch = CHR 0x5C then tl ch else ch)" using ne by blast
  ultimately show ?thesis unfolding ch' length_drop by linarith
qed

text \<open>The ranges of a class up to its bracket: whether \<open>r\<close> is in one of them, and the rest.\<close>

function matchRanges :: "string \<Rightarrow> int \<Rightarrow> bool \<Rightarrow> nat \<Rightarrow> (bool \<times> string) option" where
  "matchRanges chunk r m nrange =
     (if chunk \<noteq> [] \<and> hd chunk = CHR '']'' \<and> nrange > 0 then Some (m, tl chunk)
      else case getEsc chunk of
             None \<Rightarrow> None
           | Some (lo, ch1) \<Rightarrow>
               if hd ch1 = CHR ''-'' then
                 (case getEsc (tl ch1) of
                    None \<Rightarrow> None
                  | Some (hi, ch2) \<Rightarrow> matchRanges ch2 r (m \<or> lo \<le> r \<and> r \<le> hi) (nrange + 1))
               else matchRanges ch1 r (m \<or> lo \<le> r \<and> r \<le> lo) (nrange + 1))"
  by pat_completeness auto
termination
proof (relation "measure (\<lambda>(ch, _). length ch)", goal_cases)
  case 1
  then show ?case by simp
next
  case (2 chunk r m n x lo ch1 y hi ch2)
  then have "length ch1 < length chunk" and "length ch2 < length (tl ch1)"
    by (auto dest: getEsc_shorter)
  then show ?case by simp
next
  case (3 chunk r m n x lo ch1)
  then show ?case by (auto dest: getEsc_shorter)
qed

declare matchRanges.simps [simp del]

lemma matchRanges_le: "matchRanges ch r m n = Some (b, ch') \<Longrightarrow> length ch' \<le> length ch"
proof (induction ch r m n rule: matchRanges.induct)
  case (1 ch r m n)
  show ?case
  proof (cases "ch \<noteq> [] \<and> hd ch = CHR '']'' \<and> n > 0")
    case True
    with "1.prems" show ?thesis by (subst (asm) matchRanges.simps) auto
  next
    case False
    with "1.prems" obtain lo ch1 where e: "getEsc ch = Some (lo, ch1)"
      by (subst (asm) matchRanges.simps) (auto split: option.splits)
    show ?thesis
    proof (cases "hd ch1 = CHR ''-''")
      case True
      with "1.prems" False e obtain hi ch2 where e2: "getEsc (tl ch1) = Some (hi, ch2)"
        and m: "matchRanges ch2 r (m \<or> lo \<le> r \<and> r \<le> hi) (n + 1) = Some (b, ch')"
        by (subst (asm) matchRanges.simps) (auto split: option.splits)
      then have "length ch' \<le> length ch2" using "1.IH"(1) False e True by blast
      with e e2 show ?thesis by (auto dest!: getEsc_shorter)
    next
      case no: False
      with "1.prems" False e have "matchRanges ch1 r (m \<or> lo \<le> r \<and> r \<le> lo) (n + 1) = Some (b, ch')"
        by (subst (asm) matchRanges.simps) auto
      then have "length ch' \<le> length ch1" using "1.IH"(2) False e no by blast
      with e show ?thesis by (auto dest!: getEsc_shorter)
    qed
  qed
qed

text \<open>
  \<^verbatim>\<open>matchChunk\<close>: \<open>Some (Some rest)\<close> when the chunk matches the front of \<open>s\<close>, \<open>Some None\<close> when
  it does not; after a mismatch the chunk is still read to its end, to find a bad pattern.
\<close>

definition dropCaret :: "string \<Rightarrow> bool \<times> string" where
  "dropCaret ch = (if ch \<noteq> [] \<and> hd ch = CHR ''^'' then (True, tl ch) else (False, ch))"

function matchChunk :: "string \<Rightarrow> string \<Rightarrow> bool \<Rightarrow> string option option" where
  "matchChunk [] s failed = Some (if failed then None else Some s)"
| "matchChunk (c # ch) s failed0 =
     (let failed = (failed0 \<or> s = []) in
      if c = CHR ''['' then
        (let (r, s') = (if failed then (0, s)
                        else case decodeRune s of (r, n) \<Rightarrow> (r, drop n s));
             (negated, ch1) = dropCaret ch
         in case matchRanges ch1 r False 0 of
              None \<Rightarrow> None
            | Some (m, ch2) \<Rightarrow> matchChunk ch2 s' (failed \<or> m = negated))
      else if c = CHR ''?'' then
        (if failed then matchChunk ch s True
         else matchChunk ch (drop (snd (decodeRune s)) s) (hd s = CHR ''/''))
      else if c = CHR 0x5C then
        (case ch of
           [] \<Rightarrow> None
         | d # ch' \<Rightarrow> if failed then matchChunk ch' s True else matchChunk ch' (tl s) (d \<noteq> hd s))
      else if failed then matchChunk ch s True else matchChunk ch (tl s) (c \<noteq> hd s))"
  by pat_completeness auto
termination
  by (relation "measure (\<lambda>(ch, _). length ch)")
     (auto dest!: matchRanges_le simp: dropCaret_def split: if_splits)

declare matchChunk.simps(2) [simp del]

text \<open>The loop that skips bytes under a star, never past a slash.\<close>

fun starSkip :: "string \<Rightarrow> bool \<Rightarrow> string \<Rightarrow> string option option" where
  "starSkip chunk final [] = Some None"
| "starSkip chunk final (c # name) =
     (if c = CHR ''/'' then Some None
      else case matchChunk chunk name False of
             None \<Rightarrow> None
           | Some None \<Rightarrow> starSkip chunk final name
           | Some (Some t) \<Rightarrow> if final \<and> t \<noteq> [] then starSkip chunk final name else Some (Some t))"

lemma scanEnd_split: "fst (scanEnd inr p) @ snd (scanEnd inr p) = p"
proof (induction inr p rule: scanEnd.induct)
  case (2 inr c p)
  then show ?case
    by (cases p) (simp_all add: case_prod_beta)
qed simp

lemma scanEnd_le: "scanEnd inr p = (ch, rest) \<Longrightarrow> p = ch @ rest"
  using scanEnd_split [of inr p] by simp

declare scanEnd.simps(2) [simp del]

lemma scanEnd_consumes: "p \<noteq> [] \<Longrightarrow> hd p \<noteq> CHR ''*'' \<Longrightarrow> fst (scanEnd False p) \<noteq> []"
  by (cases p) (simp_all add: scanEnd.simps(2) case_prod_beta split: list.split)

lemma scanChunk_shorter:
  assumes "scanChunk p = (star, ch, rest)" and "p \<noteq> []"
  shows "length rest < length p"
proof -
  let ?q = "dropWhile (\<lambda>c. c = CHR ''*'') p"
  have e: "scanEnd False ?q = (ch, rest)" using assms(1) by (auto simp: scanChunk_def)
  have le: "length ?q \<le> length p" by (rule length_dropWhile_le)
  show ?thesis
  proof (cases "hd p = CHR ''*''")
    case True
    with assms(2) have "length ?q < length p"
      by (cases p) (auto simp: length_dropWhile_le le_imp_less_Suc)
    with scanEnd_le [OF e] show ?thesis by (metis length_append le_add2 order_le_less_trans)
  next
    case False
    with assms(2) have q: "?q = p" by (cases p) auto
    then have "ch \<noteq> []" using scanEnd_consumes [of p] assms(2) False e by simp
    with scanEnd_le [OF e] q show ?thesis by (cases ch) auto
  qed
qed

text \<open>After a mismatch the remaining chunks are still checked for syntax.\<close>

function validTail :: "string \<Rightarrow> bool" where
  "validTail p =
     (if p = [] then True
      else case scanChunk p of (_, ch, rest) \<Rightarrow> matchChunk ch [] False \<noteq> None \<and> validTail rest)"
  by pat_completeness auto
termination
  by (relation "measure length") (auto dest: scanChunk_shorter [OF sym])

declare validTail.simps [simp del]

definition accepted :: "string \<Rightarrow> string option \<Rightarrow> string option" where
  "accepted rest found =
     (case found of None \<Rightarrow> None | Some t \<Rightarrow> if t = [] \<or> rest \<noteq> [] then Some t else None)"

function Match :: "string \<Rightarrow> string \<Rightarrow> bool option" where
  "Match p name =
     (if p = [] then Some (name = [])
      else case scanChunk p of (star, chunk, rest) \<Rightarrow>
        if star \<and> chunk = [] then Some (CHR ''/'' \<notin> set name)
        else case matchChunk chunk name False of
               None \<Rightarrow> None
             | Some found \<Rightarrow>
                 (case accepted rest found of
                    Some t \<Rightarrow> Match rest t
                  | None \<Rightarrow>
                      (case (if star then starSkip chunk (rest = []) name else Some None) of
                         None \<Rightarrow> None
                       | Some (Some t) \<Rightarrow> Match rest t
                       | Some None \<Rightarrow> if validTail rest then Some False else None)))"
  by pat_completeness auto
termination
  by (relation "measure (\<lambda>(p, _). length p)") (auto dest: scanChunk_shorter [OF sym])

declare Match.simps [simp del]

subsection \<open>Equivalence with a backtracking specification\<close>

text \<open>The patterns without classes and escapes, and the names a star may cross byte by byte.\<close>

definition simplePattern :: "string \<Rightarrow> bool" where
  "simplePattern p = list_all (\<lambda>c. c \<noteq> CHR ''['' \<and> c \<noteq> CHR 0x5C) p"

definition plainName :: "string \<Rightarrow> bool" where
  "plainName s = list_all (\<lambda>c. byte c < 128 \<and> c \<noteq> CHR ''/'') s"

fun glob :: "string \<Rightarrow> string \<Rightarrow> bool" where
  "glob [] s = (s = [])"
| "glob (c # p) [] = (c = CHR ''*'' \<and> glob p [])"
| "glob (c # p) (d # s) =
     (if c = CHR ''*'' then glob p (d # s) \<or> glob (c # p) s
      else (c = CHR ''?'' \<or> c = d) \<and> glob p s)"

fun cmatch :: "string \<Rightarrow> string \<Rightarrow> bool" where
  "cmatch [] s = True"
| "cmatch (c # ch) [] = False"
| "cmatch (c # ch) (d # s) = ((c = CHR ''?'' \<or> c = d) \<and> cmatch ch s)"

lemma glob_append:
  "CHR ''*'' \<notin> set ch \<Longrightarrow> glob (ch @ r) s = (cmatch ch s \<and> glob r (drop (length ch) s))"
  by (induction ch s rule: cmatch.induct) auto

lemma glob_star: "glob (CHR ''*'' # p) s = (\<exists>k\<le>length s. glob p (drop k s))"
proof (induction s)
  case Nil
  then show ?case by simp
next
  case (Cons d s)
  have "(\<exists>k\<le>length (d # s). glob p (drop k (d # s))) =
      (glob p (d # s) \<or> (\<exists>k\<le>length s. glob p (drop k s)))"
    by (metis (no_types, lifting) Suc_le_mono drop0 drop_Suc_Cons length_Cons not0_implies_Suc zero_le)
  with Cons show ?case by simp
qed

lemma glob_star_absorb: "glob (CHR ''*'' # p) (drop j s) \<Longrightarrow> glob (CHR ''*'' # p) s"
proof -
  assume "glob (CHR ''*'' # p) (drop j s)"
  then obtain k where k: "k \<le> length (drop j s)" "glob p (drop (k + j) s)"
    by (auto simp: glob_star)
  then have "glob p (drop (min (k + j) (length s)) s)" by (cases "k + j \<le> length s") auto
  then show ?thesis unfolding glob_star by (intro exI [of _ "min (k + j) (length s)"]) simp
qed

lemma glob_stars: "glob (CHR ''*'' # p) s = glob (CHR ''*'' # dropWhile (\<lambda>c. c = CHR ''*'') p) s"
proof (induction p)
  case (Cons c p)
  have "glob (CHR ''*'' # CHR ''*'' # p) s = glob (CHR ''*'' # p) s"
    using glob_star_absorb [of p _ s] by (auto simp: glob_star [of "CHR ''*'' # p"] intro: exI [of _ 0])
  with Cons show ?case by simp
qed simp

lemma glob_all: "glob ''*'' s"
  by (induction s) auto

subsection \<open>The algorithm on simple patterns\<close>

lemma matchChunk_failed: "simplePattern ch \<Longrightarrow> matchChunk ch s True = Some None"
  by (induction ch arbitrary: s) (simp_all add: simplePattern_def matchChunk.simps(2) Let_def)

lemma matchChunk_simple:
  "simplePattern ch \<Longrightarrow> plainName s \<Longrightarrow>
    matchChunk ch s False = Some (if cmatch ch s then Some (drop (length ch) s) else None)"
proof (induction ch s rule: cmatch.induct)
  case (1 s)
  then show ?case by simp
next
  case (2 c ch)
  then show ?case using matchChunk_failed [of ch "[]"]
    by (simp add: simplePattern_def matchChunk.simps(2) Let_def)
next
  case (3 c ch d s)
  have d: "byte d < 128" "d \<noteq> CHR ''/''" and s: "plainName s"
    and c: "c \<noteq> CHR ''[''" "c \<noteq> CHR 0x5C" and ch: "simplePattern ch"
    using "3.prems" by (auto simp: plainName_def simplePattern_def)
  show ?case
  proof (cases "c = CHR ''?'' \<or> c = d")
    case True
    with "3.IH" [OF ch s] c d show ?thesis
      by (auto simp: matchChunk.simps(2) Let_def decodeRune_ascii)
  next
    case False
    with c matchChunk_failed [OF ch, of s] show ?thesis
      by (simp add: matchChunk.simps(2) Let_def)
  qed
qed

text \<open>
  Under a star the first place where the chunk fits is as good as any other: what follows
  either is the end of the name or starts with a star of its own.
\<close>

definition starTail :: "string \<Rightarrow> bool" where
  "starTail r = (r = [] \<or> hd r = CHR ''*'')"

definition hit :: "string \<Rightarrow> string \<Rightarrow> string \<Rightarrow> bool" where
  "hit ch r s = (cmatch ch s \<and> (r = [] \<longrightarrow> drop (length ch) s = []))"

lemma cmatch_Nil: "ch \<noteq> [] \<Longrightarrow> \<not> cmatch ch []"
  by (cases ch) auto

lemma hit_glob:
  assumes "starTail r" and "CHR ''*'' \<notin> set ch" and "hit ch r s"
  shows "glob (CHR ''*'' # ch @ r) s = glob r (drop (length ch) s)"
proof
  assume "glob (CHR ''*'' # ch @ r) s"
  then obtain k where k: "glob r (drop (length ch + k) s)"
    using assms(2) by (auto simp: glob_star glob_append)
  show "glob r (drop (length ch) s)"
  proof (cases r)
    case Nil
    with assms(3) show ?thesis by (simp add: hit_def)
  next
    case (Cons c r')
    with assms(1) have "r = CHR ''*'' # r'" by (simp add: starTail_def)
    moreover have "drop (length ch + k) s = drop k (drop (length ch) s)" by (simp add: add.commute)
    ultimately show ?thesis using k glob_star_absorb [of r' k "drop (length ch) s"] by simp
  qed
next
  assume "glob r (drop (length ch) s)"
  with assms(2,3) have "glob (ch @ r) (drop 0 s)" by (simp add: hit_def glob_append)
  then show "glob (CHR ''*'' # ch @ r) s" unfolding glob_star by blast
qed

lemma miss_glob:
  assumes "CHR ''*'' \<notin> set ch" and "ch \<noteq> []" and "\<not> hit ch r s"
  shows "glob (CHR ''*'' # ch @ r) s = (s \<noteq> [] \<and> glob (CHR ''*'' # ch @ r) (tl s))"
proof -
  have "\<not> glob (ch @ r) s" using assms(1,3) by (auto simp: glob_append hit_def)
  then show ?thesis by (cases s) auto
qed

lemma starSkip_glob:
  assumes ch: "simplePattern ch" "CHR ''*'' \<notin> set ch" "ch \<noteq> []" and r: "starTail r" and "plainName s"
  shows "case starSkip ch (r = []) s of
           None \<Rightarrow> False
         | Some None \<Rightarrow> s = [] \<or> \<not> glob (CHR ''*'' # ch @ r) (tl s)
         | Some (Some t) \<Rightarrow> s \<noteq> [] \<and> glob (CHR ''*'' # ch @ r) (tl s) = glob r t \<and> plainName t"
  using assms(5)
proof (induction s)
  case Nil
  then show ?case by simp
next
  case (Cons c s)
  then have c: "c \<noteq> CHR ''/''" and s: "plainName s" by (auto simp: plainName_def)
  note m = matchChunk_simple [OF ch(1) s]
  show ?case
  proof (cases "hit ch r s")
    case True
    then have "starSkip ch (r = []) (c # s) = Some (Some (drop (length ch) s))"
      using c m by (auto simp: hit_def)
    moreover have "plainName (drop (length ch) s)"
      using s by (auto simp: plainName_def list_all_iff dest: in_set_dropD)
    ultimately show ?thesis using hit_glob [OF r ch(2) True] by simp
  next
    case False
    then have "starSkip ch (r = []) (c # s) = starSkip ch (r = []) s"
      using c m by (auto simp: hit_def)
    with Cons.IH [OF s] miss_glob [OF ch(2,3) False] show ?thesis
      by (auto split: option.splits)
  qed
qed

lemma simple_scanEnd:
  "simplePattern p \<Longrightarrow>
    scanEnd False p = (takeWhile (\<lambda>c. c \<noteq> CHR ''*'') p, dropWhile (\<lambda>c. c \<noteq> CHR ''*'') p)"
  by (induction p) (simp_all add: scanEnd.simps(2) simplePattern_def)

lemma simple_scanChunk:
  assumes "simplePattern p" and "scanChunk p = (star, ch, r)"
  shows "simplePattern ch" and "simplePattern r" and "CHR ''*'' \<notin> set ch" and "starTail r"
    and "ch = [] \<Longrightarrow> r = []" and "p \<noteq> [] \<Longrightarrow> ch = [] \<Longrightarrow> star"
    and "glob p s = glob (if star then CHR ''*'' # ch @ r else ch @ r) s"
proof -
  let ?q = "dropWhile (\<lambda>c. c = CHR ''*'') p"
  have q: "simplePattern ?q"
    using assms(1) by (auto simp: simplePattern_def list_all_iff dest: set_dropWhileD)
  have ch: "ch = takeWhile (\<lambda>c. c \<noteq> CHR ''*'') ?q" and r: "r = dropWhile (\<lambda>c. c \<noteq> CHR ''*'') ?q"
    and st: "star = (p \<noteq> [] \<and> hd p = CHR ''*'')"
    using assms(2) by (auto simp: scanChunk_def simple_scanEnd [OF q])
  show "simplePattern ch" and "simplePattern r"
    using q by (auto simp: ch r simplePattern_def list_all_iff dest: set_dropWhileD set_takeWhileD)
  show "CHR ''*'' \<notin> set ch" by (auto simp: ch dest: set_takeWhileD)
  show "starTail r"
    unfolding starTail_def r using hd_dropWhile [of "\<lambda>c. c \<noteq> CHR ''*''" ?q] by blast
  have qh: "?q = [] \<or> hd ?q \<noteq> CHR ''*''"
    using hd_dropWhile [of "\<lambda>c. c = CHR ''*''" p] by blast
  have q_Nil: "?q = []" if "ch = []" using that qh unfolding ch takeWhile_eq_Nil_iff by blast
  show "r = []" if "ch = []" unfolding r q_Nil [OF that] by simp
  show "star" if "p \<noteq> []" "ch = []"
    using q_Nil [OF that(2)] that(1) unfolding st dropWhile_eq_Nil_conv by simp
  have "ch @ r = ?q" by (simp add: ch r)
  then show "glob p s = glob (if star then CHR ''*'' # ch @ r else ch @ r) s"
    using glob_stars [of "tl p" s] by (cases p) (auto simp: st)
qed

lemma validTail_simple: "simplePattern p \<Longrightarrow> validTail p"
proof (induction p rule: validTail.induct)
  case (1 p)
  show ?case
  proof (cases "p = []")
    case True
    then show ?thesis by (simp add: validTail.simps)
  next
    case False
    obtain star ch r where sc: "scanChunk p = (star, ch, r)" by (cases "scanChunk p") auto
    note f = simple_scanChunk [OF "1.prems" sc]
    have "validTail r" using "1.IH" [OF False sc [symmetric]] f(2) by simp
    moreover have "matchChunk ch [] False \<noteq> None"
      using matchChunk_simple [OF f(1), of "[]"] by (simp add: plainName_def)
    ultimately show ?thesis using sc by (subst validTail.simps) simp
  qed
qed

lemma Match_simple_step:
  assumes "simplePattern p" and "plainName s" and sc: "scanChunk p = (star, ch, r)" and "ch \<noteq> []"
  shows "Match p s =
    (if hit ch r s then Match r (drop (length ch) s)
     else case (if star then starSkip ch (r = []) s else Some None) of
            None \<Rightarrow> None | Some None \<Rightarrow> Some False | Some (Some t) \<Rightarrow> Match r t)"
proof -
  note f = simple_scanChunk [OF assms(1) sc]
  have p: "p \<noteq> []" using sc assms(4) by (auto simp: scanChunk_def)
  have m: "matchChunk ch s False = Some (if cmatch ch s then Some (drop (length ch) s) else None)"
    using f(1) assms(2) by (rule matchChunk_simple)
  have acc: "accepted r (if cmatch ch s then Some (drop (length ch) s) else None) =
      (if hit ch r s then Some (drop (length ch) s) else None)"
    by (auto simp: accepted_def hit_def)
  show ?thesis
    using p sc assms(4) m acc validTail_simple [OF f(2)]
    by (simp add: Match.simps [of p s] split: option.split)
qed

lemma plainName_drop: "plainName s \<Longrightarrow> plainName (drop k s)"
  by (auto simp: plainName_def list_all_iff dest: in_set_dropD)

text \<open>On these patterns and names \<^verbatim>\<open>path.Match\<close> never errs and decides the specification.\<close>

lemma Match_glob: "simplePattern p \<Longrightarrow> plainName s \<Longrightarrow> Match p s = Some (glob p s)"
proof (induction p arbitrary: s rule: length_induct)
  case (1 p s)
  obtain star ch r where sc: "scanChunk p = (star, ch, r)" by (cases "scanChunk p") auto
  note f = simple_scanChunk [OF "1.prems"(1) sc]
  consider "p = []" | "p \<noteq> []" "ch = []" | "p \<noteq> []" "ch \<noteq> []" by blast
  then show ?case
  proof cases
    case 1
    then show ?thesis by (simp add: Match.simps)
  next
    case 2
    with f have star and "r = []" by simp_all
    with 2 f(7) [of s] have "glob p s" by (simp add: glob_all)
    moreover have "CHR ''/'' \<notin> set s" using "1.prems"(2) by (auto simp: plainName_def list_all_iff)
    ultimately show ?thesis using 2 sc \<open>star\<close> by (simp add: Match.simps [of p s])
  next
    case 3
    then have "length r < length p" using scanChunk_shorter [OF sc] by simp
    then have IH: "plainName t \<Longrightarrow> Match r t = Some (glob r t)" for t
      using "1.IH" f(2) by blast
    note step = Match_simple_step [OF "1.prems" sc 3(2)]
    show ?thesis
    proof (cases "hit ch r s")
      case True
      then have "glob p s = glob r (drop (length ch) s)"
        using f(7) [of s] hit_glob [OF f(4,3) True] f(3) by (simp add: glob_append hit_def)
      with True step IH plainName_drop [OF "1.prems"(2)] show ?thesis by simp
    next
      case False
      then have "\<not> glob (ch @ r) s" using f(3) by (auto simp: glob_append hit_def)
      moreover note miss_glob [OF f(3) 3(2) False] starSkip_glob [OF f(1,3) 3(2) f(4) "1.prems"(2)]
      ultimately show ?thesis using False step f(7) [of s] IH
        by (cases star) (auto split: option.splits)
    qed
  qed
qed

end
