(* ===== verification/Effects.thy ===== *)
theory Effects
  imports Prelude
begin

text \<open>
  How the development writes effectful Go code: a computation takes the world and gives an
  outcome and the next world. \<open>Ok\<close> is a return with a nil error, \<open>Fail\<close> a return with an
  error, \<open>Panic\<close> a run-time panic (it unwinds every caller, running deferred calls), and
  \<open>Hang\<close> a call that never returns. Three judgements on computations carry the proofs:
  \<open>post\<close> (what holds of an \<open>Ok\<close> result in any world), \<open>keeps\<close> (a world invariant no outcome
  breaks) and \<open>yields\<close> (total correctness in the worlds of an invariant).
\<close>

text \<open>
  \<^verbatim>\<open>fmt.Errorf(format, args...)\<close>, \<^verbatim>\<open>errors.New(text)\<close> (no arguments), and the wrapping
  \<^verbatim>\<open>fmt.Errorf(format, args..., err)\<close> with \<^verbatim>\<open>%w\<close>; \<^verbatim>\<open>errors.Join\<close> of at least one error.
\<close>

datatype goerr = Errorf string "string list" | Wrapf string "string list" goerr | Joined "goerr list"

datatype 'a outcome = Ok 'a | Fail goerr | Panic string | Hang

type_synonym ('w, 'a) io = "'w \<Rightarrow> 'a outcome \<times> 'w"

definition io_return :: "'a \<Rightarrow> ('w, 'a) io" where
  "io_return x = (\<lambda>w. (Ok x, w))"

definition io_fail :: "goerr \<Rightarrow> ('w, 'a) io" where
  "io_fail e = (\<lambda>w. (Fail e, w))"

definition io_bind :: "('w, 'a) io \<Rightarrow> ('a \<Rightarrow> ('w, 'b) io) \<Rightarrow> ('w, 'b) io" where
  "io_bind m f =
     (\<lambda>w. case m w of (r, w') \<Rightarrow>
        (case r of Ok x \<Rightarrow> f x w' | Fail e \<Rightarrow> (Fail e, w') | Panic p \<Rightarrow> (Panic p, w') | Hang \<Rightarrow> (Hang, w')))"

text \<open>\<^verbatim>\<open>if err != nil { return fmt.Errorf("format: %w", args..., err) }\<close>\<close>

definition io_wrap :: "string \<Rightarrow> string list \<Rightarrow> ('w, 'a) io \<Rightarrow> ('w, 'a) io" where
  "io_wrap msg args m = (\<lambda>w. case m w of (Fail e, w') \<Rightarrow> (Fail (Wrapf msg args e), w') | r \<Rightarrow> r)"

text \<open>
  \<^verbatim>\<open>x, err := m()\<close> where the code goes on either way: the error becomes a value; a panic still unwinds.
\<close>

definition io_try :: "('w, 'a) io \<Rightarrow> ('w, goerr + 'a) io" where
  "io_try m =
     (\<lambda>w. case m w of (r, w') \<Rightarrow>
        (case r of Ok x \<Rightarrow> Ok (Inr x) | Fail e \<Rightarrow> Ok (Inl e) | Panic p \<Rightarrow> Panic p | Hang \<Rightarrow> Hang, w'))"

text \<open>\<^verbatim>\<open>defer cleanup()\<close> before \<open>m\<close>: it runs on a return and on a panic.\<close>

definition io_defer :: "('w \<Rightarrow> 'w) \<Rightarrow> ('w, 'a) io \<Rightarrow> ('w, 'a) io" where
  "io_defer cleanup m = (\<lambda>w. case m w of (r, w') \<Rightarrow> (r, case r of Hang \<Rightarrow> w' | _ \<Rightarrow> cleanup w'))"

text \<open>A \<^verbatim>\<open>range\<close> loop with its index; the body ends with \<^verbatim>\<open>continue\<close> or \<^verbatim>\<open>break\<close>.\<close>

datatype 'a loop = Continue 'a | Break 'a

primrec rangeLoop :: "(nat \<Rightarrow> 'x \<Rightarrow> 'a \<Rightarrow> ('w, 'a loop) io) \<Rightarrow> nat \<Rightarrow> 'x list \<Rightarrow> 'a \<Rightarrow> ('w, 'a) io" where
  "rangeLoop body i [] acc = io_return acc"
| "rangeLoop body i (x # xs) acc =
     io_bind (body i x acc)
       (\<lambda>r. case r of Break a \<Rightarrow> io_return a | Continue a \<Rightarrow> rangeLoop body (Suc i) xs a)"

subsection \<open>What an \<open>Ok\<close> result satisfies\<close>

definition post :: "('w, 'a) io \<Rightarrow> ('a \<Rightarrow> bool) \<Rightarrow> bool" where
  "post m P = (\<forall>w x w'. m w = (Ok x, w') \<longrightarrow> P x)"

lemma postD: "post m P \<Longrightarrow> m w = (Ok x, w') \<Longrightarrow> P x"
  by (auto simp: post_def)

lemma post_return [post_rules]: "P x \<Longrightarrow> post (io_return x) P"
  by (simp add: post_def io_return_def)

lemma post_fail [post_rules]: "post (io_fail e) P"
  by (simp add: post_def io_fail_def)

lemma post_bind: "post m Q \<Longrightarrow> (\<And>x. Q x \<Longrightarrow> post (f x) P) \<Longrightarrow> post (io_bind m f) P"
  by (fastforce simp: post_def io_bind_def split: prod.splits outcome.splits)

lemma post_bind_any: "(\<And>x. post (f x) P) \<Longrightarrow> post (io_bind m f) P"
  by (rule post_bind [where Q = "\<lambda>_. True"]) (auto simp: post_def)

lemma post_wrap [post_rules]: "post m P \<Longrightarrow> post (io_wrap msg args m) P"
  by (fastforce simp: post_def io_wrap_def split: prod.splits outcome.splits)

lemma post_bind_wrap [post_rules]: "(\<And>x. post (f x) P) \<Longrightarrow> post (io_bind (io_wrap msg args m) f) P"
  by (rule post_bind_any)

lemma post_defer [post_rules]: "post m P \<Longrightarrow> post (io_defer c m) P"
  by (fastforce simp: post_def io_defer_def split: prod.splits)

lemma post_if [post_rules]:
  "(b \<Longrightarrow> post m P) \<Longrightarrow> (\<not> b \<Longrightarrow> post n P) \<Longrightarrow> post (if b then m else n) P"
  by simp

lemma post_case_option [post_rules]:
  "(x = None \<Longrightarrow> post m P) \<Longrightarrow> (\<And>y. x = Some y \<Longrightarrow> post (f y) P) \<Longrightarrow>
    post (case x of None \<Rightarrow> m | Some y \<Rightarrow> f y) P"
  by (cases x) auto

lemma post_case_sum [post_rules]:
  "(\<And>y. x = Inl y \<Longrightarrow> post (f y) P) \<Longrightarrow> (\<And>y. x = Inr y \<Longrightarrow> post (g y) P) \<Longrightarrow>
    post (case x of Inl y \<Rightarrow> f y | Inr y \<Rightarrow> g y) P"
  by (cases x) auto

lemma post_case_prod [post_rules]:
  "(\<And>y z. x = (y, z) \<Longrightarrow> post (f y z) P) \<Longrightarrow> post (case x of (y, z) \<Rightarrow> f y z) P"
  by (cases x) auto

lemma post_Let [post_rules]: "(\<And>y. y = x \<Longrightarrow> post (f y) P) \<Longrightarrow> post (let y = x in f y) P"
  by simp

lemma post_mono: "post m Q \<Longrightarrow> (\<And>x. Q x \<Longrightarrow> P x) \<Longrightarrow> post m P"
  by (auto simp: post_def)

text \<open>
  The loop rule: \<open>I ps acc\<close> holds after the elements \<open>ps\<close> were worked through; a \<open>break\<close> at an
  element must establish the conclusion itself.
\<close>

lemma post_rangeLoop_gen:
  assumes "I ps acc" and "length ps = i"
    and step: "\<And>ps x rest a. ps0 @ xs0 = ps @ x # rest \<Longrightarrow> I ps a \<Longrightarrow>
       post (body (length ps) x a) (\<lambda>r. case r of Continue b \<Rightarrow> I (ps @ [x]) b | Break b \<Rightarrow> Q b)"
    and fin: "\<And>a. I (ps0 @ xs0) a \<Longrightarrow> Q a"
    and "ps0 @ xs0 = ps @ xs"
  shows "post (rangeLoop body i xs acc) Q"
  using assms(1,2,5)
proof (induction xs arbitrary: ps i acc)
  case Nil
  then show ?case by (auto intro: post_return fin)
next
  case (Cons x xs)
  have "post (body i x acc) (\<lambda>r. case r of Continue b \<Rightarrow> I (ps @ [x]) b | Break b \<Rightarrow> Q b)"
    using step [of ps x xs acc] Cons.prems by simp
  then show ?case
    using Cons.IH [of "ps @ [x]"] Cons.prems
    by (auto intro!: post_bind post_return split: loop.split)
qed

lemma post_rangeLoop:
  assumes "I [] acc"
    and "\<And>ps x rest a. xs = ps @ x # rest \<Longrightarrow> I ps a \<Longrightarrow>
       post (body (length ps) x a) (\<lambda>r. case r of Continue b \<Rightarrow> I (ps @ [x]) b | Break b \<Rightarrow> Q b)"
    and "\<And>a. I xs a \<Longrightarrow> Q a"
  shows "post (rangeLoop body 0 xs acc) Q"
  by (rule post_rangeLoop_gen [where ps = "[]" and ps0 = "[]" and ?xs0.0 = xs and I = I])
     (use assms in auto)

lemma post_rangeLoop_inv:
  assumes "Q acc" "\<And>i x a. Q a \<Longrightarrow> post (body i x a) (\<lambda>r. case r of Continue b \<Rightarrow> Q b | Break b \<Rightarrow> Q b)"
  shows "post (rangeLoop body 0 xs acc) Q"
  by (rule post_rangeLoop [where I = "\<lambda>_. Q"]) (use assms in auto)

subsection \<open>World invariants\<close>

definition keeps :: "('w \<Rightarrow> bool) \<Rightarrow> ('w, 'a) io \<Rightarrow> bool" where
  "keeps I m = (\<forall>w. I w \<longrightarrow> I (snd (m w)))"

named_theorems keeps_rules \<open>rules that prove a world invariant of a computation\<close>

lemma keepsD: "keeps I m \<Longrightarrow> I w \<Longrightarrow> I (snd (m w))"
  by (simp add: keeps_def)

lemma keeps_return [keeps_rules]: "keeps I (io_return x)"
  by (simp add: keeps_def io_return_def)

lemma keeps_fail [keeps_rules]: "keeps I (io_fail e)"
  by (simp add: keeps_def io_fail_def)

lemma keeps_bind [keeps_rules]: "keeps I m \<Longrightarrow> (\<And>x. keeps I (f x)) \<Longrightarrow> keeps I (io_bind m f)"
  by (fastforce simp: keeps_def io_bind_def split: prod.splits outcome.splits)

lemma keeps_wrap [keeps_rules]: "keeps I m \<Longrightarrow> keeps I (io_wrap msg args m)"
  by (fastforce simp: keeps_def io_wrap_def split: prod.splits outcome.splits)

lemma keeps_try [keeps_rules]: "keeps I m \<Longrightarrow> keeps I (io_try m)"
  by (fastforce simp: keeps_def io_try_def split: prod.splits outcome.splits)

lemma keeps_if [keeps_rules]: "keeps I m \<Longrightarrow> keeps I n \<Longrightarrow> keeps I (if b then m else n)"
  by simp

lemma keeps_case_sum [keeps_rules]:
  "(\<And>y. keeps I (f y)) \<Longrightarrow> (\<And>y. keeps I (g y)) \<Longrightarrow> keeps I (case x of Inl y \<Rightarrow> f y | Inr y \<Rightarrow> g y)"
  by (cases x) auto

lemma keeps_case_option [keeps_rules]:
  "keeps I m \<Longrightarrow> (\<And>y. keeps I (f y)) \<Longrightarrow> keeps I (case x of None \<Rightarrow> m | Some y \<Rightarrow> f y)"
  by (cases x) auto

lemma keeps_case_prod [keeps_rules]: "(\<And>y z. keeps I (f y z)) \<Longrightarrow> keeps I (case x of (y, z) \<Rightarrow> f y z)"
  by (cases x) auto

lemma keeps_case_loop [keeps_rules]:
  "(\<And>a. keeps I (f a)) \<Longrightarrow> (\<And>a. keeps I (g a)) \<Longrightarrow> keeps I (case r of Continue a \<Rightarrow> f a | Break a \<Rightarrow> g a)"
  by (cases r) auto

lemma keeps_rangeLoop [keeps_rules]:
  "(\<And>i x a. keeps I (body i x a)) \<Longrightarrow> keeps I (rangeLoop body i xs acc)"
  by (induction xs arbitrary: i acc) (auto intro!: keeps_rules)

subsection \<open>Total correctness\<close>

definition yields :: "('w \<Rightarrow> bool) \<Rightarrow> ('w, 'a) io \<Rightarrow> 'a \<Rightarrow> bool" where
  "yields I m x = (\<forall>w. I w \<longrightarrow> (\<exists>w'. m w = (Ok x, w') \<and> I w'))"

named_theorems yields_rules \<open>rules that prove the result of a computation\<close>

lemma yieldsD: "yields I m x \<Longrightarrow> I w \<Longrightarrow> fst (m w) = Ok x"
  by (fastforce simp: yields_def)

lemma yields_eq: "yields I m x \<Longrightarrow> x = y \<Longrightarrow> yields I m y"
  by simp

lemma yields_post: "yields (\<lambda>_. True) m x \<Longrightarrow> P x \<Longrightarrow> post m P"
  unfolding yields_def post_def by (metis outcome.inject(1) prod.inject)

lemma yields_return [yields_rules]: "yields I (io_return x) x"
  by (simp add: yields_def io_return_def)

lemma yields_bind: "yields I m x \<Longrightarrow> yields I (f x) y \<Longrightarrow> yields I (io_bind m f) y"
  by (fastforce simp: yields_def io_bind_def)

lemma yields_wrap [yields_rules]: "yields I m x \<Longrightarrow> yields I (io_wrap msg args m) x"
  by (fastforce simp: yields_def io_wrap_def)

lemma yields_try: "yields I m x \<Longrightarrow> yields I (io_try m) (Inr x)"
  by (fastforce simp: yields_def io_try_def)

lemma yields_loop_Nil: "yields I (rangeLoop body i [] acc) acc"
  by (simp add: yields_return)

lemma yields_loop_Continue:
  "yields I (body i x acc) (Continue a) \<Longrightarrow> yields I (rangeLoop body (Suc i) xs a) r \<Longrightarrow>
    yields I (rangeLoop body i (x # xs) acc) r"
  by (auto intro: yields_bind)

lemma yields_loop_Break:
  "yields I (body i x acc) (Break a) \<Longrightarrow> yields I (rangeLoop body i (x # xs) acc) a"
  by (auto intro!: yields_bind yields_return)

text \<open>A loop whose every turn only appends to a list.\<close>

lemma yields_appendLoop:
  assumes "\<And>i x ms. yields I (body i x ms) (Continue (ms @ f x))"
  shows "yields I (rangeLoop body i xs ms) (ms @ concat (map f xs))"
proof (induction xs arbitrary: i ms)
  case Nil
  then show ?case by (simp add: yields_return)
next
  case (Cons x xs)
  show ?case by (rule yields_eq, rule yields_loop_Continue, rule assms, rule Cons.IH) simp
qed

lemma yields_if: "(b \<Longrightarrow> yields I m x) \<Longrightarrow> (\<not> b \<Longrightarrow> yields I n x) \<Longrightarrow> yields I (if b then m else n) x"
  by simp

subsection \<open>Computations that always return\<close>

definition returns :: "('w \<Rightarrow> bool) \<Rightarrow> ('w, 'a) io \<Rightarrow> bool" where
  "returns I m = (\<forall>w. I w \<longrightarrow> (\<exists>x w'. m w = (Ok x, w') \<and> I w'))"

named_theorems returns_rules \<open>rules that show a computation returns\<close>

lemma returnsD: "returns I m \<Longrightarrow> I w \<Longrightarrow> \<exists>x. fst (m w) = Ok x"
  by (fastforce simp: returns_def)

lemma returnsE:
  assumes "returns I m" "I w"
  obtains x w' where "m w = (Ok x, w')"
  using assms by (auto simp: returns_def)

lemma yields_returns: "yields I m x \<Longrightarrow> returns I m"
  by (fastforce simp: yields_def returns_def)

lemma returns_return [returns_rules]: "returns I (io_return x)"
  by (rule yields_returns [OF yields_return])

lemma returns_bind [returns_rules]: "returns I m \<Longrightarrow> (\<And>x. returns I (f x)) \<Longrightarrow> returns I (io_bind m f)"
  by (fastforce simp: returns_def io_bind_def)

lemma returns_if [returns_rules]: "returns I m \<Longrightarrow> returns I n \<Longrightarrow> returns I (if b then m else n)"
  by simp

end
