(* ===== verification/Helpers.thy ===== *)
theory Helpers
  imports GoTime GoMatch Effects
begin

text \<open>
  The functions the collectors share: the value parsers of \<^verbatim>\<open>helpers.go\<close> and
  \<^verbatim>\<open>redis_value_helpers.go\<close>, the environment readers of \<^verbatim>\<open>lldp_collector.go\<close> and the two
  status helpers of \<^verbatim>\<open>lag_collector.go\<close>. A pair \<^verbatim>\<open>(value, ok)\<close> of the code is an option here.
  The process environment is an argument, a function from names to \<^verbatim>\<open>os.LookupEnv\<close>'s answer.
\<close>

subsection \<open>Values read from Redis\<close>

definition parseFloat :: "string \<Rightarrow> f64 option" where
  "parseFloat str = (if str \<noteq> [] then ParseFloat str else Some f64_0)"

definition parseBoolish :: "string \<Rightarrow> f64 option" where
  "parseBoolish value =
     (let v = toLower (trimSpace value)
      in if v \<in> set [''true'', ''up'', ''yes'', ''1'', ''moduleready'', ''datapathactivated'', ''ok'']
         then Some f64_1
         else if v \<in> set [''false'', ''down'', ''no'', ''0'', ''moduleabsent'', ''modulefault'']
         then Some f64_0
         else None)"

definition parseCounterLike :: "string \<Rightarrow> f64 option" where
  "parseCounterLike value = ParseFloat (trimSpace value)"

definition parseEventTime :: "string \<Rightarrow> f64 option" where
  "parseEventTime value =
     (let trimmedValue = trimSpace value
      in if trimmedValue = [] \<or> equalFold trimmedValue ''never'' then None
         else map_option f64_of_int (parseEventLayout trimmedValue))"

definition normalizeProcessName :: "string \<Rightarrow> string" where
  "normalizeProcessName command =
     (let trimmedCommand = trimSpace command
      in if trimmedCommand = [] then ''unknown''
         else let firstToken = firstField trimmedCommand
              in if firstToken = [] then ''unknown'' else filepathBase firstToken)"

definition familyFromPrefix :: "string \<Rightarrow> string" where
  "familyFromPrefix value = (if containsChar value (CHR '':'') then ''ipv6'' else ''ipv4'')"

definition parseKeySuffix :: "string \<Rightarrow> string \<Rightarrow> goerr + string" where
  "parseKeySuffix key pre =
     (if \<not> hasPrefix key pre then Inl (Errorf ''key %q does not start with %q'' [key, pre])
      else let rest = trimPrefix key pre
           in if rest = [] then Inl (Errorf ''key %q has empty suffix'' [key]) else Inr rest)"

definition statusToGauge :: "string \<Rightarrow> f64" where
  "statusToGauge status =
     (let value = toLower (trimSpace status)
      in if value = ''up'' \<or> value = ''enabled'' \<or> value = ''selected'' \<or> value = ''active''
            \<or> value = ''true'' \<or> value = ''ok''
         then f64_1 else f64_0)"

primrec firstNonEmpty :: "string list \<Rightarrow> string" where
  "firstNonEmpty [] = []"
| "firstNonEmpty (value # values) =
     (if trimSpace value \<noteq> [] then value else firstNonEmpty values)"

subsection \<open>The environment\<close>

type_synonym env = "string \<Rightarrow> string option"

text \<open>\<^verbatim>\<open>value, exists := os.LookupEnv(key)\<close> with \<^verbatim>\<open>!exists || value == ""\<close> in one answer.\<close>

definition setEnv :: "env \<Rightarrow> string \<Rightarrow> string option" where
  "setEnv env key = (case env key of None \<Rightarrow> None | Some value \<Rightarrow> if value = [] then None else Some value)"

definition parseBoolEnv :: "env \<Rightarrow> string \<Rightarrow> bool \<Rightarrow> bool" where
  "parseBoolEnv env key defaultValue =
     (case setEnv env key of
        None \<Rightarrow> defaultValue
      | Some value \<Rightarrow>
          (case ParseBool value of None \<Rightarrow> defaultValue | Some parsedValue \<Rightarrow> parsedValue))"

definition parseDurationEnv :: "env \<Rightarrow> string \<Rightarrow> duration \<Rightarrow> duration" where
  "parseDurationEnv env key defaultValue =
     (case setEnv env key of
        None \<Rightarrow> defaultValue
      | Some value \<Rightarrow>
          (case ParseDuration value of
             None \<Rightarrow> defaultValue
           | Some parsedValue \<Rightarrow> if parsedValue \<le> 0 then defaultValue else parsedValue))"

definition parseIntEnv :: "env \<Rightarrow> string \<Rightarrow> int \<Rightarrow> int" where
  "parseIntEnv env key defaultValue =
     (case setEnv env key of
        None \<Rightarrow> defaultValue
      | Some value \<Rightarrow>
          (case Atoi value of
             None \<Rightarrow> defaultValue
           | Some parsedValue \<Rightarrow> if parsedValue \<le> 0 then defaultValue else parsedValue))"

definition parseStringEnv :: "env \<Rightarrow> string \<Rightarrow> string \<Rightarrow> string" where
  "parseStringEnv env key defaultValue =
     (case env key of
        None \<Rightarrow> defaultValue
      | Some value \<Rightarrow> if trimSpace value = [] then defaultValue else trimSpace value)"

subsection \<open>Lemmas\<close>

lemma parseKeySuffix_ok: "parseKeySuffix key pre = Inr s \<longleftrightarrow> key = pre @ s \<and> s \<noteq> []"
  by (auto simp: parseKeySuffix_def Let_def hasPrefix_def trimPrefix_def prefix_def)

lemma parseKeySuffix_cases:
  obtains (suffix) "hasPrefix key pre" "key \<noteq> pre" "parseKeySuffix key pre = Inr (trimPrefix key pre)"
  | (error) e where "\<not> (hasPrefix key pre \<and> key \<noteq> pre)" "parseKeySuffix key pre = Inl e"
proof (cases "parseKeySuffix key pre")
  case (Inl e)
  have "\<not> (hasPrefix key pre \<and> key \<noteq> pre)"
    using Inl parseKeySuffix_ok [of key pre "trimPrefix key pre"] hasPrefix_trim [of key pre]
    by (auto simp: parseKeySuffix_ok)
  then show ?thesis using Inl error by blast
next
  case (Inr s)
  then have "key = pre @ s" "s \<noteq> []" by (simp_all add: parseKeySuffix_ok)
  then show ?thesis using Inr suffix by simp
qed

lemma parseDurationEnv_pos: "0 < d \<Longrightarrow> 0 < parseDurationEnv env key d"
  by (auto simp: parseDurationEnv_def split: option.split)

lemma parseIntEnv_pos: "0 < d \<Longrightarrow> 0 < parseIntEnv env key d"
  by (auto simp: parseIntEnv_def split: option.split)

lemma Atoi_bounds: "Atoi s = Some v \<Longrightarrow> minInt64 \<le> v \<and> v \<le> maxInt64"
  by (auto simp: Atoi_def Let_def split: if_splits)

lemma parseIntEnv_max: "d \<le> maxInt64 \<Longrightarrow> parseIntEnv env key d \<le> maxInt64"
  by (auto simp: parseIntEnv_def split: option.split dest: Atoi_bounds)

lemma statusToGauge_range: "statusToGauge s = f64_0 \<or> statusToGauge s = f64_1"
  by (simp add: statusToGauge_def Let_def)

lemma firstNonEmpty_mem: "firstNonEmpty vs = [] \<or> firstNonEmpty vs \<in> set vs \<and> trimSpace (firstNonEmpty vs) \<noteq> []"
  by (induction vs) auto

lemma firstNonEmpty_blank: "firstNonEmpty vs = [] \<longleftrightarrow> (\<forall>v\<in>set vs. trimSpace v = [])"
  by (induction vs) auto

declare firstNonEmpty.simps [simp del]

text \<open>\<^verbatim>\<open>parseFloat\<close> at two inputs, for the examples.\<close>

lemma parseFloat_Nil: "parseFloat [] = Some f64_0"
  by (simp add: parseFloat_def)

lemma parseFloat_7: "parseFloat ''7'' = Some (f64_of_int 7)"
proof -
  have "itoa 7 = ''7''" by code_simp
  with ParseFloat_itoa [of 7] show ?thesis by (simp add: parseFloat_def)
qed

subsection \<open>Properties of the helpers\<close>

lemma space_not_digit: "w \<in> set wsSeqs \<Longrightarrow> \<not> isDigit (hd w) \<and> \<not> isDigit (last w)"
  by (auto simp: wsSeqs_def isDigit_def less_eq_char_def)

lemma trimSpace_digits: "list_all isDigit s \<Longrightarrow> trimSpace s = s"
proof (cases "s = []")
  case False
  assume digits: "list_all isDigit s"
  show ?thesis
  proof (rule trimSpace_id)
    fix w
    assume w: "w \<in> set wsSeqs"
    then have "w \<noteq> []" by (rule wsSeqs_nonempty)
    have "isDigit (hd s)" "isDigit (last s)"
      using digits False by (cases s; simp add: list_all_iff)+
    with space_not_digit [OF w] \<open>w \<noteq> []\<close> False show "\<not> prefix w s \<and> \<not> suffix w s"
      by (auto simp: prefix_def suffix_def)
  qed
qed simp

text \<open>
  C21. A counter that Redis holds in decimal is read back exactly up to \<open>2 ^ 53\<close>, and up to
  \<open>2 ^ 64\<close> as the float nearest to it; it never fails to parse.
\<close>

theorem parseCounterLike_decimal:
  assumes "n < 2 ^ 64"
  shows "parseCounterLike (itoa n) = Some (f64_of_int (int n)) \<and>
    (n < 2 ^ 53 \<longrightarrow> f64_trunc (f64_of_int (int n)) = int n)"
proof -
  have "trimSpace (itoa n) = itoa n"
    using itoa_digits [of n] by (simp add: trimSpace_digits)
  moreover have "n < 2 ^ 53 \<longrightarrow> f64_trunc (f64_of_int (int n)) = int n"
    using f64_of_int_exact [of "int n"] by simp
  ultimately show ?thesis
    using ParseFloat_itoa [OF assms] by (simp add: parseCounterLike_def)
qed

theorem parseCounterLike_decimal_witness:
  "parseCounterLike (itoa 1234567890123) = Some (f64_of_int 1234567890123) \<and>
   f64_trunc (f64_of_int 1234567890123) = 1234567890123"
  using parseCounterLike_decimal [of 1234567890123] by simp

text \<open>
  Whatever the environment holds, a duration or integer setting with a positive default is
  positive, and an integer setting fits its machine width: no ticker interval, timeout or limit
  can be zero or negative.
\<close>

lemma settings_positive:
  assumes "0 < d" "0 < n" "n \<le> maxInt64"
  shows "0 < parseDurationEnv env key d \<and> 0 < parseIntEnv env key n \<and> parseIntEnv env key n \<le> maxInt64"
  using assms by (simp add: parseDurationEnv_pos parseIntEnv_pos parseIntEnv_max)

lemma settings_positive_example:
  "0 < parseDurationEnv (\<lambda>_. Some ''-5s'') ''LLDP_TIMEOUT'' (2 * second) \<and>
   0 < parseIntEnv (\<lambda>_. Some ''-5s'') ''LLDP_TIMEOUT'' 512 \<and>
   parseIntEnv (\<lambda>_. Some ''-5s'') ''LLDP_TIMEOUT'' 512 \<le> maxInt64"
  by (rule settings_positive) (simp_all add: maxInt64_def)

text \<open>
  A time in the layout the switch writes, with any white space around it, is read as its Unix
  time, for every date of the years 0 to 9999 and whatever the weekday before it says.
\<close>

lemma parseEventTime_reads_layout:
  assumes "weekday < 7" "year < 10000" "1 \<le> month" "month \<le> 12" "1 \<le> day" "int day \<le> daysIn month (int year)"
    "hh < 24" "mm < 60" "ss < 60" "trimSpace value = eventText weekday year month day hh mm ss"
  shows "parseEventTime value =
    Some (f64_of_int (unixSeconds (int year) month (int day) (int hh) (int mm) (int ss)))"
proof -
  have "list_all (\<lambda>w. toLower (take 2 (shortDayNames ! w)) \<noteq> ''ne'' \<and> 2 \<le> length (shortDayNames ! w)) [0..<7]"
    by code_simp
  then have day: "toLower (take 2 (shortDayNames ! weekday)) \<noteq> ''ne''" "2 \<le> length (shortDayNames ! weekday)"
    using assms(1) by (simp_all add: list_all_iff)
  have "toLower (take 2 s) = ''ne''" if "equalFold s ''never''" for s
  proof -
    have "take 2 (toLower s) = take 2 (toLower ''never'')" using that by (simp add: equalFold_def)
    moreover have "take 2 (toLower ''never'') = ''ne''" by code_simp
    ultimately show ?thesis by (simp add: toLower_def take_map)
  qed
  moreover have "take 2 (eventText weekday year month day hh mm ss) = take 2 (shortDayNames ! weekday)"
    using day(2) by (simp add: eventText_def)
  ultimately have "\<not> equalFold (trimSpace value) ''never''" "trimSpace value \<noteq> []"
    using day assms(10) by (metis, auto simp: eventText_def)
  then show ?thesis
    using parseEventLayout_text [OF assms(1-9)] assms(10) by (simp add: parseEventTime_def)
qed

lemma parseEventTime_reads_layout_example:
  "parseEventTime ''  Wed Jan 08 12:34:56 2025'' = Some (f64_of_int 1736339696)"
proof -
  have "trimSpace ''  Wed Jan 08 12:34:56 2025'' = eventText 3 2025 1 8 12 34 56"
    by code_simp
  from parseEventTime_reads_layout [OF _ _ _ _ _ _ _ _ _ this]
  have "parseEventTime ''  Wed Jan 08 12:34:56 2025'' = Some (f64_of_int (unixSeconds 2025 1 8 12 34 56))"
    by (simp add: daysIn_def)
  moreover have "unixSeconds 2025 1 8 12 34 56 = 1736339696"
    by (simp add: unixSeconds_def unixDays_def)
  ultimately show ?thesis by simp
qed

end
