(* ===== verification/MetricFilter.thy ===== *)
theory MetricFilter
  imports Helpers
begin

text \<open>
  \<^verbatim>\<open>metric_filter.go\<close>: the metrics that \<^verbatim>\<open>SONIC_DISABLED_METRICS\<close> turns off. The set of
  exact names is a HOL set, the patterns a list in the order of the variable.
\<close>

record metricFilter =
  exact :: "string set"
  patterns :: "string list"

definition isGlobPattern :: "string \<Rightarrow> bool" where
  "isGlobPattern value = containsAny value ''*?[''"

text \<open>One turn of the loop over the comma-separated tokens.\<close>

definition addToken :: "string \<Rightarrow> metricFilter \<Rightarrow> metricFilter" where
  "addToken raw flt =
     (let token = trimSpace raw
      in if token = [] then flt
         else if isGlobPattern token then
           (case Match token [] of
              None \<Rightarrow> flt
            | Some _ \<Rightarrow> flt\<lparr>patterns := patterns flt @ [token]\<rparr>)
         else flt\<lparr>exact := insert token (exact flt)\<rparr>)"

definition NewMetricFilter :: "env \<Rightarrow> metricFilter" where
  "NewMetricFilter env =
     (let flt = \<lparr>exact = {}, patterns = []\<rparr>
      in case env ''SONIC_DISABLED_METRICS'' of
           None \<Rightarrow> flt
         | Some value \<Rightarrow>
             if trimSpace value = [] then flt else fold addToken (splitOn (CHR '','') value) flt)"

primrec matchesAny :: "string list \<Rightarrow> string \<Rightarrow> bool" where
  "matchesAny [] metricName = False"
| "matchesAny (pattern # ps) metricName =
     (case Match pattern metricName of
        None \<Rightarrow> matchesAny ps metricName
      | Some matched \<Rightarrow> if matched then True else matchesAny ps metricName)"

definition Disabled :: "metricFilter \<Rightarrow> string \<Rightarrow> bool" where
  "Disabled flt metricName =
     (if metricName \<in> exact flt then True else matchesAny (patterns flt) metricName)"

definition Enabled :: "metricFilter \<Rightarrow> string \<Rightarrow> bool" where
  "Enabled flt metricName = (\<not> Disabled flt metricName)"

subsection \<open>What the filter disables\<close>

text \<open>The tokens of the variable, trimmed, without the blank ones.\<close>

definition disabledTokens :: "env \<Rightarrow> string list" where
  "disabledTokens env =
     (case env ''SONIC_DISABLED_METRICS'' of
        None \<Rightarrow> []
      | Some value \<Rightarrow>
          if trimSpace value = [] then []
          else filter (\<lambda>t. t \<noteq> []) (map trimSpace (splitOn (CHR '','') value)))"

definition tokenMatches :: "string \<Rightarrow> string \<Rightarrow> bool" where
  "tokenMatches token name =
     (if isGlobPattern token then Match token [] \<noteq> None \<and> Match token name = Some True
      else token = name)"

lemma matchesAny_iff: "matchesAny ps name \<longleftrightarrow> (\<exists>p\<in>set ps. Match p name = Some True)"
  by (induction ps) (auto split: option.split)

lemma Disabled_addToken:
  "Disabled (addToken raw flt) name \<longleftrightarrow>
    Disabled flt name \<or> trimSpace raw \<noteq> [] \<and> tokenMatches (trimSpace raw) name"
  by (auto simp: addToken_def Let_def Disabled_def tokenMatches_def matchesAny_iff split: option.splits)

lemma Disabled_fold:
  "Disabled (fold addToken raws flt) name \<longleftrightarrow>
    Disabled flt name \<or> (\<exists>t \<in> set (filter (\<lambda>t. t \<noteq> []) (map trimSpace raws)). tokenMatches t name)"
  by (induction raws arbitrary: flt) (auto simp: Disabled_addToken)

lemma NewMetricFilter_Disabled:
  "Disabled (NewMetricFilter env) name \<longleftrightarrow> (\<exists>t \<in> set (disabledTokens env). tokenMatches t name)"
proof -
  have empty: "\<not> Disabled \<lparr>exact = {}, patterns = []\<rparr> name"
    by (simp add: Disabled_def)
  show ?thesis
  proof (cases "env ''SONIC_DISABLED_METRICS''")
    case None
    with empty show ?thesis by (simp add: NewMetricFilter_def disabledTokens_def)
  next
    case (Some v)
    with empty show ?thesis
      by (simp add: NewMetricFilter_def disabledTokens_def Disabled_fold del: filter_map)
  qed
qed



lemma Enabled_empty: "env ''SONIC_DISABLED_METRICS'' = None \<Longrightarrow> Enabled (NewMetricFilter env) name"
  by (simp add: Enabled_def NewMetricFilter_Disabled disabledTokens_def)

subsection \<open>Properties of the filter\<close>



end
