(* ===== verification/Metrics.thy ===== *)
theory Metrics
  imports MetricFilter
begin

text \<open>
  What the collectors hand to the Prometheus client library: metric descriptions and constant
  metrics. The library is not in the repository. Of \<^verbatim>\<open>NewDesc(BuildFQName(ns, sub, name), help,
  labels, nil)\<close> a description keeps the arguments; of \<^verbatim>\<open>MustNewConstMetric\<close> the model uses what
  its documentation says: it panics unless there is one value for every variable label and the
  library takes the values. Which values it takes is the parameter \<open>labelOk\<close>.
\<close>

datatype valueType = CounterValue | GaugeValue

record desc =
  d_namespace :: string
  d_subsystem :: string
  d_name :: string
  d_help :: string
  d_labels :: "string list"

record metric =
  m_desc :: desc
  m_type :: valueType
  m_value :: f64
  m_labels :: "string list"

definition NewDesc :: "string \<Rightarrow> string \<Rightarrow> string \<Rightarrow> string \<Rightarrow> string list \<Rightarrow> desc" where
  "NewDesc ns sub name help labels =
     \<lparr>d_namespace = ns, d_subsystem = sub, d_name = name, d_help = help, d_labels = labels\<rparr>"

definition constMetric :: "desc \<Rightarrow> valueType \<Rightarrow> f64 \<Rightarrow> string list \<Rightarrow> metric" where
  "constMetric d t v ls = \<lparr>m_desc = d, m_type = t, m_value = v, m_labels = ls\<rparr>"

definition MustNewConstMetric ::
  "(string \<Rightarrow> bool) \<Rightarrow> desc \<Rightarrow> valueType \<Rightarrow> f64 \<Rightarrow> string list \<Rightarrow> ('w, metric) io" where
  "MustNewConstMetric labelOk d t v ls =
     (if length ls = length (d_labels d) \<and> list_all labelOk ls
      then io_return (constMetric d t v ls)
      else (\<lambda>w. (Panic ''MustNewConstMetric'', w)))"

text \<open>\<^verbatim>\<open>if guard { metrics = append(metrics, MustNewConstMetric(...)) }\<close>, and the same with a
  parsed value, \<^verbatim>\<open>if value, ok := parse(x); ok && guard\<close>.\<close>

definition emit :: "bool \<Rightarrow> ('w, metric) io \<Rightarrow> metric list \<Rightarrow> ('w, metric list) io" where
  "emit guard mk ms = (if guard then io_bind mk (\<lambda>m. io_return (ms @ [m])) else io_return ms)"

definition emitValue ::
  "f64 option \<Rightarrow> bool \<Rightarrow> (f64 \<Rightarrow> ('w, metric) io) \<Rightarrow> metric list \<Rightarrow> ('w, metric list) io" where
  "emitValue parsed guard mk ms =
     (case parsed of None \<Rightarrow> io_return ms | Some v \<Rightarrow> emit guard (mk v) ms)"

text \<open>The library that takes every label value.\<close>

abbreviation anyLabel :: "string \<Rightarrow> bool" where "anyLabel \<equiv> \<lambda>_. True"

subsection \<open>Well-formed output\<close>

text \<open>The name the documented \<^verbatim>\<open>BuildFQName\<close> gives to three non-empty components.\<close>

definition fqName :: "desc \<Rightarrow> string" where
  "fqName d = d_namespace d @ ''_'' @ d_subsystem d @ ''_'' @ d_name d"

text \<open>
  A metric a collector may send: its description is one the collector announces in \<open>Describe\<close>,
  the filter lets its name through, it has a value for every label, and the library takes them.
\<close>

definition goodMetric :: "(string \<Rightarrow> bool) \<Rightarrow> metricFilter \<Rightarrow> desc list \<Rightarrow> metric \<Rightarrow> bool" where
  "goodMetric labelOk flt descs m =
     (m_desc m \<in> set descs \<and> Enabled flt (fqName (m_desc m)) \<and>
      length (m_labels m) = length (d_labels (m_desc m)) \<and> list_all labelOk (m_labels m))"

text \<open>The identity of a time series.\<close>

definition series :: "metric \<Rightarrow> string \<times> string list" where
  "series m = (fqName (m_desc m), m_labels m)"

named_theorems desc_defs \<open>the descriptions of the collectors\<close>

lemma fqName_NewDesc [simp]: "fqName (NewDesc ns sub name help labels) = ns @ ''_'' @ sub @ ''_'' @ name"
  by (simp add: fqName_def NewDesc_def)

lemma d_labels_NewDesc [simp]: "d_labels (NewDesc ns sub name help labels) = labels"
  by (simp add: NewDesc_def)

lemma constMetric_sel [simp]:
  "m_desc (constMetric d t v ls) = d" "m_value (constMetric d t v ls) = v"
  "m_labels (constMetric d t v ls) = ls" "m_type (constMetric d t v ls) = t"
  by (simp_all add: constMetric_def)

lemma series_constMetric [simp]: "series (constMetric d t v ls) = (fqName d, ls)"
  by (simp add: series_def)

lemma post_MustNew:
  "(length ls = length (d_labels d) \<Longrightarrow> list_all labelOk ls \<Longrightarrow> P (constMetric d t v ls)) \<Longrightarrow>
    post (MustNewConstMetric labelOk d t v ls) P"
  by (simp add: MustNewConstMetric_def post_def io_return_def)

lemma post_emit:
  "(b \<Longrightarrow> post mk (\<lambda>m. P (ms @ [m]))) \<Longrightarrow> (\<not> b \<Longrightarrow> P ms) \<Longrightarrow> post (emit b mk ms) P"
  by (auto simp: emit_def intro: post_bind post_return)

lemma post_emit_all [post_rules]:
  "list_all P ms \<Longrightarrow> (b \<Longrightarrow> post mk P) \<Longrightarrow> post (emit b mk ms) (list_all P)"
  by (rule post_emit) (auto elim: post_mono)

lemma post_emitValue_all [post_rules]:
  "list_all P ms \<Longrightarrow> (\<And>v. p = Some v \<Longrightarrow> b \<Longrightarrow> post (mk v) P) \<Longrightarrow> post (emitValue p b mk ms) (list_all P)"
  by (auto simp: emitValue_def intro: post_return post_emit_all split: option.split)

lemma post_good [post_rules]:
  "d \<in> set descs \<Longrightarrow> Enabled flt (fqName d) \<Longrightarrow>
    post (MustNewConstMetric labelOk d t v ls) (goodMetric labelOk flt descs)"
  by (rule post_MustNew) (simp add: goodMetric_def)

lemma post_bind_emit:
  assumes "list_all (goodMetric labelOk flt descs) ms"
    and "b \<Longrightarrow> post mk (goodMetric labelOk flt descs)"
    and "\<And>r. list_all (goodMetric labelOk flt descs) r \<Longrightarrow> post (f r) Q"
  shows "post (io_bind (emit b mk ms) f) Q"
  using post_emit_all [OF assms(1,2)] assms(3) by (rule post_bind)

lemma post_bind_emitValue:
  assumes "list_all (goodMetric labelOk flt descs) ms"
    and "\<And>v. p = Some v \<Longrightarrow> b \<Longrightarrow> post (mk v) (goodMetric labelOk flt descs)"
    and "\<And>r. list_all (goodMetric labelOk flt descs) r \<Longrightarrow> post (f r) Q"
  shows "post (io_bind (emitValue p b mk ms) f) Q"
  using post_emitValue_all [OF assms(1,2)] assms(3) by (rule post_bind)

lemma keeps_MustNew [keeps_rules]: "keeps I (MustNewConstMetric labelOk d t v ls)"
  by (simp add: MustNewConstMetric_def keeps_def io_return_def)

lemma keeps_emit [keeps_rules]: "keeps I mk \<Longrightarrow> keeps I (emit b mk ms)"
  by (auto simp: emit_def intro!: keeps_rules)

lemma keeps_emitValue [keeps_rules]: "(\<And>v. keeps I (mk v)) \<Longrightarrow> keeps I (emitValue p b mk ms)"
  by (auto simp: emitValue_def intro!: keeps_rules split: option.split)

lemma yields_MustNew:
  "length ls = length (d_labels d) \<Longrightarrow> list_all labelOk ls \<Longrightarrow>
    yields I (MustNewConstMetric labelOk d t v ls) (constMetric d t v ls)"
  by (simp add: MustNewConstMetric_def yields_return)

lemma yields_emit:
  "(b \<Longrightarrow> yields I mk m) \<Longrightarrow> yields I (emit b mk ms) (ms @ (if b then [m] else []))"
  by (auto simp: emit_def intro: yields_bind yields_return)

lemma yields_bind_emit:
  assumes "b \<Longrightarrow> length ls = length (d_labels d)" "yields I (f (ms @ (if b then [constMetric d t v ls] else []))) r"
  shows "yields I (io_bind (emit b (MustNewConstMetric anyLabel d t v ls) ms) f) r"
proof (rule yields_bind)
  show "yields I (emit b (MustNewConstMetric anyLabel d t v ls) ms) (ms @ (if b then [constMetric d t v ls] else []))"
    by (rule yields_emit) (simp add: yields_MustNew assms(1) list.pred_True)
qed (rule assms(2))

definition optMetric :: "f64 option \<Rightarrow> bool \<Rightarrow> (f64 \<Rightarrow> metric) \<Rightarrow> metric list" where
  "optMetric p b f = (case p of None \<Rightarrow> [] | Some v \<Rightarrow> if b then [f v] else [])"

lemma in_optMetric: "m \<in> set (optMetric p b f) \<longleftrightarrow> b \<and> (\<exists>v. p = Some v \<and> m = f v)"
  by (auto simp: optMetric_def split: option.splits if_splits)

lemma distinct_optMetric: "distinct (map g (optMetric p b f))"
  by (auto simp: optMetric_def split: option.splits)

lemma yields_emitValue:
  "(\<And>v. b \<Longrightarrow> yields I (mk v) (f v)) \<Longrightarrow> yields I (emitValue p b mk ms) (ms @ optMetric p b f)"
  using yields_return [of I ms] yields_emit [of b I]
  by (auto simp: emitValue_def optMetric_def split: option.split)

lemma yields_bind_emitValue:
  assumes "length ls = length (d_labels d)"
    and "yields I (f (ms @ optMetric p b (\<lambda>v. constMetric d t v ls))) r"
  shows "yields I (io_bind (emitValue p b (\<lambda>v. MustNewConstMetric anyLabel d t v ls) ms) f) r"
proof (rule yields_bind)
  show "yields I (emitValue p b (\<lambda>v. MustNewConstMetric anyLabel d t v ls) ms)
      (ms @ optMetric p b (\<lambda>v. constMetric d t v ls))"
    by (rule yields_emitValue) (simp add: yields_MustNew assms(1) list.pred_True)
qed (rule assms(2))

subsection \<open>Names that do not clash\<close>

text \<open>The part of a metric name that tells the collectors apart: the first word after the namespace.\<close>

definition subsystemOf :: "string \<Rightarrow> string" where
  "subsystemOf name = takeWhile (\<lambda>c. c \<noteq> CHR ''_'') (drop (length ''sonic_'') name)"

definition ownNames :: "string \<Rightarrow> desc list \<Rightarrow> bool" where
  "ownNames subsystem descs =
     (distinct (map fqName descs) \<and> list_all (\<lambda>d. distinct (d_labels d)) descs \<and>
      list_all (\<lambda>d. subsystemOf (fqName d) = subsystem) descs)"

lemma ownNames_distinct:
  assumes "\<And>s ds. (s, ds) \<in> set all \<Longrightarrow> ownNames s ds" "distinct (map fst all)"
  shows "distinct (map fqName (concat (map snd all)))"
  using assms
proof (induction all)
  case (Cons x all)
  obtain s ds where x: "x = (s, ds)" by (cases x)
  have "subsystemOf (fqName d) = s" if "d \<in> set ds" for d
    using Cons.prems(1) [of s ds] that by (simp add: x ownNames_def list_all_iff)
  moreover have "subsystemOf (fqName d) \<noteq> s" if "(s', ds') \<in> set all" "d \<in> set ds'" for s' ds' d
    using Cons.prems(1) [of s' ds'] Cons.prems(2) that by (force simp: x ownNames_def list_all_iff)
  moreover have "distinct (map fqName ds)"
    using Cons.prems(1) [of s ds] by (simp add: x ownNames_def)
  moreover have "distinct (map fqName (concat (map snd all)))"
    by (rule Cons.IH) (use Cons.prems in auto)
  ultimately show ?case by (fastforce simp: x)
qed simp

subsection \<open>The health gauges every \<open>Collect\<close> ends with\<close>

definition gauges :: "metricFilter \<Rightarrow> (desc \<times> f64) list \<Rightarrow> metric list" where
  "gauges flt dvs =
     map (\<lambda>(d, v). constMetric d GaugeValue v []) (filter (\<lambda>(d, v). Enabled flt (fqName d)) dvs)"

lemma yields_gauge:
  assumes "fqName d = name" "d_labels d = []"
  shows "yields I (emit (Enabled flt name) (MustNewConstMetric labelOk d GaugeValue v []) ms)
           (ms @ gauges flt [(d, v)])"
  using yields_emit [of "Enabled flt name" I "MustNewConstMetric labelOk d GaugeValue v []"
      "constMetric d GaugeValue v []" ms] yields_MustNew [of "[]" d labelOk I GaugeValue v] assms
  by (auto simp: gauges_def)

lemma yields_bind_gauge:
  assumes "fqName d = name" "d_labels d = []" "yields I (f (ms @ gauges flt [(d, v)])) r"
  shows "yields I (io_bind (emit (Enabled flt name) (MustNewConstMetric labelOk d GaugeValue v []) ms) f) r"
  using yields_gauge [OF assms(1,2)] assms(3) by (rule yields_bind)

lemma gauges_append: "(ms @ gauges flt xs) @ gauges flt ys = ms @ gauges flt (xs @ ys)"
  by (simp add: gauges_def)

lemma gauges_good:
  "(\<And>d v. (d, v) \<in> set dvs \<Longrightarrow> d \<in> set descs \<and> d_labels d = []) \<Longrightarrow>
    list_all (goodMetric labelOk flt descs) (gauges flt dvs)"
  by (fastforce simp: list_all_iff gauges_def goodMetric_def)

lemma gauges_names: "(fqName (m_desc m)) \<in> (fqName \<circ> fst) ` set dvs" if "m \<in> set (gauges flt dvs)"
  using that by (force simp: gauges_def)

subsection \<open>Series that differ by their names\<close>

text \<open>Groups of metrics whose names carry different tags have no time series in common.\<close>

definition seriesTagged :: "(string \<Rightarrow> 't) \<Rightarrow> 't \<Rightarrow> metric list \<Rightarrow> bool" where
  "seriesTagged tag t ms = (distinct (map series ms) \<and> list_all (\<lambda>m. tag (fqName (m_desc m)) = t) ms)"

lemma seriesTagged_concat:
  assumes "list_all (\<lambda>(t, ms). seriesTagged tag t ms) gs" "distinct (map fst gs)"
  shows "distinct (map series (concat (map snd gs)))"
proof -
  have "distinct (concat (map (map series) (map snd gs))) \<and>
      (tag \<circ> fst) ` set (concat (map (map series) (map snd gs))) \<subseteq> set (map fst gs)"
    using assms
  proof (induction gs)
    case (Cons g gs)
    obtain t ms where g: "g = (t, ms)" by (cases g)
    let ?rest = "concat (map (map series) (map snd gs))"
    have IH: "distinct ?rest" "(tag \<circ> fst) ` set ?rest \<subseteq> set (map fst gs)" "t \<notin> set (map fst gs)"
      using Cons by (simp_all add: g)
    have own: "distinct (map series ms)" "(tag \<circ> fst) ` set (map series ms) \<subseteq> {t}"
      using Cons.prems by (auto simp: g seriesTagged_def list_all_iff series_def)
    have apart: "x \<notin> set ?rest" if "x \<in> set (map series ms)" for x
    proof
      assume "x \<in> set ?rest"
      then have "(tag \<circ> fst) x \<in> set (map fst gs)" using IH(2) by blast
      moreover have "(tag \<circ> fst) x = t" using own(2) that by blast
      ultimately show False using IH(3) by simp
    qed
    have "distinct (map series ms @ ?rest)"
      using IH(1) own(1) apart by (simp only: distinct_append) blast
    moreover have "(tag \<circ> fst) ` set (map series ms @ ?rest) \<subseteq> insert t (set (map fst gs))"
      using IH(2) own(2) by (simp only: set_append image_Un) blast
    ultimately show ?case by (simp only: g list.map concat.simps fst_conv snd_conv list.set)
  qed simp
  then show ?thesis by (simp add: map_concat o_def)
qed

lemma seriesTagged_if: "seriesTagged tag t ms \<Longrightarrow> seriesTagged tag t (if b then ms else [])"
  by (simp add: seriesTagged_def)

lemma seriesTagged_one: "tag (fqName d) = t \<Longrightarrow> seriesTagged tag t [constMetric d ty v ls]"
  by (simp add: seriesTagged_def)

lemma seriesTagged_own:
  "distinct (map series ms) \<Longrightarrow> list_all (goodMetric labelOk flt descs) ms \<Longrightarrow> ownNames s descs \<Longrightarrow>
    seriesTagged subsystemOf s ms"
  by (auto simp: seriesTagged_def list_all_iff goodMetric_def ownNames_def)

end
