(* ===== verification/RedisClient.thy ===== *)
theory RedisClient
  imports Effects "HOL-Library.Word"
begin

text \<open>
  \<^verbatim>\<open>pkg/redis/client.go\<close>: the client every collector reads Redis through. The go-redis
  library, the environment reader and the Redis server behind them are not in the repository:
  they are the parameter \<open>redisLib\<close>, functions on an abstract server state \<open>'s\<close>, so a server
  may answer differently, or fail, at every call. The client's map of open connections is the
  world's \<open>databases\<close>; a connection is the options it was opened with.
\<close>

record redisConfig =
  cfg_Address :: string
  cfg_Password :: string
  cfg_Network :: string

record redisOptions =
  opt_Network :: string
  opt_Addr :: string
  opt_Password :: string
  opt_DB :: int

record 's redisLib =
  readEnv :: "'s \<Rightarrow> goerr + redisConfig"
  hGetAll :: "redisOptions \<Rightarrow> string \<Rightarrow> 's \<Rightarrow> (goerr + fields) \<times> 's"
  keysCmd :: "redisOptions \<Rightarrow> string \<Rightarrow> 's \<Rightarrow> (goerr + string list) \<times> 's"
  scanCmd :: "redisOptions \<Rightarrow> 64 word \<Rightarrow> string \<Rightarrow> int \<Rightarrow> 's \<Rightarrow> (goerr + string list \<times> 64 word) \<times> 's"
  hSetCmd :: "redisOptions \<Rightarrow> string \<Rightarrow> fields \<Rightarrow> 's \<Rightarrow> 's"
  closeCmd :: "redisOptions \<Rightarrow> 's \<Rightarrow> goerr option \<times> 's"

record 's world =
  server :: 's
  databases :: "(string \<times> redisOptions) list"

type_synonym ('s, 'a) rio = "('s world, 'a) io"

definition RedisDbId :: "string \<Rightarrow> int option" where
  "RedisDbId name =
     (if name = ''APPL_DB'' then Some 0
      else if name = ''COUNTERS_DB'' then Some 2
      else if name = ''ASIC_DB'' then Some 1
      else if name = ''CONFIG_DB'' then Some 4
      else if name = ''STATE_DB'' then Some 6
      else None)"

definition NewClient :: "'s redisLib \<Rightarrow> ('s, redisConfig) rio" where
  "NewClient lib =
     (\<lambda>w. case readEnv lib (server w) of
        Inl e \<Rightarrow> (Fail (Errorf ''failed to read redis config'' []), w)
      | Inr cfg \<Rightarrow> (Ok cfg, w\<lparr>databases := []\<rparr>))"

definition connect :: "redisConfig \<Rightarrow> string \<Rightarrow> ('s, unit) rio" where
  "connect cfg dbName =
     (case RedisDbId dbName of
        Some dbId \<Rightarrow>
          (\<lambda>w. (Ok (), w\<lparr>databases :=
             (dbName, \<lparr>opt_Network = cfg_Network cfg, opt_Addr = cfg_Address cfg,
                       opt_Password = cfg_Password cfg, opt_DB = dbId\<rparr>)
             # filter (\<lambda>d. fst d \<noteq> dbName) (databases w)\<rparr>))
      | None \<Rightarrow> io_fail (Errorf ''database not defined'' []))"

text \<open>The read \<^verbatim>\<open>c.databases[dbName]\<close> with its \<^verbatim>\<open>ok\<close> flag.\<close>

definition lookupDb :: "string \<Rightarrow> ('s, redisOptions option) rio" where
  "lookupDb dbName = (\<lambda>w. (Ok (map_of (databases w) dbName), w))"

definition selectClient :: "redisConfig \<Rightarrow> string \<Rightarrow> ('s, redisOptions) rio" where
  "selectClient cfg dbName =
     (case RedisDbId dbName of
        None \<Rightarrow> io_fail (Errorf ''database not defined'' [])
      | Some _ \<Rightarrow>
          io_bind (lookupDb dbName) (\<lambda>found.
            case found of
              Some client \<Rightarrow> io_return client
            | None \<Rightarrow>
                io_bind (connect cfg dbName) (\<lambda>_.
                  io_bind (lookupDb dbName) (\<lambda>again.
                    case again of Some client \<Rightarrow> io_return client
                    | None \<Rightarrow> (\<lambda>w. (Panic ''nil client'', w))))))"

text \<open>A command of the library: its answer is an error or a result, and the server moves on.\<close>

definition command :: "('s \<Rightarrow> (goerr + 'a) \<times> 's) \<Rightarrow> ('s, 'a) rio" where
  "command f =
     (\<lambda>w. case f (server w) of (r, s') \<Rightarrow>
        (case r of Inl e \<Rightarrow> Fail e | Inr x \<Rightarrow> Ok x, w\<lparr>server := s'\<rparr>))"

definition HgetAllFromDb :: "'s redisLib \<Rightarrow> redisConfig \<Rightarrow> string \<Rightarrow> string \<Rightarrow> ('s, fields) rio" where
  "HgetAllFromDb lib cfg dbName key =
     io_bind (selectClient cfg dbName) (\<lambda>client. command (hGetAll lib client key))"

definition HsetToDb :: "'s redisLib \<Rightarrow> redisConfig \<Rightarrow> string \<Rightarrow> string \<Rightarrow> fields \<Rightarrow> ('s, unit) rio" where
  "HsetToDb lib cfg dbName key data =
     io_bind (selectClient cfg dbName)
       (\<lambda>client. command (\<lambda>s. (Inr (), hSetCmd lib client key data s)))"

definition KeysFromDb :: "'s redisLib \<Rightarrow> redisConfig \<Rightarrow> string \<Rightarrow> string \<Rightarrow> ('s, string list) rio" where
  "KeysFromDb lib cfg dbName pattern =
     io_bind (selectClient cfg dbName) (\<lambda>client. command (keysCmd lib client pattern))"

text \<open>The cursor loop; \<open>None\<close> is a loop that never meets cursor 0 nor an error.\<close>

partial_function (option) scanLoop ::
  "'s redisLib \<Rightarrow> redisOptions \<Rightarrow> string \<Rightarrow> int \<Rightarrow> 64 word \<Rightarrow> string list \<Rightarrow> 's
     \<Rightarrow> ((goerr + string list) \<times> 's) option" where
  "scanLoop lib client pattern count cursor keys s =
     (case scanCmd lib client cursor pattern count s of
        (Inl e, s') \<Rightarrow> Some (Inl e, s')
      | (Inr (scannedKeys, nextCursor), s') \<Rightarrow>
          if nextCursor = 0 then Some (Inr (keys @ scannedKeys), s')
          else scanLoop lib client pattern count nextCursor (keys @ scannedKeys) s')"

definition ScanKeysFromDb ::
  "'s redisLib \<Rightarrow> redisConfig \<Rightarrow> string \<Rightarrow> string \<Rightarrow> int \<Rightarrow> ('s, string list) rio" where
  "ScanKeysFromDb lib cfg dbName pattern count =
     io_bind (selectClient cfg dbName)
       (\<lambda>client w. case scanLoop lib client pattern count 0 [] (server w) of
          None \<Rightarrow> (Hang, w)
        | Some (Inl e, s') \<Rightarrow> (Fail e, w\<lparr>server := s'\<rparr>)
        | Some (Inr keys, s') \<Rightarrow> (Ok keys, w\<lparr>server := s'\<rparr>))"

text \<open>\<^verbatim>\<open>Close\<close>: every connection is closed (an error is only logged) and deleted from the map.\<close>

primrec closeAll :: "'s redisLib \<Rightarrow> (string \<times> redisOptions) list \<Rightarrow> 's world \<Rightarrow> 's world" where
  "closeAll lib [] w = w"
| "closeAll lib (d # ds) w =
     closeAll lib ds
       (w\<lparr>server := snd (closeCmd lib (snd d) (server w)),
          databases := filter (\<lambda>e. fst e \<noteq> fst d) (databases w)\<rparr>)"

definition Close :: "'s redisLib \<Rightarrow> 's world \<Rightarrow> 's world" where
  "Close lib w = closeAll lib (databases w) w"

text \<open>The opening of every scrape: \<^verbatim>\<open>redis.NewClient()\<close>, its error wrapped, \<^verbatim>\<open>defer Close()\<close>.\<close>

definition withRedis :: "'s redisLib \<Rightarrow> (redisConfig \<Rightarrow> ('s, 'a) rio) \<Rightarrow> ('s, 'a) rio" where
  "withRedis lib body =
     io_bind (io_wrap ''redis client initialization failed: %w'' [] (NewClient lib))
       (\<lambda>cfg. io_defer (Close lib) (body cfg))"

text \<open>
  The specification of a scan: the pages a run of the cursor protocol fetches, from the cursor it
  starts at to the page whose next cursor is 0.
\<close>

inductive scanRun ::
  "'s redisLib \<Rightarrow> redisOptions \<Rightarrow> string \<Rightarrow> int \<Rightarrow> 64 word \<Rightarrow> 's \<Rightarrow> string list list \<Rightarrow> 's \<Rightarrow> bool"
  for lib client pattern count where
  last_page: "scanCmd lib client cursor pattern count s = (Inr (ks, 0), s') \<Longrightarrow>
     scanRun lib client pattern count cursor s [ks] s'"
| next_page: "scanCmd lib client cursor pattern count s = (Inr (ks, c), s1) \<Longrightarrow> c \<noteq> 0 \<Longrightarrow>
     scanRun lib client pattern count c s1 pages s' \<Longrightarrow>
     scanRun lib client pattern count cursor s (ks # pages) s'"

lemma scanRun_loop:
  "scanRun lib client pattern count cursor s pages s' \<Longrightarrow>
    scanLoop lib client pattern count cursor keys s = Some (Inr (keys @ concat pages), s')"
  by (induction arbitrary: keys rule: scanRun.induct) (simp_all add: scanLoop.simps)

definition pagesOk where
  "pagesOk lib client pattern count cursor keys s y =
     (\<forall>out. fst y = Inr out \<longrightarrow>
       (\<exists>pages. scanRun lib client pattern count cursor s pages (snd y) \<and> out = keys @ concat pages))"

lemma pagesOk_step:
  assumes rec: "\<And>lib client pattern count cursor keys s y.
      loop lib client pattern count cursor keys s = Some y \<Longrightarrow>
      pagesOk lib client pattern count cursor keys s y"
    and eq: "(case scanCmd lib client cursor pattern count s of
        (Inl e, s') \<Rightarrow> Some (Inl e, s')
      | (Inr (scannedKeys, nextCursor), s') \<Rightarrow>
          if nextCursor = 0 then Some (Inr (keys @ scannedKeys), s')
          else loop lib client pattern count nextCursor (keys @ scannedKeys) s') = Some y"
  shows "pagesOk lib client pattern count cursor keys s y"
proof (cases "scanCmd lib client cursor pattern count s")
  case (Pair r s1)
  show ?thesis
  proof (cases r)
    case (Inl e)
    then show ?thesis using eq Pair by (auto simp: pagesOk_def)
  next
    case (Inr page)
    obtain ks c where page: "page = (ks, c)"
      by (cases page)
    show ?thesis
    proof (cases "c = 0")
      case True
      then show ?thesis
        using eq Pair Inr page
        by (auto simp: pagesOk_def intro!: exI [of _ "[ks]"] scanRun.last_page)
    next
      case False
      then have "loop lib client pattern count c (keys @ ks) s1 = Some y"
        using eq Pair Inr page by simp
      from rec [OF this] show ?thesis
        unfolding pagesOk_def
        using False Pair Inr page
        by (metis append_assoc concat.simps(2) scanRun.next_page)
    qed
  qed
qed

lemma scanLoop_pages:
  "scanLoop lib client pattern count cursor keys s = Some y \<Longrightarrow>
    pagesOk lib client pattern count cursor keys s y"
  by (rule scanLoop.raw_induct [where P = pagesOk]) (rule pagesOk_step)

lemma scanLoop_ok_iff:
  "scanLoop lib client pattern count cursor keys s = Some (Inr out, s') \<longleftrightarrow>
    (\<exists>pages. scanRun lib client pattern count cursor s pages s' \<and> out = keys @ concat pages)"
  using scanLoop_pages [of lib client pattern count cursor keys s "(Inr out, s')"] scanRun_loop
  by (fastforce simp: pagesOk_def)

text \<open>
  The context deadline, as its documentation puts it: every answered scan uses up some of the
  time left, so there are only finitely many before the library fails with the context's error.
\<close>

definition scanDeadline :: "'s redisLib \<Rightarrow> ('s \<Rightarrow> nat) \<Rightarrow> bool" where
  "scanDeadline lib left =
     (\<forall>client cursor pattern count s page s'.
        scanCmd lib client cursor pattern count s = (Inr page, s') \<longrightarrow> left s' < left s)"

lemma scanLoop_returns:
  assumes "scanDeadline lib left"
  shows "\<exists>y. scanLoop lib client pattern count cursor keys s = Some y"
proof (induction "left s" arbitrary: cursor keys s rule: less_induct)
  case less
  obtain r s1 where eq: "scanCmd lib client cursor pattern count s = (r, s1)"
    by fastforce
  have "left s1 < left s" if "r = Inr page" for page
    using assms eq that unfolding scanDeadline_def by metis
  then show ?case
    using less.hyps eq by (subst scanLoop.simps) (auto split: sum.split)
qed

subsection \<open>The handles\<close>

definition optionsFor :: "redisConfig \<Rightarrow> int \<Rightarrow> redisOptions" where
  "optionsFor cfg dbId =
     \<lparr>opt_Network = cfg_Network cfg, opt_Addr = cfg_Address cfg,
      opt_Password = cfg_Password cfg, opt_DB = dbId\<rparr>"

text \<open>
  The invariant of \<^verbatim>\<open>Client.databases\<close>: one handle a name, each opened with the client's own
  configuration on the database number of its name.
\<close>

definition handlesOk :: "redisConfig \<Rightarrow> 's world \<Rightarrow> bool" where
  "handlesOk cfg w =
     (distinct (map fst (databases w)) \<and>
      (\<forall>(name, opts) \<in> set (databases w). \<exists>dbId. RedisDbId name = Some dbId \<and> opts = optionsFor cfg dbId))"

lemma handlesOk_empty [simp]: "databases w = [] \<Longrightarrow> handlesOk cfg w"
  by (simp add: handlesOk_def)

lemma handlesOk_server [simp]: "handlesOk cfg (w\<lparr>server := s\<rparr>) = handlesOk cfg w"
  by (simp add: handlesOk_def)

lemma handlesOk_lookup:
  "handlesOk cfg w \<Longrightarrow> map_of (databases w) name = Some opts \<Longrightarrow> RedisDbId name = Some dbId \<Longrightarrow>
    opts = optionsFor cfg dbId"
  by (drule map_of_SomeD) (fastforce simp: handlesOk_def)

lemma selectClient_ok:
  assumes "handlesOk cfg w" "RedisDbId name = Some dbId"
  shows "\<exists>w'. selectClient cfg name w = (Ok (optionsFor cfg dbId), w') \<and> handlesOk cfg w'
           \<and> server w' = server w"
proof (cases "map_of (databases w) name")
  case None
  then have "name \<notin> fst ` set (databases w)"
    by (simp add: map_of_eq_None_iff)
  then have "filter (\<lambda>d. fst d \<noteq> name) (databases w) = databases w"
    by (auto intro!: filter_True)
  with None assms show ?thesis
    by (auto simp: selectClient_def connect_def lookupDb_def io_bind_def io_return_def optionsFor_def
        handlesOk_def)
next
  case (Some opts)
  with assms handlesOk_lookup show ?thesis
    by (fastforce simp: selectClient_def lookupDb_def io_bind_def io_return_def)
qed

lemma selectClient_unknown:
  "RedisDbId name = None \<Longrightarrow> selectClient cfg name w = (Fail (Errorf ''database not defined'' []), w)"
  by (simp add: selectClient_def io_fail_def)

text \<open>Any operation: choose the handle, then run one computation of the library on it.\<close>

lemma with_client:
  assumes "handlesOk cfg w" "RedisDbId name = Some dbId"
  shows "\<exists>w1. io_bind (selectClient cfg name) f w = f (optionsFor cfg dbId) w1 \<and> handlesOk cfg w1
           \<and> server w1 = server w"
proof -
  obtain w1 where "selectClient cfg name w = (Ok (optionsFor cfg dbId), w1)" "handlesOk cfg w1"
    "server w1 = server w"
    using selectClient_ok [OF assms] by blast
  then show ?thesis by (intro exI [of _ w1]) (simp add: io_bind_def)
qed

lemma keeps_selectClient [keeps_rules]: "keeps (handlesOk cfg) (selectClient cfg name)"
proof (cases "RedisDbId name")
  case None
  then show ?thesis by (simp add: keeps_def selectClient_unknown)
next
  case (Some dbId)
  show ?thesis
    unfolding keeps_def using selectClient_ok [OF _ Some] by (metis snd_conv)
qed

lemma keeps_command [keeps_rules]: "keeps (handlesOk cfg) (command f)"
  by (simp add: keeps_def command_def split: prod.split)

lemma keeps_HgetAll [keeps_rules]: "keeps (handlesOk cfg) (HgetAllFromDb lib cfg name key)"
  by (simp add: HgetAllFromDb_def keeps_rules)

lemma keeps_Hset [keeps_rules]: "keeps (handlesOk cfg) (HsetToDb lib cfg name key data)"
  by (simp add: HsetToDb_def keeps_rules)

lemma keeps_Keys [keeps_rules]: "keeps (handlesOk cfg) (KeysFromDb lib cfg name pattern)"
  by (simp add: KeysFromDb_def keeps_rules)

lemma keeps_ScanKeys [keeps_rules]: "keeps (handlesOk cfg) (ScanKeysFromDb lib cfg name pattern count)"
  unfolding ScanKeysFromDb_def
  by (intro keeps_rules) (auto simp: keeps_def split: option.split sum.split)

lemma closeAll_eq:
  "closeAll lib ds w =
     w\<lparr>server := fold (\<lambda>d s. snd (closeCmd lib (snd d) s)) ds (server w),
       databases := filter (\<lambda>e. fst e \<notin> fst ` set ds) (databases w)\<rparr>"
proof (induction ds arbitrary: w)
  case Nil
  then show ?case by simp
next
  case (Cons d ds)
  have "filter (\<lambda>e. fst e \<notin> fst ` set ds) (filter (\<lambda>e. fst e \<noteq> fst d) (databases w)) =
      filter (\<lambda>e. fst e \<notin> fst ` set (d # ds)) (databases w)"
    by (auto intro: filter_cong)
  then show ?case by (simp only: closeAll.simps Cons.IH) simp
qed

lemma Close_eq:
  "Close lib w =
     w\<lparr>server := fold (\<lambda>d s. snd (closeCmd lib (snd d) s)) (databases w) (server w), databases := []\<rparr>"
  by (simp add: Close_def closeAll_eq filter_empty_conv)

subsection \<open>What the operations promise\<close>

lemma ScanKeys_result:
  assumes "handlesOk cfg w" "RedisDbId name = Some dbId"
  shows "fst (ScanKeysFromDb lib cfg name pattern count w) =
     (case scanLoop lib (optionsFor cfg dbId) pattern count 0 [] (server w) of
        None \<Rightarrow> Hang | Some (Inl e, _) \<Rightarrow> Fail e | Some (Inr keys, _) \<Rightarrow> Ok keys)"
  unfolding ScanKeysFromDb_def
  using with_client [OF assms, of "\<lambda>client w. case scanLoop lib client pattern count 0 [] (server w) of
          None \<Rightarrow> (Hang, w)
        | Some (Inl e, s') \<Rightarrow> (Fail e, w\<lparr>server := s'\<rparr>)
        | Some (Inr keys, s') \<Rightarrow> (Ok keys, w\<lparr>server := s'\<rparr>)"]
  by (auto split: option.split sum.split prod.split)

lemma withRedis_closed:
  assumes "withRedis lib body w = (r, w')" "r \<noteq> Hang" "databases w = []"
  shows "databases w' = []"
proof (cases "readEnv lib (server w)")
  case (Inl e)
  then show ?thesis
    using assms by (auto simp: withRedis_def io_bind_def io_wrap_def NewClient_def)
next
  case (Inr cfg)
  then show ?thesis
    using assms
    by (auto simp: withRedis_def io_bind_def io_wrap_def NewClient_def io_defer_def Close_eq
        split: prod.splits outcome.splits)
qed

lemma post_withRedis [post_rules]: "(\<And>cfg. post (body cfg) P) \<Longrightarrow> post (withRedis lib body) P"
  unfolding withRedis_def by (intro post_rules)

text \<open>
  A server that does not change during a refresh: \<open>db\<close> is its content (database number, key), and
  \<open>scan\<close> what a complete scan of a pattern returns, in the order and with the repetitions the
  server chose.
\<close>

definition serves ::
  "'s redisLib \<Rightarrow> redisConfig \<Rightarrow> (int \<Rightarrow> string \<Rightarrow> fields) \<Rightarrow> (int \<Rightarrow> string \<Rightarrow> string list) \<Rightarrow> bool" where
  "serves lib cfg db scan =
     ((\<forall>s. readEnv lib s = Inr cfg) \<and>
      (\<forall>client key s. \<exists>s'. hGetAll lib client key s = (Inr (db (opt_DB client) key), s')) \<and>
      (\<forall>client pattern count s. \<exists>s'.
         scanLoop lib client pattern count 0 [] s = Some (Inr (scan (opt_DB client) pattern), s')))"

lemma opt_DB_optionsFor [simp]: "opt_DB (optionsFor cfg dbId) = dbId"
  by (simp add: optionsFor_def)

lemma yields_HgetAll:
  assumes "serves lib cfg db scan" "RedisDbId name = Some dbId"
  shows "yields (handlesOk cfg) (HgetAllFromDb lib cfg name key) (db dbId key)"
  unfolding yields_def
proof (intro allI impI)
  fix w :: "'a world"
  assume "handlesOk cfg w"
  from with_client [OF this assms(2)] obtain w1
    where w1: "HgetAllFromDb lib cfg name key w = command (hGetAll lib (optionsFor cfg dbId) key) w1"
      "handlesOk cfg w1"
    unfolding HgetAllFromDb_def by blast
  obtain s' where "hGetAll lib (optionsFor cfg dbId) key (server w1) = (Inr (db dbId key), s')"
    using assms(1) unfolding serves_def by (metis opt_DB_optionsFor)
  with w1 show "\<exists>w'. HgetAllFromDb lib cfg name key w = (Ok (db dbId key), w') \<and> handlesOk cfg w'"
    by (simp add: command_def)
qed

lemma yields_ScanKeys:
  assumes "serves lib cfg db scan" "RedisDbId name = Some dbId"
  shows "yields (handlesOk cfg) (ScanKeysFromDb lib cfg name pattern count) (scan dbId pattern)"
  unfolding yields_def
proof (intro allI impI)
  fix w :: "'a world"
  assume ok: "handlesOk cfg w"
  obtain s' where "scanLoop lib (optionsFor cfg dbId) pattern count 0 [] (server w) =
      Some (Inr (scan dbId pattern), s')"
    using assms(1) unfolding serves_def by (metis opt_DB_optionsFor)
  with ScanKeys_result [OF ok assms(2)]
  have "fst (ScanKeysFromDb lib cfg name pattern count w) = Ok (scan dbId pattern)"
    by simp
  moreover have "handlesOk cfg (snd (ScanKeysFromDb lib cfg name pattern count w))"
    using keepsD [OF keeps_ScanKeys ok] .
  ultimately show "\<exists>w'. ScanKeysFromDb lib cfg name pattern count w = (Ok (scan dbId pattern), w') \<and>
      handlesOk cfg w'"
    by (metis prod.collapse)
qed

text \<open>The same server's answers to \<^verbatim>\<open>KEYS\<close>.\<close>

definition servesKeys :: "'s redisLib \<Rightarrow> (int \<Rightarrow> string \<Rightarrow> string list) \<Rightarrow> bool" where
  "servesKeys lib keysOf =
     (\<forall>client pattern s. \<exists>s'. keysCmd lib client pattern s = (Inr (keysOf (opt_DB client) pattern), s'))"

lemma yields_Keys:
  assumes "servesKeys lib keysOf" "RedisDbId name = Some dbId"
  shows "yields (handlesOk cfg) (KeysFromDb lib cfg name pattern) (keysOf dbId pattern)"
  unfolding yields_def
proof (intro allI impI)
  fix w :: "'a world"
  assume "handlesOk cfg w"
  from with_client [OF this assms(2)] obtain w1
    where w1: "KeysFromDb lib cfg name pattern w = command (keysCmd lib (optionsFor cfg dbId) pattern) w1"
      "handlesOk cfg w1"
    unfolding KeysFromDb_def by blast
  obtain s' where "keysCmd lib (optionsFor cfg dbId) pattern (server w1) = (Inr (keysOf dbId pattern), s')"
    using assms(1) unfolding servesKeys_def by (metis opt_DB_optionsFor)
  with w1 show "\<exists>w'. KeysFromDb lib cfg name pattern w = (Ok (keysOf dbId pattern), w') \<and> handlesOk cfg w'"
    by (simp add: command_def)
qed

lemma withRedis_yields:
  assumes "serves lib cfg db scan" "yields (handlesOk cfg) (body cfg) x"
  shows "fst (withRedis lib body w) = Ok x"
proof -
  have "handlesOk cfg (w\<lparr>databases := []\<rparr>)"
    by simp
  then obtain w' where "body cfg (w\<lparr>databases := []\<rparr>) = (Ok x, w')"
    using assms(2) unfolding yields_def by blast
  moreover have "NewClient lib w = (Ok cfg, w\<lparr>databases := []\<rparr>)"
    using assms(1) by (simp add: NewClient_def serves_def)
  ultimately show ?thesis
    by (simp add: withRedis_def io_bind_def io_wrap_def io_defer_def)
qed

text \<open>
  Two concrete libraries: a server that never changes and answers a scan in one page, and one
  that answers as long as its time lasts and then fails with the context's error.
\<close>

definition staticLib ::
  "redisConfig \<Rightarrow> (int \<Rightarrow> string \<Rightarrow> fields) \<Rightarrow> (int \<Rightarrow> string \<Rightarrow> string list) \<Rightarrow> unit redisLib" where
  "staticLib cfg db scan =
     \<lparr>readEnv = (\<lambda>_. Inr cfg),
      hGetAll = (\<lambda>client key s. (Inr (db (opt_DB client) key), s)),
      keysCmd = (\<lambda>client pattern s. (Inr (scan (opt_DB client) pattern), s)),
      scanCmd = (\<lambda>client cursor pattern count s. (Inr (scan (opt_DB client) pattern, 0), s)),
      hSetCmd = (\<lambda>client key data s. s),
      closeCmd = (\<lambda>client s. (None, s))\<rparr>"

definition timedLib :: "redisConfig \<Rightarrow> nat redisLib" where
  "timedLib cfg =
     \<lparr>readEnv = (\<lambda>_. Inr cfg),
      hGetAll = (\<lambda>client key s. (Inl (Errorf ''context deadline exceeded'' []), s)),
      keysCmd = (\<lambda>client pattern s. (Inl (Errorf ''context deadline exceeded'' []), s)),
      scanCmd = (\<lambda>client cursor pattern count s.
         if s = 0 then (Inl (Errorf ''context deadline exceeded'' []), s)
         else (Inr ([''k''], 1), s - 1)),
      hSetCmd = (\<lambda>client key data s. s),
      closeCmd = (\<lambda>client s. (None, s))\<rparr>"

definition localRedis :: redisConfig where
  "localRedis = \<lparr>cfg_Address = ''localhost:6379'', cfg_Password = [], cfg_Network = ''tcp''\<rparr>"

lemma staticLib_serves: "serves (staticLib cfg db scan) cfg db scan"
  by (simp add: serves_def staticLib_def scanLoop.simps)

lemma staticLib_servesKeys: "servesKeys (staticLib cfg db scan) scan"
  by (simp add: servesKeys_def staticLib_def)

lemma timedLib_deadline: "scanDeadline (timedLib cfg) (\<lambda>s. s)"
  by (simp add: scanDeadline_def timedLib_def)

subsection \<open>Properties\<close>

text \<open>
  C4. A complete scan returns the concatenation of the pages of one run of the cursor protocol,
  from cursor 0 to cursor 0, on the connection of the named database, and nothing else.
\<close>

theorem ScanKeys_concatenates_pages:
  assumes "handlesOk cfg w" "RedisDbId name = Some dbId"
  shows "fst (ScanKeysFromDb lib cfg name pattern count w) = Ok keys \<longleftrightarrow>
    (\<exists>pages s'. scanRun lib (optionsFor cfg dbId) pattern count 0 (server w) pages s' \<and> keys = concat pages)"
proof -
  have "fst (ScanKeysFromDb lib cfg name pattern count w) = Ok keys \<longleftrightarrow>
      (\<exists>s'. scanLoop lib (optionsFor cfg dbId) pattern count 0 [] (server w) = Some (Inr keys, s'))"
    by (auto simp: ScanKeys_result [OF assms] split: option.split sum.split prod.split)
  then show ?thesis by (simp add: scanLoop_ok_iff) blast
qed

theorem ScanKeys_concatenates_pages_witness:
  "\<exists>pages s'. scanRun (staticLib localRedis (\<lambda>_ _. []) (\<lambda>_ _. [''LAG_TABLE:1'', ''LAG_TABLE:2'']))
     (optionsFor localRedis 0) ''LAG_TABLE:*'' 256 0 () pages s' \<and>
     [''LAG_TABLE:1'', ''LAG_TABLE:2''] = concat pages"
proof -
  let ?lib = "staticLib localRedis (\<lambda>_ _. []) (\<lambda>_ _. [''LAG_TABLE:1'', ''LAG_TABLE:2''])"
  let ?w = "\<lparr>server = (), databases = []\<rparr>"
  have "fst (ScanKeysFromDb ?lib localRedis ''APPL_DB'' ''LAG_TABLE:*'' 256 ?w) =
      Ok [''LAG_TABLE:1'', ''LAG_TABLE:2'']"
    by (simp add: ScanKeys_result [where dbId = 0] RedisDbId_def scanLoop.simps staticLib_def)
  then show ?thesis
    using ScanKeys_concatenates_pages [of localRedis ?w "''APPL_DB''" 0 ?lib "''LAG_TABLE:*''" 256]
    by (simp add: RedisDbId_def)
qed

text \<open>
  C18. A scan returns, with keys or with an error, when every answered page uses up some of the
  time the context leaves: it neither loops for ever nor panics.
\<close>

theorem ScanKeys_returns:
  assumes "scanDeadline lib left" "handlesOk cfg w" "RedisDbId name = Some dbId"
  shows "\<exists>r. fst (ScanKeysFromDb lib cfg name pattern count w) = (case r of Inl e \<Rightarrow> Fail e | Inr keys \<Rightarrow> Ok keys)"
proof -
  obtain r s' where "scanLoop lib (optionsFor cfg dbId) pattern count 0 [] (server w) = Some (r, s')"
    using scanLoop_returns [OF assms(1)] by (metis prod.exhaust)
  then show ?thesis
    by (intro exI [of _ r]) (simp add: ScanKeys_result [OF assms(2,3)] split: sum.split)
qed

theorem ScanKeys_returns_witness:
  "\<exists>r. fst (ScanKeysFromDb (timedLib localRedis) localRedis ''APPL_DB'' ''LAG_TABLE:*'' 256
          \<lparr>server = 5, databases = []\<rparr>) = (case r of Inl e \<Rightarrow> Fail e | Inr keys \<Rightarrow> Ok keys)"
  by (rule ScanKeys_returns [OF timedLib_deadline, where dbId = 0]) (simp_all add: RedisDbId_def)

text \<open>
  C19. Whatever the server answers, no operation of the client leaves two connections for one
  name, or a connection to another database or server than the name and the configuration say.
\<close>

theorem client_keeps_handles:
  assumes "handlesOk cfg w"
  shows "handlesOk cfg (snd (HgetAllFromDb lib cfg name key w)) \<and>
    handlesOk cfg (snd (HsetToDb lib cfg name key data w)) \<and>
    handlesOk cfg (snd (KeysFromDb lib cfg name pattern w)) \<and>
    handlesOk cfg (snd (ScanKeysFromDb lib cfg name pattern count w)) \<and>
    handlesOk cfg (Close lib w)"
  using assms by (simp_all add: keepsD [OF keeps_HgetAll] keepsD [OF keeps_Hset] keepsD [OF keeps_Keys]
      keepsD [OF keeps_ScanKeys] Close_eq)

theorem client_keeps_handles_witness:
  "handlesOk localRedis (snd (HgetAllFromDb (timedLib localRedis) localRedis ''STATE_DB'' ''k''
     \<lparr>server = 1, databases = [(''APPL_DB'', optionsFor localRedis 0)]\<rparr>))"
  by (rule client_keeps_handles [THEN conjunct1]) (simp add: handlesOk_def RedisDbId_def optionsFor_def)

text \<open>
  A read goes to the database that \<^verbatim>\<open>RedisDbId\<close> gives for the name, at the configured
  address, whether the connection was open or not, and its answer or error comes back unchanged.
\<close>

lemma HgetAll_reads_named_db:
  assumes "handlesOk cfg w" "RedisDbId name = Some dbId"
  shows "fst (HgetAllFromDb lib cfg name key w) =
    (case fst (hGetAll lib (optionsFor cfg dbId) key (server w)) of Inl e \<Rightarrow> Fail e | Inr data \<Rightarrow> Ok data)"
proof -
  obtain w1 where "HgetAllFromDb lib cfg name key w = command (hGetAll lib (optionsFor cfg dbId) key) w1"
    "server w1 = server w"
    unfolding HgetAllFromDb_def using with_client [OF assms, of "\<lambda>client. command (hGetAll lib client key)"]
    by blast
  then show ?thesis by (auto simp: command_def split: prod.split)
qed

lemma HgetAll_reads_named_db_example:
  "fst (HgetAllFromDb (staticLib localRedis (\<lambda>n k. if n = 6 then [(''a'', ''1'')] else []) (\<lambda>_ _. [])) localRedis
     ''STATE_DB'' ''k'' \<lparr>server = (), databases = [(''APPL_DB'', optionsFor localRedis 0)]\<rparr>) = Ok [(''a'', ''1'')]"
  by (subst HgetAll_reads_named_db [where dbId = 6])
     (simp_all add: handlesOk_def RedisDbId_def staticLib_def)

text \<open>
  A database name the client does not know is an error of every operation, without any
  effect on the server or on the connections.
\<close>

lemma unknown_db_has_no_effect:
  assumes "RedisDbId name = None"
  shows "HgetAllFromDb lib cfg name key w = (Fail (Errorf ''database not defined'' []), w) \<and>
    HsetToDb lib cfg name key data w = (Fail (Errorf ''database not defined'' []), w) \<and>
    KeysFromDb lib cfg name pattern w = (Fail (Errorf ''database not defined'' []), w) \<and>
    ScanKeysFromDb lib cfg name pattern count w = (Fail (Errorf ''database not defined'' []), w)"
  by (simp add: selectClient_unknown [OF assms] HgetAllFromDb_def HsetToDb_def KeysFromDb_def ScanKeysFromDb_def io_bind_def)

lemma unknown_db_has_no_effect_example:
  "ScanKeysFromDb (timedLib localRedis) localRedis ''FLEX_COUNTER_DB'' ''*'' 10 \<lparr>server = 3, databases = []\<rparr> =
     (Fail (Errorf ''database not defined'' []), \<lparr>server = 3, databases = []\<rparr>)"
  using unknown_db_has_no_effect [of "''FLEX_COUNTER_DB''" "timedLib localRedis" localRedis _
      "\<lparr>server = 3, databases = []\<rparr>" _ "''*''" 10]
  by (simp add: RedisDbId_def)

text \<open>
  C20. A scrape that opens its own client leaves no connection open, on a return, an error and a
  panic alike, and closes each of those it opened, in the order of the map.
\<close>

theorem scrape_closes_connections:
  assumes "withRedis lib body w = (r, w')" "r \<noteq> Hang" "databases w = []"
  shows "databases w' = [] \<and>
    (\<forall>cfg. readEnv lib (server w) = Inr cfg \<longrightarrow>
       (\<exists>w1. body cfg w = (r, w1) \<and>
          server w' = fold (\<lambda>d s. snd (closeCmd lib (snd d) s)) (databases w1) (server w1)))"
proof (intro conjI allI impI)
  show "databases w' = []"
    using withRedis_closed [OF assms] .
  fix cfg
  assume "readEnv lib (server w) = Inr cfg"
  moreover have "w\<lparr>databases := []\<rparr> = w"
    using assms(3) by simp
  ultimately have "withRedis lib body w = io_defer (Close lib) (body cfg) w"
    by (simp add: withRedis_def io_bind_def io_wrap_def NewClient_def)
  then show "\<exists>w1. body cfg w = (r, w1) \<and>
      server w' = fold (\<lambda>d s. snd (closeCmd lib (snd d) s)) (databases w1) (server w1)"
    using assms(1,2) by (auto simp: io_defer_def Close_eq split: prod.splits outcome.splits)
qed

theorem scrape_closes_connections_witness:
  "databases (snd (withRedis (timedLib localRedis)
     (\<lambda>cfg. HgetAllFromDb (timedLib localRedis) cfg ''APPL_DB'' ''k'') \<lparr>server = 3, databases = []\<rparr>)) = []"
proof -
  let ?r = "withRedis (timedLib localRedis)
     (\<lambda>cfg. HgetAllFromDb (timedLib localRedis) cfg ''APPL_DB'' ''k'') \<lparr>server = 3, databases = []\<rparr>"
  have "fst ?r \<noteq> Hang"
    by (simp add: withRedis_def io_bind_def io_wrap_def NewClient_def timedLib_def io_defer_def HgetAllFromDb_def
        selectClient_def RedisDbId_def lookupDb_def connect_def io_return_def command_def)
  then show ?thesis
    using scrape_closes_connections [of "timedLib localRedis" _ "\<lparr>server = 3, databases = []\<rparr>" "fst ?r" "snd ?r"]
    by simp
qed

end
