(* ===== verification/Snapshot.thy ===== *)
theory Snapshot
  imports Metrics RedisClient
begin

text \<open>
  The shape all background collectors have: a cached result, replaced by a refresh that a
  ticker drives, and read by scrapes of the exporter, both under the collector's
  \<^verbatim>\<open>sync.RWMutex\<close>. The records below are the mutable fields of their structs; every
  collector's record extends one of them. A refresh is the scrape of Redis, outside the lock,
  then a list of assignments under \<^verbatim>\<open>Lock\<close>; a read is a list of copies under \<^verbatim>\<open>RLock\<close>.
\<close>

record cacheState =
  cachedMetrics :: "metric list"
  lastSuccess :: f64
  lastScrapeDuration :: f64
  lastRefreshTime :: gotime

record skipState = cacheState +
  lastSkippedEntries :: f64

record truncState = skipState +
  lastTruncated :: f64

text \<open>The three readings of the clock in one \<^verbatim>\<open>refreshMetrics\<close>: on entry, after the scrape, at the end.\<close>

record refreshClock =
  t_start :: gotime
  t_scraped :: gotime
  t_stored :: gotime

definition scrapeSeconds :: "refreshClock \<Rightarrow> f64" where
  "scrapeSeconds clk = durSeconds (timeSub (t_scraped clk) (t_start clk))"

definition run :: "('c \<Rightarrow> 'c) list \<Rightarrow> 'c \<Rightarrow> 'c" where
  "run assignments c = fold (\<lambda>f. f) assignments c"

text \<open>\<^verbatim>\<open>refreshMetrics\<close>: the assignments depend on the error or the result of the scrape.\<close>

definition refreshWith ::
  "('s, 'r) rio \<Rightarrow> (goerr + 'r \<Rightarrow> ('c \<Rightarrow> 'c) list) \<Rightarrow> 'c \<Rightarrow> ('s, 'c) rio" where
  "refreshWith scrape assignments c =
     (\<lambda>w. case scrape w of (r, w') \<Rightarrow>
        (case r of
           Ok x \<Rightarrow> (Ok (run (assignments (Inr x)) c), w')
         | Fail e \<Rightarrow> (Ok (run (assignments (Inl e)) c), w')
         | Panic p \<Rightarrow> (Panic p, w')
         | Hang \<Rightarrow> (Hang, w')))"

text \<open>\<^verbatim>\<open>refreshLoop\<close> over the ticks so far; \<^verbatim>\<open>time.NewTicker\<close> panics on an interval that is not positive.\<close>

primrec overTicks :: "(refreshClock \<Rightarrow> 'c \<Rightarrow> ('s, 'c) rio) \<Rightarrow> refreshClock list \<Rightarrow> 'c \<Rightarrow> ('s, 'c) rio" where
  "overTicks refresh [] c = io_return c"
| "overTicks refresh (clk # clks) c = io_bind (refresh clk c) (overTicks refresh clks)"

definition tickerLoop ::
  "duration \<Rightarrow> (refreshClock \<Rightarrow> 'c \<Rightarrow> ('s, 'c) rio) \<Rightarrow> refreshClock list \<Rightarrow> 'c \<Rightarrow> ('s, 'c) rio" where
  "tickerLoop interval refresh clks c =
     (if interval \<le> 0 then (\<lambda>w. (Panic ''non-positive interval for NewTicker'', w))
      else overTicks refresh clks c)"

definition cacheAge :: "gotime \<Rightarrow> gotime \<Rightarrow> f64" where
  "cacheAge now refreshed = (if refreshed \<noteq> 0 then durSeconds (timeSub now refreshed) else f64_0)"

lemma run_simps [simp]: "run [] c = c" "run (f # fs) c = run fs (f c)"
  by (simp_all add: run_def)

lemma tickerLoop_pos: "0 < interval \<Longrightarrow> tickerLoop interval refresh clks c = overTicks refresh clks c"
  by (simp add: tickerLoop_def)

subsection \<open>Readers and the writer under the lock\<close>

text \<open>
  The refresh goroutine holds the write lock while it still has assignments to run; a reader
  holds the read lock while it still has fields to copy into its local variables. \<open>history\<close> is
  a ghost: the refreshes that took the lock so far.
\<close>

datatype 'c writer = WIdle | WWriting "('c \<Rightarrow> 'c) list"
datatype 'c reader = RIdle | RReading "('c \<Rightarrow> 'c \<Rightarrow> 'c) list" 'c | RDone 'c

record ('c, 'r) conc =
  shared :: 'c
  writer :: "'c writer"
  readers :: "nat \<Rightarrow> 'c reader"
  history :: "(refreshClock \<times> (goerr + 'r)) list"

definition reading :: "'c reader \<Rightarrow> bool" where
  "reading rd = (case rd of RReading _ _ \<Rightarrow> True | _ \<Rightarrow> False)"

lemma reading_simps [simp]: "\<not> reading RIdle" "reading (RReading ks l)" "\<not> reading (RDone l)"
  by (simp_all add: reading_def)

inductive rwStep ::
  "(refreshClock \<Rightarrow> goerr + 'r \<Rightarrow> ('c \<Rightarrow> 'c) list) \<Rightarrow> ('c \<Rightarrow> 'c \<Rightarrow> 'c) list \<Rightarrow> 'c
     \<Rightarrow> ('c, 'r) conc \<Rightarrow> ('c, 'r) conc \<Rightarrow> bool"
  for assignments copies fresh where
  lock: "writer s = WIdle \<Longrightarrow> \<forall>i. \<not> reading (readers s i) \<Longrightarrow>
     rwStep assignments copies fresh s
       (s\<lparr>writer := WWriting (assignments clk r), history := history s @ [(clk, r)]\<rparr>)"
| assign: "writer s = WWriting (f # fs) \<Longrightarrow>
     rwStep assignments copies fresh s (s\<lparr>shared := f (shared s), writer := WWriting fs\<rparr>)"
| unlock: "writer s = WWriting [] \<Longrightarrow>
     rwStep assignments copies fresh s (s\<lparr>writer := WIdle\<rparr>)"
| rlock: "writer s = WIdle \<Longrightarrow> \<not> reading (readers s i) \<Longrightarrow>
     rwStep assignments copies fresh s (s\<lparr>readers := (readers s)(i := RReading copies fresh)\<rparr>)"
| copy: "readers s i = RReading (k # ks) l \<Longrightarrow>
     rwStep assignments copies fresh s (s\<lparr>readers := (readers s)(i := RReading ks (k (shared s) l))\<rparr>)"
| runlock: "readers s i = RReading [] l \<Longrightarrow>
     rwStep assignments copies fresh s (s\<lparr>readers := (readers s)(i := RDone l)\<rparr>)"

inductive_cases rwStepE [elim]: "rwStep assignments copies fresh s s'"

definition rwInit :: "'c \<Rightarrow> ('c, 'r) conc" where
  "rwInit c = \<lparr>shared = c, writer = WIdle, readers = (\<lambda>_. RIdle), history = []\<rparr>"

definition rwReach ::
  "(refreshClock \<Rightarrow> goerr + 'r \<Rightarrow> ('c \<Rightarrow> 'c) list) \<Rightarrow> ('c \<Rightarrow> 'c \<Rightarrow> 'c) list \<Rightarrow> 'c
     \<Rightarrow> ('c, 'r) conc \<Rightarrow> bool" where
  "rwReach assignments copies c = (rwStep assignments copies c)\<^sup>*\<^sup>* (rwInit c)"

text \<open>One reader alone reaches the end of its read section.\<close>

lemma rw_copies:
  "readers s i = RReading ks l \<Longrightarrow>
    (rwStep assignments copies fresh)\<^sup>*\<^sup>* s
      (s\<lparr>readers := (readers s)(i := RDone (fold (\<lambda>k l. k (shared s) l) ks l))\<rparr>)"
proof (induction ks arbitrary: s l)
  case Nil
  then show ?case using rwStep.runlock [of s i l] by (auto simp del: fun_upd_apply)
next
  case (Cons k ks)
  let ?s = "s\<lparr>readers := (readers s)(i := RReading ks (k (shared s) l))\<rparr>"
  have "rwStep assignments copies fresh s ?s"
    using Cons.prems by (rule rwStep.copy)
  moreover have "(rwStep assignments copies fresh)\<^sup>*\<^sup>* ?s
      (?s\<lparr>readers := (readers ?s)(i := RDone (fold (\<lambda>k l. k (shared ?s) l) ks (k (shared s) l)))\<rparr>)"
    by (rule Cons.IH) simp
  ultimately show ?case by (simp add: converse_rtranclp_into_rtranclp del: fun_upd_apply)
qed

lemma rw_read_alone:
  fixes assignments :: "refreshClock \<Rightarrow> goerr + 'r \<Rightarrow> ('c \<Rightarrow> 'c) list" and c :: 'c
  shows "rwReach assignments copies c
     ((rwInit c)\<lparr>readers := (\<lambda>_. RIdle)(0 := RDone (fold (\<lambda>k l. k c l) copies c))\<rparr>)"
proof -
  let ?i = "rwInit c :: ('c, 'r) conc"
  let ?s = "?i\<lparr>readers := (readers ?i)(0 := RReading copies c)\<rparr>"
  have "rwStep assignments copies c ?i ?s"
    by (rule rwStep.rlock) (simp_all add: rwInit_def)
  moreover have "readers ?s 0 = RReading copies c"
    by simp
  note rw_copies [OF this, of assignments copies c]
  ultimately show ?thesis
    by (simp add: rwReach_def rwInit_def converse_rtranclp_into_rtranclp del: fun_upd_apply)
qed

text \<open>The collector after whole refreshes, one after the other.\<close>

definition replay ::
  "(refreshClock \<Rightarrow> goerr + 'r \<Rightarrow> ('c \<Rightarrow> 'c) list) \<Rightarrow> (refreshClock \<times> (goerr + 'r)) list \<Rightarrow> 'c \<Rightarrow> 'c" where
  "replay assignments h c = fold (\<lambda>(clk, r). run (assignments clk r)) h c"

lemma replay_Nil [simp]: "replay assignments [] c = c"
  by (simp add: replay_def)

lemma replay_snoc [simp]:
  "replay assignments (h @ [(clk, r)]) c = run (assignments clk r) (replay assignments h c)"
  by (simp add: replay_def)

subsection \<open>The refresh contract\<close>

text \<open>
  The contract a collector's refresh keeps, whatever it collects. \<open>fixed\<close> is the part no
  assignment touches (configuration and filter), \<open>base\<close> the fields all collectors share,
  \<open>metricsOf\<close> the metrics of a successful scrape.
\<close>

locale refresh_contract =
  fixes assignments :: "refreshClock \<Rightarrow> goerr + 'r \<Rightarrow> ('c \<Rightarrow> 'c) list"
    and copies :: "('c \<Rightarrow> 'c \<Rightarrow> 'c) list"
    and base :: "'c \<Rightarrow> cacheState"
    and fixedPart :: "'c \<Rightarrow> 'f"
    and metricsOf :: "'r \<Rightarrow> metric list"
  assumes assign_fixed: "f \<in> set (assignments clk r) \<Longrightarrow> fixedPart (f c) = fixedPart c"
    and copies_complete: "fixedPart l = fixedPart c \<Longrightarrow> fold (\<lambda>k l. k c l) copies l = c"
    and ok_refresh: "base (run (assignments clk (Inr x)) c) =
        \<lparr>cachedMetrics = metricsOf x, lastSuccess = f64_1, lastScrapeDuration = scrapeSeconds clk,
         lastRefreshTime = t_stored clk\<rparr>"
    and failed_refresh: "base (run (assignments clk (Inl e)) c) =
        (base c)\<lparr>lastSuccess := f64_0, lastScrapeDuration := scrapeSeconds clk\<rparr>"
begin

lemma run_fixed: "set fs \<subseteq> set (assignments clk r) \<Longrightarrow> fixedPart (run fs c) = fixedPart c"
  by (induction fs arbitrary: c) (auto simp: assign_fixed)

lemma replay_fixed: "fixedPart (replay assignments h c) = fixedPart c"
  by (induction h rule: rev_induct) (auto simp: run_fixed [OF order_refl])

text \<open>The invariant of the lock protocol: for the writer, for a reader, and both together.\<close>

definition writerOk :: "'c \<Rightarrow> ('c, 'r) conc \<Rightarrow> bool" where
  "writerOk c0 s =
     (case writer s of
        WIdle \<Rightarrow> shared s = replay assignments (history s) c0
      | WWriting fs \<Rightarrow> run fs (shared s) = replay assignments (history s) c0 \<and>
          (\<forall>i. \<not> reading (readers s i)))"

definition readerOk :: "'c \<Rightarrow> (refreshClock \<times> (goerr + 'r)) list \<Rightarrow> 'c \<Rightarrow> 'c reader \<Rightarrow> bool" where
  "readerOk c0 h sh rd =
     (case rd of
        RIdle \<Rightarrow> True
      | RReading ks l \<Rightarrow> fold (\<lambda>k l. k sh l) ks l = sh \<and> sh = replay assignments h c0
      | RDone l \<Rightarrow> \<exists>n\<le>length h. l = replay assignments (take n h) c0)"

definition rwInv :: "'c \<Rightarrow> ('c, 'r) conc \<Rightarrow> bool" where
  "rwInv c0 s = (writerOk c0 s \<and> (\<forall>i. readerOk c0 (history s) (shared s) (readers s i)))"

lemma readerOk_simps [simp]:
  "readerOk c0 h sh RIdle"
  "readerOk c0 h sh (RReading ks l) = (fold (\<lambda>k l. k sh l) ks l = sh \<and> sh = replay assignments h c0)"
  "readerOk c0 h sh (RDone l) = (\<exists>n\<le>length h. l = replay assignments (take n h) c0)"
  by (simp_all add: readerOk_def)

lemma readerOk_later:
  assumes "readerOk c0 h sh rd" "\<not> reading rd"
  shows "readerOk c0 (h @ h') sh' rd"
proof (cases rd)
  case (RDone l)
  with assms obtain n where "n \<le> length h" "l = replay assignments (take n h) c0" by auto
  then show ?thesis using RDone by (auto intro!: exI [of _ n])
qed (use assms in auto)

lemma rwInv_init: "rwInv c0 (rwInit c0)"
  by (simp add: rwInv_def rwInit_def writerOk_def)

lemma rwInv_step:
  assumes "rwStep assignments copies c0 s s'" "rwInv c0 s"
  shows "rwInv c0 s'"
proof -
  have w: "writerOk c0 s" and r: "\<And>i. readerOk c0 (history s) (shared s) (readers s i)"
    using assms(2) by (simp_all add: rwInv_def)
  from assms(1) show ?thesis
  proof cases
    case (lock clk res)
    then have "writerOk c0 s'" using w by (simp add: writerOk_def)
    moreover have "readerOk c0 (history s') (shared s') (readers s' i)" for i
      using lock readerOk_later [OF r] by simp
    ultimately show ?thesis by (simp add: rwInv_def)
  next
    case (assign f fs)
    then have "writerOk c0 s'" and "\<And>i. \<not> reading (readers s i)"
      using w by (simp_all add: writerOk_def)
    moreover from this(2) have "readerOk c0 (history s') (shared s') (readers s' i)" for i
      using assign readerOk_later [OF r, of i "[]"] by simp
    ultimately show ?thesis by (simp add: rwInv_def)
  next
    case unlock
    then show ?thesis using w r by (simp add: rwInv_def writerOk_def)
  next
    case (rlock i)
    then have "shared s = replay assignments (history s) c0"
      using w by (simp add: writerOk_def)
    moreover from this have "fold (\<lambda>k l. k (shared s) l) copies c0 = shared s"
      by (simp add: copies_complete replay_fixed)
    ultimately show ?thesis using rlock w r by (simp add: rwInv_def writerOk_def)
  next
    case (copy i k ks l)
    then have "writer s = WIdle"
      using w by (cases "writer s") (auto simp: writerOk_def dest: spec [of _ i])
    then show ?thesis using copy w r r [of i] by (simp add: rwInv_def writerOk_def)
  next
    case (runlock i l)
    then have "l = replay assignments (take (length (history s)) (history s)) c0"
      using r [of i] by simp
    moreover have "writer s = WIdle"
      using runlock w by (cases "writer s") (auto simp: writerOk_def dest: spec [of _ i])
    ultimately show ?thesis using runlock w r by (auto simp: rwInv_def writerOk_def)
  qed
qed

lemma rwInv_reach: "rwReach assignments copies c0 s \<Longrightarrow> rwInv c0 s"
  unfolding rwReach_def
  by (induction rule: rtranclp_induct) (auto intro: rwInv_init rwInv_step)

text \<open>No torn read: what a reader copied is the collector after whole refreshes.\<close>

lemma read_atomic:
  assumes "rwReach assignments copies c0 s" "readers s i = RDone l"
  shows "\<exists>n\<le>length (history s). l = replay assignments (take n (history s)) c0"
  using rwInv_reach [OF assms(1)] assms(2) by (auto simp: rwInv_def dest: spec [of _ i])

text \<open>The cache after any refreshes: the metrics of the last success, however many failed since.\<close>

lemma replay_failures:
  "\<forall>(clk, r)\<in>set h. isl r \<Longrightarrow>
    cachedMetrics (base (replay assignments h c)) = cachedMetrics (base c) \<and>
    lastRefreshTime (base (replay assignments h c)) = lastRefreshTime (base c)"
  by (induction h rule: rev_induct) (auto simp: failed_refresh isl_def)

lemma replay_last_success:
  assumes "\<forall>(clk, r)\<in>set late. isl r"
  shows "cachedMetrics (base (replay assignments (early @ (clk, Inr x) # late) c)) = metricsOf x"
    and "lastRefreshTime (base (replay assignments (early @ (clk, Inr x) # late) c)) = t_stored clk"
proof -
  have "replay assignments (early @ (clk, Inr x) # late) c =
      replay assignments late (run (assignments clk (Inr x)) (replay assignments early c))"
    by (simp add: replay_def)
  with replay_failures [OF assms] ok_refresh
  show "cachedMetrics (base (replay assignments (early @ (clk, Inr x) # late) c)) = metricsOf x"
    and "lastRefreshTime (base (replay assignments (early @ (clk, Inr x) # late) c)) = t_stored clk"
    by simp_all
qed

lemma success_gauge:
  "lastSuccess (base (replay assignments (h @ [(clk, r)]) c)) = (case r of Inl _ \<Rightarrow> f64_0 | Inr _ \<Rightarrow> f64_1)"
  by (cases r) (simp_all add: ok_refresh failed_refresh)

end

subsection \<open>From scrapes to the metrics sent\<close>

text \<open>
  The states of a collector after any number of refreshes, each in whatever state Redis was in
  then; a refresh that panics or hangs ends the process or the loop, so none follows it.
\<close>

inductive reaches :: "(refreshClock \<Rightarrow> 'c \<Rightarrow> ('s, 'c) rio) \<Rightarrow> 'c \<Rightarrow> 'c \<Rightarrow> bool"
  for refresh c0 where
  reaches_start: "reaches refresh c0 c0"
| reaches_refresh: "reaches refresh c0 c \<Longrightarrow> refresh clk c w = (Ok c', w') \<Longrightarrow> reaches refresh c0 c'"

text \<open>
  What a constructor returns, with the refreshes its goroutine has made by then, is such a state: a disabled collector
  is as it was made, an enabled one has been refreshed once and then once a tick.
\<close>

lemma overTicks_reaches:
  "overTicks refresh clks c w = (Ok c', w') \<Longrightarrow> reaches refresh c0 c \<Longrightarrow> reaches refresh c0 c'"
proof (induction clks arbitrary: c w)
  case Nil
  then show ?case by (simp add: io_return_def)
next
  case (Cons clk clks)
  then obtain c1 w1 where "refresh clk c w = (Ok c1, w1)" "overTicks refresh clks c1 w1 = (Ok c', w')"
    by (auto simp: io_bind_def split: prod.splits outcome.splits)
  then show ?case using Cons.IH reaches_refresh [OF Cons.prems(2)] by blast
qed

lemma constructed_reaches:
  assumes "(if \<not> on then io_return c0 else io_bind (refresh clk c0) (\<lambda>c. tickerLoop (interval c) refresh clks c)) w = (Ok c, w')"
  shows "reaches refresh c0 c"
proof (cases on)
  case True
  then obtain c1 w1 where "refresh clk c0 w = (Ok c1, w1)" "overTicks refresh clks c1 w1 = (Ok c, w')"
    using assms by (auto simp: io_bind_def tickerLoop_def split: prod.splits outcome.splits if_splits)
  then show ?thesis using overTicks_reaches reaches_refresh [OF reaches_start] by metis
next
  case False
  then show ?thesis using assms by (simp add: io_return_def reaches_start)
qed

text \<open>
  The refreshes leave configuration and filter alone, and what holds of the metrics of every scrape and of the first
  cache holds of the cache.
\<close>

context refresh_contract
begin

lemma reaches_cached:
  assumes "reaches (\<lambda>clk c. refreshWith (scrape c) (assignments clk) c) c0 c" "P (cachedMetrics (base c0))"
    and scrape: "\<And>c x w w'. fixedPart c = fixedPart c0 \<Longrightarrow> scrape c w = (Ok x, w') \<Longrightarrow> P (metricsOf x)"
  shows "fixedPart c = fixedPart c0 \<and> P (cachedMetrics (base c))"
  using assms(1)
proof induction
  case reaches_start
  then show ?case by (simp add: assms(2))
next
  case (reaches_refresh c clk w c' w')
  then show ?case
    by (auto simp: refreshWith_def run_fixed [OF order_refl] ok_refresh failed_refresh scrape split: prod.splits outcome.splits)
qed

lemma reaches_fixed:
  "reaches (\<lambda>clk c. refreshWith (scrape c) (assignments clk) c) c0 c \<Longrightarrow> fixedPart c = fixedPart c0"
  using reaches_cached [where P = "\<lambda>_. True"] by blast

end

text \<open>
  A collector whose scrapes yield only good metrics, and which adds only good metrics to its
  cache when it collects: \<open>good\<close> may depend on the collector's configuration and filter.
\<close>

locale metric_source = refresh_contract assignments copies base fixedPart metricsOf
  for assignments :: "refreshClock \<Rightarrow> goerr + 'r \<Rightarrow> ('c \<Rightarrow> 'c) list"
    and copies :: "('c \<Rightarrow> 'c \<Rightarrow> 'c) list"
    and base :: "'c \<Rightarrow> cacheState"
    and fixedPart :: "'c \<Rightarrow> 'f"
    and metricsOf :: "'r \<Rightarrow> metric list" +
  fixes scrape :: "'c \<Rightarrow> ('s, 'r) rio"
    and collect :: "gotime \<Rightarrow> 'c \<Rightarrow> ('w, metric list) io"
    and good :: "'f \<Rightarrow> metric list \<Rightarrow> bool"
  assumes good_Nil: "good f []"
    and scrape_good: "post (scrape c) (\<lambda>r. good (fixedPart c) (metricsOf r))"
    and collect_good: "good (fixedPart c) (cachedMetrics (base c)) \<Longrightarrow> post (collect now c) (good (fixedPart c))"
begin

lemma reaches_good:
  assumes "reaches (\<lambda>clk c. refreshWith (scrape c) (assignments clk) c) c0 c"
    and "cachedMetrics (base c0) = []"
  shows "fixedPart c = fixedPart c0 \<and> good (fixedPart c0) (cachedMetrics (base c))"
proof (rule reaches_cached [OF assms(1)])
  show "good (fixedPart c0) (cachedMetrics (base c0))"
    by (simp add: assms(2) good_Nil)
  show "good (fixedPart c0) (metricsOf x)" if "fixedPart c = fixedPart c0" "scrape c w = (Ok x, w')" for c x w w'
    using postD [OF scrape_good that(2)] that(1) by simp
qed

lemma sent_good:
  assumes "reaches (\<lambda>clk c. refreshWith (scrape c) (assignments clk) c) c0 c"
    and "cachedMetrics (base c0) = []" and "collect now c w = (Ok ms, w')"
  shows "good (fixedPart c0) ms"
  using reaches_good [OF assms(1,2)] postD [OF collect_good assms(3)] by metis

end

end
