(* ===== verification/Lldp.thy ===== *)
theory Lldp
  imports Snapshot
begin

text \<open>
  \<^verbatim>\<open>lldp_collector.go\<close>: the LLDP neighbours of the switch, from \<^verbatim>\<open>APPL_DB\<close>. The record is the
  collector's struct; the descriptions are constants, as nothing ever assigns them.
\<close>

record lldpCollectorConfig =
  lldp_enabled :: bool
  lldp_includeMgmt :: bool
  lldp_refreshInterval :: duration
  lldp_timeout :: duration
  lldp_maxNeighbors :: int
  lldp_redisScanCount :: int

record lldpCollector = skipState +
  lldp_lastNeighbors :: f64
  lldp_config :: lldpCollectorConfig
  lldp_filter :: metricFilter

subsection \<open>Construction\<close>

definition lldpLocalChassisInfo :: desc where [desc_defs]:
  "lldpLocalChassisInfo = NewDesc ''sonic'' ''lldp'' ''local_chassis_info''
     ''Non-numeric data about local LLDP chassis, value is always 1'' [''system_name'', ''chassis_id'']"

definition lldpNeighborInfo :: desc where [desc_defs]:
  "lldpNeighborInfo = NewDesc ''sonic'' ''lldp'' ''neighbor_info''
     ''Non-numeric data about LLDP neighbor, value is always 1''
     [''local_interface'', ''local_role'', ''remote_system_name'', ''remote_port_id'', ''remote_port_desc'',
      ''remote_port_id_subtype'', ''remote_port_display'', ''remote_chassis_id'', ''remote_mgmt_ip'']"

definition lldpNeighbors :: desc where [desc_defs]:
  "lldpNeighbors = NewDesc ''sonic'' ''lldp'' ''neighbors'' ''Number of LLDP neighbors exported'' []"

definition lldpScrapeDuration :: desc where [desc_defs]:
  "lldpScrapeDuration = NewDesc ''sonic'' ''lldp'' ''scrape_duration_seconds''
     ''Time it took for exporter to refresh LLDP metrics'' []"

definition lldpCollectorSuccess :: desc where [desc_defs]:
  "lldpCollectorSuccess = NewDesc ''sonic'' ''lldp'' ''collector_success'' ''Whether LLDP collector succeeded'' []"

definition lldpCacheAge :: desc where [desc_defs]:
  "lldpCacheAge = NewDesc ''sonic'' ''lldp'' ''cache_age_seconds'' ''Age of latest LLDP cache refresh'' []"

definition lldpSkippedEntries :: desc where [desc_defs]:
  "lldpSkippedEntries = NewDesc ''sonic'' ''lldp'' ''entries_skipped''
     ''Number of LLDP entries skipped during latest refresh'' []"

definition loadLldpCollectorConfig :: "env \<Rightarrow> lldpCollectorConfig" where
  "loadLldpCollectorConfig env =
     \<lparr>lldp_enabled = parseBoolEnv env ''LLDP_ENABLED'' True,
      lldp_includeMgmt = parseBoolEnv env ''LLDP_INCLUDE_MGMT'' True,
      lldp_refreshInterval = parseDurationEnv env ''LLDP_REFRESH_INTERVAL'' (30 * second),
      lldp_timeout = parseDurationEnv env ''LLDP_TIMEOUT'' (2 * second),
      lldp_maxNeighbors = parseIntEnv env ''LLDP_MAX_NEIGHBORS'' 512,
      lldp_redisScanCount = 256\<rparr>"

definition lldp_new :: "env \<Rightarrow> metricFilter \<Rightarrow> lldpCollector" where
  "lldp_new env flt =
     \<lparr>cachedMetrics = [], lastSuccess = f64_0, lastScrapeDuration = f64_0, lastRefreshTime = 0,
      lastSkippedEntries = f64_0, lldp_lastNeighbors = f64_0,
      lldp_config = loadLldpCollectorConfig env, lldp_filter = flt\<rparr>"

definition lldp_IsEnabled :: "lldpCollector \<Rightarrow> bool" where
  "lldp_IsEnabled c = lldp_enabled (lldp_config c)"

definition lldp_Describe :: "desc list" where
  "lldp_Describe =
     [lldpNeighborInfo, lldpLocalChassisInfo, lldpNeighbors, lldpScrapeDuration, lldpCollectorSuccess,
      lldpCacheAge, lldpSkippedEntries]"

subsection \<open>Scraping Redis\<close>

definition resolvedRemotePortDisplay :: "string \<Rightarrow> string \<Rightarrow> string \<Rightarrow> string" where
  "resolvedRemotePortDisplay remotePortID remotePortDesc remotePortIDSubtype =
     (let subtype = toLower (trimSpace remotePortIDSubtype)
      in if remotePortDesc \<noteq> []
            \<and> (subtype = ''7'' \<or> subtype = ''local'' \<or> subtype = ''3'' \<or> subtype = ''mac'')
         then remotePortDesc
         else if remotePortID \<noteq> [] then remotePortID
         else remotePortDesc)"

definition lldp_localRole :: "string \<Rightarrow> string" where
  "lldp_localRole localInterface =
     (if localInterface = ''eth0'' then ''management''
      else if \<not> hasPrefix localInterface ''Ethernet'' then ''other''
      else ''frontpanel'')"

type_synonym lldpAcc = "metric list \<times> int \<times> int"

definition lldp_entry ::
  "(string \<Rightarrow> bool) \<Rightarrow> 's redisLib \<Rightarrow> redisConfig \<Rightarrow> lldpCollector \<Rightarrow> nat \<Rightarrow> string \<Rightarrow> lldpAcc
     \<Rightarrow> ('s, lldpAcc loop) rio" where
  "lldp_entry labelOk lib cfg c index lldpKey acc =
     (case acc of (metrics, neighbors, skippedEntries) \<Rightarrow>
        if neighbors \<ge> lldp_maxNeighbors (lldp_config c)
        then io_return (Continue (metrics, neighbors, skippedEntries + 1))
        else let localInterface = trimPrefix lldpKey ''LLDP_ENTRY_TABLE:''
        in if localInterface = [] \<or> localInterface = lldpKey
        then io_return (Continue (metrics, neighbors, skippedEntries + 1))
        else if \<not> lldp_includeMgmt (lldp_config c) \<and> localInterface = ''eth0''
        then io_return (Continue (metrics, neighbors, skippedEntries))
        else
          io_bind (io_wrap ''failed to read LLDP entry %s: %w'' [lldpKey]
                     (HgetAllFromDb lib cfg ''APPL_DB'' lldpKey)) (\<lambda>lldpData.
          if lldpData = []
          then io_return (Continue (metrics, neighbors, skippedEntries + 1))
          else
            let remoteSystemName = field lldpData ''lldp_rem_sys_name'';
                remotePortID = field lldpData ''lldp_rem_port_id'';
                remotePortDesc = field lldpData ''lldp_rem_port_desc'';
                remotePortIDSubtype = field lldpData ''lldp_rem_port_id_subtype'';
                remotePortDisplay =
                  resolvedRemotePortDisplay remotePortID remotePortDesc remotePortIDSubtype;
                remoteChassisID = field lldpData ''lldp_rem_chassis_id'';
                remoteMgmtIP = field lldpData ''lldp_rem_man_addr''
            in if remoteSystemName = [] \<and> remotePortID = [] \<and> remotePortDesc = []
                  \<and> remoteChassisID = [] \<and> remoteMgmtIP = []
            then io_return (Continue (metrics, neighbors, skippedEntries + 1))
            else
              io_bind (emit (Enabled (lldp_filter c) ''sonic_lldp_neighbor_info'')
                         (MustNewConstMetric labelOk lldpNeighborInfo GaugeValue f64_1
                            [localInterface, lldp_localRole localInterface, remoteSystemName,
                             remotePortID, remotePortDesc, remotePortIDSubtype, remotePortDisplay,
                             remoteChassisID, remoteMgmtIP])
                         metrics) (\<lambda>metrics.
              io_return (Continue (metrics, neighbors + 1, skippedEntries)))))"

definition lldp_scrapeMetrics ::
  "(string \<Rightarrow> bool) \<Rightarrow> 's redisLib \<Rightarrow> lldpCollector \<Rightarrow> ('s, lldpAcc) rio" where
  "lldp_scrapeMetrics labelOk lib c =
     withRedis lib (\<lambda>cfg.
       io_bind (io_wrap ''failed to scan LLDP keys: %w'' []
                  (ScanKeysFromDb lib cfg ''APPL_DB'' ''LLDP_ENTRY_TABLE:*''
                     (lldp_redisScanCount (lldp_config c)))) (\<lambda>scanned.
       let lldpKeys = sort scanned in
       io_bind (io_wrap ''failed to read LLDP local chassis entry: %w'' []
                  (HgetAllFromDb lib cfg ''APPL_DB'' ''LLDP_LOC_CHASSIS'')) (\<lambda>localChassisData.
       io_bind (emit (localChassisData \<noteq> [] \<and> Enabled (lldp_filter c) ''sonic_lldp_local_chassis_info'')
                  (MustNewConstMetric labelOk lldpLocalChassisInfo GaugeValue f64_1
                     [field localChassisData ''lldp_loc_sys_name'',
                      field localChassisData ''lldp_loc_chassis_id''])
                  []) (\<lambda>metrics.
       rangeLoop (lldp_entry labelOk lib cfg c) 0 lldpKeys (metrics, 0, 0)))))"

subsection \<open>Refreshing and collecting\<close>

definition lldp_assignments ::
  "refreshClock \<Rightarrow> goerr + lldpAcc \<Rightarrow> (lldpCollector \<Rightarrow> lldpCollector) list" where
  "lldp_assignments clk r =
     (\<lambda>c. c\<lparr>lastScrapeDuration := scrapeSeconds clk\<rparr>) #
     (case r of
        Inl err \<Rightarrow> [\<lambda>c. c\<lparr>lastSuccess := f64_0\<rparr>]
      | Inr (metrics, neighbors, skippedEntries) \<Rightarrow>
          [\<lambda>c. c\<lparr>cachedMetrics := metrics\<rparr>,
           \<lambda>c. c\<lparr>lldp_lastNeighbors := f64_of_int neighbors\<rparr>,
           \<lambda>c. c\<lparr>lastSkippedEntries := f64_of_int skippedEntries\<rparr>,
           \<lambda>c. c\<lparr>lastSuccess := f64_1\<rparr>,
           \<lambda>c. c\<lparr>lastRefreshTime := t_stored clk\<rparr>])"

definition lldp_refreshMetrics ::
  "(string \<Rightarrow> bool) \<Rightarrow> 's redisLib \<Rightarrow> refreshClock \<Rightarrow> lldpCollector \<Rightarrow> ('s, lldpCollector) rio" where
  "lldp_refreshMetrics labelOk lib clk c =
     refreshWith (lldp_scrapeMetrics labelOk lib c) (lldp_assignments clk) c"

definition lldp_refreshLoop ::
  "(string \<Rightarrow> bool) \<Rightarrow> 's redisLib \<Rightarrow> refreshClock list \<Rightarrow> lldpCollector \<Rightarrow> ('s, lldpCollector) rio" where
  "lldp_refreshLoop labelOk lib ticks c =
     tickerLoop (lldp_refreshInterval (lldp_config c)) (lldp_refreshMetrics labelOk lib) ticks c"

definition NewLldpCollector ::
  "(string \<Rightarrow> bool) \<Rightarrow> 's redisLib \<Rightarrow> env \<Rightarrow> metricFilter \<Rightarrow> refreshClock \<Rightarrow> refreshClock list
     \<Rightarrow> ('s, lldpCollector) rio" where
  "NewLldpCollector labelOk lib env flt clk ticks =
     (let c = lldp_new env flt
      in if \<not> lldp_enabled (lldp_config c) then io_return c
         else io_bind (lldp_refreshMetrics labelOk lib clk c) (lldp_refreshLoop labelOk lib ticks))"

text \<open>The copies \<^verbatim>\<open>Collect\<close> makes under the read lock, in its order.\<close>

definition lldp_copies :: "(lldpCollector \<Rightarrow> lldpCollector \<Rightarrow> lldpCollector) list" where
  "lldp_copies =
     [\<lambda>c l. l\<lparr>cachedMetrics := cachedMetrics c\<rparr>,
      \<lambda>c l. l\<lparr>lldp_lastNeighbors := lldp_lastNeighbors c\<rparr>,
      \<lambda>c l. l\<lparr>lastSkippedEntries := lastSkippedEntries c\<rparr>,
      \<lambda>c l. l\<lparr>lastScrapeDuration := lastScrapeDuration c\<rparr>,
      \<lambda>c l. l\<lparr>lastSuccess := lastSuccess c\<rparr>,
      \<lambda>c l. l\<lparr>lastRefreshTime := lastRefreshTime c\<rparr>]"

definition lldp_Collect :: "(string \<Rightarrow> bool) \<Rightarrow> gotime \<Rightarrow> lldpCollector \<Rightarrow> ('w, metric list) io" where
  "lldp_Collect labelOk now c =
     (if \<not> lldp_enabled (lldp_config c) then io_return []
      else let gauge = (\<lambda>d v. MustNewConstMetric labelOk d GaugeValue v []);
               on = Enabled (lldp_filter c)
        in io_bind (emit (on ''sonic_lldp_neighbors'')
                      (gauge lldpNeighbors (lldp_lastNeighbors c)) (cachedMetrics c)) (\<lambda>ch.
           io_bind (emit (on ''sonic_lldp_scrape_duration_seconds'')
                      (gauge lldpScrapeDuration (lastScrapeDuration c)) ch) (\<lambda>ch.
           io_bind (emit (on ''sonic_lldp_collector_success'')
                      (gauge lldpCollectorSuccess (lastSuccess c)) ch) (\<lambda>ch.
           io_bind (emit (on ''sonic_lldp_cache_age_seconds'')
                      (gauge lldpCacheAge (cacheAge now (lastRefreshTime c))) ch) (\<lambda>ch.
           emit (on ''sonic_lldp_entries_skipped'')
                      (gauge lldpSkippedEntries (lastSkippedEntries c)) ch)))))"

interpretation lldp: refresh_contract lldp_assignments lldp_copies cacheState.truncate
  "\<lambda>c. (lldp_config c, lldp_filter c)" fst
proof unfold_locales
  show "(lldp_config (f c), lldp_filter (f c)) = (lldp_config c, lldp_filter c)"
    if "f \<in> set (lldp_assignments clk r)" for f clk r c
    using that by (auto simp: lldp_assignments_def split: sum.splits prod.splits)
qed (auto simp: lldp_assignments_def lldp_copies_def cacheState.truncate_def)

subsection \<open>What a refresh exports\<close>

lemma fq_lldp [simp]:
  "fqName lldpLocalChassisInfo = ''sonic_lldp_local_chassis_info''"
  "fqName lldpNeighborInfo = ''sonic_lldp_neighbor_info''"
  "fqName lldpNeighbors = ''sonic_lldp_neighbors''"
  "fqName lldpScrapeDuration = ''sonic_lldp_scrape_duration_seconds''"
  "fqName lldpCollectorSuccess = ''sonic_lldp_collector_success''"
  "fqName lldpCacheAge = ''sonic_lldp_cache_age_seconds''"
  "fqName lldpSkippedEntries = ''sonic_lldp_entries_skipped''"
  by (simp_all add: desc_defs)

lemma labels_lldp [simp]:
  "length (d_labels lldpLocalChassisInfo) = 2" "length (d_labels lldpNeighborInfo) = 9"
  "d_labels lldpNeighbors = []" "d_labels lldpScrapeDuration = []" "d_labels lldpCollectorSuccess = []"
  "d_labels lldpCacheAge = []" "d_labels lldpSkippedEntries = []"
  by (simp_all add: desc_defs)

lemma lldp_described [simp]:
  "lldpLocalChassisInfo \<in> set lldp_Describe" "lldpNeighborInfo \<in> set lldp_Describe"
  "lldpNeighbors \<in> set lldp_Describe" "lldpScrapeDuration \<in> set lldp_Describe"
  "lldpCollectorSuccess \<in> set lldp_Describe" "lldpCacheAge \<in> set lldp_Describe"
  "lldpSkippedEntries \<in> set lldp_Describe"
  by (simp_all add: lldp_Describe_def)

lemma lldp_names: "ownNames ''lldp'' lldp_Describe"
  by (simp add: ownNames_def lldp_Describe_def subsystemOf_def desc_defs)

text \<open>In any world: only good metrics, and never more neighbours than the limit.\<close>

definition lldp_accOk :: "(string \<Rightarrow> bool) \<Rightarrow> lldpCollector \<Rightarrow> lldpAcc \<Rightarrow> bool" where
  "lldp_accOk labelOk c acc =
     (case acc of (metrics, neighbors, skipped) \<Rightarrow>
        list_all (goodMetric labelOk (lldp_filter c) lldp_Describe) metrics \<and>
        0 \<le> neighbors \<and> neighbors \<le> max 0 (lldp_maxNeighbors (lldp_config c)) \<and> 0 \<le> skipped)"

lemma lldp_entry_ok:
  "lldp_accOk labelOk c acc \<Longrightarrow>
    post (lldp_entry labelOk lib cfg c i key acc)
      (\<lambda>r. case r of Continue b \<Rightarrow> lldp_accOk labelOk c b | Break b \<Rightarrow> lldp_accOk labelOk c b)"
proof (cases acc)
  case (fields ms n sk)
  note emit = post_bind_emit [where labelOk = labelOk and flt = "lldp_filter c" and descs = lldp_Describe]
  assume "lldp_accOk labelOk c acc"
  then show ?thesis
    unfolding fields lldp_entry_def Let_def
    by (auto simp: lldp_accOk_def intro!: post_rules emit)
qed

lemma lldp_scrape_ok: "post (lldp_scrapeMetrics labelOk lib c) (lldp_accOk labelOk c)"
proof -
  note emit = post_bind_emit [where labelOk = labelOk and flt = "lldp_filter c" and descs = lldp_Describe]
  have loop: "post (rangeLoop (lldp_entry labelOk lib cfg c) 0 keys acc) (lldp_accOk labelOk c)"
    if "lldp_accOk labelOk c acc" for cfg keys acc
    by (rule post_rangeLoop [where I = "\<lambda>_. lldp_accOk labelOk c"]) (use that in \<open>auto intro: lldp_entry_ok\<close>)
  show ?thesis
    unfolding lldp_scrapeMetrics_def Let_def
    by (auto simp: lldp_accOk_def intro!: post_rules emit loop)
qed

subsection \<open>Collect\<close>

definition lldp_health :: "gotime \<Rightarrow> lldpCollector \<Rightarrow> (desc \<times> f64) list" where
  "lldp_health now c =
     [(lldpNeighbors, lldp_lastNeighbors c), (lldpScrapeDuration, lastScrapeDuration c),
      (lldpCollectorSuccess, lastSuccess c), (lldpCacheAge, cacheAge now (lastRefreshTime c)),
      (lldpSkippedEntries, lastSkippedEntries c)]"

lemma lldp_Collect_yields:
  "lldp_IsEnabled c \<Longrightarrow>
    yields I (lldp_Collect labelOk now c) (cachedMetrics c @ gauges (lldp_filter c) (lldp_health now c))"
  unfolding lldp_Collect_def lldp_health_def Let_def lldp_IsEnabled_def
  by (simp only: not_True_eq_False if_False, rule yields_eq,
      (rule yields_bind_gauge, simp, simp)+, rule yields_gauge)
     (simp_all only: gauges_append append.simps fq_lldp labels_lldp)

lemma lldp_health_good: "list_all (goodMetric labelOk flt lldp_Describe) (gauges flt (lldp_health now c))"
  by (rule gauges_good) (auto simp: lldp_health_def)

subsection \<open>The specification of a refresh\<close>

text \<open>
  A neighbour entry is worth exporting when its key names an interface and one of the five
  identifying fields is there; management entries are passed over when the configuration says so.
\<close>

abbreviation lldpTable :: string where "lldpTable \<equiv> ''LLDP_ENTRY_TABLE:''"

definition lldp_passedOver :: "lldpCollector \<Rightarrow> string \<Rightarrow> bool" where
  "lldp_passedOver c key = (\<not> lldp_includeMgmt (lldp_config c) \<and> key = lldpTable @ ''eth0'')"

definition lldp_valid :: "(string \<Rightarrow> fields) \<Rightarrow> string \<Rightarrow> bool" where
  "lldp_valid db key =
     (hasPrefix key lldpTable \<and> key \<noteq> lldpTable \<and>
      (\<exists>k \<in> set [''lldp_rem_sys_name'', ''lldp_rem_port_id'', ''lldp_rem_port_desc'',
                  ''lldp_rem_chassis_id'', ''lldp_rem_man_addr'']. field (db key) k \<noteq> []))"

definition lldp_neighborMetric :: "(string \<Rightarrow> fields) \<Rightarrow> string \<Rightarrow> metric" where
  "lldp_neighborMetric db key =
     (let v = field (db key); i = trimPrefix key lldpTable
      in constMetric lldpNeighborInfo GaugeValue f64_1
           [i, lldp_localRole i, v ''lldp_rem_sys_name'', v ''lldp_rem_port_id'', v ''lldp_rem_port_desc'',
            v ''lldp_rem_port_id_subtype'',
            resolvedRemotePortDisplay (v ''lldp_rem_port_id'') (v ''lldp_rem_port_desc'')
              (v ''lldp_rem_port_id_subtype''),
            v ''lldp_rem_chassis_id'', v ''lldp_rem_man_addr''])"

text \<open>The exported keys, and the number of entries skipped, with room for \<open>n\<close> more neighbours.\<close>

definition lldp_exported :: "lldpCollector \<Rightarrow> (string \<Rightarrow> fields) \<Rightarrow> nat \<Rightarrow> string list \<Rightarrow> string list" where
  "lldp_exported c db n keys = take n (filter (\<lambda>k. \<not> lldp_passedOver c k \<and> lldp_valid db k) keys)"

fun lldp_skipped :: "lldpCollector \<Rightarrow> (string \<Rightarrow> fields) \<Rightarrow> nat \<Rightarrow> string list \<Rightarrow> nat" where
  "lldp_skipped c db n [] = 0"
| "lldp_skipped c db 0 (k # ks) = Suc (lldp_skipped c db 0 ks)"
| "lldp_skipped c db (Suc n) (k # ks) =
     (if lldp_passedOver c k then lldp_skipped c db (Suc n) ks
      else if lldp_valid db k then lldp_skipped c db n ks
      else Suc (lldp_skipped c db (Suc n) ks))"

definition lldp_spec ::
  "lldpCollector \<Rightarrow> (int \<Rightarrow> string \<Rightarrow> fields) \<Rightarrow> (int \<Rightarrow> string \<Rightarrow> string list) \<Rightarrow> lldpAcc" where
  "lldp_spec c db scan =
     (let keys = sort (scan 0 ''LLDP_ENTRY_TABLE:*'');
          n = nat (lldp_maxNeighbors (lldp_config c));
          chassis = db 0 ''LLDP_LOC_CHASSIS'';
          exported = lldp_exported c (db 0) n keys
      in ((if chassis \<noteq> [] \<and> Enabled (lldp_filter c) ''sonic_lldp_local_chassis_info''
           then [constMetric lldpLocalChassisInfo GaugeValue f64_1
                   [field chassis ''lldp_loc_sys_name'', field chassis ''lldp_loc_chassis_id'']]
           else []) @
          (if Enabled (lldp_filter c) ''sonic_lldp_neighbor_info''
           then map (lldp_neighborMetric (db 0)) exported else []),
          int (length exported), int (lldp_skipped c (db 0) n keys)))"

lemma lldp_key_iff:
  "trimPrefix key lldpTable = [] \<or> trimPrefix key lldpTable = key \<longleftrightarrow> \<not> hasPrefix key lldpTable \<or> key = lldpTable"
  by (auto simp: trimPrefix_def hasPrefix_def elim: prefixE)

lemma lldp_passedOver_iff:
  "hasPrefix key lldpTable \<Longrightarrow>
    lldp_passedOver c key \<longleftrightarrow> \<not> lldp_includeMgmt (lldp_config c) \<and> trimPrefix key lldpTable = ''eth0''"
  by (auto simp: lldp_passedOver_def dest: hasPrefix_trim)

lemma lldp_valid_iff:
  "lldp_valid db key \<longleftrightarrow>
    hasPrefix key lldpTable \<and> key \<noteq> lldpTable \<and> db key \<noteq> [] \<and>
    \<not> (field (db key) ''lldp_rem_sys_name'' = [] \<and> field (db key) ''lldp_rem_port_id'' = [] \<and>
       field (db key) ''lldp_rem_port_desc'' = [] \<and> field (db key) ''lldp_rem_chassis_id'' = [] \<and>
       field (db key) ''lldp_rem_man_addr'' = [])"
  by (cases "db key = []") (auto simp: lldp_valid_def)

lemma lldp_entry_yields:
  assumes "serves lib cfg db scan"
  shows "yields (handlesOk cfg) (lldp_entry anyLabel lib cfg c i key (ms, n, sk))
    (Continue
       (if lldp_maxNeighbors (lldp_config c) \<le> n then (ms, n, sk + 1)
        else if lldp_passedOver c key then (ms, n, sk)
        else if lldp_valid (db 0) key
        then (ms @ (if Enabled (lldp_filter c) ''sonic_lldp_neighbor_info''
                    then [lldp_neighborMetric (db 0) key] else []), n + 1, sk)
        else (ms, n, sk + 1)))"
proof -
  have read: "yields (handlesOk cfg) (io_wrap msg args (HgetAllFromDb lib cfg ''APPL_DB'' k)) (db 0 k)" for msg args k
    by (rule yields_wrap [OF yields_HgetAll [OF assms]]) (simp add: RedisDbId_def)
  consider "lldp_maxNeighbors (lldp_config c) \<le> n"
    | "\<not> lldp_maxNeighbors (lldp_config c) \<le> n" "\<not> hasPrefix key lldpTable \<or> key = lldpTable"
    | "\<not> lldp_maxNeighbors (lldp_config c) \<le> n" "hasPrefix key lldpTable" "key \<noteq> lldpTable"
    by blast
  then show ?thesis
  proof cases
    case 1
    then show ?thesis by (simp add: lldp_entry_def yields_return)
  next
    case 2
    then have "\<not> lldp_passedOver c key" "\<not> lldp_valid (db 0) key"
      by (auto simp: lldp_passedOver_def lldp_valid_def hasPrefix_def)
    with 2 show ?thesis by (simp add: lldp_entry_def Let_def lldp_key_iff yields_return)
  next
    case 3
    then have k: "\<not> (trimPrefix key lldpTable = [] \<or> trimPrefix key lldpTable = key)"
      by (simp add: lldp_key_iff)
    show ?thesis
    proof (cases "lldp_passedOver c key")
      case True
      with 3 k show ?thesis
        by (simp add: lldp_entry_def Let_def lldp_passedOver_iff yields_return)
    next
      case False
      note go = lldp_entry_def Let_def 3 k
      have "\<not> (\<not> lldp_includeMgmt (lldp_config c) \<and> trimPrefix key lldpTable = ''eth0'')"
        using False 3 by (simp add: lldp_passedOver_iff)
      note go = go this
      show ?thesis
      proof (cases "lldp_valid (db 0) key")
        case True
        note valid = True [unfolded lldp_valid_iff]
        show ?thesis
          apply (rule yields_eq)
          apply (simp only: go prod.case if_False)
          apply (rule yields_bind [OF read])
          apply (simp only: valid if_False Let_def)
          apply (rule yields_bind_emit)
          apply (simp, rule yields_return)
          apply (simp add: True False 3 lldp_neighborMetric_def Let_def)
          done
      next
        case invalid: False
        show ?thesis
          apply (rule yields_eq)
          apply (simp only: go prod.case if_False)
          apply (rule yields_bind [OF read])
          using invalid False 3 apply (auto simp: lldp_valid_iff intro: yields_return)
          done
      qed
    qed
  qed
qed

lemma lldp_exported_Nil [simp]: "lldp_exported c db n [] = []" "lldp_exported c db 0 ks = []"
  by (simp_all add: lldp_exported_def)

lemma lldp_exported_Cons [simp]:
  "lldp_exported c db (Suc n) (k # ks) =
    (if lldp_passedOver c k \<or> \<not> lldp_valid db k then lldp_exported c db (Suc n) ks
     else k # lldp_exported c db n ks)"
  by (simp add: lldp_exported_def)

lemma lldp_loop_yields:
  assumes "serves lib cfg db scan"
  shows "lldp_maxNeighbors (lldp_config c) = n + int room \<Longrightarrow>
    yields (handlesOk cfg) (rangeLoop (lldp_entry anyLabel lib cfg c) i keys (ms, n, sk))
      (ms @ (if Enabled (lldp_filter c) ''sonic_lldp_neighbor_info''
             then map (lldp_neighborMetric (db 0)) (lldp_exported c (db 0) room keys) else []),
       n + int (length (lldp_exported c (db 0) room keys)), sk + int (lldp_skipped c (db 0) room keys))"
proof (induction c "db 0" room keys arbitrary: i ms n sk rule: lldp_skipped.induct)
  case (1 c room)
  then show ?case by (simp add: yields_return)
next
  case (2 c k ks)
  then have full: "lldp_maxNeighbors (lldp_config c) \<le> n" by simp
  show ?case
    by (rule yields_loop_Continue, rule lldp_entry_yields [OF assms], rule yields_eq,
        simp only: full if_True, rule 2(1) [OF 2(2)]) simp
next
  case (3 c room k ks)
  then have room: "\<not> lldp_maxNeighbors (lldp_config c) \<le> n"
    "lldp_maxNeighbors (lldp_config c) = n + 1 + int room" by simp_all
  show ?case
  proof (cases "lldp_passedOver c k")
    case True
    show ?thesis
      by (rule yields_loop_Continue, rule lldp_entry_yields [OF assms], rule yields_eq,
          simp only: room(1) True if_True if_False, rule 3(1) [OF True 3(4)]) (simp add: True)
  next
    case go: False
    show ?thesis
    proof (cases "lldp_valid (db 0) k")
      case True
      show ?thesis
        by (rule yields_loop_Continue, rule lldp_entry_yields [OF assms], rule yields_eq,
            simp only: room(1) go True if_True if_False, rule 3(2) [OF go True room(2)])
           (simp add: go True)
    next
      case False
      show ?thesis
        by (rule yields_loop_Continue, rule lldp_entry_yields [OF assms], rule yields_eq,
            simp only: room(1) go False if_False, rule 3(3) [OF go False 3(4)])
           (simp add: go False)
    qed
  qed
qed

text \<open>A refresh of a server that holds still computes the specification.\<close>

lemma lldp_scrape_spec:
  assumes "serves lib cfg db scan" "0 < lldp_maxNeighbors (lldp_config c)"
  shows "fst (lldp_scrapeMetrics anyLabel lib c w) = Ok (lldp_spec c db scan)"
proof -
  have hget: "yields (handlesOk cfg) (io_wrap msg args (HgetAllFromDb lib cfg ''APPL_DB'' k)) (db 0 k)" for msg args k
    by (rule yields_wrap [OF yields_HgetAll [OF assms(1)]]) (simp add: RedisDbId_def)
  have keys: "yields (handlesOk cfg) (io_wrap msg args (ScanKeysFromDb lib cfg ''APPL_DB'' p n)) (scan 0 p)" for msg args p n
    by (rule yields_wrap [OF yields_ScanKeys [OF assms(1)]]) (simp add: RedisDbId_def)
  have room: "lldp_maxNeighbors (lldp_config c) = 0 + int (nat (lldp_maxNeighbors (lldp_config c)))"
    using assms(2) by simp
  show ?thesis
    unfolding lldp_scrapeMetrics_def Let_def
    by (rule withRedis_yields [OF assms(1)], rule yields_eq, rule yields_bind [OF keys], rule yields_bind [OF hget],
        rule yields_bind_emit, simp, rule lldp_loop_yields [OF assms(1) room])
       (simp add: lldp_spec_def Let_def)
qed

text \<open>The specification accounts for every scanned key, and exports every interface once.\<close>

lemma lldp_accounting:
  "length (lldp_exported c db n keys) + lldp_skipped c db n keys \<le> length keys \<and>
   length keys \<le> length (lldp_exported c db n keys) + lldp_skipped c db n keys
                 + length (filter (lldp_passedOver c) keys)"
  by (induction c db n keys rule: lldp_skipped.induct) auto

lemma lldp_accounting_exact:
  "length (lldp_exported c db n keys) < n \<Longrightarrow>
    length (lldp_exported c db n keys) + lldp_skipped c db n keys + length (filter (lldp_passedOver c) keys) = length keys"
  by (induction c db n keys rule: lldp_skipped.induct) (auto simp: lldp_exported_def min_less_iff_disj split: if_splits)

lemma lldp_exported_subset: "set (lldp_exported c db n keys) \<subseteq> set (filter (lldp_valid db) keys)"
  by (auto simp: lldp_exported_def dest!: in_set_takeD)

lemma lldp_neighbor_series:
  "distinct keys \<Longrightarrow> distinct (map series (map (lldp_neighborMetric db) (lldp_exported c db n keys)))"
proof -
  assume "distinct keys"
  then have "distinct (lldp_exported c db n keys)" by (simp add: lldp_exported_def)
  moreover have "inj_on (series \<circ> lldp_neighborMetric db) (set (lldp_exported c db n keys))"
  proof (rule inj_onI)
    fix x y
    assume xy: "x \<in> set (lldp_exported c db n keys)" "y \<in> set (lldp_exported c db n keys)"
      and "(series \<circ> lldp_neighborMetric db) x = (series \<circ> lldp_neighborMetric db) y"
    then have "trimPrefix x lldpTable = trimPrefix y lldpTable"
      by (simp add: lldp_neighborMetric_def Let_def)
    moreover have "hasPrefix x lldpTable" "hasPrefix y lldpTable"
      using xy lldp_exported_subset [of c db n keys] by (auto simp: lldp_valid_def)
    ultimately show "x = y" by (metis hasPrefix_trim)
  qed
  ultimately show ?thesis by (simp add: distinct_map)
qed

lemma lldp_spec_series:
  assumes "distinct (scan 0 ''LLDP_ENTRY_TABLE:*'')"
  shows "distinct (map series (fst (lldp_spec c db scan)))"
proof -
  have "series m \<noteq> series (lldp_neighborMetric d k)"
    if "m = constMetric lldpLocalChassisInfo GaugeValue f64_1 ls" for m ls d k
    using that by (simp add: lldp_neighborMetric_def Let_def)
  with lldp_neighbor_series [of "sort (scan 0 ''LLDP_ENTRY_TABLE:*'')"] assms show ?thesis
    by (auto simp: lldp_spec_def Let_def)
qed

subsection \<open>Everything sent is good\<close>

lemma lldp_Collect_good:
  "list_all (goodMetric labelOk (lldp_filter c) lldp_Describe) (cachedMetrics c) \<Longrightarrow>
    post (lldp_Collect labelOk now c) (list_all (goodMetric labelOk (lldp_filter c) lldp_Describe))"
proof (cases "lldp_IsEnabled c")
  case True
  assume "list_all (goodMetric labelOk (lldp_filter c) lldp_Describe) (cachedMetrics c)"
  then show ?thesis
    by (intro yields_post [OF lldp_Collect_yields [OF True]]) (simp add: lldp_health_good)
next
  case False
  then show ?thesis by (simp add: lldp_Collect_def lldp_IsEnabled_def post_return)
qed

interpretation lldp_source: metric_source lldp_assignments lldp_copies cacheState.truncate
  "\<lambda>c. (lldp_config c, lldp_filter c)" fst "lldp_scrapeMetrics labelOk lib" "lldp_Collect labelOk"
  "\<lambda>f. list_all (goodMetric labelOk (snd f) lldp_Describe)"
  for labelOk lib
proof unfold_locales
  show "post (lldp_scrapeMetrics labelOk lib c)
      (\<lambda>r. list_all (goodMetric labelOk (snd (lldp_config c, lldp_filter c)) lldp_Describe) (fst r))" for c
    by (rule post_mono [OF lldp_scrape_ok]) (auto simp: lldp_accOk_def)
qed (simp_all add: lldp_Collect_good cacheState.truncate_def)

subsection \<open>Properties\<close>

text \<open>A server with two interfaces, one of them the management one, and an entry with no data.\<close>

definition lldp_demoDb :: "int \<Rightarrow> string \<Rightarrow> fields" where
  "lldp_demoDb n key =
     (if key = ''LLDP_ENTRY_TABLE:Ethernet0'' then [(''lldp_rem_sys_name'', ''leaf1''), (''lldp_rem_port_id'', ''Eth1'')]
      else if key = ''LLDP_ENTRY_TABLE:eth0'' then [(''lldp_rem_chassis_id'', ''00:11'')]
      else [])"

definition lldp_demoScan :: "int \<Rightarrow> string \<Rightarrow> string list" where
  "lldp_demoScan n pattern =
     [''LLDP_ENTRY_TABLE:eth0'', ''LLDP_ENTRY_TABLE:Ethernet0'', ''LLDP_ENTRY_TABLE:Ethernet4'']"

definition lldp_demo :: lldpCollector where
  "lldp_demo = lldp_new (\<lambda>_. None) (NewMetricFilter (\<lambda>_. None))"

lemma lldp_demo_config [simp]:
  "lldp_config lldp_demo = loadLldpCollectorConfig (\<lambda>_. None)"
  "lldp_filter lldp_demo = NewMetricFilter (\<lambda>_. None)"
  by (simp_all add: lldp_demo_def lldp_new_def)

lemma lldp_maxNeighbors_pos: "lldp_config c = loadLldpCollectorConfig env \<Longrightarrow> 0 < lldp_maxNeighbors (lldp_config c)"
  by (simp add: loadLldpCollectorConfig_def parseIntEnv_pos)

text \<open>
  C1. On a server that holds still, a refresh returns what the specification says: the chassis,
  then in key order one metric for each of the first \<open>maxNeighbors\<close> keys worth exporting, their
  number, and the number of entries skipped. If the client library takes the label values, as here, it never
  fails, panics or hangs there.
\<close>

theorem lldp_refresh_refines_spec:
  assumes "serves lib cfg db scan" "lldp_config c = loadLldpCollectorConfig env"
  shows "fst (lldp_scrapeMetrics anyLabel lib c w) = Ok (lldp_spec c db scan)"
  by (rule lldp_scrape_spec [OF assms(1) lldp_maxNeighbors_pos [OF assms(2)]])

theorem lldp_refresh_refines_spec_witness:
  "fst (lldp_scrapeMetrics anyLabel (staticLib localRedis lldp_demoDb lldp_demoScan) lldp_demo
     \<lparr>server = (), databases = []\<rparr>) = Ok (lldp_spec lldp_demo lldp_demoDb lldp_demoScan)"
  by (rule lldp_refresh_refines_spec [OF staticLib_serves]) simp

text \<open>
  C10. On a server that holds still, and if the client library takes the label values, the counts of a refresh account
  for the keys the scan returned: neighbours and skipped entries together are all keys but the management entries
  the configuration passes over, exactly those when the limit is not reached, and at most those when it is (the loop counts
  every key as skipped from then on). There are never more neighbours than the limit, and as many neighbour
  metrics as neighbours when they are enabled.
\<close>

theorem lldp_refresh_accounts_for_keys:
  assumes "serves lib cfg db scan" "lldp_config c = loadLldpCollectorConfig env"
  shows "\<exists>ms neighbors skipped. fst (lldp_scrapeMetrics anyLabel lib c w) = Ok (ms, neighbors, skipped) \<and>
    neighbors \<le> lldp_maxNeighbors (lldp_config c) \<and>
    (let keys = scan 0 ''LLDP_ENTRY_TABLE:*''; passedOver = filter (lldp_passedOver c) keys in
     neighbors + skipped \<le> int (length keys) \<and>
     int (length keys) \<le> neighbors + skipped + int (length passedOver) \<and>
     (neighbors < lldp_maxNeighbors (lldp_config c) \<longrightarrow>
        int (length keys) = neighbors + skipped + int (length passedOver))) \<and>
    (Enabled (lldp_filter c) ''sonic_lldp_neighbor_info'' \<longrightarrow>
       int (length (filter (\<lambda>m. m_desc m = lldpNeighborInfo) ms)) = neighbors)"
proof -
  let ?scan = "scan 0 ''LLDP_ENTRY_TABLE:*''"
  let ?n = "nat (lldp_maxNeighbors (lldp_config c))"
  let ?ex = "lldp_exported c (db 0) ?n (sort ?scan)"
  obtain ms n sk where spec: "lldp_spec c db scan = (ms, n, sk)"
    by (cases "lldp_spec c db scan")
  have "length ?ex \<le> ?n"
    by (simp add: lldp_exported_def)
  then have "n \<le> lldp_maxNeighbors (lldp_config c)"
    using spec lldp_maxNeighbors_pos [OF assms(2)] by (auto simp: lldp_spec_def Let_def)
  moreover have "length (filter (lldp_passedOver c) (sort ?scan)) = length (filter (lldp_passedOver c) ?scan)"
    by (simp add: filter_sort)
  with lldp_accounting [of c "db 0" ?n "sort ?scan"] spec
  have "n + sk \<le> int (length ?scan)"
    "int (length ?scan) \<le> n + sk + int (length (filter (lldp_passedOver c) ?scan))"
    by (auto simp: lldp_spec_def Let_def)
  moreover have "int (length ?scan) = n + sk + int (length (filter (lldp_passedOver c) ?scan))" if "n < lldp_maxNeighbors (lldp_config c)"
  proof -
    have "n = int (length ?ex)" "sk = int (lldp_skipped c (db 0) ?n (sort ?scan))"
      using spec by (auto simp: lldp_spec_def Let_def)
    moreover from this that have "length ?ex < ?n"
      by linarith
    from lldp_accounting_exact [OF this] have "length ?ex + lldp_skipped c (db 0) ?n (sort ?scan) + length (filter (lldp_passedOver c) ?scan) =
        length ?scan"
      by (simp add: filter_sort)
    ultimately show ?thesis by linarith
  qed
  moreover have "lldpLocalChassisInfo \<noteq> lldpNeighborInfo"
    by (simp add: desc_defs NewDesc_def)
  then have "Enabled (lldp_filter c) ''sonic_lldp_neighbor_info'' \<longrightarrow>
      int (length (filter (\<lambda>m. m_desc m = lldpNeighborInfo) ms)) = n"
    using spec by (auto simp: lldp_spec_def Let_def lldp_neighborMetric_def filter_map o_def)
  ultimately show ?thesis
    using lldp_scrape_spec [OF assms(1) lldp_maxNeighbors_pos [OF assms(2)], of w] spec by (auto simp: Let_def)
qed

theorem lldp_refresh_accounts_for_keys_witness:
  "\<exists>ms neighbors skipped. fst (lldp_scrapeMetrics anyLabel (staticLib localRedis lldp_demoDb lldp_demoScan) lldp_demo
       \<lparr>server = (), databases = []\<rparr>) = Ok (ms, neighbors, skipped) \<and> neighbors + skipped = 3"
  using lldp_refresh_accounts_for_keys [OF staticLib_serves [of localRedis lldp_demoDb lldp_demoScan],
      of lldp_demo "\<lambda>_. None" "\<lparr>server = (), databases = []\<rparr>"]
  by (fastforce simp: Let_def lldp_demoScan_def lldp_passedOver_def loadLldpCollectorConfig_def parseBoolEnv_def setEnv_def)

text \<open>
  C3. No torn reads: whatever the interleaving of refreshes and scrapes of the exporter, the
  fields a \<^verbatim>\<open>Collect\<close> copies under the read lock are those of the collector after a whole number
  of refreshes.
\<close>

theorem lldp_collect_reads_whole_refreshes:
  assumes "rwReach lldp_assignments lldp_copies c0 s" "readers s i = RDone l"
  shows "\<exists>n\<le>length (history s). l = replay lldp_assignments (take n (history s)) c0"
  by (rule lldp.read_atomic [OF assms])

theorem lldp_collect_reads_whole_refreshes_witness:
  "\<exists>s l. rwReach lldp_assignments lldp_copies lldp_demo s \<and> readers s 0 = RDone l \<and>
     (\<exists>n\<le>length (history s). l = replay lldp_assignments (take n (history s)) lldp_demo)"
  using lldp_collect_reads_whole_refreshes [OF rw_read_alone, where i = 0]
    rw_read_alone [of lldp_assignments lldp_copies lldp_demo]
  by fastforce

lemma lldp_repeated_key_spec:
  "\<not> distinct (map series (fst (lldp_spec lldp_demo lldp_demoDb
       (\<lambda>_ _. [''LLDP_ENTRY_TABLE:Ethernet0'', ''LLDP_ENTRY_TABLE:Ethernet0'']))))"
proof -
  have on: "Enabled (NewMetricFilter (\<lambda>_. None)) name" for name
    by (rule Enabled_empty) simp
  have config: "lldp_maxNeighbors (loadLldpCollectorConfig (\<lambda>_. None)) = 512"
    "lldp_includeMgmt (loadLldpCollectorConfig (\<lambda>_. None))"
    by (simp_all add: loadLldpCollectorConfig_def parseIntEnv_def parseBoolEnv_def setEnv_def)
  have "lldp_exported lldp_demo (lldp_demoDb 0) 512 [''LLDP_ENTRY_TABLE:Ethernet0'', ''LLDP_ENTRY_TABLE:Ethernet0''] =
      [''LLDP_ENTRY_TABLE:Ethernet0'', ''LLDP_ENTRY_TABLE:Ethernet0'']"
    by (simp add: lldp_exported_def lldp_passedOver_def lldp_valid_def config lldp_demoDb_def hasPrefix_def)
  then show ?thesis
    by (simp add: lldp_spec_def Let_def on config)
qed

text \<open>
  A scan may return a key more than once (Redis documents that for a table that is being
  resized). The refresh does not look for repetitions: with the default settings it then exports
  the interface's series twice, which makes the registry refuse the whole scrape.
\<close>

lemma lldp_repeated_key_repeats_series:
  "\<exists>ms n skipped.
    fst (lldp_scrapeMetrics anyLabel (staticLib localRedis lldp_demoDb
           (\<lambda>_ _. [''LLDP_ENTRY_TABLE:Ethernet0'', ''LLDP_ENTRY_TABLE:Ethernet0''])) lldp_demo w) = Ok (ms, n, skipped) \<and>
    \<not> distinct (map series ms)"
proof -
  let ?keys = "\<lambda>_ _. [''LLDP_ENTRY_TABLE:Ethernet0'', ''LLDP_ENTRY_TABLE:Ethernet0'']"
  have "0 < lldp_maxNeighbors (lldp_config lldp_demo)"
    by (simp add: lldp_demo_def lldp_new_def loadLldpCollectorConfig_def parseIntEnv_pos)
  from lldp_scrape_spec [OF staticLib_serves this, of localRedis lldp_demoDb ?keys w] lldp_repeated_key_spec
  show ?thesis
    by (cases "lldp_spec lldp_demo lldp_demoDb ?keys") simp
qed

text \<open>
  A neighbour whose system name the client library does not take as a label value makes the
  refresh panic, outside any \<^verbatim>\<open>recover\<close>.
\<close>

lemma lldp_rejected_label_panics:
  assumes "serves lib cfg db scan" "handlesOk cfg w" "n < lldp_maxNeighbors (lldp_config c)"
    "lldp_valid (db 0) key" "\<not> lldp_passedOver c key" "Enabled (lldp_filter c) ''sonic_lldp_neighbor_info''"
    "\<not> labelOk (field (db 0 key) ''lldp_rem_sys_name'')"
  shows "fst (lldp_entry labelOk lib cfg c i key (ms, n, sk) w) = Panic ''MustNewConstMetric''"
proof -
  have key: "hasPrefix key lldpTable" "key \<noteq> lldpTable"
    using assms(4) by (simp_all add: lldp_valid_def)
  have "\<not> (trimPrefix key lldpTable = [] \<or> trimPrefix key lldpTable = key)"
    using key by (simp add: lldp_key_iff)
  moreover have "\<not> (\<not> lldp_includeMgmt (lldp_config c) \<and> trimPrefix key lldpTable = ''eth0'')"
    using assms(5) key by (simp add: lldp_passedOver_iff)
  moreover obtain w' where "HgetAllFromDb lib cfg ''APPL_DB'' key w = (Ok (db 0 key), w')"
    using yields_HgetAll [OF assms(1), of "''APPL_DB''" 0 key] assms(2)
    unfolding yields_def by (auto simp: RedisDbId_def)
  ultimately show ?thesis
    using assms(3,6,7) assms(4) [unfolded lldp_valid_iff]
    by (auto simp: lldp_entry_def Let_def io_bind_def io_wrap_def emit_def MustNewConstMetric_def)
qed

end
