(* ===== verification/MemberGroups.thy ===== *)
theory MemberGroups
  imports Snapshot
begin

text \<open>
  What the VLAN and the LAG collector have in common: names gathered from two tables into a set,
  members listed under their group, and a loop over the groups that stops exporting groups and
  members at two limits. The loops are specified once here, for any body that behaves alike.
\<close>

text \<open>One turn of the loop that gathers names: the set is a list without repetitions.\<close>

definition addName :: "string \<Rightarrow> string \<Rightarrow> string list \<times> int \<Rightarrow> string list \<times> int" where
  "addName pre key acc =
     (case acc of (names, skippedEntries) \<Rightarrow>
        let name = trimPrefix key pre
        in if name = [] \<or> name = key then (names, skippedEntries + 1)
           else (List.insert name names, skippedEntries))"

lemma addNames_skipped:
  assumes "pre \<noteq> []"
  shows "snd (fold (addName pre) keys acc) = snd acc + int (length (filter (\<lambda>k. \<not> named pre k) keys))"
  by (induction keys arbitrary: acc)
     (auto simp: addName_def Let_def trimPrefix_unnamed [OF assms, symmetric] split: prod.split)

lemma addNames_set:
  assumes "pre \<noteq> []"
  shows "set (fst (fold (addName pre) keys acc)) =
    set (fst acc) \<union> (\<lambda>k. trimPrefix k pre) ` set (filter (named pre) keys)"
proof (induction keys arbitrary: acc)
  case (Cons k ks)
  then show ?case
    using trimPrefix_unnamed [OF assms, of k]
    by (cases acc; cases "named pre k") (auto simp: addName_def Let_def)
qed simp

lemma addNames_distinct: "distinct (fst acc) \<Longrightarrow> distinct (fst (fold (addName pre) keys acc))"
proof (induction keys arbitrary: acc)
  case (Cons k ks)
  then show ?case by (cases acc) (auto simp: addName_def Let_def)
qed simp

subsection \<open>Members under a limit\<close>

lemma member_loop_yields:
  assumes "\<And>i x ms n count sk. yields I (body i x (ms, n, count, sk))
      (Continue (if limit \<le> n then (ms, n, count, sk + 1)
                 else (ms @ f x, n + 1, count + 1, sk)))"
  shows "room = nat (limit - n) \<Longrightarrow>
    yields I (rangeLoop body i xs (ms, n, count, sk))
      (ms @ concat (map f (take room xs)), n + int (length (take room xs)),
       count + int (length (take room xs)), sk + int (length xs - room))"
proof (induction xs arbitrary: i room ms n count sk)
  case Nil
  then show ?case by (simp add: yields_return)
next
  case (Cons x xs)
  note body = assms [of i x ms n count sk]
  show ?case
  proof (cases "limit \<le> n")
    case True
    with body have "yields I (body i x (ms, n, count, sk)) (Continue (ms, n, count, sk + 1))"
      by simp
    note step = this
    show ?thesis
      by (rule yields_eq, rule yields_loop_Continue, rule step, rule Cons.IH [of 0])
         (use True Cons.prems in simp_all)
  next
    case False
    with body have "yields I (body i x (ms, n, count, sk)) (Continue (ms @ f x, n + 1, count + 1, sk))"
      by simp
    note step = this
    from False Cons.prems have room: "room = Suc (nat (limit - (n + 1)))"
      by simp
    show ?thesis
      by (rule yields_eq, rule yields_loop_Continue, rule step, rule Cons.IH [OF refl])
         (use room in simp_all)
  qed
qed

subsection \<open>Groups under a limit\<close>

text \<open>
  The metrics of the groups in \<open>names\<close>, with room for \<open>groups\<close> more groups and \<open>room\<close> more
  members, and how many groups and members do not fit: \<open>block\<close> gives the metrics of one group
  with the members that are exported.
\<close>

fun limitedGroups ::
  "(string \<Rightarrow> 'm list) \<Rightarrow> (string \<Rightarrow> 'm list \<Rightarrow> metric list) \<Rightarrow> nat \<Rightarrow> nat \<Rightarrow> string list \<Rightarrow> metric list" where
  "limitedGroups members block 0 room names = []"
| "limitedGroups members block (Suc groups) room [] = []"
| "limitedGroups members block (Suc groups) room (name # names) =
     block name (take room (members name)) @
     limitedGroups members block groups (room - length (members name)) names"

fun droppedEntries :: "(string \<Rightarrow> 'm list) \<Rightarrow> nat \<Rightarrow> nat \<Rightarrow> string list \<Rightarrow> nat" where
  "droppedEntries members 0 room names = length names"
| "droppedEntries members (Suc groups) room [] = 0"
| "droppedEntries members (Suc groups) room (name # names) =
     (length (members name) - room) +
     droppedEntries members groups (room - length (members name)) names"

lemma group_loop_yields:
  assumes "\<And>i name ms g n sk. yields I (body i name (ms, g, n, sk))
      (Continue (if groupLimit \<le> g then (ms, g, n, sk + 1)
                 else (ms @ block name (take (nat (memberLimit - n)) (members name)), g + 1,
                       n + int (length (take (nat (memberLimit - n)) (members name))),
                       sk + int (length (members name) - nat (memberLimit - n)))))"
  shows "groups = nat (groupLimit - g) \<Longrightarrow> room = nat (memberLimit - n) \<Longrightarrow>
    \<exists>g' n'. yields I (rangeLoop body i names (ms, g, n, sk))
      (ms @ limitedGroups members block groups room names, g', n',
       sk + int (droppedEntries members groups room names))"
proof (induction names arbitrary: i groups room ms g n sk)
  case Nil
  have "limitedGroups members block groups room [] = []" "droppedEntries members groups room [] = 0"
    by (cases groups; simp)+
  then show ?case by (auto intro!: yields_return)
next
  case (Cons name names)
  note body = assms [of i name ms g n sk]
  show ?case
  proof (cases "groupLimit \<le> g")
    case True
    with body have "yields I (body i name (ms, g, n, sk)) (Continue (ms, g, n, sk + 1))"
      by simp
    with Cons.IH [of groups g room n "Suc i" ms "sk + 1"] Cons.prems True show ?thesis
      by (fastforce dest: yields_loop_Continue simp: add.assoc)
  next
    case False
    let ?ex = "take room (members name)"
    from body False Cons.prems
    have "yields I (body i name (ms, g, n, sk))
        (Continue (ms @ block name ?ex, g + 1, n + int (length ?ex), sk + int (length (members name) - room)))"
      by simp
    moreover obtain k where k: "groups = Suc k" "k = nat (groupLimit - (g + 1))"
      using False Cons.prems by (cases groups) auto
    moreover have "room - length (members name) = nat (memberLimit - (n + int (length ?ex)))"
      using Cons.prems by auto
    ultimately show ?thesis
      using Cons.IH [of k "g + 1" "room - length (members name)" "n + int (length ?ex)" "Suc i"
          "ms @ block name ?ex" "sk + int (length (members name) - room)"]
      by (fastforce dest: yields_loop_Continue simp: add.assoc simp del: length_take)
  qed
qed

text \<open>Every group and member is exported or counted, and the exported ones stay within the limits.\<close>

lemma limitedGroups_mem:
  "m \<in> set (limitedGroups members block groups room names) \<Longrightarrow>
    \<exists>name\<in>set names. \<exists>n. m \<in> set (block name (take n (members name)))"
  by (induction members block groups room names rule: limitedGroups.induct) fastforce+

lemma limitedGroups_Nil [simp]: "limitedGroups members block groups room [] = []"
  by (cases groups) simp_all

lemma limitedGroups_series:
  assumes one: "\<And>name n. distinct (map series (block name (take n (members name))))"
    and tag: "\<And>name ms m. m \<in> set (block name ms) \<Longrightarrow> hd (m_labels m) = name"
  shows "distinct names \<Longrightarrow> distinct (map series (limitedGroups members block groups room names))"
proof (induction names arbitrary: groups room)
  case (Cons name names)
  have apart: "series m \<noteq> series m'"
    if m: "m \<in> set (block name (take room (members name)))"
      and m': "m' \<in> set (limitedGroups members block g r names)" for m m' g r
  proof -
    obtain name' n where "name' \<in> set names" "m' \<in> set (block name' (take n (members name')))"
      using limitedGroups_mem [OF m'] by blast
    then have "hd (m_labels m) \<noteq> hd (m_labels m')"
      using Cons.prems tag [OF m] tag by (metis distinct.simps(2))
    then show ?thesis by (auto simp: series_def)
  qed
  show ?case
  proof (cases groups)
    case (Suc g)
    have "set (map series (block name (take room (members name)))) \<inter>
        set (map series (limitedGroups members block g (room - length (members name)) names)) = {}"
      using apart by fastforce
    with Suc Cons one show ?thesis by simp
  qed simp
qed simp

text \<open>How many of the metrics have a property that at most one metric of a group has, or at most
  one metric a member.\<close>

lemma limitedGroups_groups:
  assumes "\<And>name ms. length (filter P (block name ms)) \<le> 1"
  shows "length (filter P (limitedGroups members block groups room names)) \<le> groups"
proof (induction names arbitrary: groups room)
  case (Cons name names)
  show ?case
  proof (cases groups)
    case (Suc g)
    with Cons.IH [of g "room - length (members name)"] assms [of name "take room (members name)"]
    show ?thesis by simp
  qed simp
qed simp

lemma limitedGroups_members:
  assumes "\<And>name ms. length (filter P (block name ms)) \<le> length ms"
  shows "length (filter P (limitedGroups members block groups room names)) \<le> room"
proof (induction names arbitrary: groups room)
  case (Cons name names)
  show ?case
  proof (cases groups)
    case (Suc g)
    have "length (filter P (block name (take room (members name)))) \<le> length (take room (members name))"
      by (rule assms)
    with Suc Cons.IH [of g "room - length (members name)"]
    show ?thesis by (cases "room \<le> length (members name)") auto
  qed simp
qed simp

text \<open>Nothing dropped means nothing missing.\<close>

lemma limitedGroups_complete:
  "droppedEntries members groups room names = 0 \<Longrightarrow>
    limitedGroups members block groups room names = concat (map (\<lambda>name. block name (members name)) names)"
proof (induction names arbitrary: groups room)
  case (Cons name names)
  show ?case
  proof (cases groups)
    case 0
    with Cons.prems show ?thesis by simp
  next
    case (Suc g)
    with Cons show ?thesis by simp
  qed
qed simp

end
