(* ===== verification/Vlan.thy ===== *)
theory Vlan
  imports MemberGroups
begin

text \<open>
  \<^verbatim>\<open>vlan_collector.go\<close>: the VLANs of \<^verbatim>\<open>CONFIG_DB\<close> and \<^verbatim>\<open>APPL_DB\<close> with their members. Go's
  \<^verbatim>\<open>sort.Slice\<close> on the members is the stable \<open>sort_key\<close>; the two differ only on members of equal name.
\<close>

record vlanCollectorConfig =
  vlan_enabled :: bool
  vlan_refreshInterval :: duration
  vlan_timeout :: duration
  vlan_maxVlans :: int
  vlan_maxMembers :: int
  vlan_redisScanCount :: int

record vlanCollector = skipState +
  vlan_config :: vlanCollectorConfig
  vlan_filter :: metricFilter

subsection \<open>Construction\<close>

definition vlanInfo :: desc where [desc_defs]:
  "vlanInfo = NewDesc ''sonic'' ''vlan'' ''info''
     ''Non-numeric data about VLAN, value is always 1'' [''vlan'', ''vlan_id'']"

definition vlanAdminStatus :: desc where [desc_defs]:
  "vlanAdminStatus = NewDesc ''sonic'' ''vlan'' ''admin_status''
     ''Administrative state of VLAN (1=up, 0=down)'' [''vlan'']"

definition vlanOperStatus :: desc where [desc_defs]:
  "vlanOperStatus = NewDesc ''sonic'' ''vlan'' ''oper_status''
     ''Operational state of VLAN (1=up, 0=down)'' [''vlan'']"

definition vlanMembersDesc :: desc where [desc_defs]:
  "vlanMembersDesc = NewDesc ''sonic'' ''vlan'' ''members''
     ''Number of VLAN members'' [''vlan'']"

definition vlanMemberInfo :: desc where [desc_defs]:
  "vlanMemberInfo = NewDesc ''sonic'' ''vlan'' ''member_info''
     ''Non-numeric data about VLAN member, value is always 1'' [''vlan'', ''member'', ''tagging_mode'']"

definition vlanScrapeDuration :: desc where [desc_defs]:
  "vlanScrapeDuration = NewDesc ''sonic'' ''vlan'' ''scrape_duration_seconds''
     ''Time it took for exporter to refresh VLAN metrics'' []"

definition vlanCollectorSuccess :: desc where [desc_defs]:
  "vlanCollectorSuccess = NewDesc ''sonic'' ''vlan'' ''collector_success''
     ''Whether VLAN collector succeeded'' []"

definition vlanCacheAge :: desc where [desc_defs]:
  "vlanCacheAge = NewDesc ''sonic'' ''vlan'' ''cache_age_seconds''
     ''Age of latest VLAN cache refresh'' []"

definition vlanEntriesSkipped :: desc where [desc_defs]:
  "vlanEntriesSkipped = NewDesc ''sonic'' ''vlan'' ''entries_skipped''
     ''Number of VLAN entries skipped during latest refresh'' []"

definition loadVlanCollectorConfig :: "env \<Rightarrow> vlanCollectorConfig" where
  "loadVlanCollectorConfig env =
     \<lparr>vlan_enabled = parseBoolEnv env ''VLAN_ENABLED'' True,
      vlan_refreshInterval = parseDurationEnv env ''VLAN_REFRESH_INTERVAL'' (30 * second),
      vlan_timeout = parseDurationEnv env ''VLAN_TIMEOUT'' (2 * second),
      vlan_maxVlans = parseIntEnv env ''VLAN_MAX_VLANS'' 1024,
      vlan_maxMembers = parseIntEnv env ''VLAN_MAX_MEMBERS'' 8192,
      vlan_redisScanCount = 256\<rparr>"

definition vlan_new :: "env \<Rightarrow> metricFilter \<Rightarrow> vlanCollector" where
  "vlan_new env flt =
     \<lparr>cachedMetrics = [], lastSuccess = f64_0, lastScrapeDuration = f64_0, lastRefreshTime = 0,
      lastSkippedEntries = f64_0,
      vlan_config = loadVlanCollectorConfig env, vlan_filter = flt\<rparr>"

definition vlan_IsEnabled :: "vlanCollector \<Rightarrow> bool" where
  "vlan_IsEnabled c = vlan_enabled (vlan_config c)"

definition vlan_Describe :: "desc list" where
  "vlan_Describe =
     [vlanInfo,
      vlanAdminStatus,
      vlanOperStatus,
      vlanMembersDesc,
      vlanMemberInfo,
      vlanScrapeDuration,
      vlanCollectorSuccess,
      vlanCacheAge,
      vlanEntriesSkipped]"

subsection \<open>Scraping Redis\<close>

record vlanMemberEntry =
  vlanm_name :: string
  vlanm_taggingMode :: string

type_synonym vlanMembers = "string \<Rightarrow> vlanMemberEntry list"

definition vlan_names :: "string list \<Rightarrow> string list \<Rightarrow> string list \<times> int" where
  "vlan_names configVlans applVlans =
     fold (addName ''VLAN_TABLE:'') applVlans (fold (addName ''VLAN|'') configVlans ([], 0))"

text \<open>One turn of the loop over the member keys; \<open>membersVlan\<close> is \<^verbatim>\<open>membersByVlan\<close>.\<close>

definition vlan_member ::
  "'s redisLib \<Rightarrow> redisConfig \<Rightarrow> nat \<Rightarrow> string \<Rightarrow> vlanMembers \<times> int \<Rightarrow> ('s, (vlanMembers \<times> int) loop) rio" where
  "vlan_member lib cfg index key acc =
     (case acc of (membersVlan, skippedEntries) \<Rightarrow>
        let memberPath = trimPrefix key ''VLAN_MEMBER|''
        in if memberPath = [] \<or> memberPath = key
        then io_return (Continue (membersVlan, skippedEntries + 1))
        else
          let parts = splitN2 (CHR ''|'') memberPath
          in if length parts \<noteq> 2 \<or> parts ! 0 = [] \<or> parts ! 1 = []
          then io_return (Continue (membersVlan, skippedEntries + 1))
          else
            io_bind (io_wrap ''failed to read %s: %w'' [key] (HgetAllFromDb lib cfg ''CONFIG_DB'' key)) (\<lambda>memberData.
            let entry = \<lparr>vlanm_name = parts ! 1, vlanm_taggingMode = firstNonEmpty [field memberData ''tagging_mode'', ''unknown'']\<rparr>
            in io_return (Continue
                 (membersVlan(parts ! 0 := membersVlan (parts ! 0) @ [entry]), skippedEntries))))"

text \<open>One turn of the loop over the members of a group.\<close>

type_synonym vlanMemberAcc = "metric list \<times> int \<times> int \<times> int"

definition vlan_exportMember ::
  "(string \<Rightarrow> bool) \<Rightarrow> vlanCollector \<Rightarrow> string \<Rightarrow> nat \<Rightarrow> vlanMemberEntry \<Rightarrow> vlanMemberAcc
     \<Rightarrow> ('s, vlanMemberAcc loop) rio" where
  "vlan_exportMember labelOk c vlanName index member acc =
     (case acc of (metrics, processedMembers, memberCount, skippedEntries) \<Rightarrow>
        if processedMembers \<ge> vlan_maxMembers (vlan_config c)
        then io_return (Continue (metrics, processedMembers, memberCount, skippedEntries + 1))
        else
          io_bind (emit (Enabled (vlan_filter c) ''sonic_vlan_member_info'')
                     (MustNewConstMetric labelOk vlanMemberInfo GaugeValue f64_1
                        [vlanName, vlanm_name member, vlanm_taggingMode member])
                     metrics) (\<lambda>metrics.
          io_return (Continue (metrics, processedMembers + 1, memberCount + 1, skippedEntries))))"

text \<open>One turn of the loop over the sorted names.\<close>

type_synonym vlanAcc = "metric list \<times> int \<times> int \<times> int"

definition vlan_export ::
  "(string \<Rightarrow> bool) \<Rightarrow> 's redisLib \<Rightarrow> redisConfig \<Rightarrow> vlanCollector \<Rightarrow> vlanMembers \<Rightarrow> nat \<Rightarrow> string \<Rightarrow> vlanAcc
     \<Rightarrow> ('s, vlanAcc loop) rio" where
  "vlan_export labelOk lib cfg c membersVlan index vlanName acc =
     (case acc of (metrics, processedVlans, processedMembers, skippedEntries) \<Rightarrow>
        let on = Enabled (vlan_filter c) in
        if processedVlans \<ge> vlan_maxVlans (vlan_config c)
        then io_return (Continue (metrics, processedVlans, processedMembers, skippedEntries + 1))
        else
          io_bind (io_wrap ''failed to read CONFIG_DB VLAN|%s: %w'' [vlanName]
                     (HgetAllFromDb lib cfg ''CONFIG_DB'' (''VLAN|'' @ vlanName))) (\<lambda>configData.
          io_bind (io_wrap ''failed to read APPL_DB VLAN_TABLE:%s: %w'' [vlanName]
                     (HgetAllFromDb lib cfg ''APPL_DB'' (''VLAN_TABLE:'' @ vlanName))) (\<lambda>applData.
          let vlanID = firstNonEmpty [field configData ''vlanid'', trimPrefix vlanName ''Vlan''] in
          io_bind (emit (on ''sonic_vlan_info'')
                     (MustNewConstMetric labelOk vlanInfo GaugeValue f64_1 [vlanName, vlanID]) metrics) (\<lambda>metrics.
          let adminStatus = firstNonEmpty [field applData ''admin_status'', field configData ''admin_status''] in
          io_bind (emit (adminStatus \<noteq> [] \<and> on ''sonic_vlan_admin_status'')
                     (MustNewConstMetric labelOk vlanAdminStatus GaugeValue (statusToGauge adminStatus) [vlanName])
                     metrics) (\<lambda>metrics.
          let operStatus = field applData ''oper_status'' in
          io_bind (emit (operStatus \<noteq> [] \<and> on ''sonic_vlan_oper_status'')
                     (MustNewConstMetric labelOk vlanOperStatus GaugeValue (statusToGauge operStatus) [vlanName])
                     metrics) (\<lambda>metrics.
          let members = sort_key vlanm_name (membersVlan vlanName) in
          io_bind (rangeLoop (vlan_exportMember labelOk c vlanName) 0 members
                     (metrics, processedMembers, 0, skippedEntries)) (\<lambda>acc.
          case acc of (metrics, processedMembers, memberCount, skippedEntries) \<Rightarrow>
          io_bind (emit (on ''sonic_vlan_members'')
                     (MustNewConstMetric labelOk vlanMembersDesc GaugeValue (f64_of_int memberCount) [vlanName])
                     metrics) (\<lambda>metrics.
          io_return (Continue (metrics, processedVlans + 1, processedMembers, skippedEntries))))))))))"

type_synonym vlanResult = "metric list \<times> int"

definition vlan_scrapeMetrics ::
  "(string \<Rightarrow> bool) \<Rightarrow> 's redisLib \<Rightarrow> vlanCollector \<Rightarrow> ('s, vlanResult) rio" where
  "vlan_scrapeMetrics labelOk lib c =
     withRedis lib (\<lambda>cfg.
       let count = vlan_redisScanCount (vlan_config c) in
       io_bind (io_wrap ''failed to scan VLAN keys: %w'' []
                  (ScanKeysFromDb lib cfg ''CONFIG_DB'' ''VLAN|*'' count)) (\<lambda>configVlans.
       io_bind (io_wrap ''failed to scan VLAN_TABLE keys: %w'' []
                  (ScanKeysFromDb lib cfg ''APPL_DB'' ''VLAN_TABLE:*'' count)) (\<lambda>applVlans.
       io_bind (io_wrap ''failed to scan VLAN_MEMBER keys: %w'' []
                  (ScanKeysFromDb lib cfg ''CONFIG_DB'' ''VLAN_MEMBER|*'' count)) (\<lambda>memberKeys.
       case vlan_names configVlans applVlans of (vlans, skippedEntries) \<Rightarrow>
       let vlanNames = sort vlans in
       io_bind (rangeLoop (vlan_member lib cfg) 0 memberKeys (\<lambda>_. [], skippedEntries)) (\<lambda>acc.
       case acc of (membersVlan, skippedEntries) \<Rightarrow>
       io_bind (rangeLoop (vlan_export labelOk lib cfg c membersVlan) 0 vlanNames
                  ([], 0, 0, skippedEntries)) (\<lambda>acc.
       case acc of (metrics, processedVlans, processedMembers, skippedEntries) \<Rightarrow>
       io_return (metrics, skippedEntries)))))))"

subsection \<open>Refreshing and collecting\<close>

definition vlan_assignments ::
  "refreshClock \<Rightarrow> goerr + vlanResult \<Rightarrow> (vlanCollector \<Rightarrow> vlanCollector) list" where
  "vlan_assignments clk r =
     (\<lambda>c. c\<lparr>lastScrapeDuration := scrapeSeconds clk\<rparr>) #
     (case r of
        Inl err \<Rightarrow> [\<lambda>c. c\<lparr>lastSuccess := f64_0\<rparr>]
      | Inr (metrics, skippedEntries) \<Rightarrow>
          [\<lambda>c. c\<lparr>cachedMetrics := metrics\<rparr>,
           \<lambda>c. c\<lparr>lastSkippedEntries := f64_of_int skippedEntries\<rparr>,
           \<lambda>c. c\<lparr>lastSuccess := f64_1\<rparr>,
           \<lambda>c. c\<lparr>lastRefreshTime := t_stored clk\<rparr>])"

definition vlan_refreshMetrics ::
  "(string \<Rightarrow> bool) \<Rightarrow> 's redisLib \<Rightarrow> refreshClock \<Rightarrow> vlanCollector \<Rightarrow> ('s, vlanCollector) rio" where
  "vlan_refreshMetrics labelOk lib clk c =
     refreshWith (vlan_scrapeMetrics labelOk lib c) (vlan_assignments clk) c"

definition vlan_refreshLoop ::
  "(string \<Rightarrow> bool) \<Rightarrow> 's redisLib \<Rightarrow> refreshClock list \<Rightarrow> vlanCollector \<Rightarrow> ('s, vlanCollector) rio" where
  "vlan_refreshLoop labelOk lib ticks c =
     tickerLoop (vlan_refreshInterval (vlan_config c)) (vlan_refreshMetrics labelOk lib) ticks c"

definition NewVlanCollector ::
  "(string \<Rightarrow> bool) \<Rightarrow> 's redisLib \<Rightarrow> env \<Rightarrow> metricFilter \<Rightarrow> refreshClock \<Rightarrow> refreshClock list
     \<Rightarrow> ('s, vlanCollector) rio" where
  "NewVlanCollector labelOk lib env flt clk ticks =
     (let c = vlan_new env flt
      in if \<not> vlan_enabled (vlan_config c) then io_return c
         else io_bind (vlan_refreshMetrics labelOk lib clk c) (vlan_refreshLoop labelOk lib ticks))"

text \<open>The copies \<^verbatim>\<open>Collect\<close> makes under the read lock, in its order.\<close>

definition vlan_copies :: "(vlanCollector \<Rightarrow> vlanCollector \<Rightarrow> vlanCollector) list" where
  "vlan_copies =
     [\<lambda>c l. l\<lparr>cachedMetrics := cachedMetrics c\<rparr>,
      \<lambda>c l. l\<lparr>lastSkippedEntries := lastSkippedEntries c\<rparr>,
      \<lambda>c l. l\<lparr>lastScrapeDuration := lastScrapeDuration c\<rparr>,
      \<lambda>c l. l\<lparr>lastSuccess := lastSuccess c\<rparr>,
      \<lambda>c l. l\<lparr>lastRefreshTime := lastRefreshTime c\<rparr>]"

definition vlan_Collect :: "(string \<Rightarrow> bool) \<Rightarrow> gotime \<Rightarrow> vlanCollector \<Rightarrow> ('w, metric list) io" where
  "vlan_Collect labelOk now c =
     (if \<not> vlan_enabled (vlan_config c) then io_return []
      else let gauge = (\<lambda>d v. MustNewConstMetric labelOk d GaugeValue v []);
               on = Enabled (vlan_filter c)
        in io_bind (emit (on ''sonic_vlan_scrape_duration_seconds'') (gauge vlanScrapeDuration (lastScrapeDuration c)) (cachedMetrics c)) (\<lambda>ch.
           io_bind (emit (on ''sonic_vlan_collector_success'') (gauge vlanCollectorSuccess (lastSuccess c)) ch) (\<lambda>ch.
           io_bind (emit (on ''sonic_vlan_cache_age_seconds'') (gauge vlanCacheAge (cacheAge now (lastRefreshTime c))) ch) (\<lambda>ch.
           emit (on ''sonic_vlan_entries_skipped'') (gauge vlanEntriesSkipped (lastSkippedEntries c)) ch))))"

interpretation vlan: refresh_contract vlan_assignments vlan_copies cacheState.truncate
  "\<lambda>c. (vlan_config c, vlan_filter c)" fst
proof unfold_locales
  show "(vlan_config (f c), vlan_filter (f c)) = (vlan_config c, vlan_filter c)"
    if "f \<in> set (vlan_assignments clk r)" for f clk r c
    using that by (auto simp: vlan_assignments_def split: sum.splits prod.splits)
qed (auto simp: vlan_assignments_def vlan_copies_def cacheState.truncate_def)

subsection \<open>The descriptions\<close>

lemma fq_vlan [simp]:
  "fqName vlanInfo = ''sonic_vlan_info''"
  "fqName vlanAdminStatus = ''sonic_vlan_admin_status''"
  "fqName vlanOperStatus = ''sonic_vlan_oper_status''"
  "fqName vlanMembersDesc = ''sonic_vlan_members''"
  "fqName vlanMemberInfo = ''sonic_vlan_member_info''"
  "fqName vlanScrapeDuration = ''sonic_vlan_scrape_duration_seconds''"
  "fqName vlanCollectorSuccess = ''sonic_vlan_collector_success''"
  "fqName vlanCacheAge = ''sonic_vlan_cache_age_seconds''"
  "fqName vlanEntriesSkipped = ''sonic_vlan_entries_skipped''"
  by (simp_all add: desc_defs)

lemma labels_vlan [simp]:
  "length (d_labels vlanInfo) = 2"
  "length (d_labels vlanAdminStatus) = Suc 0"
  "length (d_labels vlanOperStatus) = Suc 0"
  "length (d_labels vlanMembersDesc) = Suc 0"
  "length (d_labels vlanMemberInfo) = 3"
  "d_labels vlanScrapeDuration = []"
  "d_labels vlanCollectorSuccess = []"
  "d_labels vlanCacheAge = []"
  "d_labels vlanEntriesSkipped = []"
  by (simp_all add: desc_defs)

lemma vlan_described [simp]:
  "vlanInfo \<in> set vlan_Describe"
  "vlanAdminStatus \<in> set vlan_Describe"
  "vlanOperStatus \<in> set vlan_Describe"
  "vlanMembersDesc \<in> set vlan_Describe"
  "vlanMemberInfo \<in> set vlan_Describe"
  "vlanScrapeDuration \<in> set vlan_Describe"
  "vlanCollectorSuccess \<in> set vlan_Describe"
  "vlanCacheAge \<in> set vlan_Describe"
  "vlanEntriesSkipped \<in> set vlan_Describe"
  by (simp_all add: vlan_Describe_def)

lemma vlan_names: "ownNames ''vlan'' vlan_Describe"
  by (simp add: ownNames_def vlan_Describe_def subsystemOf_def desc_defs)

subsection \<open>Collect\<close>

definition vlan_health :: "gotime \<Rightarrow> vlanCollector \<Rightarrow> (desc \<times> f64) list" where
  "vlan_health now c =
     [(vlanScrapeDuration, lastScrapeDuration c),
      (vlanCollectorSuccess, lastSuccess c),
      (vlanCacheAge, cacheAge now (lastRefreshTime c)),
      (vlanEntriesSkipped, lastSkippedEntries c)]"

lemma vlan_Collect_yields:
  "vlan_IsEnabled c \<Longrightarrow>
    yields I (vlan_Collect labelOk now c) (cachedMetrics c @ gauges (vlan_filter c) (vlan_health now c))"
  unfolding vlan_Collect_def vlan_health_def Let_def vlan_IsEnabled_def
  by (simp only: not_True_eq_False if_False, rule yields_eq,
      (rule yields_bind_gauge, simp, simp)+, rule yields_gauge)
     (simp_all only: gauges_append append.simps fq_vlan labels_vlan)

lemma vlan_health_good: "list_all (goodMetric labelOk flt vlan_Describe) (gauges flt (vlan_health now c))"
  by (rule gauges_good) (auto simp: vlan_health_def)

subsection \<open>What a refresh exports\<close>

abbreviation vlan_good :: "(string \<Rightarrow> bool) \<Rightarrow> vlanCollector \<Rightarrow> metric list \<Rightarrow> bool" where
  "vlan_good labelOk c \<equiv> list_all (goodMetric labelOk (vlan_filter c) vlan_Describe)"

lemma vlan_scrape_ok: "post (vlan_scrapeMetrics labelOk lib c) (\<lambda>r. vlan_good labelOk c (fst r))"
proof -
  note emits = post_bind_emit [where labelOk = labelOk and flt = "vlan_filter c" and descs = vlan_Describe]
  let ?ok = "\<lambda>acc :: vlanAcc. vlan_good labelOk c (fst acc)"
  have member: "post (rangeLoop (vlan_exportMember labelOk c name) 0 ms acc) ?ok" if "?ok acc" for name ms acc
  proof (rule post_rangeLoop [where I = "\<lambda>_. ?ok"])
    fix i m a
    assume "?ok a"
    then show "post (vlan_exportMember labelOk c name i m a)
        (\<lambda>r. case r of Continue b \<Rightarrow> ?ok b | Break b \<Rightarrow> ?ok b)"
      unfolding vlan_exportMember_def by (auto intro!: post_rules emits)
  qed (use that in auto)
  have export: "post (rangeLoop (vlan_export labelOk lib cfg c mem) 0 names acc) ?ok" if "?ok acc"
    for cfg mem names acc
  proof (rule post_rangeLoop [where I = "\<lambda>_. ?ok"])
    fix i name a
    assume "?ok a"
    then show "post (vlan_export labelOk lib cfg c mem i name a)
        (\<lambda>r. case r of Continue b \<Rightarrow> ?ok b | Break b \<Rightarrow> ?ok b)"
      unfolding vlan_export_def Let_def by (auto intro!: post_rules emits post_bind [OF member])
  qed (use that in auto)
  show ?thesis
    unfolding vlan_scrapeMetrics_def Let_def
    by (intro post_rules, rule post_bind_any, intro post_rules, rule post_bind, rule export)
       (auto intro!: post_rules)
qed

subsection \<open>The specification of a refresh\<close>

text \<open>The group and the name of a well-formed member key.\<close>

definition vlan_memberParts :: "string \<Rightarrow> string list" where
  "vlan_memberParts key = splitN2 (CHR ''|'') (trimPrefix key ''VLAN_MEMBER|'')"

definition vlan_memberKey :: "string \<Rightarrow> bool" where
  "vlan_memberKey key =
     (named ''VLAN_MEMBER|'' key \<and> length (vlan_memberParts key) = 2 \<and>
      vlan_memberParts key ! 0 \<noteq> [] \<and> vlan_memberParts key ! 1 \<noteq> [])"

definition vlan_memberEntry :: "(string \<Rightarrow> fields) \<Rightarrow> string \<Rightarrow> vlanMemberEntry" where
  "vlan_memberEntry db key =
     \<lparr>vlanm_name = vlan_memberParts key ! 1, vlanm_taggingMode = firstNonEmpty [field (db key) ''tagging_mode'', ''unknown'']\<rparr>"

definition vlan_membersOf :: "(string \<Rightarrow> fields) \<Rightarrow> string list \<Rightarrow> vlanMembers" where
  "vlan_membersOf db keys name =
     map (vlan_memberEntry db) (filter (\<lambda>k. vlan_memberKey k \<and> vlan_memberParts k ! 0 = name) keys)"

definition vlan_memberMetric :: "vlanCollector \<Rightarrow> string \<Rightarrow> vlanMemberEntry \<Rightarrow> metric list" where
  "vlan_memberMetric c vlanName member =
     (if Enabled (vlan_filter c) ''sonic_vlan_member_info''
      then [constMetric vlanMemberInfo GaugeValue f64_1
              [vlanName, vlanm_name member, vlanm_taggingMode member]] else [])"

text \<open>The metrics of one group with the members that are exported.\<close>

definition vlan_block ::
  "vlanCollector \<Rightarrow> (int \<Rightarrow> string \<Rightarrow> fields) \<Rightarrow> string \<Rightarrow> vlanMemberEntry list \<Rightarrow> metric list" where
  "vlan_block c db vlanName members =
     (let on = Enabled (vlan_filter c);
          configData = db 4 (''VLAN|'' @ vlanName); applData = db 0 (''VLAN_TABLE:'' @ vlanName);
          adminStatus = firstNonEmpty [field applData ''admin_status'', field configData ''admin_status''];
          operStatus = field applData ''oper_status''
      in (if on ''sonic_vlan_info''
          then [constMetric vlanInfo GaugeValue f64_1 [vlanName, firstNonEmpty [field configData ''vlanid'', trimPrefix vlanName ''Vlan'']]] else []) @
         (if adminStatus \<noteq> [] \<and> on ''sonic_vlan_admin_status''
          then [constMetric vlanAdminStatus GaugeValue (statusToGauge adminStatus) [vlanName]] else []) @
         (if operStatus \<noteq> [] \<and> on ''sonic_vlan_oper_status''
          then [constMetric vlanOperStatus GaugeValue (statusToGauge operStatus) [vlanName]] else []) @
         concat (map (vlan_memberMetric c vlanName) members) @
         (if on ''sonic_vlan_members''
          then [constMetric vlanMembersDesc GaugeValue (f64_of_int (int (length members))) [vlanName]] else []))"

definition vlan_allNames :: "(int \<Rightarrow> string \<Rightarrow> string list) \<Rightarrow> string list" where
  "vlan_allNames scan =
     sort (remdups
       (map (\<lambda>k. trimPrefix k ''VLAN|'') (filter (named ''VLAN|'') (scan 4 ''VLAN|*'')) @
        map (\<lambda>k. trimPrefix k ''VLAN_TABLE:'') (filter (named ''VLAN_TABLE:'') (scan 0 ''VLAN_TABLE:*''))))"

definition vlan_spec ::
  "vlanCollector \<Rightarrow> (int \<Rightarrow> string \<Rightarrow> fields) \<Rightarrow> (int \<Rightarrow> string \<Rightarrow> string list) \<Rightarrow> vlanResult" where
  "vlan_spec c db scan =
     (let groups = nat (vlan_maxVlans (vlan_config c)); room = nat (vlan_maxMembers (vlan_config c));
          memberKeys = scan 4 ''VLAN_MEMBER|*'';
          members = (\<lambda>name. sort_key vlanm_name (vlan_membersOf (db 4) memberKeys name));
          names = vlan_allNames scan
      in (limitedGroups members (vlan_block c db) groups room names,
          int (length (filter (\<lambda>k. \<not> named ''VLAN|'' k) (scan 4 ''VLAN|*''))) +
          int (length (filter (\<lambda>k. \<not> named ''VLAN_TABLE:'' k) (scan 0 ''VLAN_TABLE:*''))) +
          int (length (filter (\<lambda>k. \<not> vlan_memberKey k) memberKeys)) +
          int (droppedEntries members groups room names)))"

lemma vlan_member_yields:
  assumes "serves lib cfg db scan"
  shows "yields (handlesOk cfg) (vlan_member lib cfg i key (m, sk))
    (Continue (if vlan_memberKey key
       then (m(vlan_memberParts key ! 0 := m (vlan_memberParts key ! 0) @ [vlan_memberEntry (db 4) key]), sk)
       else (m, sk + 1)))"
proof -
  have read: "yields (handlesOk cfg) (io_wrap msg args (HgetAllFromDb lib cfg ''CONFIG_DB'' k)) (db 4 k)" for msg args k
    by (rule yields_wrap [OF yields_HgetAll [OF assms]]) (simp add: RedisDbId_def)
  have "trimPrefix key ''VLAN_MEMBER|'' = [] \<or> trimPrefix key ''VLAN_MEMBER|'' = key \<longleftrightarrow> \<not> named ''VLAN_MEMBER|'' key"
    by (rule trimPrefix_unnamed) simp
  then show ?thesis
    unfolding vlan_member_def vlan_memberKey_def vlan_memberEntry_def vlan_memberParts_def Let_def
    by (cases "named ''VLAN_MEMBER|'' key") (auto intro!: yields_return yields_bind [OF read])
qed

lemma vlan_membersOf_snoc:
  "vlan_membersOf db (ks @ [k]) =
     (if vlan_memberKey k
      then (vlan_membersOf db ks)(vlan_memberParts k ! 0 :=
              vlan_membersOf db ks (vlan_memberParts k ! 0) @ [vlan_memberEntry db k])
      else vlan_membersOf db ks)"
  by (auto simp: vlan_membersOf_def fun_eq_iff)

lemma vlan_members_yields:
  assumes "serves lib cfg db scan"
  shows "yields (handlesOk cfg) (rangeLoop (vlan_member lib cfg) i keys (vlan_membersOf (db 4) seen, sk))
    (vlan_membersOf (db 4) (seen @ keys), sk + int (length (filter (\<lambda>k. \<not> vlan_memberKey k) keys)))"
proof (induction keys arbitrary: i seen sk)
  case Nil
  then show ?case by (simp add: yields_return)
next
  case (Cons k ks)
  note step = vlan_member_yields [OF assms, of i k "vlan_membersOf (db 4) seen" sk]
  show ?case
  proof (cases "vlan_memberKey k")
    case True
    have "yields (handlesOk cfg) (vlan_member lib cfg i k (vlan_membersOf (db 4) seen, sk))
        (Continue (vlan_membersOf (db 4) (seen @ [k]), sk))"
      using step True by (simp add: vlan_membersOf_snoc)
    note one = this
    show ?thesis
      by (rule yields_eq, rule yields_loop_Continue, rule one, rule Cons.IH) (use True in simp)
  next
    case False
    have "yields (handlesOk cfg) (vlan_member lib cfg i k (vlan_membersOf (db 4) seen, sk))
        (Continue (vlan_membersOf (db 4) (seen @ [k]), sk + 1))"
      using step False by (simp add: vlan_membersOf_snoc)
    note one = this
    show ?thesis
      by (rule yields_eq, rule yields_loop_Continue, rule one, rule Cons.IH) (use False in simp)
  qed
qed

lemma vlan_members_yields0:
  assumes "serves lib cfg db scan"
  shows "yields (handlesOk cfg) (rangeLoop (vlan_member lib cfg) i keys (\<lambda>_. [], sk))
    (vlan_membersOf (db 4) keys, sk + int (length (filter (\<lambda>k. \<not> vlan_memberKey k) keys)))"
proof -
  have "vlan_membersOf (db 4) [] = (\<lambda>_. [])"
    by (simp add: vlan_membersOf_def fun_eq_iff)
  then show ?thesis
    using vlan_members_yields [OF assms, of i keys "[]" sk] by simp
qed

lemma vlan_exportMember_yields:
  "yields I (vlan_exportMember anyLabel c name i member (ms, n, count, sk))
    (Continue (if vlan_maxMembers (vlan_config c) \<le> n then (ms, n, count, sk + 1)
               else (ms @ vlan_memberMetric c name member, n + 1, count + 1, sk)))"
proof (cases "vlan_maxMembers (vlan_config c) \<le> n")
  case True
  then show ?thesis by (simp add: vlan_exportMember_def yields_return)
next
  case False
  show ?thesis
    by (rule yields_eq, simp only: vlan_exportMember_def prod.case False if_False, rule yields_bind_emit, simp,
        rule yields_return) (simp add: False vlan_memberMetric_def)
qed

lemma vlan_export_yields:
  assumes "serves lib cfg db scan"
  shows "yields (handlesOk cfg) (vlan_export anyLabel lib cfg c mem i name (ms, g, n, sk))
    (Continue (if vlan_maxVlans (vlan_config c) \<le> g then (ms, g, n, sk + 1)
       else let members = sort_key vlanm_name (mem name); room = nat (vlan_maxMembers (vlan_config c) - n)
            in (ms @ vlan_block c db name (take room members), g + 1,
                n + int (length (take room members)), sk + int (length members - room))))"
proof (cases "vlan_maxVlans (vlan_config c) \<le> g")
  case True
  then show ?thesis by (simp add: vlan_export_def yields_return)
next
  case False
  have config: "yields (handlesOk cfg) (io_wrap msg args (HgetAllFromDb lib cfg ''CONFIG_DB'' k)) (db 4 k)" for msg args k
    by (rule yields_wrap [OF yields_HgetAll [OF assms]]) (simp add: RedisDbId_def)
  have appl: "yields (handlesOk cfg) (io_wrap msg args (HgetAllFromDb lib cfg ''APPL_DB'' k)) (db 0 k)" for msg args k
    by (rule yields_wrap [OF yields_HgetAll [OF assms]]) (simp add: RedisDbId_def)
  show ?thesis
    by (rule yields_eq, simp only: vlan_export_def prod.case Let_def False if_False,
        rule yields_bind [OF config], rule yields_bind [OF appl],
        rule yields_bind_emit, simp, rule yields_bind_emit, simp, rule yields_bind_emit, simp,
        rule yields_bind, rule member_loop_yields [OF vlan_exportMember_yields], rule refl, simp only: prod.case,
        rule yields_bind_emit, simp, rule yields_return)
       (simp only: vlan_block_def Let_def False if_False append_assoc, simp)
qed

lemma vlan_names_eq:
  "sort (fst (vlan_names (scan 4 ''VLAN|*'') (scan 0 ''VLAN_TABLE:*''))) = vlan_allNames scan"
proof -
  let ?l = "fst (vlan_names (scan 4 ''VLAN|*'') (scan 0 ''VLAN_TABLE:*''))"
  have "distinct ?l"
    unfolding vlan_names_def by (intro addNames_distinct) simp
  then show ?thesis
    unfolding vlan_allNames_def
    by (intro sorted_distinct_set_unique) (auto simp: vlan_names_def addNames_set)
qed

lemma vlan_names_skipped:
  "snd (vlan_names ks ls) = int (length (filter (\<lambda>k. \<not> named ''VLAN|'' k) ks)) +
     int (length (filter (\<lambda>k. \<not> named ''VLAN_TABLE:'' k) ls))"
  by (simp add: vlan_names_def addNames_skipped)

lemma vlan_scrape_spec:
  assumes "serves lib cfg db scan"
  shows "fst (vlan_scrapeMetrics anyLabel lib c w) = Ok (vlan_spec c db scan)"
proof -
  have config: "yields (handlesOk cfg) (io_wrap msg args (ScanKeysFromDb lib cfg ''CONFIG_DB'' p n)) (scan 4 p)" for msg args p n
    by (rule yields_wrap [OF yields_ScanKeys [OF assms]]) (simp add: RedisDbId_def)
  have appl: "yields (handlesOk cfg) (io_wrap msg args (ScanKeysFromDb lib cfg ''APPL_DB'' p n)) (scan 0 p)" for msg args p n
    by (rule yields_wrap [OF yields_ScanKeys [OF assms]]) (simp add: RedisDbId_def)
  obtain names sk where ns: "vlan_names (scan 4 ''VLAN|*'') (scan 0 ''VLAN_TABLE:*'') = (names, sk)"
    by fastforce
  then have names: "sort names = vlan_allNames scan"
    and sk: "sk = int (length (filter (\<lambda>k. \<not> named ''VLAN|'' k) (scan 4 ''VLAN|*''))) +
      int (length (filter (\<lambda>k. \<not> named ''VLAN_TABLE:'' k) (scan 0 ''VLAN_TABLE:*'')))"
    using vlan_names_eq [of scan] vlan_names_skipped [of "scan 4 ''VLAN|*''" "scan 0 ''VLAN_TABLE:*''"]
    by simp_all
  let ?keys = "scan 4 ''VLAN_MEMBER|*''"
  let ?bad = "sk + int (length (filter (\<lambda>k. \<not> vlan_memberKey k) ?keys))"
  let ?mem = "\<lambda>name. sort_key vlanm_name (vlan_membersOf (db 4) ?keys name)"
  obtain g' n' where groups: "yields (handlesOk cfg)
      (rangeLoop (vlan_export anyLabel lib cfg c (vlan_membersOf (db 4) ?keys)) 0 (vlan_allNames scan) ([], 0, 0, ?bad))
      ([] @ limitedGroups ?mem (vlan_block c db) (nat (vlan_maxVlans (vlan_config c) - 0))
         (nat (vlan_maxMembers (vlan_config c) - 0)) (vlan_allNames scan), g', n',
       ?bad + int (droppedEntries ?mem (nat (vlan_maxVlans (vlan_config c) - 0))
         (nat (vlan_maxMembers (vlan_config c) - 0)) (vlan_allNames scan)))"
    using group_loop_yields [where members = ?mem and block = "vlan_block c db"
        and body = "vlan_export anyLabel lib cfg c (vlan_membersOf (db 4) ?keys)",
        OF vlan_export_yields [OF assms, unfolded Let_def], OF refl refl] by blast
  show ?thesis
    unfolding vlan_scrapeMetrics_def Let_def
    by (rule withRedis_yields [OF assms], rule yields_eq, rule yields_bind [OF config], rule yields_bind [OF appl],
        rule yields_bind [OF config], simp only: ns prod.case,
        rule yields_bind [OF vlan_members_yields0 [OF assms]], simp only: prod.case names,
        rule yields_bind [OF groups], simp only: prod.case, rule yields_return)
       (simp only: vlan_spec_def Let_def append_Nil sk diff_0_right)
qed

subsection \<open>Everything sent is good\<close>

lemma vlan_Collect_good:
  "list_all (goodMetric labelOk (vlan_filter c) vlan_Describe) (cachedMetrics c) \<Longrightarrow>
    post (vlan_Collect labelOk now c) (list_all (goodMetric labelOk (vlan_filter c) vlan_Describe))"
proof (cases "vlan_IsEnabled c")
  case True
  assume "list_all (goodMetric labelOk (vlan_filter c) vlan_Describe) (cachedMetrics c)"
  then show ?thesis
    by (intro yields_post [OF vlan_Collect_yields [OF True]]) (simp add: vlan_health_good)
next
  case False
  then show ?thesis by (simp add: vlan_Collect_def vlan_IsEnabled_def post_return)
qed

interpretation vlan_source: metric_source vlan_assignments vlan_copies cacheState.truncate
  "\<lambda>c. (vlan_config c, vlan_filter c)" fst "vlan_scrapeMetrics labelOk lib" "vlan_Collect labelOk"
  "\<lambda>f. list_all (goodMetric labelOk (snd f) vlan_Describe)"
  for labelOk lib
proof unfold_locales
  show "post (vlan_scrapeMetrics labelOk lib c)
      (\<lambda>r. list_all (goodMetric labelOk (snd (vlan_config c, vlan_filter c)) vlan_Describe) (fst r))" for c
    by (rule post_mono [OF vlan_scrape_ok]) simp
qed (simp_all add: vlan_Collect_good cacheState.truncate_def)

subsection \<open>Series\<close>

lemma vlan_memberKey_eq:
  "vlan_memberKey k \<Longrightarrow>
    k = ''VLAN_MEMBER|'' @ vlan_memberParts k ! 0 @ ''|'' @ vlan_memberParts k ! 1"
proof -
  assume k: "vlan_memberKey k"
  then have "k = ''VLAN_MEMBER|'' @ trimPrefix k ''VLAN_MEMBER|''"
    by (intro hasPrefix_trim) (simp add: vlan_memberKey_def named_def)
  moreover have "trimPrefix k ''VLAN_MEMBER|'' = vlan_memberParts k ! 0 @ CHR ''|'' # vlan_memberParts k ! 1"
    using k splitN2_join [of "CHR ''|''" "trimPrefix k ''VLAN_MEMBER|''"]
    by (simp add: vlan_memberKey_def vlan_memberParts_def)
  ultimately show ?thesis by (metis append_Cons append_Nil)
qed

lemma vlan_membersOf_distinct:
  assumes "distinct keys"
  shows "distinct (map vlanm_name (sort_key vlanm_name (vlan_membersOf db keys name)))"
proof -
  have "inj_on (vlanm_name \<circ> vlan_memberEntry db) (set (filter (\<lambda>k. vlan_memberKey k \<and> vlan_memberParts k ! 0 = name) keys))"
  proof (rule inj_onI)
    fix x y
    assume "x \<in> set (filter (\<lambda>k. vlan_memberKey k \<and> vlan_memberParts k ! 0 = name) keys)"
      "y \<in> set (filter (\<lambda>k. vlan_memberKey k \<and> vlan_memberParts k ! 0 = name) keys)"
      "(vlanm_name \<circ> vlan_memberEntry db) x = (vlanm_name \<circ> vlan_memberEntry db) y"
    then have k: "vlan_memberKey x" "vlan_memberKey y"
      and "vlan_memberParts x ! 0 = vlan_memberParts y ! 0" "vlan_memberParts x ! 1 = vlan_memberParts y ! 1"
      by (auto simp: vlan_memberEntry_def)
    then have "''VLAN_MEMBER|'' @ vlan_memberParts x ! 0 @ ''|'' @ vlan_memberParts x ! 1 =
        ''VLAN_MEMBER|'' @ vlan_memberParts y ! 0 @ ''|'' @ vlan_memberParts y ! 1"
      by simp
    then show "x = y"
      by (rule trans [OF vlan_memberKey_eq [OF k(1)] trans [OF _ vlan_memberKey_eq [OF k(2), symmetric]]])
  qed
  with assms have "distinct (map vlanm_name (vlan_membersOf db keys name))"
    by (simp add: vlan_membersOf_def distinct_map)
  then show ?thesis by (rule distinct_map_sort_key)
qed

lemma vlan_block_series:
  assumes "distinct (map vlanm_name ms)"
  shows "distinct (map series (vlan_block c db name ms))"
proof -
  have "distinct (map series (concat (map (vlan_memberMetric c name) ms)))"
    using assms by (induction ms) (auto simp: vlan_memberMetric_def)
  moreover have "\<exists>ls. series m = (''sonic_vlan_member_info'', ls)" if "m \<in> set (concat (map (vlan_memberMetric c name) ms))" for m
    using that by (auto simp: vlan_memberMetric_def split: if_splits)
  ultimately show ?thesis
    unfolding vlan_block_def Let_def map_append distinct_append by fastforce
qed

lemma vlan_block_label: "m \<in> set (vlan_block c db name ms) \<Longrightarrow> hd (m_labels m) = name"
  by (auto simp: vlan_block_def Let_def vlan_memberMetric_def split: if_splits)

lemma vlan_spec_series:
  assumes "distinct (scan 4 ''VLAN_MEMBER|*'')"
  shows "distinct (map series (fst (vlan_spec c db scan)))"
  unfolding vlan_spec_def Let_def fst_conv
proof (rule limitedGroups_series)
  show "distinct (map series (vlan_block c db name
      (take n (sort_key vlanm_name (vlan_membersOf (db 4) (scan 4 ''VLAN_MEMBER|*'') name)))))" for name n
    by (rule vlan_block_series) (simp add: take_map [symmetric] vlan_membersOf_distinct [OF assms] distinct_take)
qed (auto simp: vlan_allNames_def dest: vlan_block_label)

lemma vlan_descs_differ [simp]:
  "vlanAdminStatus \<noteq> vlanInfo" "vlanOperStatus \<noteq> vlanInfo" "vlanMembersDesc \<noteq> vlanInfo" "vlanMemberInfo \<noteq> vlanInfo"
  "vlanInfo \<noteq> vlanMemberInfo" "vlanAdminStatus \<noteq> vlanMemberInfo" "vlanOperStatus \<noteq> vlanMemberInfo"
  "vlanMembersDesc \<noteq> vlanMemberInfo"
  by (simp_all add: desc_defs NewDesc_def)

lemma vlan_member_descs:
  "filter (\<lambda>m. m_desc m = vlanInfo) (concat (map (vlan_memberMetric c name) es)) = []"
  by (auto simp: filter_empty_conv vlan_memberMetric_def split: if_splits)

lemma vlan_member_count:
  "length (filter (\<lambda>m. m_desc m = vlanMemberInfo) (concat (map (vlan_memberMetric c name) es))) \<le> length es"
  by (induction es) (auto simp: vlan_memberMetric_def)

subsection \<open>Properties\<close>

definition vlan_demoDb :: "int \<Rightarrow> string \<Rightarrow> fields" where
  "vlan_demoDb n key = (if key = ''VLAN|Vlan100'' then [(''admin_status'', ''up'')] else [])"

definition vlan_demoScan :: "int \<Rightarrow> string \<Rightarrow> string list" where
  "vlan_demoScan n pattern =
     (if pattern = ''VLAN|*'' then [''VLAN|Vlan100'']
      else if pattern = ''VLAN_MEMBER|*'' then [''VLAN_MEMBER|Vlan100|Ethernet4'', ''VLAN_MEMBER|Vlan100|Ethernet0'']
      else [])"

definition vlan_demo :: vlanCollector where
  "vlan_demo = vlan_new (\<lambda>_. None) (NewMetricFilter (\<lambda>_. None))"

text \<open>
  C6. On a server that holds still, a refresh returns what the specification says: the names of
  both tables once each in order, the first \<open>maxVlans\<close> of them with their metrics and their members
  by name, at most \<open>maxMembers\<close> members in all, and the number of entries it left out.
\<close>

theorem vlan_refresh_refines_spec:
  assumes "serves lib cfg db scan"
  shows "fst (vlan_scrapeMetrics anyLabel lib c w) = Ok (vlan_spec c db scan)"
  by (rule vlan_scrape_spec [OF assms])

theorem vlan_refresh_refines_spec_witness:
  "fst (vlan_scrapeMetrics anyLabel (staticLib localRedis vlan_demoDb vlan_demoScan) vlan_demo
     \<lparr>server = (), databases = []\<rparr>) = Ok (vlan_spec vlan_demo vlan_demoDb vlan_demoScan)"
  by (rule vlan_refresh_refines_spec [OF staticLib_serves])

text \<open>
  C9. A refresh exports no more groups and members than the limits, and when it reports nothing
  as skipped, then every VLAN of the two tables is there with all its members.
\<close>

theorem vlan_refresh_limited_and_complete:
  assumes "serves lib cfg db scan"
  shows "\<exists>ms skipped. fst (vlan_scrapeMetrics anyLabel lib c w) = Ok (ms, skipped) \<and>
    length (filter (\<lambda>m. m_desc m = vlanInfo) ms) \<le> nat (vlan_maxVlans (vlan_config c)) \<and>
    length (filter (\<lambda>m. m_desc m = vlanMemberInfo) ms) \<le> nat (vlan_maxMembers (vlan_config c)) \<and>
    (skipped = 0 \<longrightarrow>
       ms = concat (map (\<lambda>name. vlan_block c db name
              (sort_key vlanm_name (vlan_membersOf (db 4) (scan 4 ''VLAN_MEMBER|*'') name)))
            (vlan_allNames scan)))"
proof -
  obtain ms sk where spec: "vlan_spec c db scan = (ms, sk)"
    by (cases "vlan_spec c db scan")
  let ?mem = "\<lambda>name. sort_key vlanm_name (vlan_membersOf (db 4) (scan 4 ''VLAN_MEMBER|*'') name)"
  let ?g = "nat (vlan_maxVlans (vlan_config c))" and ?r = "nat (vlan_maxMembers (vlan_config c))"
  have ms: "ms = limitedGroups ?mem (vlan_block c db) ?g ?r (vlan_allNames scan)"
    and sk: "sk = 0 \<longrightarrow> droppedEntries ?mem ?g ?r (vlan_allNames scan) = 0"
    using spec by (auto simp: vlan_spec_def Let_def)
  have "length (filter (\<lambda>m. m_desc m = vlanInfo) (vlan_block c db name es)) \<le> 1" for name es
    unfolding vlan_block_def Let_def filter_append filter_if vlan_member_descs
    by simp
  then have "length (filter (\<lambda>m. m_desc m = vlanInfo) ms) \<le> ?g"
    unfolding ms by (rule limitedGroups_groups)
  moreover have "length (filter (\<lambda>m. m_desc m = vlanMemberInfo) (vlan_block c db name es)) \<le> length es" for name es
    unfolding vlan_block_def Let_def filter_append filter_if length_append
    using vlan_member_count [of c name es] by simp
  then have "length (filter (\<lambda>m. m_desc m = vlanMemberInfo) ms) \<le> ?r"
    unfolding ms by (rule limitedGroups_members)
  moreover have "sk = 0 \<longrightarrow> ms = concat (map (\<lambda>name. vlan_block c db name (?mem name)) (vlan_allNames scan))"
    using sk limitedGroups_complete unfolding ms by blast
  ultimately show ?thesis
    using vlan_scrape_spec [OF assms, of c w] spec by auto
qed

theorem vlan_refresh_limited_and_complete_witness:
  "\<exists>ms skipped. fst (vlan_scrapeMetrics anyLabel (staticLib localRedis vlan_demoDb vlan_demoScan) vlan_demo
       \<lparr>server = (), databases = []\<rparr>) = Ok (ms, skipped) \<and>
     length (filter (\<lambda>m. m_desc m = vlanInfo) ms) \<le> 1024"
  using vlan_refresh_limited_and_complete [OF staticLib_serves [of localRedis vlan_demoDb vlan_demoScan],
      of vlan_demo "\<lparr>server = (), databases = []\<rparr>"]
  by (auto simp: vlan_demo_def vlan_new_def loadVlanCollectorConfig_def parseIntEnv_def setEnv_def)

end
