(* ===== verification/Lag.thy ===== *)
theory Lag
  imports MemberGroups
begin

text \<open>
  \<^verbatim>\<open>lag_collector.go\<close>: the port channels of \<^verbatim>\<open>CONFIG_DB\<close> and \<^verbatim>\<open>APPL_DB\<close> with their members. Go's
  \<^verbatim>\<open>sort.Slice\<close> on the members is the stable \<open>sort_key\<close>; the two differ only on members of equal name.
\<close>

record lagCollectorConfig =
  lag_enabled :: bool
  lag_refreshInterval :: duration
  lag_timeout :: duration
  lag_maxLags :: int
  lag_maxMembers :: int
  lag_redisScanCount :: int

record lagCollector = skipState +
  lag_config :: lagCollectorConfig
  lag_filter :: metricFilter

subsection \<open>Construction\<close>

definition lagInfo :: desc where [desc_defs]:
  "lagInfo = NewDesc ''sonic'' ''lag'' ''info''
     ''Non-numeric data about LAG, value is always 1'' [''lag'']"

definition lagAdminStatus :: desc where [desc_defs]:
  "lagAdminStatus = NewDesc ''sonic'' ''lag'' ''admin_status''
     ''Administrative state of LAG (1=up, 0=down)'' [''lag'']"

definition lagOperStatus :: desc where [desc_defs]:
  "lagOperStatus = NewDesc ''sonic'' ''lag'' ''oper_status''
     ''Operational state of LAG (1=up, 0=down)'' [''lag'']"

definition lagMembersDesc :: desc where [desc_defs]:
  "lagMembersDesc = NewDesc ''sonic'' ''lag'' ''members''
     ''Number of LAG member interfaces'' [''lag'']"

definition lagMemberStatus :: desc where [desc_defs]:
  "lagMemberStatus = NewDesc ''sonic'' ''lag'' ''member_status''
     ''Status of LAG member interface (1=enabled, 0=disabled)'' [''lag'', ''member'']"

definition lagScrapeDuration :: desc where [desc_defs]:
  "lagScrapeDuration = NewDesc ''sonic'' ''lag'' ''scrape_duration_seconds''
     ''Time it took for exporter to refresh LAG metrics'' []"

definition lagCollectorSuccess :: desc where [desc_defs]:
  "lagCollectorSuccess = NewDesc ''sonic'' ''lag'' ''collector_success''
     ''Whether LAG collector succeeded'' []"

definition lagCacheAge :: desc where [desc_defs]:
  "lagCacheAge = NewDesc ''sonic'' ''lag'' ''cache_age_seconds''
     ''Age of latest LAG cache refresh'' []"

definition lagEntriesSkipped :: desc where [desc_defs]:
  "lagEntriesSkipped = NewDesc ''sonic'' ''lag'' ''entries_skipped''
     ''Number of LAG entries skipped during latest refresh'' []"

definition loadLagCollectorConfig :: "env \<Rightarrow> lagCollectorConfig" where
  "loadLagCollectorConfig env =
     \<lparr>lag_enabled = parseBoolEnv env ''LAG_ENABLED'' True,
      lag_refreshInterval = parseDurationEnv env ''LAG_REFRESH_INTERVAL'' (30 * second),
      lag_timeout = parseDurationEnv env ''LAG_TIMEOUT'' (2 * second),
      lag_maxLags = parseIntEnv env ''LAG_MAX_LAGS'' 512,
      lag_maxMembers = parseIntEnv env ''LAG_MAX_MEMBERS'' 4096,
      lag_redisScanCount = 256\<rparr>"

definition lag_new :: "env \<Rightarrow> metricFilter \<Rightarrow> lagCollector" where
  "lag_new env flt =
     \<lparr>cachedMetrics = [], lastSuccess = f64_0, lastScrapeDuration = f64_0, lastRefreshTime = 0,
      lastSkippedEntries = f64_0,
      lag_config = loadLagCollectorConfig env, lag_filter = flt\<rparr>"

definition lag_IsEnabled :: "lagCollector \<Rightarrow> bool" where
  "lag_IsEnabled c = lag_enabled (lag_config c)"

definition lag_Describe :: "desc list" where
  "lag_Describe =
     [lagInfo,
      lagAdminStatus,
      lagOperStatus,
      lagMembersDesc,
      lagMemberStatus,
      lagScrapeDuration,
      lagCollectorSuccess,
      lagCacheAge,
      lagEntriesSkipped]"

subsection \<open>Scraping Redis\<close>

record lagMemberEntry =
  lagm_name :: string
  lagm_status :: string

type_synonym lagMembers = "string \<Rightarrow> lagMemberEntry list"

definition lag_names :: "string list \<Rightarrow> string list \<Rightarrow> string list \<times> int" where
  "lag_names configLags applLags =
     fold (addName ''LAG_TABLE:'') applLags (fold (addName ''PORTCHANNEL|'') configLags ([], 0))"

text \<open>One turn of the loop over the member keys; \<open>membersLag\<close> is \<^verbatim>\<open>membersByLag\<close>.\<close>

definition lag_member ::
  "'s redisLib \<Rightarrow> redisConfig \<Rightarrow> nat \<Rightarrow> string \<Rightarrow> lagMembers \<times> int \<Rightarrow> ('s, (lagMembers \<times> int) loop) rio" where
  "lag_member lib cfg index key acc =
     (case acc of (membersLag, skippedEntries) \<Rightarrow>
        let memberPath = trimPrefix key ''LAG_MEMBER_TABLE:''
        in if memberPath = [] \<or> memberPath = key
        then io_return (Continue (membersLag, skippedEntries + 1))
        else
          let parts = splitN2 (CHR '':'') memberPath
          in if length parts \<noteq> 2 \<or> parts ! 0 = [] \<or> parts ! 1 = []
          then io_return (Continue (membersLag, skippedEntries + 1))
          else
            io_bind (io_wrap ''failed to read %s: %w'' [key] (HgetAllFromDb lib cfg ''APPL_DB'' key)) (\<lambda>memberData.
            let entry = \<lparr>lagm_name = parts ! 1, lagm_status = field memberData ''status''\<rparr>
            in io_return (Continue
                 (membersLag(parts ! 0 := membersLag (parts ! 0) @ [entry]), skippedEntries))))"

text \<open>One turn of the loop over the members of a group.\<close>

type_synonym lagMemberAcc = "metric list \<times> int \<times> int \<times> int"

definition lag_exportMember ::
  "(string \<Rightarrow> bool) \<Rightarrow> lagCollector \<Rightarrow> string \<Rightarrow> nat \<Rightarrow> lagMemberEntry \<Rightarrow> lagMemberAcc
     \<Rightarrow> ('s, lagMemberAcc loop) rio" where
  "lag_exportMember labelOk c lagName index member acc =
     (case acc of (metrics, processedMembers, memberCount, skippedEntries) \<Rightarrow>
        if processedMembers \<ge> lag_maxMembers (lag_config c)
        then io_return (Continue (metrics, processedMembers, memberCount, skippedEntries + 1))
        else
          io_bind (emit (Enabled (lag_filter c) ''sonic_lag_member_status'')
                     (MustNewConstMetric labelOk lagMemberStatus GaugeValue (statusToGauge (lagm_status member))
                        [lagName, lagm_name member])
                     metrics) (\<lambda>metrics.
          io_return (Continue (metrics, processedMembers + 1, memberCount + 1, skippedEntries))))"

text \<open>One turn of the loop over the sorted names.\<close>

type_synonym lagAcc = "metric list \<times> int \<times> int \<times> int"

definition lag_export ::
  "(string \<Rightarrow> bool) \<Rightarrow> 's redisLib \<Rightarrow> redisConfig \<Rightarrow> lagCollector \<Rightarrow> lagMembers \<Rightarrow> nat \<Rightarrow> string \<Rightarrow> lagAcc
     \<Rightarrow> ('s, lagAcc loop) rio" where
  "lag_export labelOk lib cfg c membersLag index lagName acc =
     (case acc of (metrics, processedLags, processedMembers, skippedEntries) \<Rightarrow>
        let on = Enabled (lag_filter c) in
        if processedLags \<ge> lag_maxLags (lag_config c)
        then io_return (Continue (metrics, processedLags, processedMembers, skippedEntries + 1))
        else
          io_bind (io_wrap ''failed to read CONFIG_DB PORTCHANNEL|%s: %w'' [lagName]
                     (HgetAllFromDb lib cfg ''CONFIG_DB'' (''PORTCHANNEL|'' @ lagName))) (\<lambda>configData.
          io_bind (io_wrap ''failed to read APPL_DB LAG_TABLE:%s: %w'' [lagName]
                     (HgetAllFromDb lib cfg ''APPL_DB'' (''LAG_TABLE:'' @ lagName))) (\<lambda>applData.
          io_bind (emit (on ''sonic_lag_info'')
                     (MustNewConstMetric labelOk lagInfo GaugeValue f64_1 [lagName]) metrics) (\<lambda>metrics.
          let adminStatus = firstNonEmpty [field applData ''admin_status'', field configData ''admin_status''] in
          io_bind (emit (adminStatus \<noteq> [] \<and> on ''sonic_lag_admin_status'')
                     (MustNewConstMetric labelOk lagAdminStatus GaugeValue (statusToGauge adminStatus) [lagName])
                     metrics) (\<lambda>metrics.
          let operStatus = field applData ''oper_status'' in
          io_bind (emit (operStatus \<noteq> [] \<and> on ''sonic_lag_oper_status'')
                     (MustNewConstMetric labelOk lagOperStatus GaugeValue (statusToGauge operStatus) [lagName])
                     metrics) (\<lambda>metrics.
          let members = sort_key lagm_name (membersLag lagName) in
          io_bind (rangeLoop (lag_exportMember labelOk c lagName) 0 members
                     (metrics, processedMembers, 0, skippedEntries)) (\<lambda>acc.
          case acc of (metrics, processedMembers, memberCount, skippedEntries) \<Rightarrow>
          io_bind (emit (on ''sonic_lag_members'')
                     (MustNewConstMetric labelOk lagMembersDesc GaugeValue (f64_of_int memberCount) [lagName])
                     metrics) (\<lambda>metrics.
          io_return (Continue (metrics, processedLags + 1, processedMembers, skippedEntries))))))))))"

type_synonym lagResult = "metric list \<times> int"

definition lag_scrapeMetrics ::
  "(string \<Rightarrow> bool) \<Rightarrow> 's redisLib \<Rightarrow> lagCollector \<Rightarrow> ('s, lagResult) rio" where
  "lag_scrapeMetrics labelOk lib c =
     withRedis lib (\<lambda>cfg.
       let count = lag_redisScanCount (lag_config c) in
       io_bind (io_wrap ''failed to scan PORTCHANNEL keys: %w'' []
                  (ScanKeysFromDb lib cfg ''CONFIG_DB'' ''PORTCHANNEL|*'' count)) (\<lambda>configLags.
       io_bind (io_wrap ''failed to scan LAG_TABLE keys: %w'' []
                  (ScanKeysFromDb lib cfg ''APPL_DB'' ''LAG_TABLE:*'' count)) (\<lambda>applLags.
       io_bind (io_wrap ''failed to scan LAG_MEMBER_TABLE keys: %w'' []
                  (ScanKeysFromDb lib cfg ''APPL_DB'' ''LAG_MEMBER_TABLE:*'' count)) (\<lambda>memberKeys.
       case lag_names configLags applLags of (lags, skippedEntries) \<Rightarrow>
       let lagNames = sort lags in
       io_bind (rangeLoop (lag_member lib cfg) 0 memberKeys (\<lambda>_. [], skippedEntries)) (\<lambda>acc.
       case acc of (membersLag, skippedEntries) \<Rightarrow>
       io_bind (rangeLoop (lag_export labelOk lib cfg c membersLag) 0 lagNames
                  ([], 0, 0, skippedEntries)) (\<lambda>acc.
       case acc of (metrics, processedLags, processedMembers, skippedEntries) \<Rightarrow>
       io_return (metrics, skippedEntries)))))))"

subsection \<open>Refreshing and collecting\<close>

definition lag_assignments ::
  "refreshClock \<Rightarrow> goerr + lagResult \<Rightarrow> (lagCollector \<Rightarrow> lagCollector) list" where
  "lag_assignments clk r =
     (\<lambda>c. c\<lparr>lastScrapeDuration := scrapeSeconds clk\<rparr>) #
     (case r of
        Inl err \<Rightarrow> [\<lambda>c. c\<lparr>lastSuccess := f64_0\<rparr>]
      | Inr (metrics, skippedEntries) \<Rightarrow>
          [\<lambda>c. c\<lparr>cachedMetrics := metrics\<rparr>,
           \<lambda>c. c\<lparr>lastSkippedEntries := f64_of_int skippedEntries\<rparr>,
           \<lambda>c. c\<lparr>lastSuccess := f64_1\<rparr>,
           \<lambda>c. c\<lparr>lastRefreshTime := t_stored clk\<rparr>])"

definition lag_refreshMetrics ::
  "(string \<Rightarrow> bool) \<Rightarrow> 's redisLib \<Rightarrow> refreshClock \<Rightarrow> lagCollector \<Rightarrow> ('s, lagCollector) rio" where
  "lag_refreshMetrics labelOk lib clk c =
     refreshWith (lag_scrapeMetrics labelOk lib c) (lag_assignments clk) c"

definition lag_refreshLoop ::
  "(string \<Rightarrow> bool) \<Rightarrow> 's redisLib \<Rightarrow> refreshClock list \<Rightarrow> lagCollector \<Rightarrow> ('s, lagCollector) rio" where
  "lag_refreshLoop labelOk lib ticks c =
     tickerLoop (lag_refreshInterval (lag_config c)) (lag_refreshMetrics labelOk lib) ticks c"

definition NewLagCollector ::
  "(string \<Rightarrow> bool) \<Rightarrow> 's redisLib \<Rightarrow> env \<Rightarrow> metricFilter \<Rightarrow> refreshClock \<Rightarrow> refreshClock list
     \<Rightarrow> ('s, lagCollector) rio" where
  "NewLagCollector labelOk lib env flt clk ticks =
     (let c = lag_new env flt
      in if \<not> lag_enabled (lag_config c) then io_return c
         else io_bind (lag_refreshMetrics labelOk lib clk c) (lag_refreshLoop labelOk lib ticks))"

text \<open>The copies \<^verbatim>\<open>Collect\<close> makes under the read lock, in its order.\<close>

definition lag_copies :: "(lagCollector \<Rightarrow> lagCollector \<Rightarrow> lagCollector) list" where
  "lag_copies =
     [\<lambda>c l. l\<lparr>cachedMetrics := cachedMetrics c\<rparr>,
      \<lambda>c l. l\<lparr>lastSkippedEntries := lastSkippedEntries c\<rparr>,
      \<lambda>c l. l\<lparr>lastScrapeDuration := lastScrapeDuration c\<rparr>,
      \<lambda>c l. l\<lparr>lastSuccess := lastSuccess c\<rparr>,
      \<lambda>c l. l\<lparr>lastRefreshTime := lastRefreshTime c\<rparr>]"

definition lag_Collect :: "(string \<Rightarrow> bool) \<Rightarrow> gotime \<Rightarrow> lagCollector \<Rightarrow> ('w, metric list) io" where
  "lag_Collect labelOk now c =
     (if \<not> lag_enabled (lag_config c) then io_return []
      else let gauge = (\<lambda>d v. MustNewConstMetric labelOk d GaugeValue v []);
               on = Enabled (lag_filter c)
        in io_bind (emit (on ''sonic_lag_scrape_duration_seconds'') (gauge lagScrapeDuration (lastScrapeDuration c)) (cachedMetrics c)) (\<lambda>ch.
           io_bind (emit (on ''sonic_lag_collector_success'') (gauge lagCollectorSuccess (lastSuccess c)) ch) (\<lambda>ch.
           io_bind (emit (on ''sonic_lag_cache_age_seconds'') (gauge lagCacheAge (cacheAge now (lastRefreshTime c))) ch) (\<lambda>ch.
           emit (on ''sonic_lag_entries_skipped'') (gauge lagEntriesSkipped (lastSkippedEntries c)) ch))))"

interpretation lag: refresh_contract lag_assignments lag_copies cacheState.truncate
  "\<lambda>c. (lag_config c, lag_filter c)" fst
proof unfold_locales
  show "(lag_config (f c), lag_filter (f c)) = (lag_config c, lag_filter c)"
    if "f \<in> set (lag_assignments clk r)" for f clk r c
    using that by (auto simp: lag_assignments_def split: sum.splits prod.splits)
qed (auto simp: lag_assignments_def lag_copies_def cacheState.truncate_def)

subsection \<open>The descriptions\<close>

lemma fq_lag [simp]:
  "fqName lagInfo = ''sonic_lag_info''"
  "fqName lagAdminStatus = ''sonic_lag_admin_status''"
  "fqName lagOperStatus = ''sonic_lag_oper_status''"
  "fqName lagMembersDesc = ''sonic_lag_members''"
  "fqName lagMemberStatus = ''sonic_lag_member_status''"
  "fqName lagScrapeDuration = ''sonic_lag_scrape_duration_seconds''"
  "fqName lagCollectorSuccess = ''sonic_lag_collector_success''"
  "fqName lagCacheAge = ''sonic_lag_cache_age_seconds''"
  "fqName lagEntriesSkipped = ''sonic_lag_entries_skipped''"
  by (simp_all add: desc_defs)

lemma labels_lag [simp]:
  "length (d_labels lagInfo) = Suc 0"
  "length (d_labels lagAdminStatus) = Suc 0"
  "length (d_labels lagOperStatus) = Suc 0"
  "length (d_labels lagMembersDesc) = Suc 0"
  "length (d_labels lagMemberStatus) = 2"
  "d_labels lagScrapeDuration = []"
  "d_labels lagCollectorSuccess = []"
  "d_labels lagCacheAge = []"
  "d_labels lagEntriesSkipped = []"
  by (simp_all add: desc_defs)

lemma lag_described [simp]:
  "lagInfo \<in> set lag_Describe"
  "lagAdminStatus \<in> set lag_Describe"
  "lagOperStatus \<in> set lag_Describe"
  "lagMembersDesc \<in> set lag_Describe"
  "lagMemberStatus \<in> set lag_Describe"
  "lagScrapeDuration \<in> set lag_Describe"
  "lagCollectorSuccess \<in> set lag_Describe"
  "lagCacheAge \<in> set lag_Describe"
  "lagEntriesSkipped \<in> set lag_Describe"
  by (simp_all add: lag_Describe_def)

lemma lag_names: "ownNames ''lag'' lag_Describe"
  by (simp add: ownNames_def lag_Describe_def subsystemOf_def desc_defs)

subsection \<open>Collect\<close>

definition lag_health :: "gotime \<Rightarrow> lagCollector \<Rightarrow> (desc \<times> f64) list" where
  "lag_health now c =
     [(lagScrapeDuration, lastScrapeDuration c),
      (lagCollectorSuccess, lastSuccess c),
      (lagCacheAge, cacheAge now (lastRefreshTime c)),
      (lagEntriesSkipped, lastSkippedEntries c)]"

lemma lag_Collect_yields:
  "lag_IsEnabled c \<Longrightarrow>
    yields I (lag_Collect labelOk now c) (cachedMetrics c @ gauges (lag_filter c) (lag_health now c))"
  unfolding lag_Collect_def lag_health_def Let_def lag_IsEnabled_def
  by (simp only: not_True_eq_False if_False, rule yields_eq,
      (rule yields_bind_gauge, simp, simp)+, rule yields_gauge)
     (simp_all only: gauges_append append.simps fq_lag labels_lag)

lemma lag_health_good: "list_all (goodMetric labelOk flt lag_Describe) (gauges flt (lag_health now c))"
  by (rule gauges_good) (auto simp: lag_health_def)

subsection \<open>What a refresh exports\<close>

abbreviation lag_good :: "(string \<Rightarrow> bool) \<Rightarrow> lagCollector \<Rightarrow> metric list \<Rightarrow> bool" where
  "lag_good labelOk c \<equiv> list_all (goodMetric labelOk (lag_filter c) lag_Describe)"

lemma lag_scrape_ok: "post (lag_scrapeMetrics labelOk lib c) (\<lambda>r. lag_good labelOk c (fst r))"
proof -
  note emits = post_bind_emit [where labelOk = labelOk and flt = "lag_filter c" and descs = lag_Describe]
  let ?ok = "\<lambda>acc :: lagAcc. lag_good labelOk c (fst acc)"
  have member: "post (rangeLoop (lag_exportMember labelOk c name) 0 ms acc) ?ok" if "?ok acc" for name ms acc
  proof (rule post_rangeLoop [where I = "\<lambda>_. ?ok"])
    fix i m a
    assume "?ok a"
    then show "post (lag_exportMember labelOk c name i m a)
        (\<lambda>r. case r of Continue b \<Rightarrow> ?ok b | Break b \<Rightarrow> ?ok b)"
      unfolding lag_exportMember_def by (auto intro!: post_rules emits)
  qed (use that in auto)
  have export: "post (rangeLoop (lag_export labelOk lib cfg c mem) 0 names acc) ?ok" if "?ok acc"
    for cfg mem names acc
  proof (rule post_rangeLoop [where I = "\<lambda>_. ?ok"])
    fix i name a
    assume "?ok a"
    then show "post (lag_export labelOk lib cfg c mem i name a)
        (\<lambda>r. case r of Continue b \<Rightarrow> ?ok b | Break b \<Rightarrow> ?ok b)"
      unfolding lag_export_def Let_def by (auto intro!: post_rules emits post_bind [OF member])
  qed (use that in auto)
  show ?thesis
    unfolding lag_scrapeMetrics_def Let_def
    by (intro post_rules, rule post_bind_any, intro post_rules, rule post_bind, rule export)
       (auto intro!: post_rules)
qed

subsection \<open>The specification of a refresh\<close>

text \<open>The group and the name of a well-formed member key.\<close>

definition lag_memberParts :: "string \<Rightarrow> string list" where
  "lag_memberParts key = splitN2 (CHR '':'') (trimPrefix key ''LAG_MEMBER_TABLE:'')"

definition lag_memberKey :: "string \<Rightarrow> bool" where
  "lag_memberKey key =
     (named ''LAG_MEMBER_TABLE:'' key \<and> length (lag_memberParts key) = 2 \<and>
      lag_memberParts key ! 0 \<noteq> [] \<and> lag_memberParts key ! 1 \<noteq> [])"

definition lag_memberEntry :: "(string \<Rightarrow> fields) \<Rightarrow> string \<Rightarrow> lagMemberEntry" where
  "lag_memberEntry db key =
     \<lparr>lagm_name = lag_memberParts key ! 1, lagm_status = field (db key) ''status''\<rparr>"

definition lag_membersOf :: "(string \<Rightarrow> fields) \<Rightarrow> string list \<Rightarrow> lagMembers" where
  "lag_membersOf db keys name =
     map (lag_memberEntry db) (filter (\<lambda>k. lag_memberKey k \<and> lag_memberParts k ! 0 = name) keys)"

definition lag_memberMetric :: "lagCollector \<Rightarrow> string \<Rightarrow> lagMemberEntry \<Rightarrow> metric list" where
  "lag_memberMetric c lagName member =
     (if Enabled (lag_filter c) ''sonic_lag_member_status''
      then [constMetric lagMemberStatus GaugeValue (statusToGauge (lagm_status member))
              [lagName, lagm_name member]] else [])"

text \<open>The metrics of one group with the members that are exported.\<close>

definition lag_block ::
  "lagCollector \<Rightarrow> (int \<Rightarrow> string \<Rightarrow> fields) \<Rightarrow> string \<Rightarrow> lagMemberEntry list \<Rightarrow> metric list" where
  "lag_block c db lagName members =
     (let on = Enabled (lag_filter c);
          configData = db 4 (''PORTCHANNEL|'' @ lagName); applData = db 0 (''LAG_TABLE:'' @ lagName);
          adminStatus = firstNonEmpty [field applData ''admin_status'', field configData ''admin_status''];
          operStatus = field applData ''oper_status''
      in (if on ''sonic_lag_info''
          then [constMetric lagInfo GaugeValue f64_1 [lagName]] else []) @
         (if adminStatus \<noteq> [] \<and> on ''sonic_lag_admin_status''
          then [constMetric lagAdminStatus GaugeValue (statusToGauge adminStatus) [lagName]] else []) @
         (if operStatus \<noteq> [] \<and> on ''sonic_lag_oper_status''
          then [constMetric lagOperStatus GaugeValue (statusToGauge operStatus) [lagName]] else []) @
         concat (map (lag_memberMetric c lagName) members) @
         (if on ''sonic_lag_members''
          then [constMetric lagMembersDesc GaugeValue (f64_of_int (int (length members))) [lagName]] else []))"

definition lag_allNames :: "(int \<Rightarrow> string \<Rightarrow> string list) \<Rightarrow> string list" where
  "lag_allNames scan =
     sort (remdups
       (map (\<lambda>k. trimPrefix k ''PORTCHANNEL|'') (filter (named ''PORTCHANNEL|'') (scan 4 ''PORTCHANNEL|*'')) @
        map (\<lambda>k. trimPrefix k ''LAG_TABLE:'') (filter (named ''LAG_TABLE:'') (scan 0 ''LAG_TABLE:*''))))"

definition lag_spec ::
  "lagCollector \<Rightarrow> (int \<Rightarrow> string \<Rightarrow> fields) \<Rightarrow> (int \<Rightarrow> string \<Rightarrow> string list) \<Rightarrow> lagResult" where
  "lag_spec c db scan =
     (let groups = nat (lag_maxLags (lag_config c)); room = nat (lag_maxMembers (lag_config c));
          memberKeys = scan 0 ''LAG_MEMBER_TABLE:*'';
          members = (\<lambda>name. sort_key lagm_name (lag_membersOf (db 0) memberKeys name));
          names = lag_allNames scan
      in (limitedGroups members (lag_block c db) groups room names,
          int (length (filter (\<lambda>k. \<not> named ''PORTCHANNEL|'' k) (scan 4 ''PORTCHANNEL|*''))) +
          int (length (filter (\<lambda>k. \<not> named ''LAG_TABLE:'' k) (scan 0 ''LAG_TABLE:*''))) +
          int (length (filter (\<lambda>k. \<not> lag_memberKey k) memberKeys)) +
          int (droppedEntries members groups room names)))"

lemma lag_member_yields:
  assumes "serves lib cfg db scan"
  shows "yields (handlesOk cfg) (lag_member lib cfg i key (m, sk))
    (Continue (if lag_memberKey key
       then (m(lag_memberParts key ! 0 := m (lag_memberParts key ! 0) @ [lag_memberEntry (db 0) key]), sk)
       else (m, sk + 1)))"
proof -
  have read: "yields (handlesOk cfg) (io_wrap msg args (HgetAllFromDb lib cfg ''APPL_DB'' k)) (db 0 k)" for msg args k
    by (rule yields_wrap [OF yields_HgetAll [OF assms]]) (simp add: RedisDbId_def)
  have "trimPrefix key ''LAG_MEMBER_TABLE:'' = [] \<or> trimPrefix key ''LAG_MEMBER_TABLE:'' = key \<longleftrightarrow> \<not> named ''LAG_MEMBER_TABLE:'' key"
    by (rule trimPrefix_unnamed) simp
  then show ?thesis
    unfolding lag_member_def lag_memberKey_def lag_memberEntry_def lag_memberParts_def Let_def
    by (cases "named ''LAG_MEMBER_TABLE:'' key") (auto intro!: yields_return yields_bind [OF read])
qed

lemma lag_membersOf_snoc:
  "lag_membersOf db (ks @ [k]) =
     (if lag_memberKey k
      then (lag_membersOf db ks)(lag_memberParts k ! 0 :=
              lag_membersOf db ks (lag_memberParts k ! 0) @ [lag_memberEntry db k])
      else lag_membersOf db ks)"
  by (auto simp: lag_membersOf_def fun_eq_iff)

lemma lag_members_yields:
  assumes "serves lib cfg db scan"
  shows "yields (handlesOk cfg) (rangeLoop (lag_member lib cfg) i keys (lag_membersOf (db 0) seen, sk))
    (lag_membersOf (db 0) (seen @ keys), sk + int (length (filter (\<lambda>k. \<not> lag_memberKey k) keys)))"
proof (induction keys arbitrary: i seen sk)
  case Nil
  then show ?case by (simp add: yields_return)
next
  case (Cons k ks)
  note step = lag_member_yields [OF assms, of i k "lag_membersOf (db 0) seen" sk]
  show ?case
  proof (cases "lag_memberKey k")
    case True
    have "yields (handlesOk cfg) (lag_member lib cfg i k (lag_membersOf (db 0) seen, sk))
        (Continue (lag_membersOf (db 0) (seen @ [k]), sk))"
      using step True by (simp add: lag_membersOf_snoc)
    note one = this
    show ?thesis
      by (rule yields_eq, rule yields_loop_Continue, rule one, rule Cons.IH) (use True in simp)
  next
    case False
    have "yields (handlesOk cfg) (lag_member lib cfg i k (lag_membersOf (db 0) seen, sk))
        (Continue (lag_membersOf (db 0) (seen @ [k]), sk + 1))"
      using step False by (simp add: lag_membersOf_snoc)
    note one = this
    show ?thesis
      by (rule yields_eq, rule yields_loop_Continue, rule one, rule Cons.IH) (use False in simp)
  qed
qed

lemma lag_members_yields0:
  assumes "serves lib cfg db scan"
  shows "yields (handlesOk cfg) (rangeLoop (lag_member lib cfg) i keys (\<lambda>_. [], sk))
    (lag_membersOf (db 0) keys, sk + int (length (filter (\<lambda>k. \<not> lag_memberKey k) keys)))"
proof -
  have "lag_membersOf (db 0) [] = (\<lambda>_. [])"
    by (simp add: lag_membersOf_def fun_eq_iff)
  then show ?thesis
    using lag_members_yields [OF assms, of i keys "[]" sk] by simp
qed

lemma lag_exportMember_yields:
  "yields I (lag_exportMember anyLabel c name i member (ms, n, count, sk))
    (Continue (if lag_maxMembers (lag_config c) \<le> n then (ms, n, count, sk + 1)
               else (ms @ lag_memberMetric c name member, n + 1, count + 1, sk)))"
proof (cases "lag_maxMembers (lag_config c) \<le> n")
  case True
  then show ?thesis by (simp add: lag_exportMember_def yields_return)
next
  case False
  show ?thesis
    by (rule yields_eq, simp only: lag_exportMember_def prod.case False if_False, rule yields_bind_emit, simp,
        rule yields_return) (simp add: False lag_memberMetric_def)
qed

lemma lag_export_yields:
  assumes "serves lib cfg db scan"
  shows "yields (handlesOk cfg) (lag_export anyLabel lib cfg c mem i name (ms, g, n, sk))
    (Continue (if lag_maxLags (lag_config c) \<le> g then (ms, g, n, sk + 1)
       else let members = sort_key lagm_name (mem name); room = nat (lag_maxMembers (lag_config c) - n)
            in (ms @ lag_block c db name (take room members), g + 1,
                n + int (length (take room members)), sk + int (length members - room))))"
proof (cases "lag_maxLags (lag_config c) \<le> g")
  case True
  then show ?thesis by (simp add: lag_export_def yields_return)
next
  case False
  have config: "yields (handlesOk cfg) (io_wrap msg args (HgetAllFromDb lib cfg ''CONFIG_DB'' k)) (db 4 k)" for msg args k
    by (rule yields_wrap [OF yields_HgetAll [OF assms]]) (simp add: RedisDbId_def)
  have appl: "yields (handlesOk cfg) (io_wrap msg args (HgetAllFromDb lib cfg ''APPL_DB'' k)) (db 0 k)" for msg args k
    by (rule yields_wrap [OF yields_HgetAll [OF assms]]) (simp add: RedisDbId_def)
  show ?thesis
    by (rule yields_eq, simp only: lag_export_def prod.case Let_def False if_False,
        rule yields_bind [OF config], rule yields_bind [OF appl],
        rule yields_bind_emit, simp, rule yields_bind_emit, simp, rule yields_bind_emit, simp,
        rule yields_bind, rule member_loop_yields [OF lag_exportMember_yields], rule refl, simp only: prod.case,
        rule yields_bind_emit, simp, rule yields_return)
       (simp only: lag_block_def Let_def False if_False append_assoc, simp)
qed

lemma lag_names_eq:
  "sort (fst (lag_names (scan 4 ''PORTCHANNEL|*'') (scan 0 ''LAG_TABLE:*''))) = lag_allNames scan"
proof -
  let ?l = "fst (lag_names (scan 4 ''PORTCHANNEL|*'') (scan 0 ''LAG_TABLE:*''))"
  have "distinct ?l"
    unfolding lag_names_def by (intro addNames_distinct) simp
  then show ?thesis
    unfolding lag_allNames_def
    by (intro sorted_distinct_set_unique) (auto simp: lag_names_def addNames_set)
qed

lemma lag_names_skipped:
  "snd (lag_names ks ls) = int (length (filter (\<lambda>k. \<not> named ''PORTCHANNEL|'' k) ks)) +
     int (length (filter (\<lambda>k. \<not> named ''LAG_TABLE:'' k) ls))"
  by (simp add: lag_names_def addNames_skipped)

lemma lag_scrape_spec:
  assumes "serves lib cfg db scan"
  shows "fst (lag_scrapeMetrics anyLabel lib c w) = Ok (lag_spec c db scan)"
proof -
  have config: "yields (handlesOk cfg) (io_wrap msg args (ScanKeysFromDb lib cfg ''CONFIG_DB'' p n)) (scan 4 p)" for msg args p n
    by (rule yields_wrap [OF yields_ScanKeys [OF assms]]) (simp add: RedisDbId_def)
  have appl: "yields (handlesOk cfg) (io_wrap msg args (ScanKeysFromDb lib cfg ''APPL_DB'' p n)) (scan 0 p)" for msg args p n
    by (rule yields_wrap [OF yields_ScanKeys [OF assms]]) (simp add: RedisDbId_def)
  obtain names sk where ns: "lag_names (scan 4 ''PORTCHANNEL|*'') (scan 0 ''LAG_TABLE:*'') = (names, sk)"
    by fastforce
  then have names: "sort names = lag_allNames scan"
    and sk: "sk = int (length (filter (\<lambda>k. \<not> named ''PORTCHANNEL|'' k) (scan 4 ''PORTCHANNEL|*''))) +
      int (length (filter (\<lambda>k. \<not> named ''LAG_TABLE:'' k) (scan 0 ''LAG_TABLE:*'')))"
    using lag_names_eq [of scan] lag_names_skipped [of "scan 4 ''PORTCHANNEL|*''" "scan 0 ''LAG_TABLE:*''"]
    by simp_all
  let ?keys = "scan 0 ''LAG_MEMBER_TABLE:*''"
  let ?bad = "sk + int (length (filter (\<lambda>k. \<not> lag_memberKey k) ?keys))"
  let ?mem = "\<lambda>name. sort_key lagm_name (lag_membersOf (db 0) ?keys name)"
  obtain g' n' where groups: "yields (handlesOk cfg)
      (rangeLoop (lag_export anyLabel lib cfg c (lag_membersOf (db 0) ?keys)) 0 (lag_allNames scan) ([], 0, 0, ?bad))
      ([] @ limitedGroups ?mem (lag_block c db) (nat (lag_maxLags (lag_config c) - 0))
         (nat (lag_maxMembers (lag_config c) - 0)) (lag_allNames scan), g', n',
       ?bad + int (droppedEntries ?mem (nat (lag_maxLags (lag_config c) - 0))
         (nat (lag_maxMembers (lag_config c) - 0)) (lag_allNames scan)))"
    using group_loop_yields [where members = ?mem and block = "lag_block c db"
        and body = "lag_export anyLabel lib cfg c (lag_membersOf (db 0) ?keys)",
        OF lag_export_yields [OF assms, unfolded Let_def], OF refl refl] by blast
  show ?thesis
    unfolding lag_scrapeMetrics_def Let_def
    by (rule withRedis_yields [OF assms], rule yields_eq, rule yields_bind [OF config], rule yields_bind [OF appl],
        rule yields_bind [OF appl], simp only: ns prod.case,
        rule yields_bind [OF lag_members_yields0 [OF assms]], simp only: prod.case names,
        rule yields_bind [OF groups], simp only: prod.case, rule yields_return)
       (simp only: lag_spec_def Let_def append_Nil sk diff_0_right)
qed

subsection \<open>Everything sent is good\<close>

lemma lag_Collect_good:
  "list_all (goodMetric labelOk (lag_filter c) lag_Describe) (cachedMetrics c) \<Longrightarrow>
    post (lag_Collect labelOk now c) (list_all (goodMetric labelOk (lag_filter c) lag_Describe))"
proof (cases "lag_IsEnabled c")
  case True
  assume "list_all (goodMetric labelOk (lag_filter c) lag_Describe) (cachedMetrics c)"
  then show ?thesis
    by (intro yields_post [OF lag_Collect_yields [OF True]]) (simp add: lag_health_good)
next
  case False
  then show ?thesis by (simp add: lag_Collect_def lag_IsEnabled_def post_return)
qed

interpretation lag_source: metric_source lag_assignments lag_copies cacheState.truncate
  "\<lambda>c. (lag_config c, lag_filter c)" fst "lag_scrapeMetrics labelOk lib" "lag_Collect labelOk"
  "\<lambda>f. list_all (goodMetric labelOk (snd f) lag_Describe)"
  for labelOk lib
proof unfold_locales
  show "post (lag_scrapeMetrics labelOk lib c)
      (\<lambda>r. list_all (goodMetric labelOk (snd (lag_config c, lag_filter c)) lag_Describe) (fst r))" for c
    by (rule post_mono [OF lag_scrape_ok]) simp
qed (simp_all add: lag_Collect_good cacheState.truncate_def)

subsection \<open>Series\<close>

lemma lag_memberKey_eq:
  "lag_memberKey k \<Longrightarrow>
    k = ''LAG_MEMBER_TABLE:'' @ lag_memberParts k ! 0 @ '':'' @ lag_memberParts k ! 1"
proof -
  assume k: "lag_memberKey k"
  then have "k = ''LAG_MEMBER_TABLE:'' @ trimPrefix k ''LAG_MEMBER_TABLE:''"
    by (intro hasPrefix_trim) (simp add: lag_memberKey_def named_def)
  moreover have "trimPrefix k ''LAG_MEMBER_TABLE:'' = lag_memberParts k ! 0 @ CHR '':'' # lag_memberParts k ! 1"
    using k splitN2_join [of "CHR '':''" "trimPrefix k ''LAG_MEMBER_TABLE:''"]
    by (simp add: lag_memberKey_def lag_memberParts_def)
  ultimately show ?thesis by (metis append_Cons append_Nil)
qed

lemma lag_membersOf_distinct:
  assumes "distinct keys"
  shows "distinct (map lagm_name (sort_key lagm_name (lag_membersOf db keys name)))"
proof -
  have "inj_on (lagm_name \<circ> lag_memberEntry db) (set (filter (\<lambda>k. lag_memberKey k \<and> lag_memberParts k ! 0 = name) keys))"
  proof (rule inj_onI)
    fix x y
    assume "x \<in> set (filter (\<lambda>k. lag_memberKey k \<and> lag_memberParts k ! 0 = name) keys)"
      "y \<in> set (filter (\<lambda>k. lag_memberKey k \<and> lag_memberParts k ! 0 = name) keys)"
      "(lagm_name \<circ> lag_memberEntry db) x = (lagm_name \<circ> lag_memberEntry db) y"
    then have k: "lag_memberKey x" "lag_memberKey y"
      and "lag_memberParts x ! 0 = lag_memberParts y ! 0" "lag_memberParts x ! 1 = lag_memberParts y ! 1"
      by (auto simp: lag_memberEntry_def)
    then have "''LAG_MEMBER_TABLE:'' @ lag_memberParts x ! 0 @ '':'' @ lag_memberParts x ! 1 =
        ''LAG_MEMBER_TABLE:'' @ lag_memberParts y ! 0 @ '':'' @ lag_memberParts y ! 1"
      by simp
    then show "x = y"
      by (rule trans [OF lag_memberKey_eq [OF k(1)] trans [OF _ lag_memberKey_eq [OF k(2), symmetric]]])
  qed
  with assms have "distinct (map lagm_name (lag_membersOf db keys name))"
    by (simp add: lag_membersOf_def distinct_map)
  then show ?thesis by (rule distinct_map_sort_key)
qed

lemma lag_block_series:
  assumes "distinct (map lagm_name ms)"
  shows "distinct (map series (lag_block c db name ms))"
proof -
  have "distinct (map series (concat (map (lag_memberMetric c name) ms)))"
    using assms by (induction ms) (auto simp: lag_memberMetric_def)
  moreover have "\<exists>ls. series m = (''sonic_lag_member_status'', ls)" if "m \<in> set (concat (map (lag_memberMetric c name) ms))" for m
    using that by (auto simp: lag_memberMetric_def split: if_splits)
  ultimately show ?thesis
    unfolding lag_block_def Let_def map_append distinct_append by fastforce
qed

lemma lag_block_label: "m \<in> set (lag_block c db name ms) \<Longrightarrow> hd (m_labels m) = name"
  by (auto simp: lag_block_def Let_def lag_memberMetric_def split: if_splits)

lemma lag_spec_series:
  assumes "distinct (scan 0 ''LAG_MEMBER_TABLE:*'')"
  shows "distinct (map series (fst (lag_spec c db scan)))"
  unfolding lag_spec_def Let_def fst_conv
proof (rule limitedGroups_series)
  show "distinct (map series (lag_block c db name
      (take n (sort_key lagm_name (lag_membersOf (db 0) (scan 0 ''LAG_MEMBER_TABLE:*'') name)))))" for name n
    by (rule lag_block_series) (simp add: take_map [symmetric] lag_membersOf_distinct [OF assms] distinct_take)
qed (auto simp: lag_allNames_def dest: lag_block_label)

lemma lag_descs_differ [simp]:
  "lagAdminStatus \<noteq> lagInfo" "lagOperStatus \<noteq> lagInfo" "lagMembersDesc \<noteq> lagInfo" "lagMemberStatus \<noteq> lagInfo"
  "lagInfo \<noteq> lagMemberStatus" "lagAdminStatus \<noteq> lagMemberStatus" "lagOperStatus \<noteq> lagMemberStatus"
  "lagMembersDesc \<noteq> lagMemberStatus"
  by (simp_all add: desc_defs NewDesc_def)

lemma lag_member_descs:
  "filter (\<lambda>m. m_desc m = lagInfo) (concat (map (lag_memberMetric c name) es)) = []"
  by (auto simp: filter_empty_conv lag_memberMetric_def split: if_splits)

lemma lag_member_count:
  "length (filter (\<lambda>m. m_desc m = lagMemberStatus) (concat (map (lag_memberMetric c name) es))) \<le> length es"
  by (induction es) (auto simp: lag_memberMetric_def)

subsection \<open>Properties\<close>

definition lag_demoDb :: "int \<Rightarrow> string \<Rightarrow> fields" where
  "lag_demoDb n key = (if key = ''PORTCHANNEL|PortChannel1'' then [(''admin_status'', ''up'')] else [])"

definition lag_demoScan :: "int \<Rightarrow> string \<Rightarrow> string list" where
  "lag_demoScan n pattern =
     (if pattern = ''PORTCHANNEL|*'' then [''PORTCHANNEL|PortChannel1'']
      else if pattern = ''LAG_MEMBER_TABLE:*'' then [''LAG_MEMBER_TABLE:PortChannel1:Ethernet4'', ''LAG_MEMBER_TABLE:PortChannel1:Ethernet0'']
      else [])"

definition lag_demo :: lagCollector where
  "lag_demo = lag_new (\<lambda>_. None) (NewMetricFilter (\<lambda>_. None))"

text \<open>
  C15. On a server that holds still, a refresh returns what the specification says: the names of
  both tables once each in order, the first \<open>maxLags\<close> of them with their metrics and their members
  by name, at most \<open>maxMembers\<close> members in all, and the number of entries it left out.
\<close>

theorem lag_refresh_refines_spec:
  assumes "serves lib cfg db scan"
  shows "fst (lag_scrapeMetrics anyLabel lib c w) = Ok (lag_spec c db scan)"
  by (rule lag_scrape_spec [OF assms])

theorem lag_refresh_refines_spec_witness:
  "fst (lag_scrapeMetrics anyLabel (staticLib localRedis lag_demoDb lag_demoScan) lag_demo
     \<lparr>server = (), databases = []\<rparr>) = Ok (lag_spec lag_demo lag_demoDb lag_demoScan)"
  by (rule lag_refresh_refines_spec [OF staticLib_serves])

text \<open>
  A refresh exports no more groups and members than the limits, and when it reports nothing
  as skipped, then every LAG of the two tables is there with all its members.
\<close>

lemma lag_refresh_limited_and_complete:
  assumes "serves lib cfg db scan"
  shows "\<exists>ms skipped. fst (lag_scrapeMetrics anyLabel lib c w) = Ok (ms, skipped) \<and>
    length (filter (\<lambda>m. m_desc m = lagInfo) ms) \<le> nat (lag_maxLags (lag_config c)) \<and>
    length (filter (\<lambda>m. m_desc m = lagMemberStatus) ms) \<le> nat (lag_maxMembers (lag_config c)) \<and>
    (skipped = 0 \<longrightarrow>
       ms = concat (map (\<lambda>name. lag_block c db name
              (sort_key lagm_name (lag_membersOf (db 0) (scan 0 ''LAG_MEMBER_TABLE:*'') name)))
            (lag_allNames scan)))"
proof -
  obtain ms sk where spec: "lag_spec c db scan = (ms, sk)"
    by (cases "lag_spec c db scan")
  let ?mem = "\<lambda>name. sort_key lagm_name (lag_membersOf (db 0) (scan 0 ''LAG_MEMBER_TABLE:*'') name)"
  let ?g = "nat (lag_maxLags (lag_config c))" and ?r = "nat (lag_maxMembers (lag_config c))"
  have ms: "ms = limitedGroups ?mem (lag_block c db) ?g ?r (lag_allNames scan)"
    and sk: "sk = 0 \<longrightarrow> droppedEntries ?mem ?g ?r (lag_allNames scan) = 0"
    using spec by (auto simp: lag_spec_def Let_def)
  have "length (filter (\<lambda>m. m_desc m = lagInfo) (lag_block c db name es)) \<le> 1" for name es
    unfolding lag_block_def Let_def filter_append filter_if lag_member_descs
    by simp
  then have "length (filter (\<lambda>m. m_desc m = lagInfo) ms) \<le> ?g"
    unfolding ms by (rule limitedGroups_groups)
  moreover have "length (filter (\<lambda>m. m_desc m = lagMemberStatus) (lag_block c db name es)) \<le> length es" for name es
    unfolding lag_block_def Let_def filter_append filter_if length_append
    using lag_member_count [of c name es] by simp
  then have "length (filter (\<lambda>m. m_desc m = lagMemberStatus) ms) \<le> ?r"
    unfolding ms by (rule limitedGroups_members)
  moreover have "sk = 0 \<longrightarrow> ms = concat (map (\<lambda>name. lag_block c db name (?mem name)) (lag_allNames scan))"
    using sk limitedGroups_complete unfolding ms by blast
  ultimately show ?thesis
    using lag_scrape_spec [OF assms, of c w] spec by auto
qed

lemma lag_refresh_limited_and_complete_example:
  "\<exists>ms skipped. fst (lag_scrapeMetrics anyLabel (staticLib localRedis lag_demoDb lag_demoScan) lag_demo
       \<lparr>server = (), databases = []\<rparr>) = Ok (ms, skipped) \<and>
     length (filter (\<lambda>m. m_desc m = lagInfo) ms) \<le> 512"
  using lag_refresh_limited_and_complete [OF staticLib_serves [of localRedis lag_demoDb lag_demoScan],
      of lag_demo "\<lparr>server = (), databases = []\<rparr>"]
  by (auto simp: lag_demo_def lag_new_def loadLagCollectorConfig_def parseIntEnv_def setEnv_def)

lemma lag_failures_keep_skipped:
  "\<forall>(clk, r)\<in>set h. isl r \<Longrightarrow>
    lastSkippedEntries (replay lag_assignments h c) = lastSkippedEntries c"
  by (induction h rule: rev_induct) (auto simp: lag_assignments_def isl_def)

lemma lag_last_success:
  assumes "\<forall>(clk, r)\<in>set late. isl r"
  shows "lastSkippedEntries (replay lag_assignments (early @ (clk, Inr x) # late) c) = f64_of_int (snd x)"
proof -
  have "replay lag_assignments (early @ (clk, Inr x) # late) c =
      replay lag_assignments late (run (lag_assignments clk (Inr x)) (replay lag_assignments early c))"
    by (simp add: replay_def)
  then show ?thesis
    using lag_failures_keep_skipped [OF assms] by (cases x) (simp add: lag_assignments_def)
qed

lemma lag_success_after:
  assumes "\<forall>(clk, r)\<in>set late. isl r"
  shows "lastSuccess (replay lag_assignments (early @ (clk, Inr x) # late) c) = (if late = [] then f64_1 else f64_0)"
proof (cases late rule: rev_cases)
  case Nil
  then show ?thesis
    using lag.success_gauge [of early clk "Inr x" c] by (simp add: cacheState.truncate_def)
next
  case (snoc h cr)
  obtain clk' e where "cr = (clk', Inl e)"
    using assms snoc by (cases cr) (auto simp: isl_def)
  then show ?thesis
    using lag.success_gauge [of "early @ (clk, Inr x) # h" clk' "Inl e" c] snoc
    by (simp add: cacheState.truncate_def)
qed

text \<open>
  C5. After any refreshes, \<^verbatim>\<open>Collect\<close> sends the metrics of the last refresh that succeeded,
  whatever failed since, then the gauges the filter lets through: the success gauge is 1 exactly
  when no refresh failed since, the age counts from that success, and the skipped entries are
  those of that success.
\<close>

theorem lag_collect_serves_last_success:
  assumes "\<forall>(clk, r)\<in>set late. isl r" "lag_IsEnabled c0"
  shows "fst (lag_Collect labelOk now (replay lag_assignments (early @ (clk, Inr x) # late) c0) w) =
    Ok (fst x @ gauges (lag_filter c0)
      [(lagScrapeDuration, lastScrapeDuration (replay lag_assignments (early @ (clk, Inr x) # late) c0)),
       (lagCollectorSuccess, if late = [] then f64_1 else f64_0),
       (lagCacheAge, cacheAge now (t_stored clk)),
       (lagEntriesSkipped, f64_of_int (snd x))])"
proof -
  let ?c = "replay lag_assignments (early @ (clk, Inr x) # late) c0"
  have part: "lag_config ?c = lag_config c0" "lag_filter ?c = lag_filter c0"
    using lag.replay_fixed [of "early @ (clk, Inr x) # late" c0] by simp_all
  then have "lag_IsEnabled ?c"
    using assms(2) by (simp add: lag_IsEnabled_def)
  then have "fst (lag_Collect labelOk now ?c w) = Ok (cachedMetrics ?c @ gauges (lag_filter ?c) (lag_health now ?c))"
    using yieldsD [OF lag_Collect_yields, of ?c "\<lambda>_. True" w labelOk now] by simp
  moreover have "cachedMetrics ?c = fst x" "lastRefreshTime ?c = t_stored clk"
    using lag.replay_last_success [OF assms(1), of early clk x c0] by (simp_all add: cacheState.truncate_def)
  ultimately show ?thesis
    using lag_last_success [OF assms(1), of early clk x c0] lag_success_after [OF assms(1), of early clk x c0] part(2)
    by (simp add: lag_health_def)
qed

theorem lag_collect_serves_last_success_witness:
  "\<exists>ms. fst (lag_Collect anyLabel 100 (replay lag_assignments
     [(\<lparr>t_start = 1, t_scraped = 2, t_stored = 3\<rparr>, Inr ([], 7)),
      (\<lparr>t_start = 4, t_scraped = 5, t_stored = 6\<rparr>, Inl (Errorf ''timeout'' []))] lag_demo) ()) = Ok ms \<and>
     constMetric lagCollectorSuccess GaugeValue f64_0 [] \<in> set ms"
proof -
  have on: "Enabled (NewMetricFilter (\<lambda>_. None)) name" for name
    by (rule Enabled_empty) simp
  have "lag_IsEnabled lag_demo"
    by (simp add: lag_demo_def lag_new_def lag_IsEnabled_def loadLagCollectorConfig_def parseBoolEnv_def setEnv_def)
  from lag_collect_serves_last_success [OF _ this, of "[(\<lparr>t_start = 4, t_scraped = 5, t_stored = 6\<rparr>, Inl (Errorf ''timeout'' []))]"
      anyLabel 100 "[]" "\<lparr>t_start = 1, t_scraped = 2, t_stored = 3\<rparr>" "([], 7)" "()"]
  show ?thesis by (simp add: gauges_def on lag_demo_def lag_new_def)
qed

end
