(* ===== verification/Counters.thy ===== *)
theory Counters
  imports Snapshot "HOL-Library.AList"
begin

text \<open>
  The counter maps \<^verbatim>\<open>map[string]float64\<close> of the counting collectors, the bounded loop those
  collectors share, and \<^verbatim>\<open>sortedMapKeys\<close>. A counter map is an association list with distinct
  keys in the order of first insertion; the code only ever reads it in key order.
\<close>

type_synonym counts = "(string \<times> f64) list"

text \<open>\<^verbatim>\<open>counts[key]\<close> and \<^verbatim>\<open>counts[key]++\<close>; an absent key reads as 0.\<close>

definition countOf :: "counts \<Rightarrow> string \<Rightarrow> f64" where
  "countOf m k = (case map_of m k of None \<Rightarrow> f64_0 | Some v \<Rightarrow> v)"

definition increment :: "string \<Rightarrow> counts \<Rightarrow> counts" where
  "increment k m = AList.update k (f64_add (countOf m k) f64_1) m"

definition sortedMapKeys :: "(string \<times> f64) list \<Rightarrow> string list" where
  "sortedMapKeys values = sort (map fst values)"

text \<open>A counter is exact as long as it stays below \<open>2 ^ 53\<close>.\<close>

lemma f64_add_one:
  assumes "0 \<le> n" "n < 2 ^ 53"
  shows "f64_add (f64_of_int n) f64_1 = f64_of_int (n + 1)"
proof -
  obtain m e where "f64_of_int n = Fin False m e" "0 \<le> e" "m * 2 ^ nat e = n"
    using f64_of_int_Fin [OF assms] by blast
  then show ?thesis
    using assms(1) by (auto simp: Let_def min_def pow_def f64_of_int_def)
qed

lemma countOf_increment: "countOf (increment k m) k' = (if k' = k then f64_add (countOf m k) f64_1 else countOf m k')"
  by (simp add: countOf_def increment_def update_conv')

lemma keys_increment: "map fst (increment k m) = (if k \<in> set (map fst m) then map fst m else map fst m @ [k])"
  by (simp add: increment_def update_keys)

lemma distinct_increment: "distinct (map fst m) \<Longrightarrow> distinct (map fst (increment k m))"
  by (simp add: increment_def distinct_update)

text \<open>From \<open>2 ^ 53\<close> on a counter stays where it is: one is less than half of the distance to the next value.\<close>

lemma f64_add_one_full: "f64_add (f64_of_int (2 ^ 53)) f64_1 = f64_of_int (2 ^ 53)"
  by code_simp

lemma countOf_fold_full: "countOf (fold increment ks []) k = f64_of_int (min (int (count_list ks k)) (2 ^ 53))"
proof (induction ks rule: rev_induct)
  case Nil
  then show ?case by (simp add: countOf_def f64_of_int_def round64_def)
next
  case (snoc x ks)
  have "f64_add (f64_of_int (min (int n) (2 ^ 53))) f64_1 = f64_of_int (min (int (Suc n)) (2 ^ 53))" for n
    using f64_add_one [of "int n"] f64_add_one_full by (cases "int n < 2 ^ 53") (simp_all add: min_def add.commute)
  with snoc show ?case
    by (auto simp: countOf_increment add.commute)
qed

lemma countOf_fold:
  assumes "length ks < 2 ^ 53"
  shows "countOf (fold increment ks []) k = f64_of_int (int (count_list ks k))"
proof -
  have "int (count_list ks k) < 2 ^ 53"
    using assms count_le_length [of ks k] by (simp add: of_nat_less_iff [symmetric] del: of_nat_less_iff)
  then show ?thesis by (simp add: countOf_fold_full)
qed

lemma keys_fold: "distinct (map fst (fold increment ks [])) \<and> set (map fst (fold increment ks [])) = set ks"
  by (induction ks rule: rev_induct) (auto simp: distinct_increment keys_increment)

lemma sortedMapKeys_fold: "sortedMapKeys (fold increment ks []) = sort (remdups ks)"
proof -
  have "distinct (sortedMapKeys (fold increment ks []))" "set (sortedMapKeys (fold increment ks [])) = set ks"
    using keys_fold [of ks] by (simp_all add: sortedMapKeys_def)
  then show ?thesis
    by (intro sorted_distinct_set_unique) (auto simp: sortedMapKeys_def)
qed

subsection \<open>The bounded loop\<close>

text \<open>
  A loop that breaks at a limit, and otherwise takes in every element with \<open>P\<close> and counts the
  others as skipped: \<open>step\<close> is what it does to its data, \<open>full\<close> the flag it sets at the limit.
\<close>

lemma bounded_loop_yields:
  assumes "\<And>i k a sk t. yields I (body i k (a, sk, t))
      (if limit \<le> int i then Break (a, sk + (int keyCount - int i), full)
       else Continue (if P k then (step k a, sk, t) else (a, sk + 1, t)))"
  shows "keyCount = i + length keys \<Longrightarrow> nat limit = i + room \<Longrightarrow>
    yields I (rangeLoop body i keys (a, sk, t))
      (fold step (filter P (take room keys)) a,
       sk + (int (length keys) - int (length (filter P (take room keys)))),
       if room < length keys then full else t)"
proof (induction keys arbitrary: i room a sk t)
  case Nil
  then show ?case by (simp add: yields_return)
next
  case (Cons k ks)
  note body = assms [of i k a sk t]
  show ?case
  proof (cases room)
    case 0
    then have "limit \<le> int i" using Cons.prems by simp
    with body have "yields I (body i k (a, sk, t)) (Break (a, sk + (int keyCount - int i), full))"
      by simp
    then show ?thesis
      by (rule yields_eq [OF yields_loop_Break]) (use 0 Cons.prems in simp)
  next
    case (Suc left)
    then have "\<not> limit \<le> int i" using Cons.prems by simp
    with body have "yields I (body i k (a, sk, t))
        (Continue (if P k then (step k a, sk, t) else (a, sk + 1, t)))"
      by simp
    note step = this
    show ?thesis
    proof (cases "P k")
      case True
      show ?thesis
        by (rule yields_loop_Continue, rule step, simp only: True if_True,
            rule yields_eq, rule Cons.IH [of "Suc i" left]) (use Cons.prems Suc True in simp_all)
    next
      case False
      show ?thesis
        by (rule yields_loop_Continue, rule step, simp only: False if_False,
            rule yields_eq, rule Cons.IH [of "Suc i" left]) (use Cons.prems Suc False in simp_all)
    qed
  qed
qed

subsection \<open>The loop that counts what it exports\<close>

text \<open>What is left of a list after its first \<open>n\<close> elements with \<open>P\<close>, those included.\<close>

fun after :: "('a \<Rightarrow> bool) \<Rightarrow> nat \<Rightarrow> 'a list \<Rightarrow> 'a list" where
  "after P 0 xs = xs"
| "after P (Suc n) [] = []"
| "after P (Suc n) (x # xs) = after P (if P x then n else Suc n) xs"

text \<open>
  A loop that exports elements with \<open>P\<close> until their number has reached a limit and counts
  every other one as skipped, from then on with the flag \<open>full\<close>; it passes over what is \<open>ignored\<close>,
  and an exported element may leave out \<open>cost\<close> of its readings. \<open>emb\<close> is the loop's accumulator.
\<close>

lemma costed_loop_yields:
  assumes "\<And>i k a sk t n. yields I (body i k (emb a sk t n))
      (Continue (if ignored k then emb a sk t n else if limit \<le> n then emb a (sk + 1) full n
         else if P k then emb (step k a) (sk + cost k) t (n + 1) else emb a (sk + 1) t n))"
  shows "yields I (rangeLoop body i keys (emb a sk t n))
    (let ks = filter (\<lambda>k. \<not> ignored k) keys; room = nat (limit - n); exported = take room (filter P ks)
     in emb (fold step exported a) (sk + (int (length ks) - int (length exported)) + sum_list (map cost exported))
         (if after P room ks = [] then t else full) (n + int (length exported)))"
proof (induction keys arbitrary: i a sk t n)
  case Nil
  then show ?case by (cases "nat (limit - n)") (simp_all add: yields_return)
next
  case (Cons k ks)
  note body = assms [of i k a sk t n]
  consider (ignored) "ignored k" | (full) "\<not> ignored k" "limit \<le> n"
    | (export) "\<not> ignored k" "\<not> limit \<le> n" "P k" | (skip) "\<not> ignored k" "\<not> limit \<le> n" "\<not> P k"
    by blast
  then show ?case
  proof cases
    case ignored
    then have step: "yields I (body i k (emb a sk t n)) (Continue (emb a sk t n))"
      using body by simp
    show ?thesis
      by (rule yields_eq [OF yields_loop_Continue [OF step Cons.IH]]) (use ignored in \<open>simp add: Let_def\<close>)
  next
    case full
    then have step: "yields I (body i k (emb a sk t n)) (Continue (emb a (sk + 1) full n))"
      using body by simp
    show ?thesis
      by (rule yields_eq [OF yields_loop_Continue [OF step Cons.IH]]) (use full in \<open>simp add: Let_def add.assoc\<close>)
  next
    case export
    then have step: "yields I (body i k (emb a sk t n)) (Continue (emb (step k a) (sk + cost k) t (n + 1)))"
      using body by simp
    have "nat (limit - n) = Suc (nat (limit - (n + 1)))"
      using export by simp
    then show ?thesis
      by (intro yields_eq [OF yields_loop_Continue [OF step Cons.IH]]) (use export in \<open>simp add: Let_def algebra_simps\<close>)
  next
    case skip
    then have step: "yields I (body i k (emb a sk t n)) (Continue (emb a (sk + 1) t n))"
      using body by simp
    have "nat (limit - n) = Suc (nat (limit - (n + 1)))"
      using skip by simp
    then show ?thesis
      by (intro yields_eq [OF yields_loop_Continue [OF step Cons.IH]]) (use skip in \<open>simp add: Let_def algebra_simps\<close>)
  qed
qed

lemma counted_loop_yields:
  assumes "\<And>i k a sk t n. yields I (body i k (a, sk, t, n))
      (Continue (if ignored k then (a, sk, t, n) else if limit \<le> n then (a, sk + 1, full, n)
         else if P k then (step k a, sk, t, n + 1) else (a, sk + 1, t, n)))"
  shows "yields I (rangeLoop body i keys (a, sk, t, n))
    (let ks = filter (\<lambda>k. \<not> ignored k) keys; room = nat (limit - n); exported = take room (filter P ks)
     in (fold step exported a, sk + (int (length ks) - int (length exported)),
         if after P room ks = [] then t else full, n + int (length exported)))"
proof -
  have "yields I (body i k (a, sk, t, n))
      (Continue (if ignored k then (a, sk, t, n) else if limit \<le> n then (a, sk + 1, full, n)
         else if P k then (step k a, sk + 0, t, n + 1) else (a, sk + 1, t, n)))" for i k a sk t n
    using assms [of i k a sk t n] by (simp only: add_0_right)
  from costed_loop_yields [where emb = "\<lambda>a sk t n. (a, sk, t, n)" and cost = "\<lambda>_. 0" and body = body and
      ignored = ignored and limit = limit and full = full and P = P and step = step, OF this, of i keys a sk t n]
  show ?thesis by (rule yields_eq) (simp add: Let_def)
qed

end
