(* ===== verification/Switch.thy ===== *)
theory Switch
  imports Counters
begin

text \<open>
  \<^verbatim>\<open>switch_collector.go\<close>: the switch-wide settings in \<^verbatim>\<open>SWITCH_TABLE\<close> of \<^verbatim>\<open>APPL_DB\<close>.
\<close>

record switchCollectorConfig =
  switch_enabled :: bool
  switch_refreshInterval :: duration
  switch_timeout :: duration
  switch_maxEntries :: int
  switch_redisScanCount :: int

record switchCollector = truncState +
  switch_config :: switchCollectorConfig
  switch_filter :: metricFilter

subsection \<open>Construction\<close>

definition switchInfo :: desc where [desc_defs]:
  "switchInfo = NewDesc ''sonic'' ''switch'' ''info''
     ''Switch table metadata, value is always 1'' [''switch'']"

definition switchFDBAgingSeconds :: desc where [desc_defs]:
  "switchFDBAgingSeconds = NewDesc ''sonic'' ''switch'' ''fdb_aging_time_seconds''
     ''FDB aging time from SWITCH_TABLE'' [''switch'']"

definition switchEcmpHashSeed :: desc where [desc_defs]:
  "switchEcmpHashSeed = NewDesc ''sonic'' ''switch'' ''ecmp_hash_seed''
     ''ECMP hash seed from SWITCH_TABLE'' [''switch'']"

definition switchEcmpHashOffset :: desc where [desc_defs]:
  "switchEcmpHashOffset = NewDesc ''sonic'' ''switch'' ''ecmp_hash_offset''
     ''ECMP hash offset from SWITCH_TABLE'' [''switch'']"

definition switchLagHashSeed :: desc where [desc_defs]:
  "switchLagHashSeed = NewDesc ''sonic'' ''switch'' ''lag_hash_seed''
     ''LAG hash seed from SWITCH_TABLE'' [''switch'']"

definition switchLagHashOffset :: desc where [desc_defs]:
  "switchLagHashOffset = NewDesc ''sonic'' ''switch'' ''lag_hash_offset''
     ''LAG hash offset from SWITCH_TABLE'' [''switch'']"

definition switchOrderedEcmp :: desc where [desc_defs]:
  "switchOrderedEcmp = NewDesc ''sonic'' ''switch'' ''ordered_ecmp''
     ''Whether ordered ECMP is enabled (1=yes, 0=no)'' [''switch'']"

definition switchEntriesSkipped :: desc where [desc_defs]:
  "switchEntriesSkipped = NewDesc ''sonic'' ''switch'' ''entries_skipped''
     ''Number of switch entries skipped during latest refresh'' []"

definition switchEntriesTruncated :: desc where [desc_defs]:
  "switchEntriesTruncated = NewDesc ''sonic'' ''switch'' ''entries_truncated''
     ''Whether switch collection hit entry limits (1=yes, 0=no)'' []"

definition switchScrapeDuration :: desc where [desc_defs]:
  "switchScrapeDuration = NewDesc ''sonic'' ''switch'' ''scrape_duration_seconds''
     ''Time it took for exporter to refresh switch metrics'' []"

definition switchCollectorSuccess :: desc where [desc_defs]:
  "switchCollectorSuccess = NewDesc ''sonic'' ''switch'' ''collector_success''
     ''Whether switch collector succeeded'' []"

definition switchCacheAge :: desc where [desc_defs]:
  "switchCacheAge = NewDesc ''sonic'' ''switch'' ''cache_age_seconds''
     ''Age of latest switch cache refresh'' []"

definition loadSwitchCollectorConfig :: "env \<Rightarrow> switchCollectorConfig" where
  "loadSwitchCollectorConfig env =
     \<lparr>switch_enabled = parseBoolEnv env ''SWITCH_ENABLED'' True,
      switch_refreshInterval = parseDurationEnv env ''SWITCH_REFRESH_INTERVAL'' (60 * second),
      switch_timeout = parseDurationEnv env ''SWITCH_TIMEOUT'' (2 * second),
      switch_maxEntries = parseIntEnv env ''SWITCH_MAX_ENTRIES'' 16,
      switch_redisScanCount = 32\<rparr>"

definition switch_new :: "env \<Rightarrow> metricFilter \<Rightarrow> switchCollector" where
  "switch_new env flt =
     \<lparr>cachedMetrics = [], lastSuccess = f64_0, lastScrapeDuration = f64_0, lastRefreshTime = 0,
      lastSkippedEntries = f64_0, lastTruncated = f64_0,
      switch_config = loadSwitchCollectorConfig env, switch_filter = flt\<rparr>"

definition switch_IsEnabled :: "switchCollector \<Rightarrow> bool" where
  "switch_IsEnabled c = switch_enabled (switch_config c)"

definition switch_Describe :: "desc list" where
  "switch_Describe =
     [switchInfo,
      switchFDBAgingSeconds,
      switchEcmpHashSeed,
      switchEcmpHashOffset,
      switchLagHashSeed,
      switchLagHashOffset,
      switchOrderedEcmp,
      switchEntriesSkipped,
      switchEntriesTruncated,
      switchScrapeDuration,
      switchCollectorSuccess,
      switchCacheAge]"

subsection \<open>Scraping Redis\<close>

type_synonym switchAcc = "metric list \<times> int \<times> f64"

text \<open>The metrics of one entry, in the order of the code.\<close>

definition switch_entryMetrics ::
  "(string \<Rightarrow> bool) \<Rightarrow> switchCollector \<Rightarrow> string \<Rightarrow> fields \<Rightarrow> metric list \<Rightarrow> ('s, metric list) rio" where
  "switch_entryMetrics labelOk c switchName switchData metrics =
     (let gauge = (\<lambda>d v. MustNewConstMetric labelOk d GaugeValue v [switchName]);
          on = Enabled (switch_filter c)
      in   io_bind (emit (on ''sonic_switch_info'') (gauge switchInfo f64_1) metrics) (\<lambda>metrics.
           io_bind (emitValue (parseCounterLike (field switchData ''fdb_aging_time'')) (on ''sonic_switch_fdb_aging_time_seconds'')
                      (\<lambda>value. gauge switchFDBAgingSeconds value) metrics) (\<lambda>metrics.
           io_bind (emitValue (parseCounterLike (field switchData ''ecmp_hash_seed'')) (on ''sonic_switch_ecmp_hash_seed'')
                      (\<lambda>value. gauge switchEcmpHashSeed value) metrics) (\<lambda>metrics.
           io_bind (emitValue (parseCounterLike (field switchData ''ecmp_hash_offset'')) (on ''sonic_switch_ecmp_hash_offset'')
                      (\<lambda>value. gauge switchEcmpHashOffset value) metrics) (\<lambda>metrics.
           io_bind (emitValue (parseCounterLike (field switchData ''lag_hash_seed'')) (on ''sonic_switch_lag_hash_seed'')
                      (\<lambda>value. gauge switchLagHashSeed value) metrics) (\<lambda>metrics.
           io_bind (emitValue (parseCounterLike (field switchData ''lag_hash_offset'')) (on ''sonic_switch_lag_hash_offset'')
                      (\<lambda>value. gauge switchLagHashOffset value) metrics) (\<lambda>metrics.
           io_bind (emitValue (parseBoolish (field switchData ''ordered_ecmp'')) (on ''sonic_switch_ordered_ecmp'')
                      (\<lambda>value. gauge switchOrderedEcmp value) metrics) (\<lambda>metrics.
           io_return metrics))))))))"

definition switch_entry ::
  "(string \<Rightarrow> bool) \<Rightarrow> 's redisLib \<Rightarrow> redisConfig \<Rightarrow> switchCollector \<Rightarrow> nat \<Rightarrow> nat \<Rightarrow> string \<Rightarrow> switchAcc
     \<Rightarrow> ('s, switchAcc loop) rio" where
  "switch_entry labelOk lib cfg c keyCount index switchKey acc =
     (case acc of (metrics, skippedEntries, truncated) \<Rightarrow>
        if int index \<ge> switch_maxEntries (switch_config c)
        then io_return (Break (metrics, skippedEntries + (int keyCount - int index), f64_1))
        else case parseKeySuffix switchKey ''SWITCH_TABLE:'' of
          Inl err \<Rightarrow> io_return (Continue (metrics, skippedEntries + 1, truncated))
        | Inr switchName \<Rightarrow>
            io_bind (io_wrap ''failed to read switch entry %s: %w'' [switchKey]
                       (HgetAllFromDb lib cfg ''APPL_DB'' switchKey)) (\<lambda>switchData.
            if switchData = []
            then io_return (Continue (metrics, skippedEntries + 1, truncated))
            else io_bind (switch_entryMetrics labelOk c switchName switchData metrics) (\<lambda>metrics.
              io_return (Continue (metrics, skippedEntries, truncated)))))"

definition switch_scrapeMetrics ::
  "(string \<Rightarrow> bool) \<Rightarrow> 's redisLib \<Rightarrow> switchCollector \<Rightarrow> ('s, switchAcc) rio" where
  "switch_scrapeMetrics labelOk lib c =
     withRedis lib (\<lambda>cfg.
       io_bind (io_wrap ''failed to scan switch keys: %w'' []
                  (ScanKeysFromDb lib cfg ''APPL_DB'' ''SWITCH_TABLE:*''
                     (switch_redisScanCount (switch_config c)))) (\<lambda>scanned.
       let switchKeys = sort scanned in
       rangeLoop (switch_entry labelOk lib cfg c (length switchKeys)) 0 switchKeys ([], 0, f64_0)))"

subsection \<open>Refreshing and collecting\<close>

definition switch_assignments ::
  "refreshClock \<Rightarrow> goerr + switchAcc \<Rightarrow> (switchCollector \<Rightarrow> switchCollector) list" where
  "switch_assignments clk r =
     (\<lambda>c. c\<lparr>lastScrapeDuration := scrapeSeconds clk\<rparr>) #
     (case r of
        Inl err \<Rightarrow> [\<lambda>c. c\<lparr>lastSuccess := f64_0\<rparr>]
      | Inr (metrics, skippedEntries, truncated) \<Rightarrow>
          [\<lambda>c. c\<lparr>cachedMetrics := metrics\<rparr>,
           \<lambda>c. c\<lparr>lastSkippedEntries := f64_of_int skippedEntries\<rparr>,
           \<lambda>c. c\<lparr>lastTruncated := truncated\<rparr>,
           \<lambda>c. c\<lparr>lastSuccess := f64_1\<rparr>,
           \<lambda>c. c\<lparr>lastRefreshTime := t_stored clk\<rparr>])"

definition switch_refreshMetrics ::
  "(string \<Rightarrow> bool) \<Rightarrow> 's redisLib \<Rightarrow> refreshClock \<Rightarrow> switchCollector \<Rightarrow> ('s, switchCollector) rio" where
  "switch_refreshMetrics labelOk lib clk c =
     refreshWith (switch_scrapeMetrics labelOk lib c) (switch_assignments clk) c"

definition switch_refreshLoop ::
  "(string \<Rightarrow> bool) \<Rightarrow> 's redisLib \<Rightarrow> refreshClock list \<Rightarrow> switchCollector \<Rightarrow> ('s, switchCollector) rio" where
  "switch_refreshLoop labelOk lib ticks c =
     tickerLoop (switch_refreshInterval (switch_config c)) (switch_refreshMetrics labelOk lib) ticks c"

definition NewSwitchCollector ::
  "(string \<Rightarrow> bool) \<Rightarrow> 's redisLib \<Rightarrow> env \<Rightarrow> metricFilter \<Rightarrow> refreshClock \<Rightarrow> refreshClock list
     \<Rightarrow> ('s, switchCollector) rio" where
  "NewSwitchCollector labelOk lib env flt clk ticks =
     (let c = switch_new env flt
      in if \<not> switch_enabled (switch_config c) then io_return c
         else io_bind (switch_refreshMetrics labelOk lib clk c) (switch_refreshLoop labelOk lib ticks))"

text \<open>The copies \<^verbatim>\<open>Collect\<close> makes under the read lock, in its order.\<close>

definition switch_copies :: "(switchCollector \<Rightarrow> switchCollector \<Rightarrow> switchCollector) list" where
  "switch_copies =
     [\<lambda>c l. l\<lparr>cachedMetrics := cachedMetrics c\<rparr>,
      \<lambda>c l. l\<lparr>lastScrapeDuration := lastScrapeDuration c\<rparr>,
      \<lambda>c l. l\<lparr>lastSuccess := lastSuccess c\<rparr>,
      \<lambda>c l. l\<lparr>lastSkippedEntries := lastSkippedEntries c\<rparr>,
      \<lambda>c l. l\<lparr>lastTruncated := lastTruncated c\<rparr>,
      \<lambda>c l. l\<lparr>lastRefreshTime := lastRefreshTime c\<rparr>]"

definition switch_Collect :: "(string \<Rightarrow> bool) \<Rightarrow> gotime \<Rightarrow> switchCollector \<Rightarrow> ('w, metric list) io" where
  "switch_Collect labelOk now c =
     (if \<not> switch_enabled (switch_config c) then io_return []
      else let gauge = (\<lambda>d v. MustNewConstMetric labelOk d GaugeValue v []);
               on = Enabled (switch_filter c)
        in io_bind (emit (on ''sonic_switch_entries_skipped'') (gauge switchEntriesSkipped (lastSkippedEntries c)) (cachedMetrics c)) (\<lambda>ch.
           io_bind (emit (on ''sonic_switch_entries_truncated'') (gauge switchEntriesTruncated (lastTruncated c)) ch) (\<lambda>ch.
           io_bind (emit (on ''sonic_switch_scrape_duration_seconds'') (gauge switchScrapeDuration (lastScrapeDuration c)) ch) (\<lambda>ch.
           io_bind (emit (on ''sonic_switch_collector_success'') (gauge switchCollectorSuccess (lastSuccess c)) ch) (\<lambda>ch.
           emit (on ''sonic_switch_cache_age_seconds'') (gauge switchCacheAge (cacheAge now (lastRefreshTime c))) ch)))))"

interpretation switch: refresh_contract switch_assignments switch_copies cacheState.truncate
  "\<lambda>c. (switch_config c, switch_filter c)" fst
proof unfold_locales
  show "(switch_config (f c), switch_filter (f c)) = (switch_config c, switch_filter c)"
    if "f \<in> set (switch_assignments clk r)" for f clk r c
    using that by (auto simp: switch_assignments_def split: sum.splits prod.splits)
qed (auto simp: switch_assignments_def switch_copies_def cacheState.truncate_def)

subsection \<open>The descriptions\<close>

lemma fq_switch [simp]:
  "fqName switchInfo = ''sonic_switch_info''"
  "fqName switchFDBAgingSeconds = ''sonic_switch_fdb_aging_time_seconds''"
  "fqName switchEcmpHashSeed = ''sonic_switch_ecmp_hash_seed''"
  "fqName switchEcmpHashOffset = ''sonic_switch_ecmp_hash_offset''"
  "fqName switchLagHashSeed = ''sonic_switch_lag_hash_seed''"
  "fqName switchLagHashOffset = ''sonic_switch_lag_hash_offset''"
  "fqName switchOrderedEcmp = ''sonic_switch_ordered_ecmp''"
  "fqName switchEntriesSkipped = ''sonic_switch_entries_skipped''"
  "fqName switchEntriesTruncated = ''sonic_switch_entries_truncated''"
  "fqName switchScrapeDuration = ''sonic_switch_scrape_duration_seconds''"
  "fqName switchCollectorSuccess = ''sonic_switch_collector_success''"
  "fqName switchCacheAge = ''sonic_switch_cache_age_seconds''"
  by (simp_all add: desc_defs)

lemma labels_switch [simp]:
  "length (d_labels switchInfo) = Suc 0"
  "length (d_labels switchFDBAgingSeconds) = Suc 0"
  "length (d_labels switchEcmpHashSeed) = Suc 0"
  "length (d_labels switchEcmpHashOffset) = Suc 0"
  "length (d_labels switchLagHashSeed) = Suc 0"
  "length (d_labels switchLagHashOffset) = Suc 0"
  "length (d_labels switchOrderedEcmp) = Suc 0"
  "d_labels switchEntriesSkipped = []"
  "d_labels switchEntriesTruncated = []"
  "d_labels switchScrapeDuration = []"
  "d_labels switchCollectorSuccess = []"
  "d_labels switchCacheAge = []"
  by (simp_all add: desc_defs)

lemma switch_described [simp]:
  "switchInfo \<in> set switch_Describe"
  "switchFDBAgingSeconds \<in> set switch_Describe"
  "switchEcmpHashSeed \<in> set switch_Describe"
  "switchEcmpHashOffset \<in> set switch_Describe"
  "switchLagHashSeed \<in> set switch_Describe"
  "switchLagHashOffset \<in> set switch_Describe"
  "switchOrderedEcmp \<in> set switch_Describe"
  "switchEntriesSkipped \<in> set switch_Describe"
  "switchEntriesTruncated \<in> set switch_Describe"
  "switchScrapeDuration \<in> set switch_Describe"
  "switchCollectorSuccess \<in> set switch_Describe"
  "switchCacheAge \<in> set switch_Describe"
  by (simp_all add: switch_Describe_def)

lemma switch_names: "ownNames ''switch'' switch_Describe"
  by (simp add: ownNames_def switch_Describe_def subsystemOf_def desc_defs)

subsection \<open>Collect\<close>

definition switch_health :: "gotime \<Rightarrow> switchCollector \<Rightarrow> (desc \<times> f64) list" where
  "switch_health now c =
     [(switchEntriesSkipped, lastSkippedEntries c),
      (switchEntriesTruncated, lastTruncated c),
      (switchScrapeDuration, lastScrapeDuration c),
      (switchCollectorSuccess, lastSuccess c),
      (switchCacheAge, cacheAge now (lastRefreshTime c))]"

lemma switch_Collect_yields:
  "switch_IsEnabled c \<Longrightarrow>
    yields I (switch_Collect labelOk now c) (cachedMetrics c @ gauges (switch_filter c) (switch_health now c))"
  unfolding switch_Collect_def switch_health_def Let_def switch_IsEnabled_def
  by (simp only: not_True_eq_False if_False, rule yields_eq,
      (rule yields_bind_gauge, simp, simp)+, rule yields_gauge)
     (simp_all only: gauges_append append.simps fq_switch labels_switch)

lemma switch_health_good: "list_all (goodMetric labelOk flt switch_Describe) (gauges flt (switch_health now c))"
  by (rule gauges_good) (auto simp: switch_health_def)

subsection \<open>What a refresh exports\<close>

text \<open>In any world: only good metrics, no negative count, and a truncation flag of 0 or 1.\<close>

definition switch_accOk :: "(string \<Rightarrow> bool) \<Rightarrow> switchCollector \<Rightarrow> switchAcc \<Rightarrow> bool" where
  "switch_accOk labelOk c acc =
     (case acc of (metrics, skipped, truncated) \<Rightarrow>
        list_all (goodMetric labelOk (switch_filter c) switch_Describe) metrics \<and>
        truncated \<in> {f64_0, f64_1})"

lemma switch_entryMetrics_good:
  "list_all (goodMetric labelOk (switch_filter c) switch_Describe) ms \<Longrightarrow>
    post (switch_entryMetrics labelOk c name data ms)
      (list_all (goodMetric labelOk (switch_filter c) switch_Describe))"
  unfolding switch_entryMetrics_def Let_def
  by (auto intro!: post_rules
      post_bind_emit [where labelOk = labelOk and flt = "switch_filter c" and descs = switch_Describe]
      post_bind_emitValue [where labelOk = labelOk and flt = "switch_filter c" and descs = switch_Describe])

lemma switch_scrape_ok: "post (switch_scrapeMetrics labelOk lib c) (switch_accOk labelOk c)"
proof -
  have entry: "post (switch_entry labelOk lib cfg c keyCount i key acc)
      (\<lambda>r. case r of Continue b \<Rightarrow> switch_accOk labelOk c b | Break b \<Rightarrow> switch_accOk labelOk c b)"
    if "switch_accOk labelOk c acc" for cfg keyCount i key acc
    using that unfolding switch_entry_def
    by (auto simp: switch_accOk_def intro!: post_rules post_bind [OF switch_entryMetrics_good] split: sum.split)
  have "post (rangeLoop (switch_entry labelOk lib cfg c keyCount) 0 keys ([], 0, f64_0)) (switch_accOk labelOk c)"
    for cfg keyCount keys
    by (rule post_rangeLoop [where I = "\<lambda>_. switch_accOk labelOk c"])
       (simp add: switch_accOk_def, erule entry, assumption)
  then show ?thesis
    unfolding switch_scrapeMetrics_def Let_def by (intro post_rules)
qed

subsection \<open>The specification of a refresh\<close>

definition switch_valid :: "(string \<Rightarrow> fields) \<Rightarrow> string \<Rightarrow> bool" where
  "switch_valid db key = (hasPrefix key ''SWITCH_TABLE:'' \<and> key \<noteq> ''SWITCH_TABLE:'' \<and> db key \<noteq> [])"

definition switch_metricsOf :: "switchCollector \<Rightarrow> (string \<Rightarrow> fields) \<Rightarrow> string \<Rightarrow> metric list" where
  "switch_metricsOf c db key =
     (let switchData = db key;
          gauge = (\<lambda>d v. constMetric d GaugeValue v [trimPrefix key ''SWITCH_TABLE:'']);
          on = Enabled (switch_filter c)
      in (if on ''sonic_switch_info'' then [gauge switchInfo f64_1] else []) @
      optMetric (parseCounterLike (field switchData ''fdb_aging_time'')) (on ''sonic_switch_fdb_aging_time_seconds'') (\<lambda>v. gauge switchFDBAgingSeconds v) @
      optMetric (parseCounterLike (field switchData ''ecmp_hash_seed'')) (on ''sonic_switch_ecmp_hash_seed'') (\<lambda>v. gauge switchEcmpHashSeed v) @
      optMetric (parseCounterLike (field switchData ''ecmp_hash_offset'')) (on ''sonic_switch_ecmp_hash_offset'') (\<lambda>v. gauge switchEcmpHashOffset v) @
      optMetric (parseCounterLike (field switchData ''lag_hash_seed'')) (on ''sonic_switch_lag_hash_seed'') (\<lambda>v. gauge switchLagHashSeed v) @
      optMetric (parseCounterLike (field switchData ''lag_hash_offset'')) (on ''sonic_switch_lag_hash_offset'') (\<lambda>v. gauge switchLagHashOffset v) @
      optMetric (parseBoolish (field switchData ''ordered_ecmp'')) (on ''sonic_switch_ordered_ecmp'') (\<lambda>v. gauge switchOrderedEcmp v))"

definition switch_spec ::
  "switchCollector \<Rightarrow> (int \<Rightarrow> string \<Rightarrow> fields) \<Rightarrow> (int \<Rightarrow> string \<Rightarrow> string list) \<Rightarrow> switchAcc" where
  "switch_spec c db scan =
     (let keys = sort (scan 0 ''SWITCH_TABLE:*'');
          n = nat (switch_maxEntries (switch_config c));
          exported = filter (switch_valid (db 0)) (take n keys)
      in (concat (map (switch_metricsOf c (db 0)) exported),
          int (length keys) - int (length exported),
          if n < length keys then f64_1 else f64_0))"

lemma switch_entryMetrics_yields:
  "yields I (switch_entryMetrics anyLabel c (trimPrefix key ''SWITCH_TABLE:'') (db key) ms)
     (ms @ switch_metricsOf c db key)"
  unfolding switch_entryMetrics_def switch_metricsOf_def Let_def
  by (rule yields_eq, rule yields_bind_emit, simp,
      (rule yields_bind_emitValue, simp)+, rule yields_return) simp

lemma switch_entry_yields:
  assumes "serves lib cfg db scan"
  shows "yields (handlesOk cfg) (switch_entry anyLabel lib cfg c keyCount i key (ms, sk, t))
    (if switch_maxEntries (switch_config c) \<le> int i then Break (ms, sk + (int keyCount - int i), f64_1)
     else Continue (if switch_valid (db 0) key then (ms @ switch_metricsOf c (db 0) key, sk, t)
                    else (ms, sk + 1, t)))"
proof -
  have read: "yields (handlesOk cfg) (io_wrap msg args (HgetAllFromDb lib cfg ''APPL_DB'' k)) (db 0 k)" for msg args k
    by (rule yields_wrap [OF yields_HgetAll [OF assms]]) (simp add: RedisDbId_def)
  show ?thesis
  proof (cases rule: parseKeySuffix_cases [of key "''SWITCH_TABLE:''"])
    case suffix
    then show ?thesis
      by (auto simp: switch_entry_def switch_valid_def
          intro!: yields_return yields_bind [OF read] yields_bind [OF switch_entryMetrics_yields])
  next
    case (error e)
    then show ?thesis by (auto simp: switch_entry_def switch_valid_def yields_return)
  qed
qed

lemma switch_scrape_spec:
  assumes "serves lib cfg db scan"
  shows "fst (switch_scrapeMetrics anyLabel lib c w) = Ok (switch_spec c db scan)"
proof -
  have keys: "yields (handlesOk cfg) (io_wrap msg args (ScanKeysFromDb lib cfg ''APPL_DB'' p n)) (scan 0 p)" for msg args p n
    by (rule yields_wrap [OF yields_ScanKeys [OF assms]]) (simp add: RedisDbId_def)
  show ?thesis
    unfolding switch_scrapeMetrics_def Let_def
    by (rule withRedis_yields [OF assms], rule yields_eq, rule yields_bind [OF keys],
        rule bounded_loop_yields [OF switch_entry_yields [OF assms],
          where i = 0 and room = "nat (switch_maxEntries (switch_config c))"])
       (simp_all add: switch_spec_def Let_def fold_append_concat)
qed

subsection \<open>Everything sent is good\<close>

lemma switch_Collect_good:
  "list_all (goodMetric labelOk (switch_filter c) switch_Describe) (cachedMetrics c) \<Longrightarrow>
    post (switch_Collect labelOk now c) (list_all (goodMetric labelOk (switch_filter c) switch_Describe))"
proof (cases "switch_IsEnabled c")
  case True
  assume "list_all (goodMetric labelOk (switch_filter c) switch_Describe) (cachedMetrics c)"
  then show ?thesis
    by (intro yields_post [OF switch_Collect_yields [OF True]]) (simp add: switch_health_good)
next
  case False
  then show ?thesis by (simp add: switch_Collect_def switch_IsEnabled_def post_return)
qed

interpretation switch_source: metric_source switch_assignments switch_copies cacheState.truncate
  "\<lambda>c. (switch_config c, switch_filter c)" fst "switch_scrapeMetrics labelOk lib" "switch_Collect labelOk"
  "\<lambda>f. list_all (goodMetric labelOk (snd f) switch_Describe)"
  for labelOk lib
proof unfold_locales
  show "post (switch_scrapeMetrics labelOk lib c)
      (\<lambda>r. list_all (goodMetric labelOk (snd (switch_config c, switch_filter c)) switch_Describe) (fst r))" for c
    by (rule post_mono [OF switch_scrape_ok]) (auto simp: switch_accOk_def)
qed (simp_all add: switch_Collect_good cacheState.truncate_def)

subsection \<open>Properties\<close>

lemma switch_metricsOf_series: "distinct (map series (switch_metricsOf c db key))"
  unfolding switch_metricsOf_def Let_def
  by (simp add: distinct_optMetric) (auto simp: in_optMetric)

lemma switch_metricsOf_label: "m \<in> set (switch_metricsOf c db key) \<Longrightarrow> m_labels m = [trimPrefix key ''SWITCH_TABLE:'']"
  by (auto simp: switch_metricsOf_def Let_def in_optMetric split: if_splits)

lemma switch_spec_series:
  assumes "distinct (scan 0 ''SWITCH_TABLE:*'')"
  shows "distinct (map series (fst (switch_spec c db scan)))"
proof -
  let ?keys = "filter (switch_valid (db 0)) (take (nat (switch_maxEntries (switch_config c))) (sort (scan 0 ''SWITCH_TABLE:*'')))"
  have "distinct (concat (map (\<lambda>k. map series (switch_metricsOf c (db 0) k)) ?keys))"
  proof (rule distinct_concat_tagged [where tag = "\<lambda>s. ''SWITCH_TABLE:'' @ hd (snd s)"])
    show "distinct ?keys"
      using assms by simp
  next
    fix k s
    assume "k \<in> set ?keys" and s: "s \<in> set (map series (switch_metricsOf c (db 0) k))"
    then have "k = ''SWITCH_TABLE:'' @ trimPrefix k ''SWITCH_TABLE:''"
      by (intro hasPrefix_trim) (simp add: switch_valid_def)
    with s show "''SWITCH_TABLE:'' @ hd (snd s) = k"
      by (auto simp: series_def dest: switch_metricsOf_label)
  qed (rule switch_metricsOf_series)
  then show ?thesis
    by (simp add: switch_spec_def Let_def map_concat o_def)
qed

definition switch_demoDb :: "int \<Rightarrow> string \<Rightarrow> fields" where
  "switch_demoDb n key = [(''fdb_aging_time'', ''600''), (''ordered_ecmp'', ''false'')]"

definition switch_demo :: switchCollector where
  "switch_demo = switch_new (\<lambda>_. None) (NewMetricFilter (\<lambda>_. None))"

text \<open>
  C16. On a server that holds still, a refresh returns what the specification says: for each of
  the first \<open>maxEntries\<close> keys with a name and data its metrics, a field that does not parse giving
  none; as skipped all other keys; and the truncation flag exactly when there are more keys.
\<close>

theorem switch_refresh_refines_spec:
  assumes "serves lib cfg db scan"
  shows "fst (switch_scrapeMetrics anyLabel lib c w) = Ok (switch_spec c db scan)"
  by (rule switch_scrape_spec [OF assms])

theorem switch_refresh_refines_spec_witness:
  "fst (switch_scrapeMetrics anyLabel (staticLib localRedis switch_demoDb (\<lambda>_ _. [''SWITCH_TABLE:switch''])) switch_demo
     \<lparr>server = (), databases = []\<rparr>) = Ok (switch_spec switch_demo switch_demoDb (\<lambda>_ _. [''SWITCH_TABLE:switch'']))"
  by (rule switch_refresh_refines_spec [OF staticLib_serves])

end
