(* ===== verification/Thermal.thy ===== *)
theory Thermal
  imports Snapshot
begin

text \<open>
  \<^verbatim>\<open>thermal_collector.go\<close>: the temperatures in \<^verbatim>\<open>ASIC_TEMPERATURE_INFO\<close> and
  \<^verbatim>\<open>TEMPERATURE_SFP_MAX\<close> of \<^verbatim>\<open>STATE_DB\<close>.
\<close>

record thermalCollectorConfig =
  thermal_enabled :: bool
  thermal_refreshInterval :: duration
  thermal_timeout :: duration
  thermal_redisScanCount :: int

record thermalCollector = skipState +
  thermal_config :: thermalCollectorConfig
  thermal_filter :: metricFilter

subsection \<open>Construction\<close>

definition thermalAsicTemperature :: desc where [desc_defs]:
  "thermalAsicTemperature = NewDesc ''sonic'' ''thermal'' ''asic_temperature_celsius''
     ''ASIC per-sensor temperature in celsius'' [''sensor'']"

definition thermalAsicAverageTemperature :: desc where [desc_defs]:
  "thermalAsicAverageTemperature = NewDesc ''sonic'' ''thermal'' ''asic_average_temperature_celsius''
     ''ASIC average temperature in celsius'' []"

definition thermalAsicMaximumTemperature :: desc where [desc_defs]:
  "thermalAsicMaximumTemperature = NewDesc ''sonic'' ''thermal'' ''asic_maximum_temperature_celsius''
     ''ASIC maximum temperature in celsius'' []"

definition thermalSfpMaximumTemperature :: desc where [desc_defs]:
  "thermalSfpMaximumTemperature = NewDesc ''sonic'' ''thermal'' ''sfp_maximum_temperature_celsius''
     ''Maximum transceiver temperature across all optics'' []"

definition thermalEntriesSkipped :: desc where [desc_defs]:
  "thermalEntriesSkipped = NewDesc ''sonic'' ''thermal'' ''entries_skipped''
     ''Number of thermal entries skipped during latest refresh'' []"

definition thermalScrapeDuration :: desc where [desc_defs]:
  "thermalScrapeDuration = NewDesc ''sonic'' ''thermal'' ''scrape_duration_seconds''
     ''Time it took for exporter to refresh thermal metrics'' []"

definition thermalCollectorSuccess :: desc where [desc_defs]:
  "thermalCollectorSuccess = NewDesc ''sonic'' ''thermal'' ''collector_success''
     ''Whether thermal collector succeeded'' []"

definition thermalCacheAge :: desc where [desc_defs]:
  "thermalCacheAge = NewDesc ''sonic'' ''thermal'' ''cache_age_seconds''
     ''Age of latest thermal cache refresh'' []"

definition loadThermalCollectorConfig :: "env \<Rightarrow> thermalCollectorConfig" where
  "loadThermalCollectorConfig env =
     \<lparr>thermal_enabled = parseBoolEnv env ''THERMAL_ENABLED'' True,
      thermal_refreshInterval = parseDurationEnv env ''THERMAL_REFRESH_INTERVAL'' (60 * second),
      thermal_timeout = parseDurationEnv env ''THERMAL_TIMEOUT'' (2 * second),
      thermal_redisScanCount = 32\<rparr>"

definition thermal_new :: "env \<Rightarrow> metricFilter \<Rightarrow> thermalCollector" where
  "thermal_new env flt =
     \<lparr>cachedMetrics = [], lastSuccess = f64_0, lastScrapeDuration = f64_0, lastRefreshTime = 0,
      lastSkippedEntries = f64_0,
      thermal_config = loadThermalCollectorConfig env, thermal_filter = flt\<rparr>"

definition thermal_IsEnabled :: "thermalCollector \<Rightarrow> bool" where
  "thermal_IsEnabled c = thermal_enabled (thermal_config c)"

definition thermal_Describe :: "desc list" where
  "thermal_Describe =
     [thermalAsicTemperature,
      thermalAsicAverageTemperature,
      thermalAsicMaximumTemperature,
      thermalSfpMaximumTemperature,
      thermalEntriesSkipped,
      thermalScrapeDuration,
      thermalCollectorSuccess,
      thermalCacheAge]"

subsection \<open>Scraping Redis\<close>

type_synonym thermalAcc = "metric list \<times> int"

text \<open>One turn of the loop over the sorted fields of \<^verbatim>\<open>ASIC_TEMPERATURE_INFO\<close>.\<close>

definition thermal_field ::
  "(string \<Rightarrow> bool) \<Rightarrow> thermalCollector \<Rightarrow> fields \<Rightarrow> nat \<Rightarrow> string \<Rightarrow> thermalAcc \<Rightarrow> ('s, thermalAcc loop) rio" where
  "thermal_field labelOk c asicTemperatureData index fld acc =
     (case acc of (metrics, skippedEntries) \<Rightarrow>
        let on = Enabled (thermal_filter c);
            store = (\<lambda>guard mk. io_bind (emit guard mk metrics) (\<lambda>metrics.
                       io_return (Continue (metrics, skippedEntries))))
        in case parseCounterLike (field asicTemperatureData fld) of
          None \<Rightarrow> io_return (Continue (metrics, skippedEntries + 1))
        | Some parsedValue \<Rightarrow>
            if hasPrefix fld ''temperature_''
            then store (on ''sonic_thermal_asic_temperature_celsius'')
                   (MustNewConstMetric labelOk thermalAsicTemperature GaugeValue parsedValue [fld])
            else if fld = ''average_temperature''
            then store (on ''sonic_thermal_asic_average_temperature_celsius'')
                   (MustNewConstMetric labelOk thermalAsicAverageTemperature GaugeValue parsedValue [])
            else if fld = ''maximum_temperature''
            then store (on ''sonic_thermal_asic_maximum_temperature_celsius'')
                   (MustNewConstMetric labelOk thermalAsicMaximumTemperature GaugeValue parsedValue [])
            else io_return (Continue (metrics, skippedEntries)))"

definition thermal_scrapeMetrics ::
  "(string \<Rightarrow> bool) \<Rightarrow> 's redisLib \<Rightarrow> thermalCollector \<Rightarrow> ('s, thermalAcc) rio" where
  "thermal_scrapeMetrics labelOk lib c =
     withRedis lib (\<lambda>cfg.
       io_bind (io_wrap ''failed to read ASIC_TEMPERATURE_INFO: %w'' []
                  (HgetAllFromDb lib cfg ''STATE_DB'' ''ASIC_TEMPERATURE_INFO'')) (\<lambda>asicTemperatureData.
       let asicFields = sort (mapKeys asicTemperatureData) in
       io_bind (rangeLoop (thermal_field labelOk c asicTemperatureData) 0 asicFields ([], 0)) (\<lambda>acc.
       case acc of (metrics, skippedEntries) \<Rightarrow>
       io_bind (io_wrap ''failed to read TEMPERATURE_SFP_MAX: %w'' []
                  (HgetAllFromDb lib cfg ''STATE_DB'' ''TEMPERATURE_SFP_MAX'')) (\<lambda>sfpMaxData.
       io_bind (emitValue (parseCounterLike (field sfpMaxData ''maximum_temperature''))
                  (Enabled (thermal_filter c) ''sonic_thermal_sfp_maximum_temperature_celsius'')
                  (\<lambda>v. MustNewConstMetric labelOk thermalSfpMaximumTemperature GaugeValue v [])
                  metrics) (\<lambda>metrics.
       io_return (metrics, skippedEntries))))))"

subsection \<open>Refreshing and collecting\<close>

definition thermal_assignments ::
  "refreshClock \<Rightarrow> goerr + thermalAcc \<Rightarrow> (thermalCollector \<Rightarrow> thermalCollector) list" where
  "thermal_assignments clk r =
     (\<lambda>c. c\<lparr>lastScrapeDuration := scrapeSeconds clk\<rparr>) #
     (case r of
        Inl err \<Rightarrow> [\<lambda>c. c\<lparr>lastSuccess := f64_0\<rparr>]
      | Inr (metrics, skippedEntries) \<Rightarrow>
          [\<lambda>c. c\<lparr>cachedMetrics := metrics\<rparr>,
           \<lambda>c. c\<lparr>lastSkippedEntries := f64_of_int skippedEntries\<rparr>,
           \<lambda>c. c\<lparr>lastSuccess := f64_1\<rparr>,
           \<lambda>c. c\<lparr>lastRefreshTime := t_stored clk\<rparr>])"

definition thermal_refreshMetrics ::
  "(string \<Rightarrow> bool) \<Rightarrow> 's redisLib \<Rightarrow> refreshClock \<Rightarrow> thermalCollector \<Rightarrow> ('s, thermalCollector) rio" where
  "thermal_refreshMetrics labelOk lib clk c =
     refreshWith (thermal_scrapeMetrics labelOk lib c) (thermal_assignments clk) c"

definition thermal_refreshLoop ::
  "(string \<Rightarrow> bool) \<Rightarrow> 's redisLib \<Rightarrow> refreshClock list \<Rightarrow> thermalCollector \<Rightarrow> ('s, thermalCollector) rio" where
  "thermal_refreshLoop labelOk lib ticks c =
     tickerLoop (thermal_refreshInterval (thermal_config c)) (thermal_refreshMetrics labelOk lib) ticks c"

definition NewThermalCollector ::
  "(string \<Rightarrow> bool) \<Rightarrow> 's redisLib \<Rightarrow> env \<Rightarrow> metricFilter \<Rightarrow> refreshClock \<Rightarrow> refreshClock list
     \<Rightarrow> ('s, thermalCollector) rio" where
  "NewThermalCollector labelOk lib env flt clk ticks =
     (let c = thermal_new env flt
      in if \<not> thermal_enabled (thermal_config c) then io_return c
         else io_bind (thermal_refreshMetrics labelOk lib clk c) (thermal_refreshLoop labelOk lib ticks))"

text \<open>The copies \<^verbatim>\<open>Collect\<close> makes under the read lock, in its order.\<close>

definition thermal_copies :: "(thermalCollector \<Rightarrow> thermalCollector \<Rightarrow> thermalCollector) list" where
  "thermal_copies =
     [\<lambda>c l. l\<lparr>cachedMetrics := cachedMetrics c\<rparr>,
      \<lambda>c l. l\<lparr>lastScrapeDuration := lastScrapeDuration c\<rparr>,
      \<lambda>c l. l\<lparr>lastSuccess := lastSuccess c\<rparr>,
      \<lambda>c l. l\<lparr>lastSkippedEntries := lastSkippedEntries c\<rparr>,
      \<lambda>c l. l\<lparr>lastRefreshTime := lastRefreshTime c\<rparr>]"

definition thermal_Collect :: "(string \<Rightarrow> bool) \<Rightarrow> gotime \<Rightarrow> thermalCollector \<Rightarrow> ('w, metric list) io" where
  "thermal_Collect labelOk now c =
     (if \<not> thermal_enabled (thermal_config c) then io_return []
      else let gauge = (\<lambda>d v. MustNewConstMetric labelOk d GaugeValue v []);
               on = Enabled (thermal_filter c)
        in io_bind (emit (on ''sonic_thermal_entries_skipped'') (gauge thermalEntriesSkipped (lastSkippedEntries c)) (cachedMetrics c)) (\<lambda>ch.
           io_bind (emit (on ''sonic_thermal_scrape_duration_seconds'') (gauge thermalScrapeDuration (lastScrapeDuration c)) ch) (\<lambda>ch.
           io_bind (emit (on ''sonic_thermal_collector_success'') (gauge thermalCollectorSuccess (lastSuccess c)) ch) (\<lambda>ch.
           emit (on ''sonic_thermal_cache_age_seconds'') (gauge thermalCacheAge (cacheAge now (lastRefreshTime c))) ch))))"

interpretation thermal: refresh_contract thermal_assignments thermal_copies cacheState.truncate
  "\<lambda>c. (thermal_config c, thermal_filter c)" fst
proof unfold_locales
  show "(thermal_config (f c), thermal_filter (f c)) = (thermal_config c, thermal_filter c)"
    if "f \<in> set (thermal_assignments clk r)" for f clk r c
    using that by (auto simp: thermal_assignments_def split: sum.splits prod.splits)
qed (auto simp: thermal_assignments_def thermal_copies_def cacheState.truncate_def)

subsection \<open>The descriptions\<close>

lemma fq_thermal [simp]:
  "fqName thermalAsicTemperature = ''sonic_thermal_asic_temperature_celsius''"
  "fqName thermalAsicAverageTemperature = ''sonic_thermal_asic_average_temperature_celsius''"
  "fqName thermalAsicMaximumTemperature = ''sonic_thermal_asic_maximum_temperature_celsius''"
  "fqName thermalSfpMaximumTemperature = ''sonic_thermal_sfp_maximum_temperature_celsius''"
  "fqName thermalEntriesSkipped = ''sonic_thermal_entries_skipped''"
  "fqName thermalScrapeDuration = ''sonic_thermal_scrape_duration_seconds''"
  "fqName thermalCollectorSuccess = ''sonic_thermal_collector_success''"
  "fqName thermalCacheAge = ''sonic_thermal_cache_age_seconds''"
  by (simp_all add: desc_defs)

lemma labels_thermal [simp]:
  "length (d_labels thermalAsicTemperature) = Suc 0"
  "d_labels thermalAsicAverageTemperature = []"
  "d_labels thermalAsicMaximumTemperature = []"
  "d_labels thermalSfpMaximumTemperature = []"
  "d_labels thermalEntriesSkipped = []"
  "d_labels thermalScrapeDuration = []"
  "d_labels thermalCollectorSuccess = []"
  "d_labels thermalCacheAge = []"
  by (simp_all add: desc_defs)

lemma thermal_described [simp]:
  "thermalAsicTemperature \<in> set thermal_Describe"
  "thermalAsicAverageTemperature \<in> set thermal_Describe"
  "thermalAsicMaximumTemperature \<in> set thermal_Describe"
  "thermalSfpMaximumTemperature \<in> set thermal_Describe"
  "thermalEntriesSkipped \<in> set thermal_Describe"
  "thermalScrapeDuration \<in> set thermal_Describe"
  "thermalCollectorSuccess \<in> set thermal_Describe"
  "thermalCacheAge \<in> set thermal_Describe"
  by (simp_all add: thermal_Describe_def)

lemma thermal_names: "ownNames ''thermal'' thermal_Describe"
  by (simp add: ownNames_def thermal_Describe_def subsystemOf_def desc_defs)

subsection \<open>Collect\<close>

definition thermal_health :: "gotime \<Rightarrow> thermalCollector \<Rightarrow> (desc \<times> f64) list" where
  "thermal_health now c =
     [(thermalEntriesSkipped, lastSkippedEntries c),
      (thermalScrapeDuration, lastScrapeDuration c),
      (thermalCollectorSuccess, lastSuccess c),
      (thermalCacheAge, cacheAge now (lastRefreshTime c))]"

lemma thermal_Collect_yields:
  "thermal_IsEnabled c \<Longrightarrow>
    yields I (thermal_Collect labelOk now c) (cachedMetrics c @ gauges (thermal_filter c) (thermal_health now c))"
  unfolding thermal_Collect_def thermal_health_def Let_def thermal_IsEnabled_def
  by (simp only: not_True_eq_False if_False, rule yields_eq,
      (rule yields_bind_gauge, simp, simp)+, rule yields_gauge)
     (simp_all only: gauges_append append.simps fq_thermal labels_thermal)

lemma thermal_health_good: "list_all (goodMetric labelOk flt thermal_Describe) (gauges flt (thermal_health now c))"
  by (rule gauges_good) (auto simp: thermal_health_def)

subsection \<open>What a refresh exports\<close>

definition thermal_accOk :: "(string \<Rightarrow> bool) \<Rightarrow> thermalCollector \<Rightarrow> thermalAcc \<Rightarrow> bool" where
  "thermal_accOk labelOk c acc =
     (case acc of (metrics, skipped) \<Rightarrow>
        list_all (goodMetric labelOk (thermal_filter c) thermal_Describe) metrics \<and> 0 \<le> skipped)"

lemma thermal_scrape_ok: "post (thermal_scrapeMetrics labelOk lib c) (thermal_accOk labelOk c)"
proof -
  note emits = post_bind_emit [where labelOk = labelOk and flt = "thermal_filter c" and descs = thermal_Describe]
    post_bind_emitValue [where labelOk = labelOk and flt = "thermal_filter c" and descs = thermal_Describe]
  have fld: "post (thermal_field labelOk c data i f acc)
      (\<lambda>r. case r of Continue b \<Rightarrow> thermal_accOk labelOk c b | Break b \<Rightarrow> thermal_accOk labelOk c b)"
    if "thermal_accOk labelOk c acc" for data i f acc
    using that unfolding thermal_field_def Let_def
    by (auto simp: thermal_accOk_def intro!: post_rules emits split: option.split)
  have loop: "post (rangeLoop (thermal_field labelOk c data) 0 fs ([], 0)) (thermal_accOk labelOk c)" for data fs
    by (rule post_rangeLoop [where I = "\<lambda>_. thermal_accOk labelOk c"])
       (simp add: thermal_accOk_def, erule fld, assumption)
  show ?thesis
    unfolding thermal_scrapeMetrics_def Let_def
    by (intro post_rules, rule post_bind, rule loop)
       (auto simp: thermal_accOk_def intro!: post_rules emits)
qed

subsection \<open>The specification of a refresh\<close>

definition thermal_fieldMetrics :: "thermalCollector \<Rightarrow> fields \<Rightarrow> string \<Rightarrow> metric list" where
  "thermal_fieldMetrics c data f =
     (let value = parseCounterLike (field data f); on = Enabled (thermal_filter c)
      in if hasPrefix f ''temperature_''
         then optMetric value (on ''sonic_thermal_asic_temperature_celsius'')
                (\<lambda>v. constMetric thermalAsicTemperature GaugeValue v [f])
         else if f = ''average_temperature''
         then optMetric value (on ''sonic_thermal_asic_average_temperature_celsius'')
                (\<lambda>v. constMetric thermalAsicAverageTemperature GaugeValue v [])
         else if f = ''maximum_temperature''
         then optMetric value (on ''sonic_thermal_asic_maximum_temperature_celsius'')
                (\<lambda>v. constMetric thermalAsicMaximumTemperature GaugeValue v [])
         else [])"

definition thermal_spec :: "thermalCollector \<Rightarrow> (int \<Rightarrow> string \<Rightarrow> fields) \<Rightarrow> thermalAcc" where
  "thermal_spec c db =
     (let data = db 6 ''ASIC_TEMPERATURE_INFO''; fs = sort (mapKeys data)
      in (concat (map (thermal_fieldMetrics c data) fs) @
          optMetric (parseCounterLike (field (db 6 ''TEMPERATURE_SFP_MAX'') ''maximum_temperature''))
            (Enabled (thermal_filter c) ''sonic_thermal_sfp_maximum_temperature_celsius'')
            (\<lambda>v. constMetric thermalSfpMaximumTemperature GaugeValue v []),
          int (length (filter (\<lambda>f. parseCounterLike (field data f) = None) fs))))"

lemma thermal_field_yields:
  "yields I (thermal_field anyLabel c data i f (ms, sk))
     (Continue (ms @ thermal_fieldMetrics c data f,
        if parseCounterLike (field data f) = None then sk + 1 else sk))"
  unfolding thermal_field_def thermal_fieldMetrics_def Let_def
  by (cases "parseCounterLike (field data f)")
     (auto simp: optMetric_def intro!: yields_return yields_bind_emit
        intro: yields_eq [OF yields_bind_emit])

lemma thermal_loop_yields:
  "yields I (rangeLoop (thermal_field anyLabel c data) i fs (ms, sk))
     (ms @ concat (map (thermal_fieldMetrics c data) fs),
      sk + int (length (filter (\<lambda>f. parseCounterLike (field data f) = None) fs)))"
proof (induction fs arbitrary: i ms sk)
  case Nil
  then show ?case by (simp add: yields_return)
next
  case (Cons f fs)
  show ?case
    by (rule yields_loop_Continue, rule thermal_field_yields, rule yields_eq, rule Cons.IH) simp
qed

lemma thermal_scrape_spec:
  assumes "serves lib cfg db scan"
  shows "fst (thermal_scrapeMetrics anyLabel lib c w) = Ok (thermal_spec c db)"
proof -
  have hget: "yields (handlesOk cfg) (io_wrap msg args (HgetAllFromDb lib cfg ''STATE_DB'' k)) (db 6 k)" for msg args k
    by (rule yields_wrap [OF yields_HgetAll [OF assms]]) (simp add: RedisDbId_def)
  show ?thesis
    unfolding thermal_scrapeMetrics_def Let_def
    by (rule withRedis_yields [OF assms], rule yields_eq, rule yields_bind [OF hget],
        rule yields_bind [OF thermal_loop_yields], simp only: prod.case, rule yields_bind [OF hget],
        rule yields_bind_emitValue, simp, rule yields_return)
       (simp add: thermal_spec_def Let_def)
qed

subsection \<open>Everything sent is good\<close>

lemma thermal_Collect_good:
  "list_all (goodMetric labelOk (thermal_filter c) thermal_Describe) (cachedMetrics c) \<Longrightarrow>
    post (thermal_Collect labelOk now c) (list_all (goodMetric labelOk (thermal_filter c) thermal_Describe))"
proof (cases "thermal_IsEnabled c")
  case True
  assume "list_all (goodMetric labelOk (thermal_filter c) thermal_Describe) (cachedMetrics c)"
  then show ?thesis
    by (intro yields_post [OF thermal_Collect_yields [OF True]]) (simp add: thermal_health_good)
next
  case False
  then show ?thesis by (simp add: thermal_Collect_def thermal_IsEnabled_def post_return)
qed

interpretation thermal_source: metric_source thermal_assignments thermal_copies cacheState.truncate
  "\<lambda>c. (thermal_config c, thermal_filter c)" fst "thermal_scrapeMetrics labelOk lib" "thermal_Collect labelOk"
  "\<lambda>f. list_all (goodMetric labelOk (snd f) thermal_Describe)"
  for labelOk lib
proof unfold_locales
  show "post (thermal_scrapeMetrics labelOk lib c)
      (\<lambda>r. list_all (goodMetric labelOk (snd (thermal_config c, thermal_filter c)) thermal_Describe) (fst r))" for c
    by (rule post_mono [OF thermal_scrape_ok]) (auto simp: thermal_accOk_def)
qed (simp_all add: thermal_Collect_good cacheState.truncate_def)

subsection \<open>Properties\<close>

definition thermal_demoDb :: "int \<Rightarrow> string \<Rightarrow> fields" where
  "thermal_demoDb n key =
     (if key = ''ASIC_TEMPERATURE_INFO'' then [(''temperature_0'', ''41''), (''average_temperature'', ''N/A'')]
      else [(''maximum_temperature'', ''55'')])"

definition thermal_demo :: thermalCollector where
  "thermal_demo = thermal_new (\<lambda>_. None) (NewMetricFilter (\<lambda>_. None))"

text \<open>
  C17. On a server that holds still, a refresh returns what the specification says: the readings
  of the ASIC hash that parse, in field order, each on the gauge of its field, then the maximum of
  the transceivers; as skipped it counts exactly the ASIC fields that do not parse.
\<close>

theorem thermal_refresh_refines_spec:
  assumes "serves lib cfg db scan"
  shows "fst (thermal_scrapeMetrics anyLabel lib c w) = Ok (thermal_spec c db)"
  by (rule thermal_scrape_spec [OF assms])

theorem thermal_refresh_refines_spec_witness:
  "fst (thermal_scrapeMetrics anyLabel (staticLib localRedis thermal_demoDb (\<lambda>_ _. [])) thermal_demo
     \<lparr>server = (), databases = []\<rparr>) = Ok (thermal_spec thermal_demo thermal_demoDb)"
  by (rule thermal_refresh_refines_spec [OF staticLib_serves])

text \<open>A hash that has no field twice gives no time series twice.\<close>

lemma thermal_spec_series:
  assumes "distinct (map fst (db 6 ''ASIC_TEMPERATURE_INFO''))"
  shows "distinct (map series (fst (thermal_spec c db)))"
proof -
  let ?data = "db 6 ''ASIC_TEMPERATURE_INFO''"
  let ?fs = "sort (mapKeys ?data)"
  have field_series: "s \<in> {(''sonic_thermal_asic_temperature_celsius'', [f]), (''sonic_thermal_asic_average_temperature_celsius'', []),
      (''sonic_thermal_asic_maximum_temperature_celsius'', [])}"
    and field_tag: "(if snd s \<noteq> [] then hd (snd s) else if fst s = ''sonic_thermal_asic_average_temperature_celsius''
        then ''average_temperature'' else ''maximum_temperature'') = f"
    if "s \<in> set (map series (thermal_fieldMetrics c ?data f))" for s f
    using that by (auto simp: thermal_fieldMetrics_def Let_def optMetric_def split: if_splits option.splits)
  have "distinct (concat (map (\<lambda>f. map series (thermal_fieldMetrics c ?data f)) ?fs))"
  proof (rule distinct_concat_tagged [where tag = "\<lambda>s. if snd s \<noteq> [] then hd (snd s)
        else if fst s = ''sonic_thermal_asic_average_temperature_celsius'' then ''average_temperature'' else ''maximum_temperature''"])
    show "distinct ?fs"
      using assms by (simp add: mapKeys_def)
    show "distinct (map series (thermal_fieldMetrics c ?data f))" for f
      by (simp add: thermal_fieldMetrics_def Let_def optMetric_def split: option.split)
  qed (rule field_tag)
  moreover have "(''sonic_thermal_sfp_maximum_temperature_celsius'', []) \<notin>
      set (concat (map (\<lambda>f. map series (thermal_fieldMetrics c ?data f)) ?fs))"
    using field_series by fastforce
  ultimately show ?thesis
    by (simp add: thermal_spec_def Let_def map_concat o_def optMetric_def split: option.split)
qed

end
