(* ===== verification/Routing.thy ===== *)
theory Routing
  imports Counters
begin

text \<open>
  \<^verbatim>\<open>routing_collector.go\<close>: how many neighbours and routes \<^verbatim>\<open>APPL_DB\<close> holds, by interface and
  address family, and by address family and protocol.
\<close>

record routingCollectorConfig =
  routing_enabled :: bool
  routing_refreshInterval :: duration
  routing_timeout :: duration
  routing_maxNeighbors :: int
  routing_maxRoutes :: int
  routing_redisScanCount :: int

record routingCollector = truncState +
  routing_config :: routingCollectorConfig
  routing_filter :: metricFilter

subsection \<open>Construction\<close>

definition routingNeighborEntries :: desc where [desc_defs]:
  "routingNeighborEntries = NewDesc ''sonic'' ''routing'' ''neighbor_entries''
     ''Number of neighbor entries by interface and address family'' [''interface'', ''family'']"

definition routingRouteEntries :: desc where [desc_defs]:
  "routingRouteEntries = NewDesc ''sonic'' ''routing'' ''route_entries''
     ''Number of route entries by address family and protocol'' [''family'', ''protocol'']"

definition routingEntriesSkipped :: desc where [desc_defs]:
  "routingEntriesSkipped = NewDesc ''sonic'' ''routing'' ''entries_skipped''
     ''Number of routing entries skipped during latest refresh'' []"

definition routingEntriesTruncated :: desc where [desc_defs]:
  "routingEntriesTruncated = NewDesc ''sonic'' ''routing'' ''entries_truncated''
     ''Whether routing collection hit entry limits (1=yes, 0=no)'' []"

definition routingScrapeDuration :: desc where [desc_defs]:
  "routingScrapeDuration = NewDesc ''sonic'' ''routing'' ''scrape_duration_seconds''
     ''Time it took for exporter to refresh routing metrics'' []"

definition routingCollectorSuccess :: desc where [desc_defs]:
  "routingCollectorSuccess = NewDesc ''sonic'' ''routing'' ''collector_success''
     ''Whether routing collector succeeded'' []"

definition routingCacheAge :: desc where [desc_defs]:
  "routingCacheAge = NewDesc ''sonic'' ''routing'' ''cache_age_seconds''
     ''Age of latest routing cache refresh'' []"

definition loadRoutingCollectorConfig :: "env \<Rightarrow> routingCollectorConfig" where
  "loadRoutingCollectorConfig env =
     \<lparr>routing_enabled = parseBoolEnv env ''ROUTING_ENABLED'' False,
      routing_refreshInterval = parseDurationEnv env ''ROUTING_REFRESH_INTERVAL'' (60 * second),
      routing_timeout = parseDurationEnv env ''ROUTING_TIMEOUT'' (2 * second),
      routing_maxNeighbors = parseIntEnv env ''ROUTING_MAX_NEIGHBORS'' 50000,
      routing_maxRoutes = parseIntEnv env ''ROUTING_MAX_ROUTES'' 200000,
      routing_redisScanCount = 256\<rparr>"

definition routing_new :: "env \<Rightarrow> metricFilter \<Rightarrow> routingCollector" where
  "routing_new env flt =
     \<lparr>cachedMetrics = [], lastSuccess = f64_0, lastScrapeDuration = f64_0, lastRefreshTime = 0,
      lastSkippedEntries = f64_0, lastTruncated = f64_0,
      routing_config = loadRoutingCollectorConfig env, routing_filter = flt\<rparr>"

definition routing_IsEnabled :: "routingCollector \<Rightarrow> bool" where
  "routing_IsEnabled c = routing_enabled (routing_config c)"

definition routing_Describe :: "desc list" where
  "routing_Describe =
     [routingNeighborEntries,
      routingRouteEntries,
      routingEntriesSkipped,
      routingEntriesTruncated,
      routingScrapeDuration,
      routingCollectorSuccess,
      routingCacheAge]"

subsection \<open>Scraping Redis\<close>

text \<open>
  The accumulator of the two counting loops: the counters, the entries skipped and the
  truncation flag, which both loops share.
\<close>

type_synonym routingAcc = "counts \<times> int \<times> f64"

definition routing_neighbor ::
  "'s redisLib \<Rightarrow> redisConfig \<Rightarrow> routingCollector \<Rightarrow> nat \<Rightarrow> nat \<Rightarrow> string \<Rightarrow> routingAcc
     \<Rightarrow> ('s, routingAcc loop) rio" where
  "routing_neighbor lib cfg c keyCount index neighborKey acc =
     (case acc of (neighborCounts, skippedEntries, truncated) \<Rightarrow>
        if int index \<ge> routing_maxNeighbors (routing_config c)
        then io_return (Break (neighborCounts, skippedEntries + (int keyCount - int index), f64_1))
        else case parseKeySuffix neighborKey ''NEIGH_TABLE:'' of
          Inl err \<Rightarrow> io_return (Continue (neighborCounts, skippedEntries + 1, truncated))
        | Inr rest \<Rightarrow>
            let parts = splitN2 (CHR '':'') rest
            in if length parts \<noteq> 2
            then io_return (Continue (neighborCounts, skippedEntries + 1, truncated))
            else
              io_bind (io_wrap ''failed to read neighbor entry %s: %w'' [neighborKey]
                         (HgetAllFromDb lib cfg ''APPL_DB'' neighborKey)) (\<lambda>neighborData.
              if neighborData = []
              then io_return (Continue (neighborCounts, skippedEntries + 1, truncated))
              else
                let family = toLower (trimSpace (field neighborData ''family''));
                    family = (if family = [] then familyFromPrefix (parts ! 1) else family)
                in io_return (Continue
                     (increment (parts ! 0 @ ''|'' @ family) neighborCounts, skippedEntries, truncated))))"

definition routing_route ::
  "'s redisLib \<Rightarrow> redisConfig \<Rightarrow> routingCollector \<Rightarrow> nat \<Rightarrow> nat \<Rightarrow> string \<Rightarrow> routingAcc
     \<Rightarrow> ('s, routingAcc loop) rio" where
  "routing_route lib cfg c keyCount index routeKey acc =
     (case acc of (routeCounts, skippedEntries, truncated) \<Rightarrow>
        if int index \<ge> routing_maxRoutes (routing_config c)
        then io_return (Break (routeCounts, skippedEntries + (int keyCount - int index), f64_1))
        else case parseKeySuffix routeKey ''ROUTE_TABLE:'' of
          Inl err \<Rightarrow> io_return (Continue (routeCounts, skippedEntries + 1, truncated))
        | Inr pre \<Rightarrow>
            io_bind (io_wrap ''failed to read route entry %s: %w'' [routeKey]
                       (HgetAllFromDb lib cfg ''APPL_DB'' routeKey)) (\<lambda>routeData.
            if routeData = []
            then io_return (Continue (routeCounts, skippedEntries + 1, truncated))
            else
              let protocol = toLower (trimSpace (field routeData ''protocol''));
                  protocol = (if protocol = [] then ''unknown'' else protocol)
              in io_return (Continue
                   (increment (familyFromPrefix pre @ ''|'' @ protocol) routeCounts,
                    skippedEntries, truncated))))"

text \<open>
  The two emitting loops: one gauge a counter, its labels the first two parts of the key. The
  indices \<^verbatim>\<open>parts[0]\<close> and \<^verbatim>\<open>parts[1]\<close> panic when the key has no separator.
\<close>

definition routing_emitCount ::
  "(string \<Rightarrow> bool) \<Rightarrow> bool \<Rightarrow> desc \<Rightarrow> counts \<Rightarrow> nat \<Rightarrow> string \<Rightarrow> metric list
     \<Rightarrow> ('s, metric list loop) rio" where
  "routing_emitCount labelOk guard d counters index key metrics =
     (let parts = splitOn (CHR ''|'') key
      in io_bind (emit guard
                    (if length parts < 2 then (\<lambda>w. (Panic ''index out of range'', w))
                     else MustNewConstMetric labelOk d GaugeValue (countOf counters key)
                            [parts ! 0, parts ! 1])
                    metrics) (\<lambda>metrics.
         io_return (Continue metrics)))"

type_synonym routingResult = "metric list \<times> int \<times> f64"

definition routing_scrapeMetrics ::
  "(string \<Rightarrow> bool) \<Rightarrow> 's redisLib \<Rightarrow> routingCollector \<Rightarrow> ('s, routingResult) rio" where
  "routing_scrapeMetrics labelOk lib c =
     withRedis lib (\<lambda>cfg.
       let count = routing_redisScanCount (routing_config c); on = Enabled (routing_filter c) in
       io_bind (io_wrap ''failed to scan neighbor keys: %w'' []
                  (ScanKeysFromDb lib cfg ''APPL_DB'' ''NEIGH_TABLE:*'' count)) (\<lambda>scannedNeighbors.
       io_bind (io_wrap ''failed to scan route keys: %w'' []
                  (ScanKeysFromDb lib cfg ''APPL_DB'' ''ROUTE_TABLE:*'' count)) (\<lambda>scannedRoutes.
       let neighborKeys = sort scannedNeighbors; routeKeys = sort scannedRoutes in
       io_bind (rangeLoop (routing_neighbor lib cfg c (length neighborKeys)) 0 neighborKeys
                  ([], 0, f64_0)) (\<lambda>acc.
       case acc of (neighborCounts, skippedEntries, truncated) \<Rightarrow>
       io_bind (rangeLoop (routing_route lib cfg c (length routeKeys)) 0 routeKeys
                  ([], skippedEntries, truncated)) (\<lambda>acc.
       case acc of (routeCounts, skippedEntries, truncated) \<Rightarrow>
       io_bind (rangeLoop
                  (routing_emitCount labelOk (on ''sonic_routing_neighbor_entries'')
                     routingNeighborEntries neighborCounts)
                  0 (sortedMapKeys neighborCounts) []) (\<lambda>metrics.
       io_bind (rangeLoop
                  (routing_emitCount labelOk (on ''sonic_routing_route_entries'')
                     routingRouteEntries routeCounts)
                  0 (sortedMapKeys routeCounts) metrics) (\<lambda>metrics.
       io_return (metrics, skippedEntries, truncated))))))))"

subsection \<open>Refreshing and collecting\<close>

definition routing_assignments ::
  "refreshClock \<Rightarrow> goerr + routingResult \<Rightarrow> (routingCollector \<Rightarrow> routingCollector) list" where
  "routing_assignments clk r =
     (\<lambda>c. c\<lparr>lastScrapeDuration := scrapeSeconds clk\<rparr>) #
     (case r of
        Inl err \<Rightarrow> [\<lambda>c. c\<lparr>lastSuccess := f64_0\<rparr>]
      | Inr (metrics, skippedEntries, truncated) \<Rightarrow>
          [\<lambda>c. c\<lparr>cachedMetrics := metrics\<rparr>,
           \<lambda>c. c\<lparr>lastSkippedEntries := f64_of_int skippedEntries\<rparr>,
           \<lambda>c. c\<lparr>lastTruncated := truncated\<rparr>,
           \<lambda>c. c\<lparr>lastSuccess := f64_1\<rparr>,
           \<lambda>c. c\<lparr>lastRefreshTime := t_stored clk\<rparr>])"

definition routing_refreshMetrics ::
  "(string \<Rightarrow> bool) \<Rightarrow> 's redisLib \<Rightarrow> refreshClock \<Rightarrow> routingCollector \<Rightarrow> ('s, routingCollector) rio" where
  "routing_refreshMetrics labelOk lib clk c =
     refreshWith (routing_scrapeMetrics labelOk lib c) (routing_assignments clk) c"

definition routing_refreshLoop ::
  "(string \<Rightarrow> bool) \<Rightarrow> 's redisLib \<Rightarrow> refreshClock list \<Rightarrow> routingCollector \<Rightarrow> ('s, routingCollector) rio" where
  "routing_refreshLoop labelOk lib ticks c =
     tickerLoop (routing_refreshInterval (routing_config c)) (routing_refreshMetrics labelOk lib) ticks c"

definition NewRoutingCollector ::
  "(string \<Rightarrow> bool) \<Rightarrow> 's redisLib \<Rightarrow> env \<Rightarrow> metricFilter \<Rightarrow> refreshClock \<Rightarrow> refreshClock list
     \<Rightarrow> ('s, routingCollector) rio" where
  "NewRoutingCollector labelOk lib env flt clk ticks =
     (let c = routing_new env flt
      in if \<not> routing_enabled (routing_config c) then io_return c
         else io_bind (routing_refreshMetrics labelOk lib clk c) (routing_refreshLoop labelOk lib ticks))"

text \<open>The copies \<^verbatim>\<open>Collect\<close> makes under the read lock, in its order.\<close>

definition routing_copies :: "(routingCollector \<Rightarrow> routingCollector \<Rightarrow> routingCollector) list" where
  "routing_copies =
     [\<lambda>c l. l\<lparr>cachedMetrics := cachedMetrics c\<rparr>,
      \<lambda>c l. l\<lparr>lastScrapeDuration := lastScrapeDuration c\<rparr>,
      \<lambda>c l. l\<lparr>lastSuccess := lastSuccess c\<rparr>,
      \<lambda>c l. l\<lparr>lastSkippedEntries := lastSkippedEntries c\<rparr>,
      \<lambda>c l. l\<lparr>lastTruncated := lastTruncated c\<rparr>,
      \<lambda>c l. l\<lparr>lastRefreshTime := lastRefreshTime c\<rparr>]"

definition routing_Collect :: "(string \<Rightarrow> bool) \<Rightarrow> gotime \<Rightarrow> routingCollector \<Rightarrow> ('w, metric list) io" where
  "routing_Collect labelOk now c =
     (if \<not> routing_enabled (routing_config c) then io_return []
      else let gauge = (\<lambda>d v. MustNewConstMetric labelOk d GaugeValue v []);
               on = Enabled (routing_filter c)
        in io_bind (emit (on ''sonic_routing_entries_skipped'') (gauge routingEntriesSkipped (lastSkippedEntries c)) (cachedMetrics c)) (\<lambda>ch.
           io_bind (emit (on ''sonic_routing_entries_truncated'') (gauge routingEntriesTruncated (lastTruncated c)) ch) (\<lambda>ch.
           io_bind (emit (on ''sonic_routing_scrape_duration_seconds'') (gauge routingScrapeDuration (lastScrapeDuration c)) ch) (\<lambda>ch.
           io_bind (emit (on ''sonic_routing_collector_success'') (gauge routingCollectorSuccess (lastSuccess c)) ch) (\<lambda>ch.
           emit (on ''sonic_routing_cache_age_seconds'') (gauge routingCacheAge (cacheAge now (lastRefreshTime c))) ch)))))"

interpretation routing: refresh_contract routing_assignments routing_copies cacheState.truncate
  "\<lambda>c. (routing_config c, routing_filter c)" fst
proof unfold_locales
  show "(routing_config (f c), routing_filter (f c)) = (routing_config c, routing_filter c)"
    if "f \<in> set (routing_assignments clk r)" for f clk r c
    using that by (auto simp: routing_assignments_def split: sum.splits prod.splits)
qed (auto simp: routing_assignments_def routing_copies_def cacheState.truncate_def)

subsection \<open>The descriptions\<close>

lemma fq_routing [simp]:
  "fqName routingNeighborEntries = ''sonic_routing_neighbor_entries''"
  "fqName routingRouteEntries = ''sonic_routing_route_entries''"
  "fqName routingEntriesSkipped = ''sonic_routing_entries_skipped''"
  "fqName routingEntriesTruncated = ''sonic_routing_entries_truncated''"
  "fqName routingScrapeDuration = ''sonic_routing_scrape_duration_seconds''"
  "fqName routingCollectorSuccess = ''sonic_routing_collector_success''"
  "fqName routingCacheAge = ''sonic_routing_cache_age_seconds''"
  by (simp_all add: desc_defs)

lemma labels_routing [simp]:
  "length (d_labels routingNeighborEntries) = 2"
  "length (d_labels routingRouteEntries) = 2"
  "d_labels routingEntriesSkipped = []"
  "d_labels routingEntriesTruncated = []"
  "d_labels routingScrapeDuration = []"
  "d_labels routingCollectorSuccess = []"
  "d_labels routingCacheAge = []"
  by (simp_all add: desc_defs)

lemma routing_described [simp]:
  "routingNeighborEntries \<in> set routing_Describe"
  "routingRouteEntries \<in> set routing_Describe"
  "routingEntriesSkipped \<in> set routing_Describe"
  "routingEntriesTruncated \<in> set routing_Describe"
  "routingScrapeDuration \<in> set routing_Describe"
  "routingCollectorSuccess \<in> set routing_Describe"
  "routingCacheAge \<in> set routing_Describe"
  by (simp_all add: routing_Describe_def)

lemma routing_names: "ownNames ''routing'' routing_Describe"
  by (simp add: ownNames_def routing_Describe_def subsystemOf_def desc_defs)

subsection \<open>Collect\<close>

definition routing_health :: "gotime \<Rightarrow> routingCollector \<Rightarrow> (desc \<times> f64) list" where
  "routing_health now c =
     [(routingEntriesSkipped, lastSkippedEntries c),
      (routingEntriesTruncated, lastTruncated c),
      (routingScrapeDuration, lastScrapeDuration c),
      (routingCollectorSuccess, lastSuccess c),
      (routingCacheAge, cacheAge now (lastRefreshTime c))]"

lemma routing_Collect_yields:
  "routing_IsEnabled c \<Longrightarrow>
    yields I (routing_Collect labelOk now c) (cachedMetrics c @ gauges (routing_filter c) (routing_health now c))"
  unfolding routing_Collect_def routing_health_def Let_def routing_IsEnabled_def
  by (simp only: not_True_eq_False if_False, rule yields_eq,
      (rule yields_bind_gauge, simp, simp)+, rule yields_gauge)
     (simp_all only: gauges_append append.simps fq_routing labels_routing)

lemma routing_health_good: "list_all (goodMetric labelOk flt routing_Describe) (gauges flt (routing_health now c))"
  by (rule gauges_good) (auto simp: routing_health_def)

subsection \<open>What a refresh exports\<close>

definition routing_resultOk :: "(string \<Rightarrow> bool) \<Rightarrow> routingCollector \<Rightarrow> routingResult \<Rightarrow> bool" where
  "routing_resultOk labelOk c r =
     (case r of (metrics, skipped, truncated) \<Rightarrow>
        list_all (goodMetric labelOk (routing_filter c) routing_Describe) metrics)"

lemma routing_emitLoop_good:
  assumes "d \<in> set routing_Describe" "g \<Longrightarrow> Enabled (routing_filter c) (fqName d)"
    "list_all (goodMetric labelOk (routing_filter c) routing_Describe) ms"
  shows "post (rangeLoop (routing_emitCount labelOk g d counters) 0 keys ms)
           (list_all (goodMetric labelOk (routing_filter c) routing_Describe))"
proof -
  let ?good = "list_all (goodMetric labelOk (routing_filter c) routing_Describe)"
  have panic: "post (\<lambda>w. (Panic p, w)) P" for p and P :: "metric \<Rightarrow> bool"
    by (simp add: post_def)
  have "post (routing_emitCount labelOk g d counters i k a)
      (\<lambda>r. case r of Continue b \<Rightarrow> ?good b | Break b \<Rightarrow> ?good b)" if "?good a" for i k a
    unfolding routing_emitCount_def Let_def
    using that assms(1,2)
    by (auto intro!: post_bind_emit [where labelOk = labelOk and flt = "routing_filter c" and descs = routing_Describe]
        post_rules panic)
  then show ?thesis
    using assms(3) by (intro post_rangeLoop [where I = "\<lambda>_. ?good"]) auto
qed

lemma routing_scrape_ok: "post (routing_scrapeMetrics labelOk lib c) (routing_resultOk labelOk c)"
  unfolding routing_scrapeMetrics_def Let_def
  by (intro post_rules,
      rule post_bind_any, rule post_case_prod, rule post_case_prod,
      rule post_bind_any, rule post_case_prod, rule post_case_prod,
      rule post_bind, rule routing_emitLoop_good [where c = c], simp, simp, simp,
      rule post_bind, rule routing_emitLoop_good [where c = c], simp, simp, assumption,
      rule post_return)
     (simp add: routing_resultOk_def)

subsection \<open>The specification of a refresh\<close>

text \<open>The counter an entry adds to, and whether it counts at all.\<close>

definition neigh_parts :: "string \<Rightarrow> string list" where
  "neigh_parts key = splitN2 (CHR '':'') (trimPrefix key ''NEIGH_TABLE:'')"

definition neigh_valid :: "(string \<Rightarrow> fields) \<Rightarrow> string \<Rightarrow> bool" where
  "neigh_valid db key =
     (hasPrefix key ''NEIGH_TABLE:'' \<and> key \<noteq> ''NEIGH_TABLE:'' \<and> length (neigh_parts key) = 2 \<and> db key \<noteq> [])"

definition neigh_family :: "(string \<Rightarrow> fields) \<Rightarrow> string \<Rightarrow> string" where
  "neigh_family db key =
     (let family = toLower (trimSpace (field (db key) ''family''))
      in if family = [] then familyFromPrefix (neigh_parts key ! 1) else family)"

definition neigh_counter :: "(string \<Rightarrow> fields) \<Rightarrow> string \<Rightarrow> string" where
  "neigh_counter db key = neigh_parts key ! 0 @ ''|'' @ neigh_family db key"

definition route_valid :: "(string \<Rightarrow> fields) \<Rightarrow> string \<Rightarrow> bool" where
  "route_valid db key = (hasPrefix key ''ROUTE_TABLE:'' \<and> key \<noteq> ''ROUTE_TABLE:'' \<and> db key \<noteq> [])"

definition route_protocol :: "(string \<Rightarrow> fields) \<Rightarrow> string \<Rightarrow> string" where
  "route_protocol db key =
     (let protocol = toLower (trimSpace (field (db key) ''protocol''))
      in if protocol = [] then ''unknown'' else protocol)"

definition route_counter :: "(string \<Rightarrow> fields) \<Rightarrow> string \<Rightarrow> string" where
  "route_counter db key = familyFromPrefix (trimPrefix key ''ROUTE_TABLE:'') @ ''|'' @ route_protocol db key"

text \<open>One gauge for every counter that occurs, in key order, with the number of its occurrences.\<close>

definition countMetrics :: "desc \<Rightarrow> string list \<Rightarrow> metric list" where
  "countMetrics d ks =
     map (\<lambda>k. constMetric d GaugeValue (f64_of_int (min (int (count_list ks k)) (2 ^ 53)))
                [splitOn (CHR ''|'') k ! 0, splitOn (CHR ''|'') k ! 1])
       (sort (remdups ks))"

definition routing_spec ::
  "routingCollector \<Rightarrow> (int \<Rightarrow> string \<Rightarrow> fields) \<Rightarrow> (int \<Rightarrow> string \<Rightarrow> string list) \<Rightarrow> routingResult" where
  "routing_spec c db scan =
     (let on = Enabled (routing_filter c);
          nkeys = sort (scan 0 ''NEIGH_TABLE:*''); rkeys = sort (scan 0 ''ROUTE_TABLE:*'');
          nmax = nat (routing_maxNeighbors (routing_config c));
          rmax = nat (routing_maxRoutes (routing_config c));
          ns = filter (neigh_valid (db 0)) (take nmax nkeys);
          rs = filter (route_valid (db 0)) (take rmax rkeys)
      in ((if on ''sonic_routing_neighbor_entries''
           then countMetrics routingNeighborEntries (map (neigh_counter (db 0)) ns) else []) @
          (if on ''sonic_routing_route_entries''
           then countMetrics routingRouteEntries (map (route_counter (db 0)) rs) else []),
          (int (length nkeys) - int (length ns)) + (int (length rkeys) - int (length rs)),
          if nmax < length nkeys \<or> rmax < length rkeys then f64_1 else f64_0))"

lemma routing_neighbor_yields:
  assumes "serves lib cfg db scan"
  shows "yields (handlesOk cfg) (routing_neighbor lib cfg c keyCount i key (m, sk, t))
    (if routing_maxNeighbors (routing_config c) \<le> int i then Break (m, sk + (int keyCount - int i), f64_1)
     else Continue (if neigh_valid (db 0) key then (increment (neigh_counter (db 0) key) m, sk, t)
                    else (m, sk + 1, t)))"
proof -
  have read: "yields (handlesOk cfg) (io_wrap msg args (HgetAllFromDb lib cfg ''APPL_DB'' k)) (db 0 k)" for msg args k
    by (rule yields_wrap [OF yields_HgetAll [OF assms]]) (simp add: RedisDbId_def)
  show ?thesis
  proof (cases rule: parseKeySuffix_cases [of key "''NEIGH_TABLE:''"])
    case suffix
    then show ?thesis
      by (auto simp: routing_neighbor_def neigh_valid_def neigh_counter_def neigh_family_def neigh_parts_def Let_def
          intro!: yields_return yields_bind [OF read] split: if_splits)
  next
    case (error e)
    then show ?thesis by (auto simp: routing_neighbor_def neigh_valid_def yields_return)
  qed
qed

lemma routing_route_yields:
  assumes "serves lib cfg db scan"
  shows "yields (handlesOk cfg) (routing_route lib cfg c keyCount i key (m, sk, t))
    (if routing_maxRoutes (routing_config c) \<le> int i then Break (m, sk + (int keyCount - int i), f64_1)
     else Continue (if route_valid (db 0) key then (increment (route_counter (db 0) key) m, sk, t)
                    else (m, sk + 1, t)))"
proof -
  have read: "yields (handlesOk cfg) (io_wrap msg args (HgetAllFromDb lib cfg ''APPL_DB'' k)) (db 0 k)" for msg args k
    by (rule yields_wrap [OF yields_HgetAll [OF assms]]) (simp add: RedisDbId_def)
  show ?thesis
  proof (cases rule: parseKeySuffix_cases [of key "''ROUTE_TABLE:''"])
    case suffix
    then show ?thesis
      by (auto simp: routing_route_def route_valid_def route_counter_def route_protocol_def Let_def
          intro!: yields_return yields_bind [OF read] split: if_splits)
  next
    case (error e)
    then show ?thesis by (auto simp: routing_route_def route_valid_def yields_return)
  qed
qed

lemma routing_emit_yields:
  assumes "\<And>k. k \<in> set keys \<Longrightarrow> CHR ''|'' \<in> set k" "length (d_labels d) = 2"
  shows "yields I (rangeLoop (routing_emitCount anyLabel g d m) i keys ms)
    (ms @ (if g then map (\<lambda>k. constMetric d GaugeValue (countOf m k)
                    [splitOn (CHR ''|'') k ! 0, splitOn (CHR ''|'') k ! 1]) keys else []))"
  using assms(1)
proof (induction keys arbitrary: i ms)
  case Nil
  then show ?case by (simp add: yields_return)
next
  case (Cons k ks)
  then obtain a b where "k = a @ CHR ''|'' # b" "CHR ''|'' \<notin> set a"
    by (metis list.set_intros(1) split_list_first)
  then have two: "\<not> length (splitOn (CHR ''|'') k) < 2"
    using splitOn_not_Nil [of "CHR ''|''" b] by (cases "splitOn (CHR ''|'') b") (auto simp: splitOn_append)
  have "yields I (routing_emitCount anyLabel g d m i k ms)
      (Continue (ms @ (if g then [constMetric d GaugeValue (countOf m k)
         [splitOn (CHR ''|'') k ! 0, splitOn (CHR ''|'') k ! 1]] else [])))"
    unfolding routing_emitCount_def Let_def
    by (simp only: two if_False, rule yields_bind_emit) (use assms(2) in \<open>simp_all add: yields_return\<close>)
  note step = this
  show ?case
    by (rule yields_eq, rule yields_loop_Continue, rule step, rule Cons.IH) (use Cons.prems in auto)
qed

lemma counter_bar: "CHR ''|'' \<in> set (neigh_counter db k)" "CHR ''|'' \<in> set (route_counter db k)"
  by (simp_all add: neigh_counter_def route_counter_def)

lemma fold_increment_map: "fold (\<lambda>k. increment (f k)) ks m = fold increment (map f ks) m"
  by (induction ks arbitrary: m) auto

lemma counters_bar:
  "k \<in> set (sortedMapKeys (fold (\<lambda>k. increment (neigh_counter db k)) ks [])) \<Longrightarrow> CHR ''|'' \<in> set k"
  "k \<in> set (sortedMapKeys (fold (\<lambda>k. increment (route_counter db k)) ks [])) \<Longrightarrow> CHR ''|'' \<in> set k"
  by (auto simp: fold_increment_map [of "neigh_counter db"] fold_increment_map [of "route_counter db"]
      sortedMapKeys_fold counter_bar)

lemma routing_scrape_spec:
  assumes "serves lib cfg db scan"
  shows "fst (routing_scrapeMetrics anyLabel lib c w) = Ok (routing_spec c db scan)"
proof -
  have keys: "yields (handlesOk cfg) (io_wrap msg args (ScanKeysFromDb lib cfg ''APPL_DB'' p n)) (scan 0 p)" for msg args p n
    by (rule yields_wrap [OF yields_ScanKeys [OF assms]]) (simp add: RedisDbId_def)
  note nloop = bounded_loop_yields [OF routing_neighbor_yields [OF assms],
      where i = 0 and room = "nat (routing_maxNeighbors (routing_config c))"]
  note rloop = bounded_loop_yields [OF routing_route_yields [OF assms],
      where i = 0 and room = "nat (routing_maxRoutes (routing_config c))"]
  show ?thesis
    unfolding routing_scrapeMetrics_def Let_def
    by (rule withRedis_yields [OF assms], rule yields_eq, rule yields_bind [OF keys], rule yields_bind [OF keys],
        rule yields_bind, rule nloop, simp, simp, simp only: prod.case,
        rule yields_bind, rule rloop, simp, simp, simp only: prod.case,
        rule yields_bind, rule routing_emit_yields, erule counters_bar(1), simp,
        rule yields_bind, rule routing_emit_yields, erule counters_bar(2), simp,
        rule yields_return)
       (simp add: routing_spec_def Let_def sortedMapKeys_fold countMetrics_def countOf_fold_full
          fold_increment_map [of "neigh_counter (db 0)"] fold_increment_map [of "route_counter (db 0)"])
qed

subsection \<open>Everything sent is good\<close>

lemma routing_Collect_good:
  "list_all (goodMetric labelOk (routing_filter c) routing_Describe) (cachedMetrics c) \<Longrightarrow>
    post (routing_Collect labelOk now c) (list_all (goodMetric labelOk (routing_filter c) routing_Describe))"
proof (cases "routing_IsEnabled c")
  case True
  assume "list_all (goodMetric labelOk (routing_filter c) routing_Describe) (cachedMetrics c)"
  then show ?thesis
    by (intro yields_post [OF routing_Collect_yields [OF True]]) (simp add: routing_health_good)
next
  case False
  then show ?thesis by (simp add: routing_Collect_def routing_IsEnabled_def post_return)
qed

interpretation routing_source: metric_source routing_assignments routing_copies cacheState.truncate
  "\<lambda>c. (routing_config c, routing_filter c)" fst "routing_scrapeMetrics labelOk lib" "routing_Collect labelOk"
  "\<lambda>f. list_all (goodMetric labelOk (snd f) routing_Describe)"
  for labelOk lib
proof unfold_locales
  show "post (routing_scrapeMetrics labelOk lib c)
      (\<lambda>r. list_all (goodMetric labelOk (snd (routing_config c, routing_filter c)) routing_Describe) (fst r))" for c
    by (rule post_mono [OF routing_scrape_ok]) (auto simp: routing_resultOk_def)
qed (simp_all add: routing_Collect_good cacheState.truncate_def)

subsection \<open>Properties\<close>

lemma count_list_remdups: "k \<in> set ks \<longleftrightarrow> 0 < count_list ks k"
  by (induction ks) auto

lemma count_list_map: "count_list (map f xs) y = length (filter (\<lambda>x. f x = y) xs)"
  by (induction xs) auto

text \<open>Counters whose parts hold no separator keep their labels apart.\<close>

definition plainCounter :: "string \<Rightarrow> bool" where
  "plainCounter k = (length (splitOn (CHR ''|'') k) = 2)"

lemma plainCounter_label:
  assumes "CHR ''|'' \<notin> set a" "CHR ''|'' \<notin> set b"
  shows "splitOn (CHR ''|'') (a @ ''|'' @ b) = [a, b]"
  using splitOn_append [OF assms(1), of b] assms(2) by (simp add: splitOn_no_sep)

lemma plainCounter_inj:
  assumes "plainCounter k" "plainCounter k'" "splitOn (CHR ''|'') k ! 0 = splitOn (CHR ''|'') k' ! 0"
    "splitOn (CHR ''|'') k ! 1 = splitOn (CHR ''|'') k' ! 1"
  shows "k = k'"
proof -
  have "splitOn (CHR ''|'') k = splitOn (CHR ''|'') k'"
    using assms by (intro nth_equalityI) (auto simp: plainCounter_def less_Suc_eq numeral_2_eq_2)
  then show ?thesis by (metis joinWith_splitOn)
qed

lemma countMetrics_series:
  assumes "\<forall>k\<in>set ks. plainCounter k"
  shows "distinct (map series (countMetrics d ks))"
proof -
  have "inj_on (\<lambda>k. (fqName d, [splitOn (CHR ''|'') k ! 0, splitOn (CHR ''|'') k ! 1])) (set ks)"
    using assms plainCounter_inj by (fastforce simp: inj_on_def)
  then show ?thesis
    by (simp add: countMetrics_def distinct_map o_def)
qed

lemma countMetrics_member:
  assumes "\<forall>k\<in>set ks. plainCounter k" "CHR ''|'' \<notin> set a" "CHR ''|'' \<notin> set b"
  shows "constMetric d GaugeValue v [a, b] \<in> set (countMetrics d ks) \<longleftrightarrow>
    0 < count_list ks (a @ ''|'' @ b) \<and> v = f64_of_int (min (int (count_list ks (a @ ''|'' @ b))) (2 ^ 53))"
proof -
  have label: "splitOn (CHR ''|'') k ! 0 = a \<and> splitOn (CHR ''|'') k ! 1 = b \<longleftrightarrow> k = a @ ''|'' @ b"
    if "k \<in> set ks" for k
  proof
    assume ab: "splitOn (CHR ''|'') k ! 0 = a \<and> splitOn (CHR ''|'') k ! 1 = b"
    have "plainCounter (a @ ''|'' @ b)"
      using plainCounter_label [OF assms(2,3)] by (simp add: plainCounter_def)
    then show "k = a @ ''|'' @ b"
      using plainCounter_inj [of k "a @ ''|'' @ b"] assms(1) that ab plainCounter_label [OF assms(2,3)] by simp
  next
    assume "k = a @ ''|'' @ b"
    then show "splitOn (CHR ''|'') k ! 0 = a \<and> splitOn (CHR ''|'') k ! 1 = b"
      using plainCounter_label [OF assms(2,3)] by simp
  qed
  have "k \<in> set ks \<and> splitOn (CHR ''|'') k ! 0 = a \<and> splitOn (CHR ''|'') k ! 1 = b \<longleftrightarrow>
      a @ ''|'' @ b \<in> set ks \<and> k = a @ ''|'' @ b" for k
    using label [of k] by (cases "k = a @ ''|'' @ b") auto
  moreover have "constMetric d GaugeValue v [a, b] \<in> set (countMetrics d ks) \<longleftrightarrow>
      (\<exists>k. (k \<in> set ks \<and> splitOn (CHR ''|'') k ! 0 = a \<and> splitOn (CHR ''|'') k ! 1 = b) \<and>
        v = f64_of_int (min (int (count_list ks k)) (2 ^ 53)))"
    by (auto simp: countMetrics_def constMetric_def)
  ultimately show ?thesis
    by (simp only: count_list_remdups [symmetric]) blast
qed

lemma countMetrics_labels:
  "plainCounter k \<Longrightarrow> CHR ''|'' \<notin> set (splitOn (CHR ''|'') k ! 0) \<and> CHR ''|'' \<notin> set (splitOn (CHR ''|'') k ! 1)"
  unfolding plainCounter_def by (intro conjI sep_notin_splitOn [where s = k] nth_mem) simp_all

text \<open>The gauges of neighbours without separators in their names, whatever the names asked for.\<close>

lemma neighbor_counts:
  assumes "\<forall>k\<in>set entries. CHR ''|'' \<notin> set (neigh_parts k ! 0) \<and> CHR ''|'' \<notin> set (neigh_family db k)"
  shows "constMetric d GaugeValue v [iface, family] \<in> set (countMetrics d (map (neigh_counter db) entries)) \<longleftrightarrow>
    (let n = length (filter (\<lambda>k. neigh_parts k ! 0 = iface \<and> neigh_family db k = family) entries)
     in 0 < n \<and> v = f64_of_int (min (int n) (2 ^ 53)))"
proof -
  let ?ks = "map (neigh_counter db) entries" and ?same = "\<lambda>k. neigh_parts k ! 0 = iface \<and> neigh_family db k = family"
  have plain: "\<forall>k\<in>set ?ks. plainCounter k"
    using assms plainCounter_label by (auto simp: neigh_counter_def plainCounter_def)
  show ?thesis
  proof (cases "CHR ''|'' \<in> set iface \<or> CHR ''|'' \<in> set family")
    case True
    then have none: "\<not> ?same k" if "k \<in> set entries" for k
      using assms that by auto
    then have "filter ?same entries = []"
      by (simp add: filter_empty_conv)
    moreover have "constMetric d GaugeValue v [iface, family] \<notin> set (countMetrics d ?ks)"
      using True plain countMetrics_labels by (fastforce simp: countMetrics_def constMetric_def)
    ultimately show ?thesis by simp
  next
    case False
    have same: "neigh_counter db k = iface @ ''|'' @ family \<longleftrightarrow> ?same k" if "k \<in> set entries" for k
    proof
      assume "neigh_counter db k = iface @ ''|'' @ family"
      moreover have "splitOn (CHR ''|'') (neigh_counter db k) = [neigh_parts k ! 0, neigh_family db k]"
        unfolding neigh_counter_def using assms that by (intro plainCounter_label) auto
      ultimately show "?same k"
        using plainCounter_label [of iface family] False by auto
    qed (simp add: neigh_counter_def)
    have "count_list ?ks (iface @ ''|'' @ family) = length (filter ?same entries)"
      unfolding count_list_map using same by (intro arg_cong [where f = length] filter_cong) auto
    then show ?thesis
      using countMetrics_member [OF plain, of iface family d v] False by (simp add: Let_def)
  qed
qed

text \<open>A server with two neighbours on one interface and one route.\<close>

definition routing_demoDb :: "int \<Rightarrow> string \<Rightarrow> fields" where
  "routing_demoDb n key = (if hasPrefix key ''ROUTE_TABLE:'' then [(''protocol'', ''BGP'')] else [(''neigh'', ''00:11'')])"

definition routing_demoScan :: "int \<Rightarrow> string \<Rightarrow> string list" where
  "routing_demoScan n pattern =
     (if pattern = ''NEIGH_TABLE:*'' then [''NEIGH_TABLE:Ethernet0:10.0.0.2'', ''NEIGH_TABLE:Ethernet0:10.0.0.1'']
      else [''ROUTE_TABLE:10.0.0.0/8''])"

definition routing_demo :: routingCollector where
  "routing_demo = routing_new (\<lambda>_. None) (NewMetricFilter (\<lambda>_. None))"

text \<open>
  C7. On a server that holds still, a refresh returns one gauge for every counter that occurs
  among the entries within the limits, in key order, with the number of entries it stands for, exact up to \<open>2 ^ 53\<close>; it
  skips what is malformed, empty or beyond a limit; and it flags truncation exactly when a table is longer than its limit.
  The client library takes the label values.
\<close>

theorem routing_refresh_refines_spec:
  assumes "serves lib cfg db scan"
  shows "fst (routing_scrapeMetrics anyLabel lib c w) = Ok (routing_spec c db scan)"
  by (rule routing_scrape_spec [OF assms])

theorem routing_refresh_refines_spec_witness:
  "fst (routing_scrapeMetrics anyLabel (staticLib localRedis routing_demoDb routing_demoScan) routing_demo
     \<lparr>server = (), databases = []\<rparr>) = Ok (routing_spec routing_demo routing_demoDb routing_demoScan)"
  by (rule routing_refresh_refines_spec [OF staticLib_serves])

text \<open>
  C8. On a server that holds still, and where no interface and no family of an entry holds the separator of the
  code's map keys, the neighbour gauge of an interface and a family counts their entries: among the valid entries
  within the limit it is sent, if it is enabled, exactly when there is one, with their number and no other value. The
  number is exact up to \<open>2 ^ 53\<close>.
\<close>

theorem routing_neighbor_gauge_counts:
  assumes "serves lib cfg db scan"
    and "entries = filter (neigh_valid (db 0))
                 (take (nat (routing_maxNeighbors (routing_config c))) (sort (scan 0 ''NEIGH_TABLE:*'')))"
    and "\<forall>k\<in>set entries. CHR ''|'' \<notin> set (neigh_parts k ! 0) \<and> CHR ''|'' \<notin> set (neigh_family (db 0) k)"
  shows "\<exists>ms skipped truncated. fst (routing_scrapeMetrics anyLabel lib c w) = Ok (ms, skipped, truncated) \<and>
    (constMetric routingNeighborEntries GaugeValue v [iface, family] \<in> set ms \<longleftrightarrow>
       (let n = length (filter (\<lambda>k. neigh_parts k ! 0 = iface \<and> neigh_family (db 0) k = family) entries)
        in Enabled (routing_filter c) ''sonic_routing_neighbor_entries'' \<and> 0 < n \<and> v = f64_of_int (min (int n) (2 ^ 53))))"
proof -
  obtain ms sk t where spec: "routing_spec c db scan = (ms, sk, t)"
    by (cases "routing_spec c db scan")
  have "routingRouteEntries \<noteq> routingNeighborEntries"
    by (simp add: desc_defs NewDesc_def)
  then have own: "constMetric routingNeighborEntries GaugeValue v [iface, family] \<notin> set (countMetrics routingRouteEntries ks)" for ks
    by (auto simp: countMetrics_def constMetric_def)
  have "ms = (if Enabled (routing_filter c) ''sonic_routing_neighbor_entries''
        then countMetrics routingNeighborEntries (map (neigh_counter (db 0)) entries) else []) @
      (if Enabled (routing_filter c) ''sonic_routing_route_entries''
        then countMetrics routingRouteEntries (map (route_counter (db 0)) (filter (route_valid (db 0))
          (take (nat (routing_maxRoutes (routing_config c))) (sort (scan 0 ''ROUTE_TABLE:*''))))) else [])"
    using spec unfolding routing_spec_def Let_def assms(2) by (simp only: prod.inject)
  then have "constMetric routingNeighborEntries GaugeValue v [iface, family] \<in> set ms \<longleftrightarrow>
      Enabled (routing_filter c) ''sonic_routing_neighbor_entries'' \<and>
      constMetric routingNeighborEntries GaugeValue v [iface, family] \<in>
        set (countMetrics routingNeighborEntries (map (neigh_counter (db 0)) entries))"
    using own by simp
  note this [unfolded neighbor_counts [OF assms(3)]]
  moreover have "fst (routing_scrapeMetrics anyLabel lib c w) = Ok (ms, sk, t)"
    by (simp only: routing_scrape_spec [OF assms(1)] spec)
  ultimately show ?thesis
    unfolding Let_def by blast
qed

theorem routing_neighbor_gauge_counts_witness:
  "\<exists>ms skipped truncated. fst (routing_scrapeMetrics anyLabel (staticLib localRedis routing_demoDb routing_demoScan)
       routing_demo \<lparr>server = (), databases = []\<rparr>) = Ok (ms, skipped, truncated) \<and>
     constMetric routingNeighborEntries GaugeValue (f64_of_int 2) [''Ethernet0'', ''ipv4''] \<in> set ms"
proof -
  let ?keys = "[''NEIGH_TABLE:Ethernet0:10.0.0.1'', ''NEIGH_TABLE:Ethernet0:10.0.0.2'']"
  have keys: "sort (routing_demoScan 0 ''NEIGH_TABLE:*'') = ?keys"
    by code_simp
  have limit: "routing_maxNeighbors (routing_config routing_demo) = 50000"
    by (simp add: routing_demo_def routing_new_def loadRoutingCollectorConfig_def parseIntEnv_def setEnv_def)
  have entries: "?keys = filter (neigh_valid (routing_demoDb 0)) (take (nat (routing_maxNeighbors (routing_config routing_demo)))
      (sort (routing_demoScan 0 ''NEIGH_TABLE:*'')))"
  proof -
    have "take (nat 50000) ?keys = ?keys"
      by simp
    moreover have "filter (neigh_valid (routing_demoDb 0)) ?keys = ?keys"
      by code_simp
    ultimately show ?thesis by (simp only: keys limit)
  qed
  have on: "Enabled (routing_filter routing_demo) ''sonic_routing_neighbor_entries''"
    by (simp add: routing_demo_def routing_new_def Enabled_empty)
  have plain: "\<forall>k\<in>set ?keys. CHR ''|'' \<notin> set (neigh_parts k ! 0) \<and>
      CHR ''|'' \<notin> set (neigh_family (routing_demoDb 0) k)"
    by code_simp
  have two: "length (filter (\<lambda>k. neigh_parts k ! 0 = ''Ethernet0'' \<and> neigh_family (routing_demoDb 0) k = ''ipv4'') ?keys) = 2"
    by code_simp
  show ?thesis
    using routing_neighbor_gauge_counts [OF staticLib_serves [of localRedis routing_demoDb routing_demoScan] entries plain,
        of "\<lparr>server = (), databases = []\<rparr>" "f64_of_int 2" "''Ethernet0''" "''ipv4''"] on
    by (simp only: Let_def two) simp
qed

text \<open>
  An interface name that holds the separator breaks the gauge: its labels are the two parts of the
  interface, the family is lost.
\<close>

lemma routing_separator_mislabels:
  "countMetrics routingNeighborEntries [neigh_counter (\<lambda>_. [(''neigh'', ''x'')]) ''NEIGH_TABLE:a|b:10.0.0.1''] =
     [constMetric routingNeighborEntries GaugeValue (f64_of_int 1) [''a'', ''b'']]"
proof -
  have k: "neigh_counter (\<lambda>_. [(''neigh'', ''x'')]) ''NEIGH_TABLE:a|b:10.0.0.1'' = ''a|b|ipv4''"
    by code_simp
  have "splitOn (CHR ''|'') ''a|b|ipv4'' = [''a'', ''b'', ''ipv4'']"
    by code_simp
  then show ?thesis
    using countOf_fold [of "[''a|b|ipv4'']" "''a|b|ipv4''"] by (simp add: k countMetrics_def)
qed

text \<open>Without the separator in the names, no two metrics are the same time series.\<close>

lemma routing_spec_series:
  assumes "\<forall>k\<in>set (scan 0 ''NEIGH_TABLE:*''). plainCounter (neigh_counter (db 0) k)"
    "\<forall>k\<in>set (scan 0 ''ROUTE_TABLE:*''). plainCounter (route_counter (db 0) k)"
  shows "distinct (map series (fst (routing_spec c db scan)))"
proof -
  have sub: "set (filter P (take n (sort xs))) \<subseteq> set xs" for P n and xs :: "string list"
    by (auto dest: in_set_takeD)
  have "distinct (map series (countMetrics d (map (neigh_counter (db 0)) (filter P (take n (sort (scan 0 ''NEIGH_TABLE:*'')))))))"
    "distinct (map series (countMetrics d (map (route_counter (db 0)) (filter P (take n (sort (scan 0 ''ROUTE_TABLE:*'')))))))"
    for d P n
    using assms sub by (fastforce intro!: countMetrics_series)+
  moreover have name: "fst (series m) = fqName d" if "m \<in> set (countMetrics d ks)" for m d ks
    using that by (auto simp: countMetrics_def)
  have "series m \<noteq> series m'"
    if "m \<in> set (countMetrics routingNeighborEntries ks)" and "m' \<in> set (countMetrics routingRouteEntries ks')" for m m' ks ks'
    using name [OF that(1)] name [OF that(2)] by auto
  then have "set (map series (countMetrics routingNeighborEntries ks)) \<inter>
      set (map series (countMetrics routingRouteEntries ks')) = {}" for ks ks'
    by fastforce
  ultimately show ?thesis
    unfolding routing_spec_def Let_def fst_conv by (simp del: set_map)
qed

end
