(* ===== verification/GoJson.thy ===== *)
theory GoJson
  imports GoMatch GoFloat
begin

text \<open>
  Go's \<^verbatim>\<open>encoding/json\<close> as the program uses it: \<^verbatim>\<open>json.Unmarshal\<close> of an object into a struct of
  string fields. The grammar is that of the package's scanner (white space, strings without
  control characters, numbers, nesting up to 10000), strings are decoded as its \<^verbatim>\<open>unquote\<close> does
  (escapes, surrogate pairs, replacement of invalid UTF-8), members are matched to fields by name,
  exactly or up to the case of ASCII letters, in the order of the text.
\<close>

datatype json =
    JNull
  | JBool bool
  | JNumber string
  | JString string
  | JArray "json list"
  | JObject "(string \<times> json) list"

subsection \<open>Strings\<close>

definition isHex :: "char \<Rightarrow> bool" where
  "isHex c = (isDigit c \<or> isHexLetter c)"

text \<open>After the opening quote: the bytes up to the closing quote, escapes unread, and the rest.\<close>

function rawString :: "string \<Rightarrow> (string \<times> string) option" where
  "rawString [] = None"
| "rawString (c # s) =
     (if c = CHR 0x22 then Some ([], s)
      else if c = CHR 0x5C then
        (case s of
           [] \<Rightarrow> None
         | e # t \<Rightarrow>
             if e = CHR ''u'' then
               (if 4 \<le> length t \<and> list_all isHex (take 4 t)
                then map_option (\<lambda>(raw, rest). (c # e # take 4 t @ raw, rest)) (rawString (drop 4 t))
                else None)
             else if e \<in> set [CHR ''b'', CHR ''f'', CHR ''n'', CHR ''r'', CHR ''t'', CHR 0x5C, CHR ''/'', CHR 0x22]
             then map_option (\<lambda>(raw, rest). (c # e # raw, rest)) (rawString t)
             else None)
      else if byte c < 32 then None
      else map_option (\<lambda>(raw, rest). (c # raw, rest)) (rawString s))"
  by pat_completeness auto
termination
  by (relation "measure length") auto

declare rawString.simps [simp del]

definition hex4 :: "string \<Rightarrow> int" where
  "hex4 h = fold (\<lambda>c n. 16 * n + digitVal c) (take 4 h) 0"

text \<open>\<^verbatim>\<open>getu4\<close>: the code unit of a \<^verbatim>\<open>\uXXXX\<close>, or -1.\<close>

definition getu4 :: "string \<Rightarrow> int" where
  "getu4 s =
     (if 6 \<le> length s \<and> take 2 s = [CHR 0x5C, CHR ''u''] \<and> list_all isHex (take 4 (drop 2 s))
      then hex4 (drop 2 s) else - 1)"

text \<open>\<^verbatim>\<open>utf8.EncodeRune\<close>.\<close>

definition encodeRune :: "int \<Rightarrow> string" where
  "encodeRune r =
     (let r = (if r < 0 \<or> 1114111 < r \<or> (55296 \<le> r \<and> r \<le> 57343) then runeError else r)
      in map char_of
       (if r < 128 then [r]
        else if r < 2048 then [192 + r div 64, 128 + r mod 64]
        else if r < 65536 then [224 + r div 4096, 128 + r div 64 mod 64, 128 + r mod 64]
        else [240 + r div 262144, 128 + r div 4096 mod 64, 128 + r div 64 mod 64, 128 + r mod 64]))"

definition simpleEscape :: "char \<Rightarrow> char" where
  "simpleEscape e =
     (if e = CHR ''b'' then CHR 0x08 else if e = CHR ''f'' then CHR 0x0C else if e = CHR ''n'' then CHR 0x0A
      else if e = CHR ''r'' then CHR 0x0D else if e = CHR ''t'' then CHR 0x09 else e)"

text \<open>The bytes a string between its quotes stands for.\<close>

function unquote :: "string \<Rightarrow> string" where
  "unquote [] = []"
| "unquote (c # s) =
     (if c = CHR 0x5C then
        (if s = [] then []
         else if hd s = CHR ''u'' then
           (let rr = getu4 (c # s); rest = drop 5 s in
            if 55296 \<le> rr \<and> rr \<le> 57343 then
              (let rr1 = getu4 rest in
               if rr < 56320 \<and> 56320 \<le> rr1 \<and> rr1 \<le> 57343
               then encodeRune ((rr - 55296) * 1024 + (rr1 - 56320) + 65536) @ unquote (drop 6 rest)
               else encodeRune runeError @ unquote rest)
            else encodeRune rr @ unquote rest)
         else simpleEscape (hd s) # unquote (tl s))
      else if byte c < 128 then c # unquote s
      else case decodeRune (c # s) of (rr, n) \<Rightarrow> encodeRune rr @ unquote (drop (n - 1) s))"
  by pat_completeness auto
termination
  by (relation "measure length") auto

declare unquote.simps [simp del]

subsection \<open>Values\<close>

definition jsonSkip :: "string \<Rightarrow> string" where
  "jsonSkip s = dropWhile (\<lambda>c. c \<in> set [CHR 0x20, CHR 0x09, CHR 0x0D, CHR 0x0A]) s"

text \<open>The digits at the front, at least one, and the rest.\<close>

definition digits1 :: "string \<Rightarrow> (string \<times> string) option" where
  "digits1 s = (if takeWhile isDigit s = [] then None else Some (takeWhile isDigit s, dropWhile isDigit s))"

definition jsonInteger :: "string \<Rightarrow> (string \<times> string) option" where
  "jsonInteger s =
     (case s of CHR ''0'' # t \<Rightarrow> Some (''0'', t) | _ \<Rightarrow> digits1 s)"

definition jsonFraction :: "string \<Rightarrow> (string \<times> string) option" where
  "jsonFraction s =
     (case s of CHR ''.'' # t \<Rightarrow> map_option (\<lambda>(ds, r). (CHR ''.'' # ds, r)) (digits1 t) | _ \<Rightarrow> Some ([], s))"

definition jsonExponent :: "string \<Rightarrow> (string \<times> string) option" where
  "jsonExponent s =
     (case s of
        [] \<Rightarrow> Some ([], [])
      | e # t \<Rightarrow>
          if e \<in> {CHR ''e'', CHR ''E''}
          then (case t of
                  g # u \<Rightarrow> if g \<in> {CHR ''+'', CHR ''-''} then map_option (\<lambda>(ds, r). (e # g # ds, r)) (digits1 u)
                           else map_option (\<lambda>(ds, r). (e # ds, r)) (digits1 t)
                | [] \<Rightarrow> None)
          else Some ([], s))"

definition jsonNumber :: "string \<Rightarrow> (string \<times> string) option" where
  "jsonNumber s =
     (let (sign, t) = (case s of CHR ''-'' # t \<Rightarrow> (''-'', t) | _ \<Rightarrow> ([], s))
      in case jsonInteger t of
           None \<Rightarrow> None
         | Some (i, t) \<Rightarrow>
             (case jsonFraction t of
                None \<Rightarrow> None
              | Some (f, t) \<Rightarrow>
                  (case jsonExponent t of
                     None \<Rightarrow> None
                   | Some (e, t) \<Rightarrow> Some (sign @ i @ f @ e, t))))"

definition jsonScalar :: "string \<Rightarrow> (json \<times> string) option" where
  "jsonScalar s =
     (if prefix ''null'' s then Some (JNull, drop 4 s)
      else if prefix ''true'' s then Some (JBool True, drop 4 s)
      else if prefix ''false'' s then Some (JBool False, drop 5 s)
      else map_option (\<lambda>(n, r). (JNumber n, r)) (jsonNumber s))"

text \<open>
  A value, the members of an object after its brace or a comma, the elements of an array after its
  bracket or a comma. The first argument is fuel, one unit a call: two calls in a row read at least one
  character, so twice the length of the text and two is enough (\<open>json_fuel\<close>). The second is how
  much deeper the text may nest.
\<close>

fun jsonValue :: "nat \<Rightarrow> nat \<Rightarrow> string \<Rightarrow> (json \<times> string) option"
  and jsonMembers :: "nat \<Rightarrow> nat \<Rightarrow> string \<Rightarrow> ((string \<times> json) list \<times> string) option"
  and jsonElements :: "nat \<Rightarrow> nat \<Rightarrow> string \<Rightarrow> (json list \<times> string) option" where
  "jsonValue 0 d s = None"
| "jsonValue (Suc n) d s =
     (case jsonSkip s of
        [] \<Rightarrow> None
      | c # t \<Rightarrow>
          if c = CHR 0x22 then map_option (\<lambda>(raw, r). (JString (unquote raw), r)) (rawString t)
          else if c = CHR ''{'' then
            (if d = 0 then None
             else if jsonSkip t \<noteq> [] \<and> hd (jsonSkip t) = CHR ''}'' then Some (JObject [], tl (jsonSkip t))
             else map_option (\<lambda>(ms, r). (JObject ms, r)) (jsonMembers n (d - 1) t))
          else if c = CHR ''['' then
            (if d = 0 then None
             else if jsonSkip t \<noteq> [] \<and> hd (jsonSkip t) = CHR '']'' then Some (JArray [], tl (jsonSkip t))
             else map_option (\<lambda>(vs, r). (JArray vs, r)) (jsonElements n (d - 1) t))
          else jsonScalar (c # t))"
| "jsonMembers 0 d s = None"
| "jsonMembers (Suc n) d s =
     (case jsonSkip s of
        [] \<Rightarrow> None
      | q # t \<Rightarrow>
          if q \<noteq> CHR 0x22 then None
          else case rawString t of
            None \<Rightarrow> None
          | Some (raw, r) \<Rightarrow>
              (case jsonSkip r of
                 [] \<Rightarrow> None
               | colon # u \<Rightarrow>
                   if colon \<noteq> CHR '':'' then None
                   else case jsonValue n d u of
                     None \<Rightarrow> None
                   | Some (v, r) \<Rightarrow>
                       (case jsonSkip r of
                          [] \<Rightarrow> None
                        | e # w \<Rightarrow>
                            if e = CHR ''}'' then Some ([(unquote raw, v)], w)
                            else if e = CHR '','' then
                              map_option (\<lambda>(ms, r). ((unquote raw, v) # ms, r)) (jsonMembers n d w)
                            else None)))"
| "jsonElements 0 d s = None"
| "jsonElements (Suc n) d s =
     (case jsonValue n d s of
        None \<Rightarrow> None
      | Some (v, r) \<Rightarrow>
          (case jsonSkip r of
             [] \<Rightarrow> None
           | e # w \<Rightarrow>
               if e = CHR '']'' then Some ([v], w)
               else if e = CHR '','' then map_option (\<lambda>(vs, r). (v # vs, r)) (jsonElements n d w)
               else None))"

text \<open>A whole text, within the package's nesting limit.\<close>

definition jsonParse :: "string \<Rightarrow> json option" where
  "jsonParse s =
     (case jsonValue (2 * length s + 2) 10000 s of
        None \<Rightarrow> None
      | Some (v, r) \<Rightarrow> if jsonSkip r = [] then Some v else None)"

text \<open>
  \<^verbatim>\<open>Unmarshal\<close> into a struct of string fields: the last string of each field, \<^verbatim>\<open>null\<close> and
  unknown members left out; any other value for a field is an error, as is a text that is neither an
  object nor \<^verbatim>\<open>null\<close>.
\<close>

definition fieldFor :: "string list \<Rightarrow> string \<Rightarrow> string option" where
  "fieldFor names key =
     (case find (\<lambda>n. n = key) names of Some n \<Rightarrow> Some n | None \<Rightarrow> find (\<lambda>n. equalFold n key) names)"

primrec assignMembers :: "string list \<Rightarrow> (string \<times> json) list \<Rightarrow> fields \<Rightarrow> fields option" where
  "assignMembers names [] m = Some m"
| "assignMembers names (kv # kvs) m =
     (case fieldFor names (fst kv) of
        None \<Rightarrow> assignMembers names kvs m
      | Some f \<Rightarrow>
          (case snd kv of
             JNull \<Rightarrow> assignMembers names kvs m
           | JString s \<Rightarrow> assignMembers names kvs ((f, s) # m)
           | _ \<Rightarrow> None))"

definition unmarshalStrings :: "string list \<Rightarrow> string \<Rightarrow> fields option" where
  "unmarshalStrings names s =
     (case jsonParse s of
        Some JNull \<Rightarrow> Some []
      | Some (JObject kvs) \<Rightarrow> assignMembers names kvs []
      | _ \<Rightarrow> None)"

subsection \<open>Reading back plain objects\<close>

text \<open>Text that needs no escapes, and an object of such strings the way an encoder without spaces writes it.\<close>

definition plainText :: "string \<Rightarrow> bool" where
  "plainText s = list_all (\<lambda>c. 32 \<le> byte c \<and> byte c < 128 \<and> c \<noteq> CHR 0x22 \<and> c \<noteq> CHR 0x5C) s"

definition quoted :: "string \<Rightarrow> string" where
  "quoted s = CHR 0x22 # s @ [CHR 0x22]"

definition memberText :: "string \<times> string \<Rightarrow> string" where
  "memberText kv = quoted (fst kv) @ CHR '':'' # quoted (snd kv)"

definition objectText :: "fields \<Rightarrow> string" where
  "objectText kvs = CHR ''{'' # joinWith '','' (map memberText kvs) @ ''}''"

definition stringMembers :: "fields \<Rightarrow> (string \<times> json) list" where
  "stringMembers kvs = map (\<lambda>(k, v). (k, JString v)) kvs"

lemma plainText_simps [simp]:
  "plainText []"
  "plainText (c # s) \<longleftrightarrow> 32 \<le> byte c \<and> byte c < 128 \<and> c \<noteq> CHR 0x22 \<and> c \<noteq> CHR 0x5C \<and> plainText s"
  by (auto simp: plainText_def)

lemma rawString_plain: "plainText s \<Longrightarrow> rawString (s @ CHR 0x22 # t) = Some (s, t)"
  by (induction s) (simp_all add: rawString.simps)

lemma unquote_plain: "plainText s \<Longrightarrow> unquote s = s"
  by (induction s) (simp_all add: unquote.simps)

lemma jsonSkip_simps [simp]:
  "jsonSkip (CHR 0x22 # s) = CHR 0x22 # s" "jsonSkip (CHR '':'' # s) = CHR '':'' # s"
  "jsonSkip (CHR '','' # s) = CHR '','' # s" "jsonSkip (CHR ''{'' # s) = CHR ''{'' # s"
  "jsonSkip (CHR ''}'' # s) = CHR ''}'' # s" "jsonSkip [] = []"
  by (simp_all add: jsonSkip_def)

lemma jsonValue_quoted:
  assumes "plainText s"
  shows "jsonValue (Suc n) d (quoted s @ t) = Some (JString s, t)"
  using assms by (simp add: quoted_def rawString_plain unquote_plain)

lemma jsonMembers_step:
  assumes "plainText k" "plainText v" "e = CHR ''}'' \<or> e = CHR '',''"
  shows "jsonMembers (Suc (Suc m)) d (memberText (k, v) @ e # w) =
     (if e = CHR ''}'' then Some ([(k, JString v)], w)
      else map_option (\<lambda>(ms, r). ((k, JString v) # ms, r)) (jsonMembers (Suc m) d w))"
proof -
  have txt_eq: "memberText (k, v) @ e # w = CHR 0x22 # k @ CHR 0x22 # CHR '':'' # quoted v @ e # w"
    by (simp add: memberText_def quoted_def)
  have skip: "jsonSkip (e # w) = e # w"
    using assms(3) by auto
  show ?thesis
    unfolding txt_eq
    using assms(3) by (subst jsonMembers.simps(2))
       (auto simp: rawString_plain unquote_plain jsonValue_quoted assms(1,2) skip
          simp del: jsonValue.simps jsonMembers.simps)
qed

lemma jsonMembers_plain:
  assumes "kvs \<noteq> []" "\<forall>(k, v)\<in>set kvs. plainText k \<and> plainText v" "length kvs < n"
  shows "jsonMembers n d (joinWith '','' (map memberText kvs) @ CHR ''}'' # t) = Some (stringMembers kvs, t)"
  using assms
proof (induction kvs arbitrary: n)
  case (Cons kv kvs)
  obtain k v where kv: "kv = (k, v)" by (cases kv)
  obtain m where n: "n = Suc (Suc m)" using Cons.prems(3) by (cases n; cases "n - 1") auto
  have plain: "plainText k" "plainText v" using Cons.prems(2) by (simp_all add: kv)
  show ?case
  proof (cases kvs)
    case Nil
    then show ?thesis
      using jsonMembers_step [OF plain, of "CHR ''}''"] by (simp add: n stringMembers_def kv del: jsonMembers.simps)
  next
    case (Cons kv' kvs')
    have rest: "jsonMembers (Suc m) d (joinWith '','' (map memberText kvs) @ CHR ''}'' # t) = Some (stringMembers kvs, t)"
      using Cons.IH [of "Suc m"] Cons.prems Cons n by auto
    have "joinWith '','' (map memberText (kv # kvs)) @ CHR ''}'' # t =
        memberText (k, v) @ CHR '','' # joinWith '','' (map memberText kvs) @ CHR ''}'' # t"
      by (simp add: Cons kv)
    then show ?thesis
      using jsonMembers_step [OF plain, of "CHR '',''" m d] rest
      by (simp add: n stringMembers_def kv del: jsonMembers.simps)
  qed
qed simp

lemma length_joinWith: "length ps \<le> Suc (length (joinWith [c] ps))"
  by (induction "[c]" ps rule: joinWith.induct) auto

lemma jsonParse_object:
  assumes "\<forall>(k, v)\<in>set kvs. plainText k \<and> plainText v"
  shows "jsonParse (objectText kvs) = Some (JObject (stringMembers kvs))"
proof (cases kvs)
  case Nil
  then show ?thesis by (simp add: jsonParse_def objectText_def stringMembers_def eval_nat_numeral)
next
  case (Cons kv kvs')
  let ?body = "joinWith '','' (map memberText kvs)"
  have "length kvs < 2 * length (objectText kvs) + 1"
    using length_joinWith [of "map memberText kvs" "CHR '',''"] by (simp add: objectText_def)
  note members = jsonMembers_plain [OF _ assms this, of 9999 "[]"]
  obtain x where "?body @ ''}'' = CHR 0x22 # x"
    by (cases kvs') (auto simp: Cons memberText_def quoted_def)
  then have "jsonSkip (?body @ ''}'') = CHR 0x22 # x"
    by simp
  with members show ?thesis
    by (simp add: Cons jsonParse_def objectText_def del: jsonMembers.simps)
qed

text \<open>
  Unmarshalling such an object whose member names are lower case: the last value of each name.
\<close>

lemma fieldFor_lower:
  assumes "\<forall>n\<in>set names. toLower n = n" "toLower k = k"
  shows "fieldFor names k = (if k \<in> set names then Some k else None)"
proof -
  have "find (\<lambda>n. n = k) names = (if k \<in> set names then Some k else None)" for names :: "string list"
    by (induction names) auto
  moreover have "find (\<lambda>n. equalFold n k) names = None" if "k \<notin> set names"
    using assms that by (auto simp: find_None_iff equalFold_def)
  ultimately show ?thesis by (simp add: fieldFor_def)
qed

lemma assignMembers_strings:
  assumes "\<forall>n\<in>set names. toLower n = n" "\<forall>(k, v)\<in>set kvs. toLower k = k"
  shows "assignMembers names (stringMembers kvs) m = Some (rev (filter (\<lambda>kv. fst kv \<in> set names) kvs) @ m)"
  using assms(2)
  by (induction kvs arbitrary: m) (auto simp: stringMembers_def fieldFor_lower [OF assms(1)])

lemma unmarshalStrings_object:
  assumes "\<forall>n\<in>set names. toLower n = n" "\<forall>(k, v)\<in>set kvs. plainText k \<and> plainText v \<and> toLower k = k"
  shows "unmarshalStrings names (objectText kvs) = Some (rev (filter (\<lambda>kv. fst kv \<in> set names) kvs))"
proof -
  have "jsonParse (objectText kvs) = Some (JObject (stringMembers kvs))"
    using assms(2) by (intro jsonParse_object) auto
  moreover have "assignMembers names (stringMembers kvs) [] = Some (rev (filter (\<lambda>kv. fst kv \<in> set names) kvs) @ [])"
    using assms by (intro assignMembers_strings) auto
  ultimately show ?thesis by (simp add: unmarshalStrings_def)
qed

lemma field_filter: "k \<in> set names \<Longrightarrow> field (filter (\<lambda>kv. fst kv \<in> set names) m) k = field m k"
  by (induction m) auto

subsection \<open>The fuel is enough\<close>

lemma rawString_shorter: "rawString s = Some (raw, r) \<Longrightarrow> length r < length s"
proof (induction "length s" arbitrary: s raw rule: less_induct)
  case less
  have shorter: "length r < length s" if "rawString t = Some (raw', r)" "length t < length s" for t raw'
    using less.hyps [OF that(2,1)] that(2) by simp
  show ?case
  proof (cases s)
    case Nil
    then show ?thesis using less.prems by (simp add: rawString.simps)
  next
    case (Cons c t)
    consider "c = CHR 0x22" | "c = CHR 0x5C" | "c \<noteq> CHR 0x22" "c \<noteq> CHR 0x5C"
      by blast
    then show ?thesis
    proof cases
      case 1
      then show ?thesis using less.prems Cons by (simp add: rawString.simps(2))
    next
      case 2
      note escape = 2
      show ?thesis
      proof (cases t)
        case Nil
        then show ?thesis using less.prems Cons escape by (simp add: rawString.simps(2))
      next
        case (Cons e u)
        have "rawString (c # e # u) = Some (raw, r)"
          using less.prems \<open>s = c # t\<close> Cons by simp
        then have "\<exists>raw'. rawString (if e = CHR ''u'' then drop 4 u else u) = Some (raw', r)"
          using escape by (simp add: rawString.simps(2) split: if_split_asm) auto
        then show ?thesis
          using shorter \<open>s = c # t\<close> Cons by (auto split: if_split_asm)
      qed
    next
      case 3
      then have "\<exists>raw'. rawString t = Some (raw', r)"
        using less.prems Cons by (auto simp: rawString.simps(2) split: if_split_asm)
      then show ?thesis using shorter Cons by auto
    qed
  qed
qed

lemma jsonSkip_le: "length (jsonSkip s) \<le> length s"
  by (simp add: jsonSkip_def length_dropWhile_le)

lemma digits1_shorter: "digits1 s = Some (ds, r) \<Longrightarrow> length r < length s"
proof -
  assume "digits1 s = Some (ds, r)"
  then have "takeWhile isDigit s \<noteq> []" "r = dropWhile isDigit s"
    by (auto simp: digits1_def split: if_splits)
  moreover have "length s = length (takeWhile isDigit s) + length (dropWhile isDigit s)"
    by (metis length_append takeWhile_dropWhile_id)
  ultimately show ?thesis by simp
qed

lemma jsonInteger_shorter: "jsonInteger s = Some (i, r) \<Longrightarrow> length r < length s"
  by (auto simp: jsonInteger_def dest: digits1_shorter split: list.splits char.splits bool.splits)

lemma jsonFraction_le: "jsonFraction s = Some (i, r) \<Longrightarrow> length r \<le> length s"
  by (auto simp: jsonFraction_def dest!: digits1_shorter split: list.splits char.splits bool.splits)

lemma jsonExponent_le: "jsonExponent s = Some (i, r) \<Longrightarrow> length r \<le> length s"
  by (auto simp: jsonExponent_def dest!: digits1_shorter split: list.splits if_splits)

lemma jsonNumber_shorter: "jsonNumber s = Some (i, r) \<Longrightarrow> length r < length s"
  by (auto simp: jsonNumber_def Let_def dest!: jsonInteger_shorter jsonFraction_le jsonExponent_le
      split: list.splits char.splits bool.splits option.splits)

lemma jsonScalar_shorter: "jsonScalar s = Some (v, r) \<Longrightarrow> length r < length s"
  by (auto simp: jsonScalar_def prefix_def dest: jsonNumber_shorter split: if_splits)

text \<open>Every function returns less than it was given.\<close>

lemma jsonSkip_Cons: "jsonSkip s = c # t \<Longrightarrow> length t < length s"
  using jsonSkip_le [of s] by simp

lemma jsonSkip_tl: "jsonSkip s \<noteq> [] \<Longrightarrow> length (tl (jsonSkip s)) < length s"
  by (cases "jsonSkip s") (auto dest: jsonSkip_Cons)

lemma json_shorter:
  "jsonValue n d s = Some (v, r) \<Longrightarrow> length r < length s"
  "jsonMembers n d s = Some (ms, r) \<Longrightarrow> length r < length s"
  "jsonElements n d s = Some (vs, r) \<Longrightarrow> length r < length s"
proof (induction n arbitrary: d s v ms vs r)
  case 0
  { case 1 then show ?case by simp }
  { case 2 then show ?case by simp }
  { case 3 then show ?case by simp }
next
  case (Suc n)
  note IH = Suc.IH
  { case 1
    then obtain c t where skip: "jsonSkip s = c # t"
      by (auto split: list.splits)
    note shorter = jsonSkip_Cons [OF skip]
    show ?case
    proof (cases "c = CHR 0x22")
      case True
      with 1 skip shorter show ?thesis by (auto dest: rawString_shorter)
    next
      case string: False
      show ?thesis
      proof (cases "c \<in> {CHR ''{'', CHR ''[''}")
        case True
        then have "(jsonSkip t \<noteq> [] \<and> r = tl (jsonSkip t)) \<or> (\<exists>ms. jsonMembers n (d - 1) t = Some (ms, r)) \<or>
            (\<exists>vs. jsonElements n (d - 1) t = Some (vs, r))"
          using 1 skip by (auto split: if_split_asm)
        then show ?thesis
          using IH(2) [of "d - 1" t] IH(3) [of "d - 1" t] jsonSkip_tl [of t] shorter by fastforce
      next
        case False
        then have "jsonScalar (c # t) = Some (v, r)"
          using 1 skip string by (auto split: if_split_asm)
        then show ?thesis using jsonScalar_shorter skip jsonSkip_le [of s] by fastforce
      qed
    qed
  next
    case 2
    then obtain q t raw u colon u' v' x e w where
      "jsonSkip s = q # t" "rawString t = Some (raw, u)" "jsonSkip u = colon # u'"
      "jsonValue n d u' = Some (v', x)" "jsonSkip x = e # w"
      and r: "r = w \<or> (\<exists>ms. jsonMembers n d w = Some (ms, r))"
      by (auto split: list.splits option.splits if_split_asm)
    then have "length w < length s"
      using IH(1) [of d u'] by (fastforce dest!: jsonSkip_Cons rawString_shorter)
    then show ?case using r IH(2) [of d w] by fastforce
  next
    case 3
    then obtain v' x e w where "jsonValue n d s = Some (v', x)" "jsonSkip x = e # w"
      and r: "r = w \<or> (\<exists>vs. jsonElements n d w = Some (vs, r))"
      by (auto split: list.splits option.splits if_split_asm)
    then have "length w < length s"
      using IH(1) [of d s] by (fastforce dest!: jsonSkip_Cons)
    then show ?case using r IH(3) [of d w] by fastforce
  }
qed

text \<open>
  With twice the length of the text and one unit of fuel for a value or the members of an object,
  and one more for the elements of an array, more fuel makes no difference.
\<close>

lemma json_fuel_mono:
  "2 * length s < n \<Longrightarrow> jsonValue (Suc n) d s = jsonValue n d s"
  "2 * length s < n \<Longrightarrow> jsonMembers (Suc n) d s = jsonMembers n d s"
  "2 * length s + 1 < n \<Longrightarrow> jsonElements (Suc n) d s = jsonElements n d s"
proof (induction n arbitrary: d s)
  case 0
  { case 1 then show ?case by simp }
  { case 2 then show ?case by simp }
  { case 3 then show ?case by simp }
next
  case (Suc n)
  note IH = Suc.IH
  { case 1
    have "jsonMembers (Suc n) e t = jsonMembers n e t" "jsonElements (Suc n) e t = jsonElements n e t"
      if "jsonSkip s = c # t" for c t e
      using jsonSkip_Cons [OF that] 1 by (intro IH; simp)+
    then show ?case
      by (simp del: jsonMembers.simps jsonElements.simps split: list.split)
  next
    case 2
    have value_ok: "jsonValue (Suc n) d u' = jsonValue n d u'"
      if "jsonSkip s = q # t" "rawString t = Some (raw, u)" "jsonSkip u = colon # u'" for q t raw u colon u'
      using jsonSkip_Cons [OF that(1)] rawString_shorter [OF that(2)] jsonSkip_Cons [OF that(3)] 2
      by (intro IH(1)) simp
    have rest_ok: "jsonMembers (Suc n) d w = jsonMembers n d w"
      if "jsonSkip s = q # t" "rawString t = Some (raw, u)" "jsonSkip u = colon # u'"
        "jsonValue n d u' = Some (v, x)" "jsonSkip x = e # w" for q t raw u colon u' v x e w
      using jsonSkip_Cons [OF that(1)] rawString_shorter [OF that(2)] jsonSkip_Cons [OF that(3)]
        json_shorter(1) [OF that(4)] jsonSkip_Cons [OF that(5)] 2
      by (intro IH(2)) simp
    show ?case
      by (subst (1 2) jsonMembers.simps(2))
         (simp add: value_ok rest_ok del: jsonValue.simps jsonMembers.simps split: list.split option.split)
  next
    case 3
    have value_ok: "jsonValue (Suc n) d s = jsonValue n d s"
      using 3 by (intro IH(1)) simp
    have rest_ok: "jsonElements (Suc n) d w = jsonElements n d w"
      if "jsonValue n d s = Some (v, x)" "jsonSkip x = e # w" for v x e w
      using json_shorter(1) [OF that(1)] jsonSkip_Cons [OF that(2)] 3
      by (intro IH(3)) simp
    show ?case
      by (subst (1 2) jsonElements.simps(2))
         (simp add: value_ok rest_ok del: jsonValue.simps jsonElements.simps split: list.split option.split)
  }
qed

lemma json_fuel: "jsonValue (2 * length s + 2 + k) d s = jsonValue (2 * length s + 2) d s"
proof (induction k)
  case (Suc k)
  then show ?case using json_fuel_mono(1) [of s "2 * length s + 2 + k" d] by simp
qed simp

end
