(* ===== verification/Fdb.thy ===== *)
theory Fdb
  imports Counters GoJson
begin

text \<open>
  \<^verbatim>\<open>fdb_collector.go\<close>: how many MAC addresses the switch has learned, by VLAN, by port and by
  type of entry. The keys of the entries in \<^verbatim>\<open>ASIC_DB\<close> hold JSON objects; VLANs and ports are
  object identifiers there, which two maps built first translate into names.
\<close>

definition asciiFDBEntryPrefix :: string where
  "asciiFDBEntryPrefix = ''ASIC_STATE:SAI_OBJECT_TYPE_FDB_ENTRY:''"

definition asciiVLANObjectPrefix :: string where
  "asciiVLANObjectPrefix = ''ASIC_STATE:SAI_OBJECT_TYPE_VLAN:''"

definition asciiBridgePortPrefix :: string where
  "asciiBridgePortPrefix = ''ASIC_STATE:SAI_OBJECT_TYPE_BRIDGE_PORT:''"

record fdbCollectorConfig =
  fdb_enabled :: bool
  fdb_refreshInterval :: duration
  fdb_timeout :: duration
  fdb_maxEntries :: int
  fdb_maxPorts :: int
  fdb_maxVlans :: int
  fdb_redisScanCount :: int

record fdbCollector = truncState +
  fdb_config :: fdbCollectorConfig
  fdb_filter :: metricFilter

record fdbEntryKey =
  Bvid :: string
  Vlan :: string
  Mac :: string

subsection \<open>Construction\<close>

definition fdbEntries :: desc where [desc_defs]:
  "fdbEntries = NewDesc ''sonic'' ''fdb'' ''entries''
     ''Number of FDB entries'' []"

definition fdbEntriesByPort :: desc where [desc_defs]:
  "fdbEntriesByPort = NewDesc ''sonic'' ''fdb'' ''entries_by_port''
     ''Number of FDB entries by port'' [''port'']"

definition fdbEntriesByVlan :: desc where [desc_defs]:
  "fdbEntriesByVlan = NewDesc ''sonic'' ''fdb'' ''entries_by_vlan''
     ''Number of FDB entries by VLAN'' [''vlan'']"

definition fdbEntriesByType :: desc where [desc_defs]:
  "fdbEntriesByType = NewDesc ''sonic'' ''fdb'' ''entries_by_type''
     ''Number of FDB entries by entry type'' [''entry_type'']"

definition fdbEntriesUnknownVlan :: desc where [desc_defs]:
  "fdbEntriesUnknownVlan = NewDesc ''sonic'' ''fdb'' ''entries_unknown_vlan''
     ''Number of FDB entries with unknown VLAN mapping'' []"

definition fdbEntriesTruncated :: desc where [desc_defs]:
  "fdbEntriesTruncated = NewDesc ''sonic'' ''fdb'' ''entries_truncated''
     ''Whether FDB collection hit max entries limit (1=yes, 0=no)'' []"

definition fdbEntriesSkipped :: desc where [desc_defs]:
  "fdbEntriesSkipped = NewDesc ''sonic'' ''fdb'' ''entries_skipped''
     ''Number of FDB entries skipped during latest refresh'' []"

definition fdbScrapeDuration :: desc where [desc_defs]:
  "fdbScrapeDuration = NewDesc ''sonic'' ''fdb'' ''scrape_duration_seconds''
     ''Time it took for exporter to refresh FDB metrics'' []"

definition fdbScrapeCollectorSuccess :: desc where [desc_defs]:
  "fdbScrapeCollectorSuccess = NewDesc ''sonic'' ''fdb'' ''collector_success''
     ''Whether FDB collector succeeded'' []"

definition fdbCacheAge :: desc where [desc_defs]:
  "fdbCacheAge = NewDesc ''sonic'' ''fdb'' ''cache_age_seconds''
     ''Age of latest FDB cache refresh'' []"

definition loadFdbCollectorConfig :: "env \<Rightarrow> fdbCollectorConfig" where
  "loadFdbCollectorConfig env =
     \<lparr>fdb_enabled = parseBoolEnv env ''FDB_ENABLED'' False,
      fdb_refreshInterval = parseDurationEnv env ''FDB_REFRESH_INTERVAL'' (60 * second),
      fdb_timeout = parseDurationEnv env ''FDB_TIMEOUT'' (2 * second),
      fdb_maxEntries = parseIntEnv env ''FDB_MAX_ENTRIES'' 50000,
      fdb_maxPorts = parseIntEnv env ''FDB_MAX_PORTS'' 1024,
      fdb_maxVlans = parseIntEnv env ''FDB_MAX_VLANS'' 4096,
      fdb_redisScanCount = 256\<rparr>"

definition fdb_new :: "env \<Rightarrow> metricFilter \<Rightarrow> fdbCollector" where
  "fdb_new env flt =
     \<lparr>cachedMetrics = [], lastSuccess = f64_0, lastScrapeDuration = f64_0, lastRefreshTime = 0,
      lastSkippedEntries = f64_0, lastTruncated = f64_0,
      fdb_config = loadFdbCollectorConfig env, fdb_filter = flt\<rparr>"

definition fdb_IsEnabled :: "fdbCollector \<Rightarrow> bool" where
  "fdb_IsEnabled c = fdb_enabled (fdb_config c)"

definition fdb_Describe :: "desc list" where
  "fdb_Describe =
     [fdbEntries,
      fdbEntriesByPort,
      fdbEntriesByVlan,
      fdbEntriesByType,
      fdbEntriesUnknownVlan,
      fdbEntriesTruncated,
      fdbEntriesSkipped,
      fdbScrapeDuration,
      fdbScrapeCollectorSuccess,
      fdbCacheAge]"

subsection \<open>Keys and labels\<close>

definition parseFDBKey :: "string \<Rightarrow> goerr + fdbEntryKey" where
  "parseFDBKey fdbKey =
     (let payload = trimPrefix fdbKey asciiFDBEntryPrefix
      in if payload = [] \<or> payload = fdbKey then Inl (Errorf ''fdb key has invalid format'' [])
         else case unmarshalStrings [''bvid'', ''vlan'', ''mac''] payload of
           None \<Rightarrow> Inl (Errorf ''json'' [])
         | Some m \<Rightarrow>
             if field m ''mac'' = [] then Inl (Errorf ''missing mac in fdb key'' [])
             else Inr \<lparr>Bvid = field m ''bvid'', Vlan = field m ''vlan'', Mac = field m ''mac''\<rparr>)"

definition resolveFDBVLANLabel :: "fdbEntryKey \<Rightarrow> fields \<Rightarrow> string \<times> bool" where
  "resolveFDBVLANLabel entryKey bvidToVlan =
     (let vlanLabel = trimSpace (Vlan entryKey)
      in if vlanLabel \<noteq> [] then (vlanLabel, False)
         else
           let vlanLabel = field bvidToVlan (trimSpace (Bvid entryKey))
           in if vlanLabel \<noteq> [] then (vlanLabel, False) else (''unknown'', True))"

definition normalizeFDBType :: "string \<Rightarrow> string" where
  "normalizeFDBType rawValue = trimPrefix (trimSpace (toLower rawValue)) ''sai_fdb_entry_type_''"

subsection \<open>Scraping Redis\<close>

text \<open>An assignment \<^verbatim>\<open>m[k] = v\<close> to a map that is only read by key.\<close>

definition assign :: "string \<Rightarrow> string \<Rightarrow> fields \<Rightarrow> fields" where
  "assign k v m = (k, v) # m"

definition portOidToNameMap :: "'s redisLib \<Rightarrow> redisConfig \<Rightarrow> ('s, fields) rio" where
  "portOidToNameMap lib cfg =
     io_bind (io_wrap ''failed to read COUNTERS_PORT_NAME_MAP: %w'' []
                (HgetAllFromDb lib cfg ''COUNTERS_DB'' ''COUNTERS_PORT_NAME_MAP'')) (\<lambda>portNameMap.
     io_bind (io_wrap ''failed to read COUNTERS_LAG_NAME_MAP: %w'' []
                (HgetAllFromDb lib cfg ''COUNTERS_DB'' ''COUNTERS_LAG_NAME_MAP'')) (\<lambda>lagNameMap.
     let oidToName = fold (\<lambda>(name, oid). assign oid name) portNameMap []
     in io_return (fold (\<lambda>(name, oid). assign oid name) lagNameMap oidToName)))"

definition fdb_vlanObject ::
  "'s redisLib \<Rightarrow> redisConfig \<Rightarrow> nat \<Rightarrow> string \<Rightarrow> fields \<times> int \<Rightarrow> ('s, (fields \<times> int) loop) rio" where
  "fdb_vlanObject lib cfg index vlanKey acc =
     (case acc of (bvidToVlan, skippedEntries) \<Rightarrow>
        let bvid = trimPrefix vlanKey asciiVLANObjectPrefix
        in if bvid = [] \<or> bvid = vlanKey then io_return (Continue (bvidToVlan, skippedEntries + 1))
           else
             io_bind (io_wrap ''failed to read VLAN object %s: %w'' [vlanKey]
                        (HgetAllFromDb lib cfg ''ASIC_DB'' vlanKey)) (\<lambda>vlanData.
             let vlanID = trimSpace (field vlanData ''SAI_VLAN_ATTR_VLAN_ID'')
             in if vlanID = [] then io_return (Continue (bvidToVlan, skippedEntries + 1))
                else io_return (Continue (assign bvid vlanID bvidToVlan, skippedEntries))))"

definition bvidToVlanMap :: "'s redisLib \<Rightarrow> redisConfig \<Rightarrow> fdbCollector \<Rightarrow> ('s, fields \<times> int) rio" where
  "bvidToVlanMap lib cfg c =
     io_bind (io_wrap ''failed to scan VLAN object keys: %w'' []
                (ScanKeysFromDb lib cfg ''ASIC_DB'' (asciiVLANObjectPrefix @ ''*'')
                   (fdb_redisScanCount (fdb_config c)))) (\<lambda>vlanKeys.
     rangeLoop (fdb_vlanObject lib cfg) 0 vlanKeys ([], 0))"

definition fdb_bridgePort ::
  "'s redisLib \<Rightarrow> redisConfig \<Rightarrow> fields \<Rightarrow> nat \<Rightarrow> string \<Rightarrow> fields \<times> int
     \<Rightarrow> ('s, (fields \<times> int) loop) rio" where
  "fdb_bridgePort lib cfg portOidToName index bridgePortKey acc =
     (case acc of (bridgePortToPort, skippedEntries) \<Rightarrow>
        let bridgePortID = trimPrefix bridgePortKey asciiBridgePortPrefix
        in if bridgePortID = [] \<or> bridgePortID = bridgePortKey
           then io_return (Continue (bridgePortToPort, skippedEntries + 1))
           else
             io_bind (io_wrap ''failed to read bridge port %s: %w'' [bridgePortKey]
                        (HgetAllFromDb lib cfg ''ASIC_DB'' bridgePortKey)) (\<lambda>bridgePortData.
             let portID = field bridgePortData ''SAI_BRIDGE_PORT_ATTR_PORT_ID''
             in if portID = [] then io_return (Continue (bridgePortToPort, skippedEntries))
                else
                  let portName = field portOidToName portID
                  in if portName = [] then io_return (Continue (bridgePortToPort, skippedEntries + 1))
                     else io_return (Continue (assign bridgePortID portName bridgePortToPort, skippedEntries))))"

definition bridgePortToPortMap ::
  "'s redisLib \<Rightarrow> redisConfig \<Rightarrow> fdbCollector \<Rightarrow> fields \<Rightarrow> ('s, fields \<times> int) rio" where
  "bridgePortToPortMap lib cfg c portOidToName =
     io_bind (io_wrap ''failed to scan bridge port keys: %w'' []
                (ScanKeysFromDb lib cfg ''ASIC_DB'' (asciiBridgePortPrefix @ ''*'')
                   (fdb_redisScanCount (fdb_config c)))) (\<lambda>bridgePortKeys.
     rangeLoop (fdb_bridgePort lib cfg portOidToName) 0 bridgePortKeys ([], 0))"

text \<open>The counters the loop over the entries fills.\<close>

record fdbCounters =
  entriesTotal :: f64
  unknownVLANEntries :: f64
  entriesByVLAN :: counts
  entriesByPort :: counts
  entriesByType :: counts

type_synonym fdbAcc = "fdbCounters \<times> int \<times> f64"

definition fdb_entry ::
  "'s redisLib \<Rightarrow> redisConfig \<Rightarrow> fdbCollector \<Rightarrow> fields \<Rightarrow> fields \<Rightarrow> nat \<Rightarrow> nat \<Rightarrow> string \<Rightarrow> fdbAcc
     \<Rightarrow> ('s, fdbAcc loop) rio" where
  "fdb_entry lib cfg c bvidToVlan bridgePortToPort keyCount idx fdbKey acc =
     (case acc of (counters, skippedEntries, truncated) \<Rightarrow>
        if int idx \<ge> fdb_maxEntries (fdb_config c)
        then io_return (Break (counters, skippedEntries + (int keyCount - int idx), f64_1))
        else case parseFDBKey fdbKey of
          Inl err \<Rightarrow> io_return (Continue (counters, skippedEntries + 1, truncated))
        | Inr parsedKey \<Rightarrow>
            io_bind (io_wrap ''failed to read FDB entry %s: %w'' [fdbKey]
                       (HgetAllFromDb lib cfg ''ASIC_DB'' fdbKey)) (\<lambda>fdbData.
            if fdbData = [] then io_return (Continue (counters, skippedEntries + 1, truncated))
            else case resolveFDBVLANLabel parsedKey bvidToVlan of (vlanLabel, unknownVLAN) \<Rightarrow>
              let counters = (if unknownVLAN
                              then counters\<lparr>unknownVLANEntries := f64_add (unknownVLANEntries counters) f64_1\<rparr>
                              else counters);
                  entryType = normalizeFDBType (field fdbData ''SAI_FDB_ENTRY_ATTR_TYPE'');
                  entryType = (if entryType = [] then ''unknown'' else entryType);
                  portLabel = field bridgePortToPort (field fdbData ''SAI_FDB_ENTRY_ATTR_BRIDGE_PORT_ID'');
                  portLabel = (if portLabel = [] then ''unknown'' else portLabel)
              in io_return (Continue
                   (counters\<lparr>entriesTotal := f64_add (entriesTotal counters) f64_1,
                             entriesByVLAN := increment vlanLabel (entriesByVLAN counters),
                             entriesByPort := increment portLabel (entriesByPort counters),
                             entriesByType := increment entryType (entriesByType counters)\<rparr>,
                    skippedEntries, truncated))))"

text \<open>The loops over the VLANs and the ports, which stop at a limit, and the loop over the types.\<close>

definition fdb_emitLimited ::
  "(string \<Rightarrow> bool) \<Rightarrow> bool \<Rightarrow> desc \<Rightarrow> counts \<Rightarrow> int \<Rightarrow> nat \<Rightarrow> nat \<Rightarrow> string \<Rightarrow> metric list \<times> int
     \<Rightarrow> ('s, (metric list \<times> int) loop) rio" where
  "fdb_emitLimited labelOk guard d entries limit nameCount idx name acc =
     (case acc of (metrics, skippedEntries) \<Rightarrow>
        if int idx \<ge> limit then io_return (Break (metrics, skippedEntries + (int nameCount - int idx)))
        else io_bind (emit guard (MustNewConstMetric labelOk d GaugeValue (countOf entries name) [name]) metrics)
               (\<lambda>metrics. io_return (Continue (metrics, skippedEntries))))"

definition fdb_emitType ::
  "(string \<Rightarrow> bool) \<Rightarrow> bool \<Rightarrow> counts \<Rightarrow> nat \<Rightarrow> string \<Rightarrow> metric list \<Rightarrow> ('s, metric list loop) rio" where
  "fdb_emitType labelOk guard entries idx entryType metrics =
     io_bind (emit guard (MustNewConstMetric labelOk fdbEntriesByType GaugeValue (countOf entries entryType) [entryType])
                metrics) (\<lambda>metrics. io_return (Continue metrics))"

type_synonym fdbResult = "metric list \<times> int \<times> f64"

definition fdb_export ::
  "(string \<Rightarrow> bool) \<Rightarrow> fdbCollector \<Rightarrow> fdbAcc \<Rightarrow> ('s, fdbResult) rio" where
  "fdb_export labelOk c acc =
     (case acc of (counters, skippedEntries, truncated) \<Rightarrow>
       let on = Enabled (fdb_filter c) in
       io_bind (emit (on ''sonic_fdb_entries'')
                  (MustNewConstMetric labelOk fdbEntries GaugeValue (entriesTotal counters) []) []) (\<lambda>metrics.
       io_bind (emit (on ''sonic_fdb_entries_unknown_vlan'')
                  (MustNewConstMetric labelOk fdbEntriesUnknownVlan GaugeValue (unknownVLANEntries counters) [])
                  metrics) (\<lambda>metrics.
       let vlanNames = sortedMapKeys (entriesByVLAN counters) in
       io_bind (rangeLoop (fdb_emitLimited labelOk (on ''sonic_fdb_entries_by_vlan'') fdbEntriesByVlan
                  (entriesByVLAN counters) (fdb_maxVlans (fdb_config c)) (length vlanNames))
                  0 vlanNames (metrics, skippedEntries)) (\<lambda>acc.
       let portNames = sortedMapKeys (entriesByPort counters) in
       io_bind (rangeLoop (fdb_emitLimited labelOk (on ''sonic_fdb_entries_by_port'') fdbEntriesByPort
                  (entriesByPort counters) (fdb_maxPorts (fdb_config c)) (length portNames))
                  0 portNames acc) (\<lambda>acc.
       case acc of (metrics, skippedEntries) \<Rightarrow>
       io_bind (rangeLoop (fdb_emitType labelOk (on ''sonic_fdb_entries_by_type'') (entriesByType counters))
                  0 (sortedMapKeys (entriesByType counters)) metrics) (\<lambda>metrics.
       io_return (metrics, skippedEntries, truncated)))))))"

definition fdb_scrapeMetrics ::
  "(string \<Rightarrow> bool) \<Rightarrow> 's redisLib \<Rightarrow> fdbCollector \<Rightarrow> ('s, fdbResult) rio" where
  "fdb_scrapeMetrics labelOk lib c =
     withRedis lib (\<lambda>cfg.
       io_bind (portOidToNameMap lib cfg) (\<lambda>portOidToName.
       io_bind (bvidToVlanMap lib cfg c) (\<lambda>vlans.
       case vlans of (bvidToVlan, skippedEntries) \<Rightarrow>
       io_bind (bridgePortToPortMap lib cfg c portOidToName) (\<lambda>bridgePorts.
       case bridgePorts of (bridgePortToPort, bridgeSkippedEntries) \<Rightarrow>
       let skippedEntries = skippedEntries + bridgeSkippedEntries in
       io_bind (io_wrap ''failed to scan FDB keys: %w'' []
                  (ScanKeysFromDb lib cfg ''ASIC_DB'' (asciiFDBEntryPrefix @ ''*'')
                     (fdb_redisScanCount (fdb_config c)))) (\<lambda>scannedKeys.
       let fdbKeys = sort scannedKeys;
           counters = \<lparr>entriesTotal = f64_0, unknownVLANEntries = f64_0,
                       entriesByVLAN = [], entriesByPort = [], entriesByType = []\<rparr> in
       io_bind (rangeLoop (fdb_entry lib cfg c bvidToVlan bridgePortToPort (length fdbKeys)) 0 fdbKeys
                  (counters, skippedEntries, f64_0))
         (fdb_export labelOk c))))))"

subsection \<open>Refreshing and collecting\<close>

definition fdb_assignments ::
  "refreshClock \<Rightarrow> goerr + fdbResult \<Rightarrow> (fdbCollector \<Rightarrow> fdbCollector) list" where
  "fdb_assignments clk r =
     (\<lambda>c. c\<lparr>lastScrapeDuration := scrapeSeconds clk\<rparr>) #
     (case r of
        Inl err \<Rightarrow> [\<lambda>c. c\<lparr>lastSuccess := f64_0\<rparr>]
      | Inr (metrics, skippedEntries, truncated) \<Rightarrow>
          [\<lambda>c. c\<lparr>cachedMetrics := metrics\<rparr>,
           \<lambda>c. c\<lparr>lastSkippedEntries := f64_of_int skippedEntries\<rparr>,
           \<lambda>c. c\<lparr>lastTruncated := truncated\<rparr>,
           \<lambda>c. c\<lparr>lastSuccess := f64_1\<rparr>,
           \<lambda>c. c\<lparr>lastRefreshTime := t_stored clk\<rparr>])"

definition fdb_refreshMetrics ::
  "(string \<Rightarrow> bool) \<Rightarrow> 's redisLib \<Rightarrow> refreshClock \<Rightarrow> fdbCollector \<Rightarrow> ('s, fdbCollector) rio" where
  "fdb_refreshMetrics labelOk lib clk c =
     refreshWith (fdb_scrapeMetrics labelOk lib c) (fdb_assignments clk) c"

definition fdb_refreshLoop ::
  "(string \<Rightarrow> bool) \<Rightarrow> 's redisLib \<Rightarrow> refreshClock list \<Rightarrow> fdbCollector \<Rightarrow> ('s, fdbCollector) rio" where
  "fdb_refreshLoop labelOk lib ticks c =
     tickerLoop (fdb_refreshInterval (fdb_config c)) (fdb_refreshMetrics labelOk lib) ticks c"

definition NewFdbCollector ::
  "(string \<Rightarrow> bool) \<Rightarrow> 's redisLib \<Rightarrow> env \<Rightarrow> metricFilter \<Rightarrow> refreshClock \<Rightarrow> refreshClock list
     \<Rightarrow> ('s, fdbCollector) rio" where
  "NewFdbCollector labelOk lib env flt clk ticks =
     (let c = fdb_new env flt
      in if \<not> fdb_enabled (fdb_config c) then io_return c
         else io_bind (fdb_refreshMetrics labelOk lib clk c) (fdb_refreshLoop labelOk lib ticks))"

text \<open>The copies \<^verbatim>\<open>Collect\<close> makes under the read lock, in its order.\<close>

definition fdb_copies :: "(fdbCollector \<Rightarrow> fdbCollector \<Rightarrow> fdbCollector) list" where
  "fdb_copies =
     [\<lambda>c l. l\<lparr>cachedMetrics := cachedMetrics c\<rparr>,
      \<lambda>c l. l\<lparr>lastSkippedEntries := lastSkippedEntries c\<rparr>,
      \<lambda>c l. l\<lparr>lastTruncated := lastTruncated c\<rparr>,
      \<lambda>c l. l\<lparr>lastScrapeDuration := lastScrapeDuration c\<rparr>,
      \<lambda>c l. l\<lparr>lastSuccess := lastSuccess c\<rparr>,
      \<lambda>c l. l\<lparr>lastRefreshTime := lastRefreshTime c\<rparr>]"

definition fdb_Collect :: "(string \<Rightarrow> bool) \<Rightarrow> gotime \<Rightarrow> fdbCollector \<Rightarrow> ('w, metric list) io" where
  "fdb_Collect labelOk now c =
     (if \<not> fdb_enabled (fdb_config c) then io_return []
      else let gauge = (\<lambda>d v. MustNewConstMetric labelOk d GaugeValue v []);
               on = Enabled (fdb_filter c)
        in io_bind (emit (on ''sonic_fdb_entries_skipped'') (gauge fdbEntriesSkipped (lastSkippedEntries c)) (cachedMetrics c)) (\<lambda>ch.
           io_bind (emit (on ''sonic_fdb_entries_truncated'') (gauge fdbEntriesTruncated (lastTruncated c)) ch) (\<lambda>ch.
           io_bind (emit (on ''sonic_fdb_scrape_duration_seconds'') (gauge fdbScrapeDuration (lastScrapeDuration c)) ch) (\<lambda>ch.
           io_bind (emit (on ''sonic_fdb_collector_success'') (gauge fdbScrapeCollectorSuccess (lastSuccess c)) ch) (\<lambda>ch.
           emit (on ''sonic_fdb_cache_age_seconds'') (gauge fdbCacheAge (cacheAge now (lastRefreshTime c))) ch)))))"

interpretation fdb: refresh_contract fdb_assignments fdb_copies cacheState.truncate
  "\<lambda>c. (fdb_config c, fdb_filter c)" fst
proof unfold_locales
  show "(fdb_config (f c), fdb_filter (f c)) = (fdb_config c, fdb_filter c)"
    if "f \<in> set (fdb_assignments clk r)" for f clk r c
    using that by (auto simp: fdb_assignments_def split: sum.splits prod.splits)
qed (auto simp: fdb_assignments_def fdb_copies_def cacheState.truncate_def)

subsection \<open>The descriptions\<close>

lemma fq_fdb [simp]:
  "fqName fdbEntries = ''sonic_fdb_entries''"
  "fqName fdbEntriesByPort = ''sonic_fdb_entries_by_port''"
  "fqName fdbEntriesByVlan = ''sonic_fdb_entries_by_vlan''"
  "fqName fdbEntriesByType = ''sonic_fdb_entries_by_type''"
  "fqName fdbEntriesUnknownVlan = ''sonic_fdb_entries_unknown_vlan''"
  "fqName fdbEntriesTruncated = ''sonic_fdb_entries_truncated''"
  "fqName fdbEntriesSkipped = ''sonic_fdb_entries_skipped''"
  "fqName fdbScrapeDuration = ''sonic_fdb_scrape_duration_seconds''"
  "fqName fdbScrapeCollectorSuccess = ''sonic_fdb_collector_success''"
  "fqName fdbCacheAge = ''sonic_fdb_cache_age_seconds''"
  by (simp_all add: desc_defs)

lemma labels_fdb [simp]:
  "d_labels fdbEntries = []"
  "length (d_labels fdbEntriesByPort) = 1"
  "length (d_labels fdbEntriesByVlan) = 1"
  "length (d_labels fdbEntriesByType) = 1"
  "d_labels fdbEntriesUnknownVlan = []"
  "d_labels fdbEntriesTruncated = []"
  "d_labels fdbEntriesSkipped = []"
  "d_labels fdbScrapeDuration = []"
  "d_labels fdbScrapeCollectorSuccess = []"
  "d_labels fdbCacheAge = []"
  by (simp_all add: desc_defs)

lemma fdb_described [simp]:
  "fdbEntries \<in> set fdb_Describe"
  "fdbEntriesByPort \<in> set fdb_Describe"
  "fdbEntriesByVlan \<in> set fdb_Describe"
  "fdbEntriesByType \<in> set fdb_Describe"
  "fdbEntriesUnknownVlan \<in> set fdb_Describe"
  "fdbEntriesTruncated \<in> set fdb_Describe"
  "fdbEntriesSkipped \<in> set fdb_Describe"
  "fdbScrapeDuration \<in> set fdb_Describe"
  "fdbScrapeCollectorSuccess \<in> set fdb_Describe"
  "fdbCacheAge \<in> set fdb_Describe"
  by (simp_all add: fdb_Describe_def)

lemma fdb_names: "ownNames ''fdb'' fdb_Describe"
  by (simp add: ownNames_def fdb_Describe_def subsystemOf_def desc_defs)

subsection \<open>Collect\<close>

definition fdb_health :: "gotime \<Rightarrow> fdbCollector \<Rightarrow> (desc \<times> f64) list" where
  "fdb_health now c =
     [(fdbEntriesSkipped, lastSkippedEntries c),
      (fdbEntriesTruncated, lastTruncated c),
      (fdbScrapeDuration, lastScrapeDuration c),
      (fdbScrapeCollectorSuccess, lastSuccess c),
      (fdbCacheAge, cacheAge now (lastRefreshTime c))]"

lemma fdb_Collect_yields:
  "fdb_IsEnabled c \<Longrightarrow>
    yields I (fdb_Collect labelOk now c) (cachedMetrics c @ gauges (fdb_filter c) (fdb_health now c))"
  unfolding fdb_Collect_def fdb_health_def Let_def fdb_IsEnabled_def
  by (simp only: not_True_eq_False if_False, rule yields_eq,
      (rule yields_bind_gauge, simp, simp)+, rule yields_gauge)
     (simp_all only: gauges_append append.simps fq_fdb labels_fdb)

lemma fdb_health_good: "list_all (goodMetric labelOk flt fdb_Describe) (gauges flt (fdb_health now c))"
  by (rule gauges_good) (auto simp: fdb_health_def)

subsection \<open>What a refresh exports\<close>

definition fdb_resultOk :: "(string \<Rightarrow> bool) \<Rightarrow> fdbCollector \<Rightarrow> fdbResult \<Rightarrow> bool" where
  "fdb_resultOk labelOk c r =
     (case r of (metrics, skipped, truncated) \<Rightarrow>
        list_all (goodMetric labelOk (fdb_filter c) fdb_Describe) metrics)"

lemma fdb_emitLimited_good:
  assumes "d \<in> set fdb_Describe" "g \<Longrightarrow> Enabled (fdb_filter c) (fqName d)"
    "list_all (goodMetric labelOk (fdb_filter c) fdb_Describe) (fst acc)"
  shows "post (rangeLoop (fdb_emitLimited labelOk g d entries limit n) 0 names acc)
           (\<lambda>r. list_all (goodMetric labelOk (fdb_filter c) fdb_Describe) (fst r))"
proof (rule post_rangeLoop [where I = "\<lambda>_ r. list_all (goodMetric labelOk (fdb_filter c) fdb_Describe) (fst r)"])
  show "post (fdb_emitLimited labelOk g d entries limit n (length ps) x a)
      (\<lambda>r. case r of Continue b \<Rightarrow> list_all (goodMetric labelOk (fdb_filter c) fdb_Describe) (fst b)
        | Break b \<Rightarrow> list_all (goodMetric labelOk (fdb_filter c) fdb_Describe) (fst b))"
    if "list_all (goodMetric labelOk (fdb_filter c) fdb_Describe) (fst a)" for ps x a
    unfolding fdb_emitLimited_def using that assms(1,2)
    by (auto intro!: post_rules post_bind_emit [where labelOk = labelOk and flt = "fdb_filter c" and descs = fdb_Describe])
qed (use assms in simp_all)

lemma fdb_emitType_good:
  assumes "g \<Longrightarrow> Enabled (fdb_filter c) ''sonic_fdb_entries_by_type''"
    "list_all (goodMetric labelOk (fdb_filter c) fdb_Describe) ms"
  shows "post (rangeLoop (fdb_emitType labelOk g entries) 0 names ms)
           (list_all (goodMetric labelOk (fdb_filter c) fdb_Describe))"
proof (rule post_rangeLoop [where I = "\<lambda>_. list_all (goodMetric labelOk (fdb_filter c) fdb_Describe)"])
  show "post (fdb_emitType labelOk g entries (length ps) x a)
      (\<lambda>r. case r of Continue b \<Rightarrow> list_all (goodMetric labelOk (fdb_filter c) fdb_Describe) b
        | Break b \<Rightarrow> list_all (goodMetric labelOk (fdb_filter c) fdb_Describe) b)"
    if "list_all (goodMetric labelOk (fdb_filter c) fdb_Describe) a" for ps x a
    unfolding fdb_emitType_def using that assms(1)
    by (auto intro!: post_rules post_bind_emit [where labelOk = labelOk and flt = "fdb_filter c" and descs = fdb_Describe])
qed (use assms in simp_all)

lemma fdb_export_ok: "post (fdb_export labelOk c acc) (fdb_resultOk labelOk c)"
  unfolding fdb_export_def Let_def
  by (rule post_case_prod, rule post_case_prod,
      rule post_bind_emit [where labelOk = labelOk and flt = "fdb_filter c" and descs = fdb_Describe], simp,
      rule post_good, simp, simp,
      rule post_bind_emit [where labelOk = labelOk and flt = "fdb_filter c" and descs = fdb_Describe], assumption,
      rule post_good, simp, simp,
      rule post_bind, rule fdb_emitLimited_good [where c = c], simp, simp, simp,
      rule post_bind, rule fdb_emitLimited_good [where c = c], simp, simp, assumption,
      rule post_case_prod, rule post_bind, rule fdb_emitType_good [where c = c], simp, simp,
      rule post_return)
     (simp add: fdb_resultOk_def)

lemma fdb_scrape_ok: "post (fdb_scrapeMetrics labelOk lib c) (fdb_resultOk labelOk c)"
  unfolding fdb_scrapeMetrics_def Let_def
  by (rule post_withRedis, rule post_bind_any, rule post_bind_any, rule post_case_prod, rule post_bind_any,
      rule post_case_prod, rule post_bind_any, rule post_bind_any, rule fdb_export_ok)

lemma fdb_Collect_good:
  "list_all (goodMetric labelOk (fdb_filter c) fdb_Describe) (cachedMetrics c) \<Longrightarrow>
    post (fdb_Collect labelOk now c) (list_all (goodMetric labelOk (fdb_filter c) fdb_Describe))"
proof (cases "fdb_IsEnabled c")
  case True
  assume "list_all (goodMetric labelOk (fdb_filter c) fdb_Describe) (cachedMetrics c)"
  then show ?thesis
    by (intro yields_post [OF fdb_Collect_yields [OF True]]) (simp add: fdb_health_good)
next
  case False
  then show ?thesis by (simp add: fdb_Collect_def fdb_IsEnabled_def post_return)
qed

interpretation fdb_source: metric_source fdb_assignments fdb_copies cacheState.truncate
  "\<lambda>c. (fdb_config c, fdb_filter c)" fst "fdb_scrapeMetrics labelOk lib" "fdb_Collect labelOk"
  "\<lambda>f. list_all (goodMetric labelOk (snd f) fdb_Describe)"
  for labelOk lib
proof unfold_locales
  show "post (fdb_scrapeMetrics labelOk lib c)
      (\<lambda>r. list_all (goodMetric labelOk (snd (fdb_config c, fdb_filter c)) fdb_Describe) (fst r))" for c
    by (rule post_mono [OF fdb_scrape_ok]) (auto simp: fdb_resultOk_def)
qed (simp_all add: fdb_Collect_good cacheState.truncate_def)

subsection \<open>The specification of a refresh\<close>

text \<open>
  The maps of identifiers to names: the name given last wins, a name of a LAG over one of a port.
\<close>

definition fdb_portNames :: "(string \<Rightarrow> fields) \<Rightarrow> fields" where
  "fdb_portNames db =
     rev (map prod.swap (db ''COUNTERS_PORT_NAME_MAP'' @ db ''COUNTERS_LAG_NAME_MAP''))"

definition fdb_vlanId :: "(string \<Rightarrow> fields) \<Rightarrow> string \<Rightarrow> string" where
  "fdb_vlanId db key = trimSpace (field (db key) ''SAI_VLAN_ATTR_VLAN_ID'')"

definition fdb_vlanNamed :: "(string \<Rightarrow> fields) \<Rightarrow> string \<Rightarrow> bool" where
  "fdb_vlanNamed db key = (named asciiVLANObjectPrefix key \<and> fdb_vlanId db key \<noteq> [])"

definition fdb_vlanIds :: "(string \<Rightarrow> fields) \<Rightarrow> string list \<Rightarrow> fields" where
  "fdb_vlanIds db keys =
     map (\<lambda>k. (trimPrefix k asciiVLANObjectPrefix, fdb_vlanId db k)) (rev (filter (fdb_vlanNamed db) keys))"

definition fdb_bridgeOid :: "(string \<Rightarrow> fields) \<Rightarrow> string \<Rightarrow> string" where
  "fdb_bridgeOid db key = field (db key) ''SAI_BRIDGE_PORT_ATTR_PORT_ID''"

definition fdb_bridgeNamed :: "(string \<Rightarrow> fields) \<Rightarrow> fields \<Rightarrow> string \<Rightarrow> bool" where
  "fdb_bridgeNamed db names key =
     (named asciiBridgePortPrefix key \<and> fdb_bridgeOid db key \<noteq> [] \<and> field names (fdb_bridgeOid db key) \<noteq> [])"

definition fdb_bridgeSkipped :: "(string \<Rightarrow> fields) \<Rightarrow> fields \<Rightarrow> string \<Rightarrow> bool" where
  "fdb_bridgeSkipped db names key =
     (\<not> fdb_bridgeNamed db names key \<and> (named asciiBridgePortPrefix key \<longrightarrow> fdb_bridgeOid db key \<noteq> []))"

definition fdb_bridgePorts :: "(string \<Rightarrow> fields) \<Rightarrow> fields \<Rightarrow> string list \<Rightarrow> fields" where
  "fdb_bridgePorts db names keys =
     map (\<lambda>k. (trimPrefix k asciiBridgePortPrefix, field names (fdb_bridgeOid db k)))
       (rev (filter (fdb_bridgeNamed db names) keys))"

text \<open>The entries that count, and the labels they count under.\<close>

definition fdb_valid :: "(string \<Rightarrow> fields) \<Rightarrow> string \<Rightarrow> bool" where
  "fdb_valid db key = (\<not> isl (parseFDBKey key) \<and> db key \<noteq> [])"

definition fdb_vlan :: "fields \<Rightarrow> string \<Rightarrow> string \<times> bool" where
  "fdb_vlan vlanIds key = resolveFDBVLANLabel (projr (parseFDBKey key)) vlanIds"

definition fdb_port :: "(string \<Rightarrow> fields) \<Rightarrow> fields \<Rightarrow> string \<Rightarrow> string" where
  "fdb_port db ports key =
     (let port = field ports (field (db key) ''SAI_FDB_ENTRY_ATTR_BRIDGE_PORT_ID'')
      in if port = [] then ''unknown'' else port)"

definition fdb_type :: "(string \<Rightarrow> fields) \<Rightarrow> string \<Rightarrow> string" where
  "fdb_type db key =
     (let t = normalizeFDBType (field (db key) ''SAI_FDB_ENTRY_ATTR_TYPE'')
      in if t = [] then ''unknown'' else t)"

text \<open>A gauge for each of the labels that occur, in order, with the number of times it does.\<close>

definition labelGauges :: "desc \<Rightarrow> string list \<Rightarrow> string list \<Rightarrow> metric list" where
  "labelGauges d labels names = map (\<lambda>l. constMetric d GaugeValue (f64_of_int (int (count_list labels l))) [l]) names"

definition fdb_spec ::
  "fdbCollector \<Rightarrow> (int \<Rightarrow> string \<Rightarrow> fields) \<Rightarrow> (int \<Rightarrow> string \<Rightarrow> string list) \<Rightarrow> fdbResult" where
  "fdb_spec c db scan =
     (let on = Enabled (fdb_filter c); asic = db 1; names = fdb_portNames (db 2);
          vlanKeys = scan 1 (asciiVLANObjectPrefix @ ''*'');
          bridgeKeys = scan 1 (asciiBridgePortPrefix @ ''*'');
          keys = sort (scan 1 (asciiFDBEntryPrefix @ ''*''));
          room = nat (fdb_maxEntries (fdb_config c));
          maxVlans = nat (fdb_maxVlans (fdb_config c)); maxPorts = nat (fdb_maxPorts (fdb_config c));
          entries = filter (fdb_valid asic) (take room keys);
          vlans = map (fdb_vlan (fdb_vlanIds asic vlanKeys)) entries;
          ports = map (fdb_port asic (fdb_bridgePorts asic names bridgeKeys)) entries;
          types = map (fdb_type asic) entries;
          vlanNames = sort (remdups (map fst vlans)); portNames = sort (remdups ports)
      in ((if on ''sonic_fdb_entries''
           then [constMetric fdbEntries GaugeValue (f64_of_int (int (length entries))) []] else []) @
          (if on ''sonic_fdb_entries_unknown_vlan''
           then [constMetric fdbEntriesUnknownVlan GaugeValue (f64_of_int (int (length (filter snd vlans)))) []]
           else []) @
          (if on ''sonic_fdb_entries_by_vlan''
           then labelGauges fdbEntriesByVlan (map fst vlans) (take maxVlans vlanNames) else []) @
          (if on ''sonic_fdb_entries_by_port''
           then labelGauges fdbEntriesByPort ports (take maxPorts portNames) else []) @
          (if on ''sonic_fdb_entries_by_type''
           then labelGauges fdbEntriesByType types (sort (remdups types)) else []),
          int (length (filter (\<lambda>k. \<not> fdb_vlanNamed asic k) vlanKeys)) +
          int (length (filter (fdb_bridgeSkipped asic names) bridgeKeys)) +
          (int (length keys) - int (length entries)) +
          int (length (drop maxVlans vlanNames)) + int (length (drop maxPorts portNames)),
          if room < length keys then f64_1 else f64_0))"

subsection \<open>The code meets it\<close>

text \<open>Both loops that build a map: \<open>P\<close> selects what is assigned, \<open>S\<close> what is skipped.\<close>

lemma assign_loop_yields:
  assumes "\<And>i k m sk. yields I (body i k (m, sk))
      (Continue (if P k then assign (f k) (g k) m else m, if S k then sk + 1 else sk))"
  shows "yields I (rangeLoop body i keys (m, sk))
    (map (\<lambda>k. (f k, g k)) (rev (filter P keys)) @ m, sk + int (length (filter S keys)))"
proof (induction keys arbitrary: i m sk)
  case Nil
  then show ?case by (simp add: yields_return)
next
  case (Cons k ks)
  show ?case
    by (rule yields_eq, rule yields_loop_Continue, rule assms, rule Cons.IH) (simp add: assign_def)
qed

text \<open>Numbers counted up one by one.\<close>

definition tally :: "nat \<Rightarrow> f64" where
  "tally n = ((\<lambda>v. f64_add v f64_1) ^^ n) f64_0"

lemma tally_simps [simp]: "tally 0 = f64_0" "tally (Suc n) = f64_add (tally n) f64_1"
  by (simp_all add: tally_def)

lemma tally_exact: "n < 2 ^ 53 \<Longrightarrow> tally n = f64_of_int (int n)"
proof (induction n)
  case 0
  then show ?case by (simp add: f64_of_int_def round64_def)
next
  case (Suc n)
  then show ?case using f64_add_one [of "int n"] by (simp add: add.commute)
qed

definition fdb_counters :: "(string \<times> bool) list \<Rightarrow> string list \<Rightarrow> string list \<Rightarrow> fdbCounters" where
  "fdb_counters vlans ports types =
     \<lparr>entriesTotal = tally (length vlans), unknownVLANEntries = tally (length (filter snd vlans)),
      entriesByVLAN = fold increment (map fst vlans) [], entriesByPort = fold increment ports [],
      entriesByType = fold increment types []\<rparr>"

definition fdb_countEntry :: "string \<times> bool \<Rightarrow> string \<Rightarrow> string \<Rightarrow> fdbCounters \<Rightarrow> fdbCounters" where
  "fdb_countEntry vlan port type counters =
     \<lparr>entriesTotal = f64_add (entriesTotal counters) f64_1,
      unknownVLANEntries =
        (if snd vlan then f64_add (unknownVLANEntries counters) f64_1 else unknownVLANEntries counters),
      entriesByVLAN = increment (fst vlan) (entriesByVLAN counters),
      entriesByPort = increment port (entriesByPort counters),
      entriesByType = increment type (entriesByType counters)\<rparr>"

lemma fdb_counters_fold:
  "fold (\<lambda>k. fdb_countEntry (vlan k) (port k) (type k)) es (fdb_counters [] [] []) =
     fdb_counters (map vlan es) (map port es) (map type es)"
  by (induction es rule: rev_induct) (simp_all add: fdb_counters_def fdb_countEntry_def)

lemma fdb_read:
  assumes "serves lib cfg db scan"
  shows "yields (handlesOk cfg) (io_wrap msg args (HgetAllFromDb lib cfg ''ASIC_DB'' k)) (db 1 k)"
  by (rule yields_wrap [OF yields_HgetAll [OF assms]]) (simp add: RedisDbId_def)

lemma fdb_vlanObject_yields:
  assumes "serves lib cfg db scan"
  shows "yields (handlesOk cfg) (fdb_vlanObject lib cfg i key (m, sk))
    (Continue (if fdb_vlanNamed (db 1) key
               then assign (trimPrefix key asciiVLANObjectPrefix) (fdb_vlanId (db 1) key) m else m,
               if \<not> fdb_vlanNamed (db 1) key then sk + 1 else sk))"
proof (cases "named asciiVLANObjectPrefix key")
  case True
  then have "\<not> (trimPrefix key asciiVLANObjectPrefix = [] \<or> trimPrefix key asciiVLANObjectPrefix = key)"
    by (simp add: trimPrefix_unnamed asciiVLANObjectPrefix_def)
  with True show ?thesis
    by (auto simp: fdb_vlanObject_def fdb_vlanNamed_def fdb_vlanId_def Let_def
        intro!: yields_bind [OF fdb_read [OF assms]] yields_return split: if_splits)
next
  case False
  then have "trimPrefix key asciiVLANObjectPrefix = [] \<or> trimPrefix key asciiVLANObjectPrefix = key"
    by (simp add: trimPrefix_unnamed asciiVLANObjectPrefix_def)
  with False show ?thesis by (auto simp: fdb_vlanObject_def fdb_vlanNamed_def Let_def yields_return)
qed

lemma fdb_bridgePort_yields:
  assumes "serves lib cfg db scan"
  shows "yields (handlesOk cfg) (fdb_bridgePort lib cfg names i key (m, sk))
    (Continue (if fdb_bridgeNamed (db 1) names key
               then assign (trimPrefix key asciiBridgePortPrefix) (field names (fdb_bridgeOid (db 1) key)) m else m,
               if fdb_bridgeSkipped (db 1) names key then sk + 1 else sk))"
proof (cases "named asciiBridgePortPrefix key")
  case True
  then have "\<not> (trimPrefix key asciiBridgePortPrefix = [] \<or> trimPrefix key asciiBridgePortPrefix = key)"
    by (simp add: trimPrefix_unnamed asciiBridgePortPrefix_def)
  with True show ?thesis
    by (auto simp: fdb_bridgePort_def fdb_bridgeNamed_def fdb_bridgeSkipped_def fdb_bridgeOid_def Let_def
        intro!: yields_bind [OF fdb_read [OF assms]] yields_return split: if_splits)
next
  case False
  then have "trimPrefix key asciiBridgePortPrefix = [] \<or> trimPrefix key asciiBridgePortPrefix = key"
    by (simp add: trimPrefix_unnamed asciiBridgePortPrefix_def)
  with False show ?thesis
    by (auto simp: fdb_bridgePort_def fdb_bridgeNamed_def fdb_bridgeSkipped_def Let_def yields_return)
qed

lemma fdb_entry_yields:
  assumes "serves lib cfg db scan"
  shows "yields (handlesOk cfg) (fdb_entry lib cfg c vlanIds ports keyCount i key (m, sk, t))
    (if fdb_maxEntries (fdb_config c) \<le> int i then Break (m, sk + (int keyCount - int i), f64_1)
     else Continue (if fdb_valid (db 1) key
                    then (fdb_countEntry (fdb_vlan vlanIds key) (fdb_port (db 1) ports key)
                            (fdb_type (db 1) key) m, sk, t)
                    else (m, sk + 1, t)))"
proof (cases "parseFDBKey key")
  case (Inl e)
  then show ?thesis by (simp add: fdb_entry_def fdb_valid_def yields_return)
next
  case (Inr parsedKey)
  then show ?thesis
    by (cases m; cases "resolveFDBVLANLabel parsedKey vlanIds")
       (auto simp: fdb_entry_def fdb_valid_def fdb_countEntry_def fdb_vlan_def fdb_port_def fdb_type_def Let_def
        intro!: yields_return yields_bind [OF fdb_read [OF assms]])
qed

lemma fdb_emitLimited_yields:
  assumes "length (d_labels d) = 1"
  shows "n = i + length names \<Longrightarrow> nat limit = i + room \<Longrightarrow>
    yields I (rangeLoop (fdb_emitLimited anyLabel g d entries limit n) i names (ms, sk))
      (ms @ (if g then map (\<lambda>l. constMetric d GaugeValue (countOf entries l) [l]) (take room names) else []),
       sk + int (length (drop room names)))"
proof (induction names arbitrary: i room ms)
  case Nil
  then show ?case by (simp add: yields_return)
next
  case (Cons l ls)
  show ?case
  proof (cases room)
    case 0
    with Cons.prems have "limit \<le> int i" by simp
    then have "yields I (fdb_emitLimited anyLabel g d entries limit n i l (ms, sk)) (Break (ms, sk + (int n - int i)))"
      by (simp add: fdb_emitLimited_def yields_return)
    then show ?thesis
      by (rule yields_eq [OF yields_loop_Break]) (use 0 Cons.prems in simp)
  next
    case (Suc left)
    with Cons.prems have room_left: "\<not> limit \<le> int i" by simp
    have step: "yields I (fdb_emitLimited anyLabel g d entries limit n i l (ms, sk))
        (Continue (ms @ (if g then [constMetric d GaugeValue (countOf entries l) [l]] else []), sk))"
      unfolding fdb_emitLimited_def
      by (simp only: prod.case room_left if_False, rule yields_bind_emit) (use assms in \<open>simp_all add: yields_return\<close>)
    show ?thesis
      by (rule yields_eq, rule yields_loop_Continue, rule step, rule Cons.IH [of "Suc i" left])
         (use Suc Cons.prems in auto)
  qed
qed

lemma fdb_emitType_yields:
  "yields I (rangeLoop (fdb_emitType anyLabel g entries) i names ms)
     (ms @ (if g then map (\<lambda>l. constMetric fdbEntriesByType GaugeValue (countOf entries l) [l]) names else []))"
proof (induction names arbitrary: i ms)
  case Nil
  then show ?case by (simp add: yields_return)
next
  case (Cons l ls)
  have step: "yields I (fdb_emitType anyLabel g entries i l ms)
      (Continue (ms @ (if g then [constMetric fdbEntriesByType GaugeValue (countOf entries l) [l]] else [])))"
    unfolding fdb_emitType_def by (rule yields_bind_emit) (simp_all add: yields_return)
  show ?case
    by (rule yields_eq, rule yields_loop_Continue, rule step, rule Cons.IH) auto
qed

lemma labelGauges_counts:
  assumes "length labels < 2 ^ 53"
  shows "map (\<lambda>l. constMetric d GaugeValue (countOf (fold increment labels []) l) [l]) names = labelGauges d labels names"
  by (simp add: labelGauges_def countOf_fold [OF assms])

lemma fdb_export_yields:
  assumes "length vlans < 2 ^ 53" "length ports < 2 ^ 53" "length types < 2 ^ 53"
  shows "yields I (fdb_export anyLabel c (fdb_counters vlans ports types, sk, t))
    (let on = Enabled (fdb_filter c);
         maxVlans = nat (fdb_maxVlans (fdb_config c)); maxPorts = nat (fdb_maxPorts (fdb_config c));
         vlanNames = sort (remdups (map fst vlans)); portNames = sort (remdups ports)
     in ((if on ''sonic_fdb_entries''
          then [constMetric fdbEntries GaugeValue (f64_of_int (int (length vlans))) []] else []) @
         (if on ''sonic_fdb_entries_unknown_vlan''
          then [constMetric fdbEntriesUnknownVlan GaugeValue (f64_of_int (int (length (filter snd vlans)))) []]
          else []) @
         (if on ''sonic_fdb_entries_by_vlan''
          then labelGauges fdbEntriesByVlan (map fst vlans) (take maxVlans vlanNames) else []) @
         (if on ''sonic_fdb_entries_by_port''
          then labelGauges fdbEntriesByPort ports (take maxPorts portNames) else []) @
         (if on ''sonic_fdb_entries_by_type''
          then labelGauges fdbEntriesByType types (sort (remdups types)) else []),
         sk + int (length (drop maxVlans vlanNames)) + int (length (drop maxPorts portNames)), t))"
proof -
  have unknown: "length (filter snd vlans) < 2 ^ 53"
    using assms(1) by (meson le_less_trans length_filter_le)
  have "length (map fst vlans) < 2 ^ 53"
    using assms(1) by simp
  note counts = labelGauges_counts [OF this] labelGauges_counts [OF assms(2)] labelGauges_counts [OF assms(3)]
  show ?thesis
    unfolding fdb_export_def Let_def
    by (simp only: prod.case, rule yields_eq,
        rule yields_bind_emit, simp, rule yields_bind_emit, simp,
        rule yields_bind, rule fdb_emitLimited_yields [where room = "nat (fdb_maxVlans (fdb_config c))"], simp, simp, simp,
        rule yields_bind, rule fdb_emitLimited_yields [where room = "nat (fdb_maxPorts (fdb_config c))"], simp, simp, simp,
        simp only: prod.case, rule yields_bind, rule fdb_emitType_yields, rule yields_return)
       (simp add: fdb_counters_def sortedMapKeys_fold counts tally_exact [OF assms(1)] tally_exact [OF unknown])
qed

lemma fdb_scrape_spec:
  assumes "serves lib cfg db scan" "length (scan 1 (asciiFDBEntryPrefix @ ''*'')) < 2 ^ 53"
  shows "fst (fdb_scrapeMetrics anyLabel lib c w) = Ok (fdb_spec c db scan)"
proof -
  note serves = assms(1)
  have names: "yields (handlesOk cfg) (portOidToNameMap lib cfg) (fdb_portNames (db 2))"
  proof -
    have read: "yields (handlesOk cfg) (io_wrap msg args (HgetAllFromDb lib cfg ''COUNTERS_DB'' k)) (db 2 k)" for msg args k
      by (rule yields_wrap [OF yields_HgetAll [OF serves]]) (simp add: RedisDbId_def)
    have assigned: "fold (\<lambda>(name, oid). assign oid name) ps m = rev (map prod.swap ps) @ m" for ps m
      by (induction ps arbitrary: m) (auto simp: assign_def)
    show ?thesis
      unfolding portOidToNameMap_def Let_def
      by (rule yields_eq, rule yields_bind [OF read], rule yields_bind [OF read], rule yields_return)
         (simp add: assigned fdb_portNames_def)
  qed
  have keys: "yields (handlesOk cfg) (io_wrap msg args (ScanKeysFromDb lib cfg ''ASIC_DB'' p n)) (scan 1 p)" for msg args p n
    by (rule yields_wrap [OF yields_ScanKeys [OF serves]]) (simp add: RedisDbId_def)
  note vloop = assign_loop_yields [OF fdb_vlanObject_yields [OF serves]]
    and ploop = assign_loop_yields [OF fdb_bridgePort_yields [OF serves]]
    and eloop = bounded_loop_yields [OF fdb_entry_yields [OF serves], where i = 0 and
      room = "nat (fdb_maxEntries (fdb_config c))"]
  let ?es = "filter (fdb_valid (db 1)) (take (nat (fdb_maxEntries (fdb_config c))) (sort (scan 1 (asciiFDBEntryPrefix @ ''*''))))"
  have "length ?es \<le> length (take (nat (fdb_maxEntries (fdb_config c))) (sort (scan 1 (asciiFDBEntryPrefix @ ''*''))))"
    by (rule length_filter_le)
  with assms(2) have short: "length (map f ?es) < 2 ^ 53" for f :: "string \<Rightarrow> 'x"
    by simp
  have start: "\<lparr>entriesTotal = f64_0, unknownVLANEntries = f64_0, entriesByVLAN = [], entriesByPort = [],
      entriesByType = []\<rparr> = fdb_counters [] [] []"
    by (simp add: fdb_counters_def)
  note out = fdb_export_yields [OF short short short]
  show ?thesis
    unfolding fdb_scrapeMetrics_def Let_def bvidToVlanMap_def bridgePortToPortMap_def start
    by (rule withRedis_yields [OF serves], rule yields_eq, rule yields_bind [OF names],
        rule yields_bind, rule yields_bind [OF keys], rule vloop, simp only: prod.case,
        rule yields_bind, rule yields_bind [OF keys], rule ploop, simp only: prod.case,
        rule yields_bind [OF keys], rule yields_bind, rule eloop, simp, simp,
        simp only: fdb_counters_fold, rule out)
       (simp add: fdb_spec_def Let_def fdb_vlanIds_def fdb_bridgePorts_def)
qed

subsection \<open>Properties\<close>

text \<open>A switch with one VLAN, one bridge port and two addresses learned, one of them on no known VLAN.\<close>

definition fdb_demoKey :: "string \<Rightarrow> string \<Rightarrow> string" where
  "fdb_demoKey bvid mac =
     asciiFDBEntryPrefix @ objectText [(''bvid'', bvid), (''mac'', mac), (''switch_id'', ''oid:0x21'')]"

definition fdb_demoDb :: "int \<Rightarrow> string \<Rightarrow> fields" where
  "fdb_demoDb n key =
     (if key = ''COUNTERS_PORT_NAME_MAP'' then [(''Ethernet0'', ''oid:0x1'')]
      else if hasPrefix key asciiVLANObjectPrefix then [(''SAI_VLAN_ATTR_VLAN_ID'', ''100'')]
      else if hasPrefix key asciiBridgePortPrefix then [(''SAI_BRIDGE_PORT_ATTR_PORT_ID'', ''oid:0x1'')]
      else if hasPrefix key asciiFDBEntryPrefix
      then [(''SAI_FDB_ENTRY_ATTR_TYPE'', ''SAI_FDB_ENTRY_TYPE_DYNAMIC''),
            (''SAI_FDB_ENTRY_ATTR_BRIDGE_PORT_ID'', ''oid:0x3a'')]
      else [])"

definition fdb_demoScan :: "int \<Rightarrow> string \<Rightarrow> string list" where
  "fdb_demoScan n pattern =
     (if pattern = asciiVLANObjectPrefix @ ''*'' then [asciiVLANObjectPrefix @ ''oid:0x26'']
      else if pattern = asciiBridgePortPrefix @ ''*'' then [asciiBridgePortPrefix @ ''oid:0x3a'']
      else [fdb_demoKey ''oid:0x26'' ''AA:01'', fdb_demoKey ''oid:0x99'' ''AA:02''])"

definition fdb_demo :: fdbCollector where
  "fdb_demo = fdb_new (\<lambda>_. None) (NewMetricFilter (\<lambda>_. None))"

text \<open>
  C30. On a server that holds still, a refresh returns exactly the specified metrics: the exact
  number of entries within the limit, of those on an unknown VLAN, and of those of every VLAN,
  port and type that occurs, in name order and up to the limits; with the exact number of
  keys and names left out, and the truncation flag exactly when there are more entries than the limit.
\<close>

theorem fdb_refresh_refines_spec:
  assumes "serves lib cfg db scan" "length (scan 1 (asciiFDBEntryPrefix @ ''*'')) < 2 ^ 53"
  shows "fst (fdb_scrapeMetrics anyLabel lib c w) = Ok (fdb_spec c db scan)"
  by (rule fdb_scrape_spec [OF assms])

theorem fdb_refresh_refines_spec_witness:
  "fst (fdb_scrapeMetrics anyLabel (staticLib localRedis fdb_demoDb fdb_demoScan) fdb_demo
     \<lparr>server = (), databases = []\<rparr>) = Ok (fdb_spec fdb_demo fdb_demoDb fdb_demoScan)"
  by (rule fdb_refresh_refines_spec [OF staticLib_serves])
     (simp add: fdb_demoScan_def asciiFDBEntryPrefix_def asciiVLANObjectPrefix_def asciiBridgePortPrefix_def)

text \<open>
  C31. A key in which the switch wrote its identifiers as a JSON object is read back: whatever the order of the
  members and whatever others there are, the MAC, the VLAN and the bridge VLAN are those written, as
  long as the member names are different and in lower case, no name and no text needs an escape, and the MAC is not empty.
\<close>

theorem fdb_key_read_back:
  assumes "\<forall>(k, v)\<in>set kvs. plainText k \<and> plainText v \<and> toLower k = k" "distinct (map fst kvs)"
    "field kvs ''mac'' \<noteq> []"
  shows "parseFDBKey (asciiFDBEntryPrefix @ objectText kvs) =
    Inr \<lparr>Bvid = field kvs ''bvid'', Vlan = field kvs ''vlan'', Mac = field kvs ''mac''\<rparr>"
proof -
  let ?names = "[''bvid'', ''vlan'', ''mac'']"
  have "map_of (rev kvs) = map_of kvs"
    using assms(2) by (intro map_of_inject_set [THEN iffD2]) (simp_all add: rev_map [symmetric])
  then have rev_field: "field (rev kvs) k = field kvs k" for k
    by (simp add: field_def)
  have "\<forall>n\<in>set ?names. toLower n = n"
    by code_simp
  with assms(1) have "unmarshalStrings ?names (objectText kvs) =
      Some (filter (\<lambda>kv. fst kv \<in> set ?names) (rev kvs))"
    by (subst unmarshalStrings_object) (simp_all only: rev_filter)
  moreover have read: "field (filter (\<lambda>kv. fst kv \<in> set ?names) (rev kvs)) k = field kvs k" if "k \<in> set ?names" for k
    using field_filter [OF that] rev_field by simp
  note reads = read [of "''mac''", simplified] read [of "''vlan''", simplified] read [of "''bvid''", simplified]
  moreover have "objectText kvs \<noteq> []" "objectText kvs \<noteq> asciiFDBEntryPrefix @ objectText kvs"
    by (simp_all add: objectText_def asciiFDBEntryPrefix_def)
  ultimately show ?thesis
    using assms(3) by (simp add: parseFDBKey_def Let_def reads)
qed

theorem fdb_key_read_back_witness:
  "parseFDBKey (fdb_demoKey ''oid:0x26'' ''AA:01'') = Inr \<lparr>Bvid = ''oid:0x26'', Vlan = [], Mac = ''AA:01''\<rparr>"
proof -
  let ?kvs = "[(''bvid'', ''oid:0x26''), (''mac'', ''AA:01''), (''switch_id'', ''oid:0x21'')]"
  have "\<forall>(k, v)\<in>set ?kvs. plainText k \<and> plainText v \<and> toLower k = k"
    by code_simp
  from fdb_key_read_back [OF this] show ?thesis
    by (simp add: fdb_demoKey_def)
qed

text \<open>No two metrics of a refresh are the same time series, whatever the server holds.\<close>

lemma seriesTagged_labelGauges:
  assumes "fqName d = name" "distinct names"
  shows "seriesTagged (\<lambda>n. n) name (labelGauges d labels names)"
proof -
  have "map series (labelGauges d labels names) = map (\<lambda>l. (name, [l])) names"
    using assms(1) by (simp add: labelGauges_def)
  then show ?thesis
    using assms by (simp add: seriesTagged_def distinct_map inj_on_def) (simp add: labelGauges_def list_all_iff)
qed

lemma fdb_spec_series: "distinct (map series (fst (fdb_spec c db scan)))"
proof -
  have five: "distinct (map series (a @ b @ x @ y @ z))"
    if "seriesTagged (\<lambda>n. n) ''sonic_fdb_entries'' a" "seriesTagged (\<lambda>n. n) ''sonic_fdb_entries_unknown_vlan'' b"
      "seriesTagged (\<lambda>n. n) ''sonic_fdb_entries_by_vlan'' x" "seriesTagged (\<lambda>n. n) ''sonic_fdb_entries_by_port'' y"
      "seriesTagged (\<lambda>n. n) ''sonic_fdb_entries_by_type'' z" for a b x y z
    using that seriesTagged_concat [of "\<lambda>n. n" "[(''sonic_fdb_entries'', a), (''sonic_fdb_entries_unknown_vlan'', b),
        (''sonic_fdb_entries_by_vlan'', x), (''sonic_fdb_entries_by_port'', y), (''sonic_fdb_entries_by_type'', z)]"]
    by simp
  show ?thesis
    unfolding fdb_spec_def Let_def fst_conv
    by (intro five seriesTagged_if seriesTagged_one seriesTagged_labelGauges) (simp_all add: distinct_take)
qed

end
