(* ===== verification/Transceiver.thy ===== *)
theory Transceiver
  imports Counters
begin

text \<open>
  \<^verbatim>\<open>transceiver_collector.go\<close> and \<^verbatim>\<open>transceiver_identity.go\<close>: what the optical modules in the
  ports say of themselves: identity, module state, status and monitoring flags with the times they
  last changed, thresholds. The identities come from a table of their own; the rest from nine more
  tables for every port of the status table.
\<close>

record transceiverCollectorConfig =
  transceiver_enabled :: bool
  transceiver_refreshInterval :: duration
  transceiver_timeout :: duration
  transceiver_maxPorts :: int
  transceiver_redisScanCount :: int

record transceiverCollector = truncState +
  transceiver_config :: transceiverCollectorConfig
  transceiver_filter :: metricFilter

subsection \<open>Construction\<close>

definition transceiverModuleInfo :: desc where [desc_defs]:
  "transceiverModuleInfo = NewDesc ''sonic'' ''transceiver'' ''module_info''
     ''Transceiver module state metadata, value is always 1'' [''device'', ''module_state'', ''module_fault_cause'']"

definition transceiverIdentityInfo :: desc where [desc_defs]:
  "transceiverIdentityInfo = NewDesc ''sonic'' ''transceiver'' ''identity_info''
     ''Transceiver hardware identity metadata, value is always 1'' [''device'', ''manufacturer'', ''model'', ''serial'', ''vendor_rev'', ''vendor_oui'', ''type'']"

definition transceiverStatusValue :: desc where [desc_defs]:
  "transceiverStatusValue = NewDesc ''sonic'' ''transceiver'' ''status_value''
     ''Transceiver status values from STATE_DB TRANSCEIVER_STATUS'' [''device'', ''field'']"

definition transceiverStatusFlagValue :: desc where [desc_defs]:
  "transceiverStatusFlagValue = NewDesc ''sonic'' ''transceiver'' ''status_flag_value''
     ''Transceiver status flag value from STATE_DB TRANSCEIVER_STATUS_FLAG'' [''device'', ''flag'']"

definition transceiverStatusFlagChanges :: desc where [desc_defs]:
  "transceiverStatusFlagChanges = NewDesc ''sonic'' ''transceiver'' ''status_flag_changes_total''
     ''Transceiver status flag change count'' [''device'', ''flag'']"

definition transceiverStatusFlagLastSet :: desc where [desc_defs]:
  "transceiverStatusFlagLastSet = NewDesc ''sonic'' ''transceiver'' ''status_flag_last_set_timestamp_seconds''
     ''Unix timestamp when a transceiver status flag was last set'' [''device'', ''flag'']"

definition transceiverStatusFlagLastClear :: desc where [desc_defs]:
  "transceiverStatusFlagLastClear = NewDesc ''sonic'' ''transceiver'' ''status_flag_last_clear_timestamp_seconds''
     ''Unix timestamp when a transceiver status flag was last cleared'' [''device'', ''flag'']"

definition transceiverDomFlagValue :: desc where [desc_defs]:
  "transceiverDomFlagValue = NewDesc ''sonic'' ''transceiver'' ''dom_flag_value''
     ''Transceiver DOM flag value from STATE_DB TRANSCEIVER_DOM_FLAG'' [''device'', ''flag'']"

definition transceiverDomFlagChanges :: desc where [desc_defs]:
  "transceiverDomFlagChanges = NewDesc ''sonic'' ''transceiver'' ''dom_flag_changes_total''
     ''Transceiver DOM flag change count'' [''device'', ''flag'']"

definition transceiverDomFlagLastSet :: desc where [desc_defs]:
  "transceiverDomFlagLastSet = NewDesc ''sonic'' ''transceiver'' ''dom_flag_last_set_timestamp_seconds''
     ''Unix timestamp when a transceiver DOM flag was last set'' [''device'', ''flag'']"

definition transceiverDomFlagLastClear :: desc where [desc_defs]:
  "transceiverDomFlagLastClear = NewDesc ''sonic'' ''transceiver'' ''dom_flag_last_clear_timestamp_seconds''
     ''Unix timestamp when a transceiver DOM flag was last cleared'' [''device'', ''flag'']"

definition transceiverDomThresholdValue :: desc where [desc_defs]:
  "transceiverDomThresholdValue = NewDesc ''sonic'' ''transceiver'' ''dom_threshold_value''
     ''Transceiver DOM threshold values'' [''device'', ''threshold'']"

definition transceiverEntriesSkipped :: desc where [desc_defs]:
  "transceiverEntriesSkipped = NewDesc ''sonic'' ''transceiver'' ''entries_skipped''
     ''Number of transceiver entries skipped during latest refresh'' []"

definition transceiverEntriesTruncated :: desc where [desc_defs]:
  "transceiverEntriesTruncated = NewDesc ''sonic'' ''transceiver'' ''entries_truncated''
     ''Whether transceiver collection hit port limits (1=yes, 0=no)'' []"

definition transceiverScrapeDuration :: desc where [desc_defs]:
  "transceiverScrapeDuration = NewDesc ''sonic'' ''transceiver'' ''scrape_duration_seconds''
     ''Time it took for exporter to refresh transceiver metrics'' []"

definition transceiverScrapeCollectorSuccess :: desc where [desc_defs]:
  "transceiverScrapeCollectorSuccess = NewDesc ''sonic'' ''transceiver'' ''collector_success''
     ''Whether transceiver collector succeeded'' []"

definition transceiverCacheAge :: desc where [desc_defs]:
  "transceiverCacheAge = NewDesc ''sonic'' ''transceiver'' ''cache_age_seconds''
     ''Age of latest transceiver cache refresh'' []"

definition loadTransceiverCollectorConfig :: "env \<Rightarrow> transceiverCollectorConfig" where
  "loadTransceiverCollectorConfig env =
     \<lparr>transceiver_enabled = parseBoolEnv env ''TRANSCEIVER_ENABLED'' True,
      transceiver_refreshInterval = parseDurationEnv env ''TRANSCEIVER_REFRESH_INTERVAL'' (60 * second),
      transceiver_timeout = parseDurationEnv env ''TRANSCEIVER_TIMEOUT'' (2 * second),
      transceiver_maxPorts = parseIntEnv env ''TRANSCEIVER_MAX_PORTS'' 1024,
      transceiver_redisScanCount = 128\<rparr>"

definition transceiver_new :: "env \<Rightarrow> metricFilter \<Rightarrow> transceiverCollector" where
  "transceiver_new env flt =
     \<lparr>cachedMetrics = [], lastSuccess = f64_0, lastScrapeDuration = f64_0, lastRefreshTime = 0,
      lastSkippedEntries = f64_0, lastTruncated = f64_0,
      transceiver_config = loadTransceiverCollectorConfig env, transceiver_filter = flt\<rparr>"

definition transceiver_IsEnabled :: "transceiverCollector \<Rightarrow> bool" where
  "transceiver_IsEnabled c = transceiver_enabled (transceiver_config c)"

definition transceiver_Describe :: "desc list" where
  "transceiver_Describe =
     [transceiverModuleInfo,
      transceiverIdentityInfo,
      transceiverStatusValue,
      transceiverStatusFlagValue,
      transceiverStatusFlagChanges,
      transceiverStatusFlagLastSet,
      transceiverStatusFlagLastClear,
      transceiverDomFlagValue,
      transceiverDomFlagChanges,
      transceiverDomFlagLastSet,
      transceiverDomFlagLastClear,
      transceiverDomThresholdValue,
      transceiverEntriesSkipped,
      transceiverEntriesTruncated,
      transceiverScrapeDuration,
      transceiverScrapeCollectorSuccess,
      transceiverCacheAge]"

subsection \<open>Identities\<close>

definition identityFields :: "string list" where
  "identityFields = [''manufacturer'', ''model'', ''serial'', ''vendor_rev'', ''vendor_oui'', ''type'']"

definition identityIsEmpty :: "fields \<Rightarrow> bool" where
  "identityIsEmpty identity = (\<not> list_ex (\<lambda>fld. trimSpace (field identity fld) \<noteq> []) identityFields)"

type_synonym identityAcc = "metric list \<times> int \<times> bool"

definition transceiver_identity ::
  "(string \<Rightarrow> bool) \<Rightarrow> 's redisLib \<Rightarrow> redisConfig \<Rightarrow> transceiverCollector \<Rightarrow> nat \<Rightarrow> nat \<Rightarrow> string
     \<Rightarrow> identityAcc \<Rightarrow> ('s, identityAcc loop) rio" where
  "transceiver_identity labelOk lib cfg c keyCount index identityKey acc =
     (case acc of (metrics, skippedEntries, truncated) \<Rightarrow>
        if int index \<ge> transceiver_maxPorts (transceiver_config c)
        then io_return (Break (metrics, skippedEntries + (int keyCount - int index), True))
        else case parseKeySuffix identityKey ''TRANSCEIVER_INFO|'' of
          Inl err \<Rightarrow> io_return (Continue (metrics, skippedEntries + 1, truncated))
        | Inr device \<Rightarrow>
            io_bind (io_wrap ''failed to read transceiver identity entry %s: %w'' [identityKey]
                       (HgetAllFromDb lib cfg ''STATE_DB'' identityKey)) (\<lambda>identity.
            if identityIsEmpty identity
            then io_return (Continue (metrics, skippedEntries + 1, truncated))
            else if \<not> Enabled (transceiver_filter c) ''sonic_transceiver_identity_info''
            then io_return (Continue (metrics, skippedEntries, truncated))
            else
              io_bind (MustNewConstMetric labelOk transceiverIdentityInfo GaugeValue f64_1
                         (device # map (\<lambda>fld. trimSpace (field identity fld)) identityFields)) (\<lambda>m.
              io_return (Continue (metrics @ [m], skippedEntries, truncated)))))"

definition scrapeIdentityMetrics ::
  "(string \<Rightarrow> bool) \<Rightarrow> 's redisLib \<Rightarrow> redisConfig \<Rightarrow> transceiverCollector \<Rightarrow> ('s, identityAcc) rio" where
  "scrapeIdentityMetrics labelOk lib cfg c =
     io_bind (io_wrap ''failed to scan transceiver identity keys: %w'' []
                (ScanKeysFromDb lib cfg ''STATE_DB'' ''TRANSCEIVER_INFO|*''
                   (transceiver_redisScanCount (transceiver_config c)))) (\<lambda>scannedKeys.
     let identityKeys = sort scannedKeys
     in rangeLoop (transceiver_identity labelOk lib cfg c (length identityKeys)) 0 identityKeys ([], 0, False))"

subsection \<open>Status and flags\<close>

definition transceiver_statusField ::
  "(string \<Rightarrow> bool) \<Rightarrow> transceiverCollector \<Rightarrow> string \<Rightarrow> fields \<Rightarrow> nat \<Rightarrow> string \<Rightarrow> metric list
     \<Rightarrow> ('s, metric list loop) rio" where
  "transceiver_statusField labelOk c device statusData index fld metrics =
     (if fld = ''module_state'' \<or> fld = ''module_fault_cause'' \<or> fld = ''last_update_time''
      then io_return (Continue metrics)
      else
        io_bind (emitValue (parseBoolish (field statusData fld))
                   (Enabled (transceiver_filter c) ''sonic_transceiver_status_value'')
                   (\<lambda>value. MustNewConstMetric labelOk transceiverStatusValue GaugeValue value [device, fld])
                   metrics) (\<lambda>metrics.
        io_return (Continue metrics)))"

definition transceiver_threshold ::
  "(string \<Rightarrow> bool) \<Rightarrow> transceiverCollector \<Rightarrow> string \<Rightarrow> fields \<Rightarrow> nat \<Rightarrow> string \<Rightarrow> metric list
     \<Rightarrow> ('s, metric list loop) rio" where
  "transceiver_threshold labelOk c device thresholdData index fld metrics =
     (if fld = ''last_update_time'' then io_return (Continue metrics)
      else
        io_bind (emitValue (parseCounterLike (field thresholdData fld))
                   (Enabled (transceiver_filter c) ''sonic_transceiver_dom_threshold_value'')
                   (\<lambda>value. MustNewConstMetric labelOk transceiverDomThresholdValue GaugeValue value [device, fld])
                   metrics) (\<lambda>metrics.
        io_return (Continue metrics)))"

text \<open>
  \<^verbatim>\<open>appendTransceiverFlags\<close> takes four descriptions, four tables and four guards, in the order value,
  changes, set and clear: a group of flags.
\<close>

record flagGroup =
  valueDesc :: desc
  changeDesc :: desc
  setDesc :: desc
  clearDesc :: desc
  emitValues :: bool
  emitChanges :: bool
  emitSet :: bool
  emitClear :: bool

record flagTables =
  flagValues :: fields
  flagChanges :: fields
  flagSetTimes :: fields
  flagClearTimes :: fields

definition transceiver_flag ::
  "(string \<Rightarrow> bool) \<Rightarrow> flagGroup \<Rightarrow> string \<Rightarrow> flagTables \<Rightarrow> nat \<Rightarrow> string \<Rightarrow> metric list
     \<Rightarrow> ('s, metric list loop) rio" where
  "transceiver_flag labelOk g device t index fld metrics =
     (let mk = (\<lambda>d ty value. MustNewConstMetric labelOk d ty value [device, fld]) in
      io_bind (emitValue (parseBoolish (field (flagValues t) fld)) (emitValues g)
                 (mk (valueDesc g) GaugeValue) metrics) (\<lambda>metrics.
      io_bind (emitValue (parseCounterLike (field (flagChanges t) fld)) (emitChanges g)
                 (mk (changeDesc g) CounterValue) metrics) (\<lambda>metrics.
      io_bind (emitValue (parseEventTime (field (flagSetTimes t) fld)) (emitSet g)
                 (mk (setDesc g) GaugeValue) metrics) (\<lambda>metrics.
      io_bind (emitValue (parseEventTime (field (flagClearTimes t) fld)) (emitClear g)
                 (mk (clearDesc g) GaugeValue) metrics) (\<lambda>metrics.
      io_return (Continue metrics))))))"

definition appendTransceiverFlags ::
  "(string \<Rightarrow> bool) \<Rightarrow> flagGroup \<Rightarrow> string \<Rightarrow> flagTables \<Rightarrow> metric list \<Rightarrow> ('s, metric list) rio" where
  "appendTransceiverFlags labelOk g device t metrics =
     rangeLoop (transceiver_flag labelOk g device t) 0 (sort (mapKeys (flagValues t))) metrics"

definition domFlags :: "transceiverCollector \<Rightarrow> flagGroup" where
  "domFlags c =
     (let on = Enabled (transceiver_filter c) in
      \<lparr>valueDesc = transceiverDomFlagValue, changeDesc = transceiverDomFlagChanges,
       setDesc = transceiverDomFlagLastSet, clearDesc = transceiverDomFlagLastClear,
       emitValues = on ''sonic_transceiver_dom_flag_value'',
       emitChanges = on ''sonic_transceiver_dom_flag_changes_total'',
       emitSet = on ''sonic_transceiver_dom_flag_last_set_timestamp_seconds'',
       emitClear = on ''sonic_transceiver_dom_flag_last_clear_timestamp_seconds''\<rparr>)"

definition statusFlags :: "transceiverCollector \<Rightarrow> flagGroup" where
  "statusFlags c =
     (let on = Enabled (transceiver_filter c) in
      \<lparr>valueDesc = transceiverStatusFlagValue, changeDesc = transceiverStatusFlagChanges,
       setDesc = transceiverStatusFlagLastSet, clearDesc = transceiverStatusFlagLastClear,
       emitValues = on ''sonic_transceiver_status_flag_value'',
       emitChanges = on ''sonic_transceiver_status_flag_changes_total'',
       emitSet = on ''sonic_transceiver_status_flag_last_set_timestamp_seconds'',
       emitClear = on ''sonic_transceiver_status_flag_last_clear_timestamp_seconds''\<rparr>)"

text \<open>The four reads before a group of flags; \<open>what\<close> is the word its errors have.\<close>

definition readFlags ::
  "'s redisLib \<Rightarrow> redisConfig \<Rightarrow> string \<Rightarrow> string \<Rightarrow> string \<Rightarrow> ('s, flagTables) rio" where
  "readFlags lib cfg table what device =
     (let hget = (\<lambda>suffix kind. io_wrap (''failed to read transceiver '' @ what @ '' flag '' @ kind @ ''entry for %s: %w'')
                   [device] (HgetAllFromDb lib cfg ''STATE_DB'' (table @ suffix @ ''|'' @ device))) in
      io_bind (hget [] []) (\<lambda>values.
      io_bind (hget ''_CHANGE_COUNT'' ''change-count '') (\<lambda>changes.
      io_bind (hget ''_SET_TIME'' ''set-time '') (\<lambda>setTimes.
      io_bind (hget ''_CLEAR_TIME'' ''clear-time '') (\<lambda>clearTimes.
      io_return \<lparr>flagValues = values, flagChanges = changes, flagSetTimes = setTimes,
                 flagClearTimes = clearTimes\<rparr>)))))"

subsection \<open>Scraping Redis\<close>

type_synonym transceiverAcc = "metric list \<times> int \<times> f64"

definition transceiver_port ::
  "(string \<Rightarrow> bool) \<Rightarrow> 's redisLib \<Rightarrow> redisConfig \<Rightarrow> transceiverCollector \<Rightarrow> nat \<Rightarrow> nat \<Rightarrow> string
     \<Rightarrow> transceiverAcc \<Rightarrow> ('s, transceiverAcc loop) rio" where
  "transceiver_port labelOk lib cfg c keyCount index statusKey acc =
     (case acc of (metrics, skippedEntries, truncated) \<Rightarrow>
        if int index \<ge> transceiver_maxPorts (transceiver_config c)
        then io_return (Break (metrics, skippedEntries + (int keyCount - int index), f64_1))
        else case parseKeySuffix statusKey ''TRANSCEIVER_STATUS|'' of
          Inl err \<Rightarrow> io_return (Continue (metrics, skippedEntries + 1, truncated))
        | Inr device \<Rightarrow>
            io_bind (io_wrap ''failed to read transceiver status entry %s: %w'' [statusKey]
                       (HgetAllFromDb lib cfg ''STATE_DB'' statusKey)) (\<lambda>statusData.
            if statusData = [] then io_return (Continue (metrics, skippedEntries + 1, truncated))
            else
              io_bind (emit (Enabled (transceiver_filter c) ''sonic_transceiver_module_info'')
                         (MustNewConstMetric labelOk transceiverModuleInfo GaugeValue f64_1
                            [device, field statusData ''module_state'', field statusData ''module_fault_cause''])
                         metrics) (\<lambda>metrics.
              io_bind (rangeLoop (transceiver_statusField labelOk c device statusData) 0
                         (sort (mapKeys statusData)) metrics) (\<lambda>metrics.
              io_bind (readFlags lib cfg ''TRANSCEIVER_DOM_FLAG'' ''DOM'' device) (\<lambda>domTables.
              io_bind (appendTransceiverFlags labelOk (domFlags c) device domTables metrics) (\<lambda>metrics.
              io_bind (readFlags lib cfg ''TRANSCEIVER_STATUS_FLAG'' ''status'' device) (\<lambda>statusTables.
              io_bind (appendTransceiverFlags labelOk (statusFlags c) device statusTables metrics) (\<lambda>metrics.
              io_bind (io_wrap ''failed to read transceiver threshold entry for %s: %w'' [device]
                         (HgetAllFromDb lib cfg ''STATE_DB'' (''TRANSCEIVER_DOM_THRESHOLD|'' @ device))) (\<lambda>thresholdData.
              io_bind (rangeLoop (transceiver_threshold labelOk c device thresholdData) 0
                         (sort (mapKeys thresholdData)) metrics) (\<lambda>metrics.
              io_return (Continue (metrics, skippedEntries, truncated))))))))))))"

definition transceiver_scrapeMetrics ::
  "(string \<Rightarrow> bool) \<Rightarrow> 's redisLib \<Rightarrow> transceiverCollector \<Rightarrow> ('s, transceiverAcc) rio" where
  "transceiver_scrapeMetrics labelOk lib c =
     withRedis lib (\<lambda>cfg.
       io_bind (io_wrap ''failed to scan transceiver status keys: %w'' []
                  (ScanKeysFromDb lib cfg ''STATE_DB'' ''TRANSCEIVER_STATUS|*''
                     (transceiver_redisScanCount (transceiver_config c)))) (\<lambda>scannedKeys.
       let statusKeys = sort scannedKeys in
       io_bind (scrapeIdentityMetrics labelOk lib cfg c) (\<lambda>identities.
       case identities of (identityMetrics, identitySkipped, identityTruncated) \<Rightarrow>
       rangeLoop (transceiver_port labelOk lib cfg c (length statusKeys)) 0 statusKeys
         (identityMetrics, identitySkipped, if identityTruncated then f64_1 else f64_0))))"

subsection \<open>Refreshing and collecting\<close>

definition transceiver_assignments ::
  "refreshClock \<Rightarrow> goerr + transceiverAcc \<Rightarrow> (transceiverCollector \<Rightarrow> transceiverCollector) list" where
  "transceiver_assignments clk r =
     (\<lambda>c. c\<lparr>lastScrapeDuration := scrapeSeconds clk\<rparr>) #
     (case r of
        Inl err \<Rightarrow> [\<lambda>c. c\<lparr>lastSuccess := f64_0\<rparr>]
      | Inr (metrics, skippedEntries, truncated) \<Rightarrow>
          [\<lambda>c. c\<lparr>cachedMetrics := metrics\<rparr>,
           \<lambda>c. c\<lparr>lastSkippedEntries := f64_of_int skippedEntries\<rparr>,
           \<lambda>c. c\<lparr>lastTruncated := truncated\<rparr>,
           \<lambda>c. c\<lparr>lastSuccess := f64_1\<rparr>,
           \<lambda>c. c\<lparr>lastRefreshTime := t_stored clk\<rparr>])"

definition transceiver_refreshMetrics ::
  "(string \<Rightarrow> bool) \<Rightarrow> 's redisLib \<Rightarrow> refreshClock \<Rightarrow> transceiverCollector \<Rightarrow> ('s, transceiverCollector) rio" where
  "transceiver_refreshMetrics labelOk lib clk c =
     refreshWith (transceiver_scrapeMetrics labelOk lib c) (transceiver_assignments clk) c"

definition transceiver_refreshLoop ::
  "(string \<Rightarrow> bool) \<Rightarrow> 's redisLib \<Rightarrow> refreshClock list \<Rightarrow> transceiverCollector \<Rightarrow> ('s, transceiverCollector) rio" where
  "transceiver_refreshLoop labelOk lib ticks c =
     tickerLoop (transceiver_refreshInterval (transceiver_config c)) (transceiver_refreshMetrics labelOk lib) ticks c"

definition NewTransceiverCollector ::
  "(string \<Rightarrow> bool) \<Rightarrow> 's redisLib \<Rightarrow> env \<Rightarrow> metricFilter \<Rightarrow> refreshClock \<Rightarrow> refreshClock list
     \<Rightarrow> ('s, transceiverCollector) rio" where
  "NewTransceiverCollector labelOk lib env flt clk ticks =
     (let c = transceiver_new env flt
      in if \<not> transceiver_enabled (transceiver_config c) then io_return c
         else io_bind (transceiver_refreshMetrics labelOk lib clk c) (transceiver_refreshLoop labelOk lib ticks))"

text \<open>The copies \<^verbatim>\<open>Collect\<close> makes under the read lock, in its order.\<close>

definition transceiver_copies :: "(transceiverCollector \<Rightarrow> transceiverCollector \<Rightarrow> transceiverCollector) list" where
  "transceiver_copies =
     [\<lambda>c l. l\<lparr>cachedMetrics := cachedMetrics c\<rparr>,
      \<lambda>c l. l\<lparr>lastScrapeDuration := lastScrapeDuration c\<rparr>,
      \<lambda>c l. l\<lparr>lastSuccess := lastSuccess c\<rparr>,
      \<lambda>c l. l\<lparr>lastSkippedEntries := lastSkippedEntries c\<rparr>,
      \<lambda>c l. l\<lparr>lastTruncated := lastTruncated c\<rparr>,
      \<lambda>c l. l\<lparr>lastRefreshTime := lastRefreshTime c\<rparr>]"

definition transceiver_Collect :: "(string \<Rightarrow> bool) \<Rightarrow> gotime \<Rightarrow> transceiverCollector \<Rightarrow> ('w, metric list) io" where
  "transceiver_Collect labelOk now c =
     (if \<not> transceiver_enabled (transceiver_config c) then io_return []
      else let gauge = (\<lambda>d v. MustNewConstMetric labelOk d GaugeValue v []);
               on = Enabled (transceiver_filter c)
        in io_bind (emit (on ''sonic_transceiver_entries_skipped'') (gauge transceiverEntriesSkipped (lastSkippedEntries c)) (cachedMetrics c)) (\<lambda>ch.
           io_bind (emit (on ''sonic_transceiver_entries_truncated'') (gauge transceiverEntriesTruncated (lastTruncated c)) ch) (\<lambda>ch.
           io_bind (emit (on ''sonic_transceiver_scrape_duration_seconds'') (gauge transceiverScrapeDuration (lastScrapeDuration c)) ch) (\<lambda>ch.
           io_bind (emit (on ''sonic_transceiver_collector_success'') (gauge transceiverScrapeCollectorSuccess (lastSuccess c)) ch) (\<lambda>ch.
           emit (on ''sonic_transceiver_cache_age_seconds'') (gauge transceiverCacheAge (cacheAge now (lastRefreshTime c))) ch)))))"

interpretation transceiver: refresh_contract transceiver_assignments transceiver_copies cacheState.truncate
  "\<lambda>c. (transceiver_config c, transceiver_filter c)" fst
proof unfold_locales
  show "(transceiver_config (f c), transceiver_filter (f c)) = (transceiver_config c, transceiver_filter c)"
    if "f \<in> set (transceiver_assignments clk r)" for f clk r c
    using that by (auto simp: transceiver_assignments_def split: sum.splits prod.splits)
qed (auto simp: transceiver_assignments_def transceiver_copies_def cacheState.truncate_def)

subsection \<open>The descriptions\<close>

lemma fq_transceiver [simp]:
  "fqName transceiverModuleInfo = ''sonic_transceiver_module_info''"
  "fqName transceiverIdentityInfo = ''sonic_transceiver_identity_info''"
  "fqName transceiverStatusValue = ''sonic_transceiver_status_value''"
  "fqName transceiverStatusFlagValue = ''sonic_transceiver_status_flag_value''"
  "fqName transceiverStatusFlagChanges = ''sonic_transceiver_status_flag_changes_total''"
  "fqName transceiverStatusFlagLastSet = ''sonic_transceiver_status_flag_last_set_timestamp_seconds''"
  "fqName transceiverStatusFlagLastClear = ''sonic_transceiver_status_flag_last_clear_timestamp_seconds''"
  "fqName transceiverDomFlagValue = ''sonic_transceiver_dom_flag_value''"
  "fqName transceiverDomFlagChanges = ''sonic_transceiver_dom_flag_changes_total''"
  "fqName transceiverDomFlagLastSet = ''sonic_transceiver_dom_flag_last_set_timestamp_seconds''"
  "fqName transceiverDomFlagLastClear = ''sonic_transceiver_dom_flag_last_clear_timestamp_seconds''"
  "fqName transceiverDomThresholdValue = ''sonic_transceiver_dom_threshold_value''"
  "fqName transceiverEntriesSkipped = ''sonic_transceiver_entries_skipped''"
  "fqName transceiverEntriesTruncated = ''sonic_transceiver_entries_truncated''"
  "fqName transceiverScrapeDuration = ''sonic_transceiver_scrape_duration_seconds''"
  "fqName transceiverScrapeCollectorSuccess = ''sonic_transceiver_collector_success''"
  "fqName transceiverCacheAge = ''sonic_transceiver_cache_age_seconds''"
  by (simp_all add: desc_defs)

lemma labels_transceiver [simp]:
  "length (d_labels transceiverModuleInfo) = 3"
  "length (d_labels transceiverIdentityInfo) = 7"
  "length (d_labels transceiverStatusValue) = 2"
  "length (d_labels transceiverStatusFlagValue) = 2"
  "length (d_labels transceiverStatusFlagChanges) = 2"
  "length (d_labels transceiverStatusFlagLastSet) = 2"
  "length (d_labels transceiverStatusFlagLastClear) = 2"
  "length (d_labels transceiverDomFlagValue) = 2"
  "length (d_labels transceiverDomFlagChanges) = 2"
  "length (d_labels transceiverDomFlagLastSet) = 2"
  "length (d_labels transceiverDomFlagLastClear) = 2"
  "length (d_labels transceiverDomThresholdValue) = 2"
  "d_labels transceiverEntriesSkipped = []"
  "d_labels transceiverEntriesTruncated = []"
  "d_labels transceiverScrapeDuration = []"
  "d_labels transceiverScrapeCollectorSuccess = []"
  "d_labels transceiverCacheAge = []"
  by (simp_all add: desc_defs)

lemma transceiver_described [simp]:
  "transceiverModuleInfo \<in> set transceiver_Describe"
  "transceiverIdentityInfo \<in> set transceiver_Describe"
  "transceiverStatusValue \<in> set transceiver_Describe"
  "transceiverStatusFlagValue \<in> set transceiver_Describe"
  "transceiverStatusFlagChanges \<in> set transceiver_Describe"
  "transceiverStatusFlagLastSet \<in> set transceiver_Describe"
  "transceiverStatusFlagLastClear \<in> set transceiver_Describe"
  "transceiverDomFlagValue \<in> set transceiver_Describe"
  "transceiverDomFlagChanges \<in> set transceiver_Describe"
  "transceiverDomFlagLastSet \<in> set transceiver_Describe"
  "transceiverDomFlagLastClear \<in> set transceiver_Describe"
  "transceiverDomThresholdValue \<in> set transceiver_Describe"
  "transceiverEntriesSkipped \<in> set transceiver_Describe"
  "transceiverEntriesTruncated \<in> set transceiver_Describe"
  "transceiverScrapeDuration \<in> set transceiver_Describe"
  "transceiverScrapeCollectorSuccess \<in> set transceiver_Describe"
  "transceiverCacheAge \<in> set transceiver_Describe"
  by (simp_all add: transceiver_Describe_def)

lemma transceiver_names: "ownNames ''transceiver'' transceiver_Describe"
  by (simp add: ownNames_def transceiver_Describe_def subsystemOf_def desc_defs)

subsection \<open>Collect\<close>

definition transceiver_health :: "gotime \<Rightarrow> transceiverCollector \<Rightarrow> (desc \<times> f64) list" where
  "transceiver_health now c =
     [(transceiverEntriesSkipped, lastSkippedEntries c),
      (transceiverEntriesTruncated, lastTruncated c),
      (transceiverScrapeDuration, lastScrapeDuration c),
      (transceiverScrapeCollectorSuccess, lastSuccess c),
      (transceiverCacheAge, cacheAge now (lastRefreshTime c))]"

lemma transceiver_Collect_yields:
  "transceiver_IsEnabled c \<Longrightarrow>
    yields I (transceiver_Collect labelOk now c) (cachedMetrics c @ gauges (transceiver_filter c) (transceiver_health now c))"
  unfolding transceiver_Collect_def transceiver_health_def Let_def transceiver_IsEnabled_def
  by (simp only: not_True_eq_False if_False, rule yields_eq,
      (rule yields_bind_gauge, simp, simp)+, rule yields_gauge)
     (simp_all only: gauges_append append.simps fq_transceiver labels_transceiver)

lemma transceiver_health_good: "list_all (goodMetric labelOk flt transceiver_Describe) (gauges flt (transceiver_health now c))"
  by (rule gauges_good) (auto simp: transceiver_health_def)

subsection \<open>What a refresh exports\<close>

abbreviation transceiver_good :: "(string \<Rightarrow> bool) \<Rightarrow> transceiverCollector \<Rightarrow> metric list \<Rightarrow> bool" where
  "transceiver_good labelOk c \<equiv> list_all (goodMetric labelOk (transceiver_filter c) transceiver_Describe)"

text \<open>A group of flags whose descriptions are announced under names the guards ask for.\<close>

definition flagGroupOk :: "transceiverCollector \<Rightarrow> flagGroup \<Rightarrow> bool" where
  "flagGroupOk c g =
     (list_all (\<lambda>(d, on). d \<in> set transceiver_Describe \<and> length (d_labels d) = 2 \<and>
          on = Enabled (transceiver_filter c) (fqName d))
        [(valueDesc g, emitValues g), (changeDesc g, emitChanges g), (setDesc g, emitSet g), (clearDesc g, emitClear g)])"

lemma flagGroups_ok: "flagGroupOk c (domFlags c)" "flagGroupOk c (statusFlags c)"
  by (simp_all add: flagGroupOk_def domFlags_def statusFlags_def Let_def)

lemmas transceiver_emits =
  post_bind_emit [where descs = transceiver_Describe] post_bind_emitValue [where descs = transceiver_Describe]

lemma transceiver_statusFields_good:
  "transceiver_good labelOk c ms \<Longrightarrow>
    post (rangeLoop (transceiver_statusField labelOk c device data) 0 fs ms) (transceiver_good labelOk c)"
proof (erule post_rangeLoop_inv)
  show "post (transceiver_statusField labelOk c device data i x a)
      (\<lambda>r. case r of Continue b \<Rightarrow> transceiver_good labelOk c b | Break b \<Rightarrow> transceiver_good labelOk c b)"
    if "transceiver_good labelOk c a" for i x a
    unfolding transceiver_statusField_def using that
    by (auto intro!: post_rules transceiver_emits [where labelOk = labelOk and flt = "transceiver_filter c"])
qed

lemma transceiver_thresholds_good:
  "transceiver_good labelOk c ms \<Longrightarrow>
    post (rangeLoop (transceiver_threshold labelOk c device data) 0 fs ms) (transceiver_good labelOk c)"
proof (erule post_rangeLoop_inv)
  show "post (transceiver_threshold labelOk c device data i x a)
      (\<lambda>r. case r of Continue b \<Rightarrow> transceiver_good labelOk c b | Break b \<Rightarrow> transceiver_good labelOk c b)"
    if "transceiver_good labelOk c a" for i x a
    unfolding transceiver_threshold_def using that
    by (auto intro!: post_rules transceiver_emits [where labelOk = labelOk and flt = "transceiver_filter c"])
qed

lemma transceiver_flags_good:
  assumes "flagGroupOk c g" "transceiver_good labelOk c ms"
  shows "post (appendTransceiverFlags labelOk g device t ms) (transceiver_good labelOk c)"
  unfolding appendTransceiverFlags_def
proof (rule post_rangeLoop_inv)
  show "post (transceiver_flag labelOk g device t i x a)
      (\<lambda>r. case r of Continue b \<Rightarrow> transceiver_good labelOk c b | Break b \<Rightarrow> transceiver_good labelOk c b)"
    if "transceiver_good labelOk c a" for i x a
    unfolding transceiver_flag_def Let_def using that assms(1)
    by (auto simp: flagGroupOk_def intro!: post_rules
        transceiver_emits [where labelOk = labelOk and flt = "transceiver_filter c"])
qed (rule assms(2))

lemma transceiver_port_good:
  assumes "transceiver_good labelOk c (fst acc)"
  shows "post (transceiver_port labelOk lib cfg c keyCount i key acc)
    (\<lambda>r. case r of Continue b \<Rightarrow> transceiver_good labelOk c (fst b) | Break b \<Rightarrow> transceiver_good labelOk c (fst b))"
proof (cases acc)
  case (fields ms sk t)
  with assms have ms: "transceiver_good labelOk c ms" by simp
  have port: "post (io_bind (emit (Enabled (transceiver_filter c) ''sonic_transceiver_module_info'')
        (MustNewConstMetric labelOk transceiverModuleInfo GaugeValue f64_1 [device, x, y]) ms) f) Q"
    if "\<And>r. transceiver_good labelOk c r \<Longrightarrow> post (f r) Q" for device x y f and Q :: "'x \<Rightarrow> bool"
    by (rule transceiver_emits(1) [where labelOk = labelOk and flt = "transceiver_filter c"], rule ms, rule post_good)
       (simp_all add: that)
  show ?thesis
    unfolding transceiver_port_def fields prod.case
    apply (rule post_if, rule post_return, simp add: ms)
    apply (rule post_case_sum, rule post_return, simp add: ms)
    apply (rule post_bind_any, rule post_if, rule post_return, simp add: ms)
    apply (rule port)
    apply (rule post_bind, erule transceiver_statusFields_good)
    apply (rule post_bind_any, rule post_bind, erule transceiver_flags_good [OF flagGroups_ok(1)])
    apply (rule post_bind_any, rule post_bind, erule transceiver_flags_good [OF flagGroups_ok(2)])
    apply (rule post_bind_any, rule post_bind, erule transceiver_thresholds_good)
    apply (rule post_return, simp)
    done
qed

lemma scrapeIdentityMetrics_good:
  "post (scrapeIdentityMetrics labelOk lib cfg c) (\<lambda>r. transceiver_good labelOk c (fst r))"
  unfolding scrapeIdentityMetrics_def Let_def
proof (rule post_bind_any, rule post_rangeLoop_inv)
  show "post (transceiver_identity labelOk lib cfg c keyCount i key acc)
      (\<lambda>r. case r of Continue b \<Rightarrow> transceiver_good labelOk c (fst b) | Break b \<Rightarrow> transceiver_good labelOk c (fst b))"
    if "transceiver_good labelOk c (fst acc)" for keyCount i key and acc :: identityAcc
    unfolding transceiver_identity_def using that
    by (auto intro!: post_rules post_bind [OF post_good [where flt = "transceiver_filter c" and descs = transceiver_Describe]])
qed simp

lemma transceiver_scrape_ok:
  "post (transceiver_scrapeMetrics labelOk lib c) (\<lambda>r. transceiver_good labelOk c (fst r))"
  unfolding transceiver_scrapeMetrics_def Let_def
  by (rule post_withRedis, rule post_bind_any, rule post_bind, rule scrapeIdentityMetrics_good,
      rule post_case_prod, rule post_case_prod, rule post_rangeLoop_inv, simp, rule transceiver_port_good, assumption)

lemma transceiver_Collect_good:
  "transceiver_good labelOk c (cachedMetrics c) \<Longrightarrow>
    post (transceiver_Collect labelOk now c) (transceiver_good labelOk c)"
proof (cases "transceiver_IsEnabled c")
  case True
  assume "transceiver_good labelOk c (cachedMetrics c)"
  then show ?thesis
    by (intro yields_post [OF transceiver_Collect_yields [OF True]]) (simp add: transceiver_health_good)
next
  case False
  then show ?thesis by (simp add: transceiver_Collect_def transceiver_IsEnabled_def post_return)
qed

interpretation transceiver_source: metric_source transceiver_assignments transceiver_copies cacheState.truncate
  "\<lambda>c. (transceiver_config c, transceiver_filter c)" fst "transceiver_scrapeMetrics labelOk lib" "transceiver_Collect labelOk"
  "\<lambda>f. list_all (goodMetric labelOk (snd f) transceiver_Describe)"
  for labelOk lib
  by unfold_locales (simp_all add: transceiver_Collect_good cacheState.truncate_def transceiver_scrape_ok)

subsection \<open>The specification of a refresh\<close>

definition transceiver_idOk :: "(string \<Rightarrow> fields) \<Rightarrow> string \<Rightarrow> bool" where
  "transceiver_idOk db key = (named ''TRANSCEIVER_INFO|'' key \<and> \<not> identityIsEmpty (db key))"

definition transceiver_idMetric :: "(string \<Rightarrow> fields) \<Rightarrow> string \<Rightarrow> metric" where
  "transceiver_idMetric db key =
     constMetric transceiverIdentityInfo GaugeValue f64_1
       (trimPrefix key ''TRANSCEIVER_INFO|'' # map (\<lambda>fld. trimSpace (field (db key) fld)) identityFields)"

text \<open>The readings of one table: one for every field that is not left out and parses.\<close>

definition fieldMetrics ::
  "bool \<Rightarrow> desc \<Rightarrow> valueType \<Rightarrow> string \<Rightarrow> (string \<Rightarrow> f64 option) \<Rightarrow> string \<Rightarrow> metric list" where
  "fieldMetrics guard d ty device parse fld = optMetric (parse fld) guard (\<lambda>v. constMetric d ty v [device, fld])"

definition flagMetrics :: "flagGroup \<Rightarrow> string \<Rightarrow> flagTables \<Rightarrow> string \<Rightarrow> metric list" where
  "flagMetrics g device t fld =
     fieldMetrics (emitValues g) (valueDesc g) GaugeValue device (\<lambda>f. parseBoolish (field (flagValues t) f)) fld @
     fieldMetrics (emitChanges g) (changeDesc g) CounterValue device (\<lambda>f. parseCounterLike (field (flagChanges t) f)) fld @
     fieldMetrics (emitSet g) (setDesc g) GaugeValue device (\<lambda>f. parseEventTime (field (flagSetTimes t) f)) fld @
     fieldMetrics (emitClear g) (clearDesc g) GaugeValue device (\<lambda>f. parseEventTime (field (flagClearTimes t) f)) fld"

definition flagTablesOf :: "(string \<Rightarrow> fields) \<Rightarrow> string \<Rightarrow> string \<Rightarrow> flagTables" where
  "flagTablesOf db table device =
     (let read = (\<lambda>suffix. db (table @ suffix @ ''|'' @ device))
      in \<lparr>flagValues = read [], flagChanges = read ''_CHANGE_COUNT'', flagSetTimes = read ''_SET_TIME'',
          flagClearTimes = read ''_CLEAR_TIME''\<rparr>)"

definition groupMetrics :: "flagGroup \<Rightarrow> string \<Rightarrow> flagTables \<Rightarrow> metric list" where
  "groupMetrics g device t = concat (map (flagMetrics g device t) (sort (mapKeys (flagValues t))))"

definition transceiver_portOk :: "(string \<Rightarrow> fields) \<Rightarrow> string \<Rightarrow> bool" where
  "transceiver_portOk db key = (named ''TRANSCEIVER_STATUS|'' key \<and> db key \<noteq> [])"

definition transceiver_portMetrics :: "transceiverCollector \<Rightarrow> (string \<Rightarrow> fields) \<Rightarrow> string \<Rightarrow> metric list" where
  "transceiver_portMetrics c db key =
     (let on = Enabled (transceiver_filter c); device = trimPrefix key ''TRANSCEIVER_STATUS|''; status = db key;
          thresholds = db (''TRANSCEIVER_DOM_THRESHOLD|'' @ device)
      in (if on ''sonic_transceiver_module_info''
          then [constMetric transceiverModuleInfo GaugeValue f64_1
                  [device, field status ''module_state'', field status ''module_fault_cause'']] else []) @
         concat (map (fieldMetrics (on ''sonic_transceiver_status_value'') transceiverStatusValue GaugeValue device
                        (\<lambda>f. parseBoolish (field status f)))
           (filter (\<lambda>f. f \<notin> {''module_state'', ''module_fault_cause'', ''last_update_time''}) (sort (mapKeys status)))) @
         groupMetrics (domFlags c) device (flagTablesOf db ''TRANSCEIVER_DOM_FLAG'' device) @
         groupMetrics (statusFlags c) device (flagTablesOf db ''TRANSCEIVER_STATUS_FLAG'' device) @
         concat (map (fieldMetrics (on ''sonic_transceiver_dom_threshold_value'') transceiverDomThresholdValue
                        GaugeValue device (\<lambda>f. parseCounterLike (field thresholds f)))
           (filter (\<lambda>f. f \<noteq> ''last_update_time'') (sort (mapKeys thresholds)))))"

definition transceiver_spec ::
  "transceiverCollector \<Rightarrow> (int \<Rightarrow> string \<Rightarrow> fields) \<Rightarrow> (int \<Rightarrow> string \<Rightarrow> string list) \<Rightarrow> transceiverAcc" where
  "transceiver_spec c db scan =
     (let ids = sort (scan 6 ''TRANSCEIVER_INFO|*''); keys = sort (scan 6 ''TRANSCEIVER_STATUS|*'');
          room = nat (transceiver_maxPorts (transceiver_config c));
          goodIds = filter (transceiver_idOk (db 6)) (take room ids);
          goodKeys = filter (transceiver_portOk (db 6)) (take room keys)
      in ((if Enabled (transceiver_filter c) ''sonic_transceiver_identity_info''
           then map (transceiver_idMetric (db 6)) goodIds else []) @
          concat (map (transceiver_portMetrics c (db 6)) goodKeys),
          (int (length ids) - int (length goodIds)) + (int (length keys) - int (length goodKeys)),
          if room < length ids \<or> room < length keys then f64_1 else f64_0))"

subsection \<open>The code meets it\<close>

lemma transceiver_statusField_yields:
  "yields I (transceiver_statusField anyLabel c device data i fld ms)
    (Continue (ms @ (if fld \<notin> {''module_state'', ''module_fault_cause'', ''last_update_time''}
       then fieldMetrics (Enabled (transceiver_filter c) ''sonic_transceiver_status_value'') transceiverStatusValue
              GaugeValue device (\<lambda>f. parseBoolish (field data f)) fld else [])))"
  unfolding transceiver_statusField_def fieldMetrics_def
  by (auto intro!: yields_return yields_bind_emitValue)

lemma transceiver_threshold_yields:
  "yields I (transceiver_threshold anyLabel c device data i fld ms)
    (Continue (ms @ (if fld \<noteq> ''last_update_time''
       then fieldMetrics (Enabled (transceiver_filter c) ''sonic_transceiver_dom_threshold_value'')
              transceiverDomThresholdValue GaugeValue device (\<lambda>f. parseCounterLike (field data f)) fld else [])))"
  unfolding transceiver_threshold_def fieldMetrics_def
  by (auto intro!: yields_return yields_bind_emitValue)

lemma appendTransceiverFlags_yields:
  assumes "flagGroupOk c g"
  shows "yields I (appendTransceiverFlags anyLabel g device t ms) (ms @ groupMetrics g device t)"
  unfolding appendTransceiverFlags_def groupMetrics_def
proof (rule yields_appendLoop)
  show "yields I (transceiver_flag anyLabel g device t i fld ms) (Continue (ms @ flagMetrics g device t fld))" for i fld ms
    unfolding transceiver_flag_def Let_def
    by (rule yields_eq, (rule yields_bind_emitValue, use assms in \<open>simp add: flagGroupOk_def\<close>)+, rule yields_return)
       (simp add: flagMetrics_def fieldMetrics_def)
qed

lemma concat_map_filter: "concat (map (\<lambda>x. if P x then f x else []) xs) = concat (map f (filter P xs))"
  by (induction xs) auto

lemma transceiver_read:
  assumes "serves lib cfg db scan"
  shows "yields (handlesOk cfg) (io_wrap msg args (HgetAllFromDb lib cfg ''STATE_DB'' k)) (db 6 k)"
  by (rule yields_wrap [OF yields_HgetAll [OF assms]]) (simp add: RedisDbId_def)

lemma readFlags_yields:
  assumes "serves lib cfg db scan"
  shows "yields (handlesOk cfg) (readFlags lib cfg table what device) (flagTablesOf (db 6) table device)"
  unfolding readFlags_def Let_def
  by (rule yields_eq, (rule yields_bind, rule transceiver_read [OF assms])+, rule yields_return)
     (simp add: flagTablesOf_def)

lemma transceiver_port_yields:
  assumes "serves lib cfg db scan"
  shows "yields (handlesOk cfg) (transceiver_port anyLabel lib cfg c keyCount i key (ms, sk, t))
    (if transceiver_maxPorts (transceiver_config c) \<le> int i then Break (ms, sk + (int keyCount - int i), f64_1)
     else Continue (if transceiver_portOk (db 6) key then (ms @ transceiver_portMetrics c (db 6) key, sk, t)
                    else (ms, sk + 1, t)))"
proof (cases "transceiver_maxPorts (transceiver_config c) \<le> int i")
  case True
  then show ?thesis by (simp add: transceiver_port_def yields_return)
next
  case room: False
  show ?thesis
  proof (cases rule: parseKeySuffix_cases [of key "''TRANSCEIVER_STATUS|''"])
    case (error e)
    then show ?thesis using room by (auto simp: transceiver_port_def transceiver_portOk_def named_def yields_return)
  next
    case suffix
    let ?device = "trimPrefix key ''TRANSCEIVER_STATUS|''"
    note read = transceiver_read [OF assms]
    show ?thesis
    proof (cases "db 6 key = []")
      case True
      then show ?thesis
        using room suffix
        by (auto simp: transceiver_port_def transceiver_portOk_def intro!: yields_bind [OF read] yields_return)
    next
      case False
      have "yields (handlesOk cfg) (transceiver_port anyLabel lib cfg c keyCount i key (ms, sk, t))
          (Continue (ms @ transceiver_portMetrics c (db 6) key, sk, t))"
        unfolding transceiver_port_def prod.case suffix(3) sum.case
        by (simp only: room if_False, rule yields_bind [OF read], simp only: False if_False, rule yields_eq,
            rule yields_bind_emit, simp,
            rule yields_bind, rule yields_appendLoop, rule transceiver_statusField_yields,
            rule yields_bind [OF readFlags_yields [OF assms]], rule yields_bind [OF appendTransceiverFlags_yields [OF flagGroups_ok(1)]],
            rule yields_bind [OF readFlags_yields [OF assms]], rule yields_bind [OF appendTransceiverFlags_yields [OF flagGroups_ok(2)]],
            rule yields_bind [OF read],
            rule yields_bind, rule yields_appendLoop, rule transceiver_threshold_yields, rule yields_return)
           (simp add: transceiver_portMetrics_def Let_def concat_map_filter)
      then show ?thesis
        using room suffix False by (simp add: transceiver_portOk_def named_def)
    qed
  qed
qed

lemma transceiver_identity_yields:
  assumes "serves lib cfg db scan"
  shows "yields (handlesOk cfg) (transceiver_identity anyLabel lib cfg c keyCount i key (ms, sk, t))
    (if transceiver_maxPorts (transceiver_config c) \<le> int i then Break (ms, sk + (int keyCount - int i), True)
     else Continue (if transceiver_idOk (db 6) key
       then (ms @ (if Enabled (transceiver_filter c) ''sonic_transceiver_identity_info''
                   then [transceiver_idMetric (db 6) key] else []), sk, t)
       else (ms, sk + 1, t)))"
proof -
  have made: "yields (handlesOk cfg) (MustNewConstMetric anyLabel transceiverIdentityInfo GaugeValue f64_1
      (trimPrefix key ''TRANSCEIVER_INFO|'' # map (\<lambda>fld. trimSpace (field (db 6 key) fld)) identityFields))
      (transceiver_idMetric (db 6) key)"
    unfolding transceiver_idMetric_def by (rule yields_MustNew) (simp_all add: identityFields_def list.pred_True)
  show ?thesis
  proof (cases rule: parseKeySuffix_cases [of key "''TRANSCEIVER_INFO|''"])
    case suffix
    then show ?thesis
      by (auto simp: transceiver_identity_def transceiver_idOk_def named_def
          intro!: yields_return yields_bind [OF transceiver_read [OF assms]] yields_bind [OF made])
  next
    case (error e)
    then show ?thesis by (auto simp: transceiver_identity_def transceiver_idOk_def named_def yields_return)
  qed
qed

lemma fold_append_if: "fold (\<lambda>k ms. ms @ (if b then [f k] else [])) ks ms = ms @ (if b then map f ks else [])"
  by (induction ks arbitrary: ms) auto

lemma transceiver_scrape_spec:
  assumes "serves lib cfg db scan"
  shows "fst (transceiver_scrapeMetrics anyLabel lib c w) = Ok (transceiver_spec c db scan)"
proof -
  have keys: "yields (handlesOk cfg) (io_wrap msg args (ScanKeysFromDb lib cfg ''STATE_DB'' p n)) (scan 6 p)" for msg args p n
    by (rule yields_wrap [OF yields_ScanKeys [OF assms]]) (simp add: RedisDbId_def)
  note iloop = bounded_loop_yields [OF transceiver_identity_yields [OF assms],
      where i = 0 and room = "nat (transceiver_maxPorts (transceiver_config c))"]
    and ploop = bounded_loop_yields [OF transceiver_port_yields [OF assms],
      where i = 0 and room = "nat (transceiver_maxPorts (transceiver_config c))"]
  show ?thesis
    unfolding transceiver_scrapeMetrics_def scrapeIdentityMetrics_def Let_def
    by (rule withRedis_yields [OF assms], rule yields_eq, rule yields_bind [OF keys],
        rule yields_bind, rule yields_bind [OF keys], rule iloop, simp, simp, simp only: prod.case, rule ploop, simp, simp)
       (simp add: transceiver_spec_def Let_def fold_append_if fold_append_concat)
qed

subsection \<open>No time series twice\<close>

definition portGroup :: "string \<Rightarrow> nat" where
  "portGroup name =
     (if name = ''sonic_transceiver_identity_info'' then 0
      else if name = ''sonic_transceiver_module_info'' then 1
      else if name = ''sonic_transceiver_status_value'' then 2
      else if prefix ''sonic_transceiver_dom_flag'' name then 3
      else if prefix ''sonic_transceiver_status_flag'' name then 4 else 5)"

lemma fieldMetrics_series:
  assumes "distinct fs"
  shows "seriesTagged portGroup (portGroup (fqName d)) (concat (map (fieldMetrics g d ty device parse) fs))"
proof -
  have "distinct (concat (map (\<lambda>f. map series (fieldMetrics g d ty device parse f)) fs))"
    by (rule distinct_concat_tagged [where tag = "\<lambda>s. snd s ! 1", OF assms])
       (auto simp: fieldMetrics_def optMetric_def split: option.splits if_splits)
  then show ?thesis
    by (auto simp: seriesTagged_def map_concat o_def list_all_iff fieldMetrics_def optMetric_def
        split: option.splits if_splits)
qed

lemma groupMetrics_series:
  assumes "distinct (map fst (flagValues t))" "distinct (map fqName [valueDesc g, changeDesc g, setDesc g, clearDesc g])"
    "\<forall>d\<in>set [valueDesc g, changeDesc g, setDesc g, clearDesc g]. portGroup (fqName d) = n"
  shows "seriesTagged portGroup n (groupMetrics g device t)"
proof -
  have own: "\<exists>d v ty. m = constMetric d ty v [device, f] \<and> d \<in> set [valueDesc g, changeDesc g, setDesc g, clearDesc g]"
    if "m \<in> set (flagMetrics g device t f)" for m f
    using that by (auto simp: flagMetrics_def fieldMetrics_def optMetric_def split: option.splits if_splits)
  have "distinct (concat (map (\<lambda>f. map series (flagMetrics g device t f)) (sort (mapKeys (flagValues t)))))"
  proof (rule distinct_concat_tagged [where tag = "\<lambda>s. snd s ! 1"])
    show "distinct (map series (flagMetrics g device t f))" for f
      using assms(2) by (auto simp: flagMetrics_def fieldMetrics_def optMetric_def split: option.split)
    show "snd s ! 1 = f" if "s \<in> set (map series (flagMetrics g device t f))" for s f
      using that own by fastforce
  qed (use assms(1) in \<open>simp add: mapKeys_def\<close>)
  moreover have "portGroup (fqName (m_desc m)) = n" if "m \<in> set (flagMetrics g device t f)" for m f
    using own [OF that] assms(3) by auto
  ultimately show ?thesis
    by (auto simp: seriesTagged_def groupMetrics_def map_concat o_def list_all_iff)
qed

lemma flagGroups_series:
  assumes "distinct (map fst (flagValues t))"
  shows "seriesTagged portGroup 3 (groupMetrics (domFlags c) device t)"
    "seriesTagged portGroup 4 (groupMetrics (statusFlags c) device t)"
  by (rule groupMetrics_series [OF assms]; simp add: domFlags_def statusFlags_def Let_def portGroup_def)+

lemma transceiver_portMetrics_series:
  assumes "\<forall>k. distinct (map fst (db k))"
  shows "distinct (map series (transceiver_portMetrics c db key))"
proof -
  have sorted: "distinct (filter P (sort (mapKeys (db k))))" for P k
    using assms by (simp add: mapKeys_def)
  have five: "distinct (map series (a @ b @ x @ y @ z))"
    if "seriesTagged portGroup 1 a" "seriesTagged portGroup 2 b" "seriesTagged portGroup 3 x"
      "seriesTagged portGroup 4 y" "seriesTagged portGroup 5 z" for a b x y z
    using that seriesTagged_concat [of portGroup "[(1, a), (2, b), (3, x), (4, y), (5, z)]"] by simp
  have status: "portGroup (fqName transceiverStatusValue) = 2" and threshold: "portGroup (fqName transceiverDomThresholdValue) = 5"
    and info: "portGroup (fqName transceiverModuleInfo) = 1"
    by (simp_all add: portGroup_def)
  note fields = fieldMetrics_series [OF sorted, where d = transceiverStatusValue, unfolded status]
    fieldMetrics_series [OF sorted, where d = transceiverDomThresholdValue, unfolded threshold]
  show ?thesis
    unfolding transceiver_portMetrics_def Let_def
    by (rule five, rule seriesTagged_if, rule seriesTagged_one, rule info, rule fields(1),
        (rule flagGroups_series, use assms in \<open>simp add: flagTablesOf_def\<close>)+, rule fields(2))
qed

lemma transceiver_portMetrics_label:
  "m \<in> set (transceiver_portMetrics c db key) \<Longrightarrow>
    hd (m_labels m) = trimPrefix key ''TRANSCEIVER_STATUS|'' \<and> portGroup (fqName (m_desc m)) \<noteq> 0"
  by (auto simp: transceiver_portMetrics_def Let_def groupMetrics_def flagMetrics_def fieldMetrics_def optMetric_def
      domFlags_def statusFlags_def portGroup_def split: if_splits option.splits)

lemma transceiver_spec_series:
  assumes "distinct (scan 6 ''TRANSCEIVER_INFO|*'')" "distinct (scan 6 ''TRANSCEIVER_STATUS|*'')"
    "\<forall>k. distinct (map fst (db 6 k))"
  shows "distinct (map series (fst (transceiver_spec c db scan)))"
proof -
  let ?room = "nat (transceiver_maxPorts (transceiver_config c))"
  let ?ids = "filter (transceiver_idOk (db 6)) (take ?room (sort (scan 6 ''TRANSCEIVER_INFO|*'')))"
  let ?keys = "filter (transceiver_portOk (db 6)) (take ?room (sort (scan 6 ''TRANSCEIVER_STATUS|*'')))"
  let ?ports = "concat (map (transceiver_portMetrics c (db 6)) ?keys)"
  have "inj_on (\<lambda>k. trimPrefix k ''TRANSCEIVER_INFO|'') (set ?ids)"
    by (rule inj_onI) (metis (no_types, lifting) hasPrefix_trim mem_Collect_eq named_def set_filter transceiver_idOk_def)
  then have "distinct (map (\<lambda>k. trimPrefix k ''TRANSCEIVER_INFO|'') ?ids)"
    using assms(1) by (simp add: distinct_map)
  then have ids: "distinct (map series (map (transceiver_idMetric (db 6)) ?ids))"
    by (simp add: distinct_map inj_on_def transceiver_idMetric_def)
  have "distinct (concat (map (\<lambda>k. map series (transceiver_portMetrics c (db 6) k)) ?keys))"
  proof (rule distinct_concat_tagged [where tag = "\<lambda>s. ''TRANSCEIVER_STATUS|'' @ hd (snd s)"])
    fix k s
    assume "k \<in> set ?keys" "s \<in> set (map series (transceiver_portMetrics c (db 6) k))"
    moreover have "k = ''TRANSCEIVER_STATUS|'' @ trimPrefix k ''TRANSCEIVER_STATUS|''" if "k \<in> set ?keys"
      using that by (intro hasPrefix_trim) (simp add: transceiver_portOk_def named_def)
    ultimately show "''TRANSCEIVER_STATUS|'' @ hd (snd s) = k"
      by (auto simp: series_def dest: transceiver_portMetrics_label)
  next
    show "distinct (map series (transceiver_portMetrics c (db 6) k))" for k
      by (rule transceiver_portMetrics_series) (rule assms(3))
  qed (use assms(2) in simp)
  then have ports: "distinct (map series ?ports)"
    by (simp add: map_concat o_def)
  have "seriesTagged (\<lambda>n. portGroup n = 0) True (if b then map (transceiver_idMetric (db 6)) ?ids else [])" for b
    by (rule seriesTagged_if) (use ids in \<open>simp add: seriesTagged_def list_all_iff transceiver_idMetric_def portGroup_def\<close>)
  moreover have "seriesTagged (\<lambda>n. portGroup n = 0) False ?ports"
    unfolding seriesTagged_def using ports transceiver_portMetrics_label by (fastforce simp: list_all_iff)
  ultimately have "distinct (map series (concat (map snd
      [(True, if b then map (transceiver_idMetric (db 6)) ?ids else []), (False, ?ports)])))" for b
    by (intro seriesTagged_concat [where tag = "\<lambda>n. portGroup n = 0"]) simp_all
  then show ?thesis
    by (simp add: transceiver_spec_def Let_def)
qed

subsection \<open>Properties\<close>

text \<open>A switch with one module, which reports a monitoring flag, when it was set, and a threshold.\<close>

definition transceiver_demoDb :: "int \<Rightarrow> string \<Rightarrow> fields" where
  "transceiver_demoDb n key =
     (if key = ''TRANSCEIVER_INFO|Ethernet0'' then [(''manufacturer'', ''ACME ''), (''model'', ''QSFP-1'')]
      else if key = ''TRANSCEIVER_STATUS|Ethernet0'' then [(''module_state'', ''ModuleReady''), (''tx_disable'', ''False'')]
      else if key = ''TRANSCEIVER_DOM_FLAG|Ethernet0'' then [(''rxpowerHAlarm'', ''True'')]
      else if key = ''TRANSCEIVER_DOM_FLAG_SET_TIME|Ethernet0'' then [(''rxpowerHAlarm'', ''Wed Jan 08 12:34:56 2025'')]
      else if key = ''TRANSCEIVER_DOM_THRESHOLD|Ethernet0'' then [(''temphighalarm'', ''75.0'')]
      else [])"

definition transceiver_demoScan :: "int \<Rightarrow> string \<Rightarrow> string list" where
  "transceiver_demoScan n pattern =
     (if pattern = ''TRANSCEIVER_INFO|*'' then [''TRANSCEIVER_INFO|Ethernet0'']
      else if pattern = ''TRANSCEIVER_STATUS|*'' then [''TRANSCEIVER_STATUS|Ethernet0''] else [])"

definition transceiver_demo :: transceiverCollector where
  "transceiver_demo = transceiver_new (\<lambda>_. None) (NewMetricFilter (\<lambda>_. None))"

text \<open>
  C32. On a server that holds still, a refresh returns exactly what the specification says: the
  identity of every module that has one, then for every port within the limit its module state, its
  status fields, its monitoring and its status flags with their change counts and the times they were
  last set and cleared, and its thresholds, each reading exactly when it parses; the number of keys of both
  tables left out; and the truncation flag exactly when one of the tables is longer than the limit.
\<close>

theorem transceiver_refresh_refines_spec:
  assumes "serves lib cfg db scan"
  shows "fst (transceiver_scrapeMetrics anyLabel lib c w) = Ok (transceiver_spec c db scan)"
  by (rule transceiver_scrape_spec [OF assms])

theorem transceiver_refresh_refines_spec_witness:
  "fst (transceiver_scrapeMetrics anyLabel (staticLib localRedis transceiver_demoDb transceiver_demoScan) transceiver_demo
     \<lparr>server = (), databases = []\<rparr>) = Ok (transceiver_spec transceiver_demo transceiver_demoDb transceiver_demoScan)"
  by (rule transceiver_refresh_refines_spec [OF staticLib_serves])

end
