(* ===== verification/PlatformHealth.thy ===== *)
theory PlatformHealth
  imports Counters
begin

text \<open>
  \<^verbatim>\<open>platform_health_collector.go\<close>: the processes of the switch, its storage devices and the
  summary of its health, from three tables of \<^verbatim>\<open>STATE_DB\<close>.
\<close>

record platformHealthCollectorConfig =
  platform_enabled :: bool
  platform_refreshInterval :: duration
  platform_timeout :: duration
  platform_maxProcesses :: int
  platform_maxStorageDevices :: int
  platform_redisScanCount :: int

record platformHealthCollector = truncState +
  platform_config :: platformHealthCollectorConfig
  platform_filter :: metricFilter

subsection \<open>Construction\<close>

definition platformProcessInfo :: desc where [desc_defs]:
  "platformProcessInfo = NewDesc ''sonic'' ''platform'' ''process_info''
     ''Process metadata from PROCESS_STATS, value is always 1'' [''pid'', ''process'', ''uid'']"

definition platformProcessCPUPercent :: desc where [desc_defs]:
  "platformProcessCPUPercent = NewDesc ''sonic'' ''platform'' ''process_cpu_percent''
     ''Process CPU percent from PROCESS_STATS'' [''pid'', ''process'']"

definition platformProcessMemoryPercent :: desc where [desc_defs]:
  "platformProcessMemoryPercent = NewDesc ''sonic'' ''platform'' ''process_memory_percent''
     ''Process memory percent from PROCESS_STATS'' [''pid'', ''process'']"

definition platformProcessRunning :: desc where [desc_defs]:
  "platformProcessRunning = NewDesc ''sonic'' ''platform'' ''process_running''
     ''Whether process entry is present in PROCESS_STATS'' [''pid'', ''process'']"

definition platformStorageInfo :: desc where [desc_defs]:
  "platformStorageInfo = NewDesc ''sonic'' ''platform'' ''storage_info''
     ''Storage metadata from STORAGE_INFO, value is always 1'' [''device'', ''model'', ''serial'', ''firmware'']"

definition platformStorageHealthPercent :: desc where [desc_defs]:
  "platformStorageHealthPercent = NewDesc ''sonic'' ''platform'' ''storage_health_percent''
     ''Storage health percent from STORAGE_INFO'' [''device'']"

definition platformStorageTemperature :: desc where [desc_defs]:
  "platformStorageTemperature = NewDesc ''sonic'' ''platform'' ''storage_temperature_celsius''
     ''Storage temperature from STORAGE_INFO'' [''device'']"

definition platformStorageReservedBlocks :: desc where [desc_defs]:
  "platformStorageReservedBlocks = NewDesc ''sonic'' ''platform'' ''storage_reserved_blocks''
     ''Storage reserved blocks from STORAGE_INFO'' [''device'']"

definition platformStorageFsioReads :: desc where [desc_defs]:
  "platformStorageFsioReads = NewDesc ''sonic'' ''platform'' ''storage_total_fsio_reads_total''
     ''Storage total fsio reads from STORAGE_INFO'' [''device'']"

definition platformStorageFsioWrites :: desc where [desc_defs]:
  "platformStorageFsioWrites = NewDesc ''sonic'' ''platform'' ''storage_total_fsio_writes_total''
     ''Storage total fsio writes from STORAGE_INFO'' [''device'']"

definition platformStorageDiskReads :: desc where [desc_defs]:
  "platformStorageDiskReads = NewDesc ''sonic'' ''platform'' ''storage_disk_io_reads_total''
     ''Storage disk I/O reads from STORAGE_INFO'' [''device'']"

definition platformStorageDiskWrites :: desc where [desc_defs]:
  "platformStorageDiskWrites = NewDesc ''sonic'' ''platform'' ''storage_disk_io_writes_total''
     ''Storage disk I/O writes from STORAGE_INFO'' [''device'']"

definition platformSystemHealthInfo :: desc where [desc_defs]:
  "platformSystemHealthInfo = NewDesc ''sonic'' ''platform'' ''system_health_info''
     ''System health summary from SYSTEM_HEALTH_INFO, value is always 1'' [''summary'']"

definition platformEntriesSkipped :: desc where [desc_defs]:
  "platformEntriesSkipped = NewDesc ''sonic'' ''platform'' ''entries_skipped''
     ''Number of platform health entries skipped during latest refresh'' []"

definition platformEntriesTruncated :: desc where [desc_defs]:
  "platformEntriesTruncated = NewDesc ''sonic'' ''platform'' ''entries_truncated''
     ''Whether platform health collection hit entry limits (1=yes, 0=no)'' []"

definition platformScrapeDuration :: desc where [desc_defs]:
  "platformScrapeDuration = NewDesc ''sonic'' ''platform'' ''scrape_duration_seconds''
     ''Time it took for exporter to refresh platform health metrics'' []"

definition platformScrapeCollectorSuccess :: desc where [desc_defs]:
  "platformScrapeCollectorSuccess = NewDesc ''sonic'' ''platform'' ''collector_success''
     ''Whether platform health collector succeeded'' []"

definition platformCacheAge :: desc where [desc_defs]:
  "platformCacheAge = NewDesc ''sonic'' ''platform'' ''cache_age_seconds''
     ''Age of latest platform health cache refresh'' []"

definition loadPlatformHealthCollectorConfig :: "env \<Rightarrow> platformHealthCollectorConfig" where
  "loadPlatformHealthCollectorConfig env =
     \<lparr>platform_enabled = parseBoolEnv env ''PLATFORM_HEALTH_ENABLED'' False,
      platform_refreshInterval = parseDurationEnv env ''PLATFORM_HEALTH_REFRESH_INTERVAL'' (60 * second),
      platform_timeout = parseDurationEnv env ''PLATFORM_HEALTH_TIMEOUT'' (2 * second),
      platform_maxProcesses = parseIntEnv env ''PLATFORM_HEALTH_MAX_PROCESSES'' 512,
      platform_maxStorageDevices = parseIntEnv env ''PLATFORM_HEALTH_MAX_STORAGE_DEVICES'' 128,
      platform_redisScanCount = 256\<rparr>"

definition platform_new :: "env \<Rightarrow> metricFilter \<Rightarrow> platformHealthCollector" where
  "platform_new env flt =
     \<lparr>cachedMetrics = [], lastSuccess = f64_0, lastScrapeDuration = f64_0, lastRefreshTime = 0,
      lastSkippedEntries = f64_0, lastTruncated = f64_0,
      platform_config = loadPlatformHealthCollectorConfig env, platform_filter = flt\<rparr>"

definition platform_IsEnabled :: "platformHealthCollector \<Rightarrow> bool" where
  "platform_IsEnabled c = platform_enabled (platform_config c)"

definition platform_Describe :: "desc list" where
  "platform_Describe =
     [platformProcessInfo,
      platformProcessCPUPercent,
      platformProcessMemoryPercent,
      platformProcessRunning,
      platformStorageInfo,
      platformStorageHealthPercent,
      platformStorageTemperature,
      platformStorageReservedBlocks,
      platformStorageFsioReads,
      platformStorageFsioWrites,
      platformStorageDiskReads,
      platformStorageDiskWrites,
      platformSystemHealthInfo,
      platformEntriesSkipped,
      platformEntriesTruncated,
      platformScrapeDuration,
      platformScrapeCollectorSuccess,
      platformCacheAge]"

subsection \<open>Scraping Redis\<close>

text \<open>\<^verbatim>\<open>value, ok := parse(x); if !ok { value, ok = parse(y) }\<close>\<close>

definition parseEither :: "string \<Rightarrow> string \<Rightarrow> f64 option" where
  "parseEither x y = (case parseCounterLike x of Some v \<Rightarrow> Some v | None \<Rightarrow> parseCounterLike y)"

text \<open>The accumulator of both loops: metrics, entries skipped, truncation flag, entries exported.\<close>

type_synonym platformAcc = "metric list \<times> int \<times> f64 \<times> int"

definition platform_process ::
  "(string \<Rightarrow> bool) \<Rightarrow> 's redisLib \<Rightarrow> redisConfig \<Rightarrow> platformHealthCollector \<Rightarrow> nat \<Rightarrow> string
     \<Rightarrow> platformAcc \<Rightarrow> ('s, platformAcc loop) rio" where
  "platform_process labelOk lib cfg c index processKey acc =
     (case acc of (metrics, skippedEntries, truncated, processCount) \<Rightarrow>
        if processKey = ''PROCESS_STATS|LastUpdateTime''
        then io_return (Continue (metrics, skippedEntries, truncated, processCount))
        else if processCount \<ge> platform_maxProcesses (platform_config c)
        then io_return (Continue (metrics, skippedEntries + 1, f64_1, processCount))
        else case parseKeySuffix processKey ''PROCESS_STATS|'' of
          Inl err \<Rightarrow> io_return (Continue (metrics, skippedEntries + 1, truncated, processCount))
        | Inr pid \<Rightarrow>
            io_bind (io_wrap ''failed to read process entry %s: %w'' [processKey]
                       (HgetAllFromDb lib cfg ''STATE_DB'' processKey)) (\<lambda>processData.
            if processData = []
            then io_return (Continue (metrics, skippedEntries + 1, truncated, processCount))
            else
              let processName = normalizeProcessName (field processData ''CMD'');
                  uid = trimSpace (field processData ''UID'');
                  on = Enabled (platform_filter c);
                  gauge = (\<lambda>d labels value. MustNewConstMetric labelOk d GaugeValue value labels) in
              io_bind (emit (on ''sonic_platform_process_info'')
                         (gauge platformProcessInfo [pid, processName, uid] f64_1) metrics) (\<lambda>metrics.
              io_bind (emit (on ''sonic_platform_process_running'')
                         (gauge platformProcessRunning [pid, processName] f64_1) metrics) (\<lambda>metrics.
              io_bind (emitValue (parseEither (field processData ''%CPU'') (field processData ''CPU''))
                         (on ''sonic_platform_process_cpu_percent'')
                         (gauge platformProcessCPUPercent [pid, processName]) metrics) (\<lambda>metrics.
              io_bind (emitValue (parseEither (field processData ''%MEM'') (field processData ''MEM''))
                         (on ''sonic_platform_process_memory_percent'')
                         (gauge platformProcessMemoryPercent [pid, processName]) metrics) (\<lambda>metrics.
              io_return (Continue (metrics, skippedEntries, truncated, processCount + 1))))))))"

definition platform_storage ::
  "(string \<Rightarrow> bool) \<Rightarrow> 's redisLib \<Rightarrow> redisConfig \<Rightarrow> platformHealthCollector \<Rightarrow> nat \<Rightarrow> string
     \<Rightarrow> platformAcc \<Rightarrow> ('s, platformAcc loop) rio" where
  "platform_storage labelOk lib cfg c index storageKey acc =
     (case acc of (metrics, skippedEntries, truncated, storageCount) \<Rightarrow>
        case parseKeySuffix storageKey ''STORAGE_INFO|'' of
          Inl err \<Rightarrow> io_return (Continue (metrics, skippedEntries, truncated, storageCount))
        | Inr device \<Rightarrow>
            if device = ''FSSTATS_SYNC''
            then io_return (Continue (metrics, skippedEntries, truncated, storageCount))
            else if storageCount \<ge> platform_maxStorageDevices (platform_config c)
            then io_return (Continue (metrics, skippedEntries + 1, f64_1, storageCount))
            else
              io_bind (io_wrap ''failed to read storage entry %s: %w'' [storageKey]
                         (HgetAllFromDb lib cfg ''STATE_DB'' storageKey)) (\<lambda>storageData.
              if storageData = []
              then io_return (Continue (metrics, skippedEntries + 1, truncated, storageCount))
              else
                let on = Enabled (platform_filter c); read = (\<lambda>fld. parseCounterLike (field storageData fld));
                    mk = (\<lambda>d ty value. MustNewConstMetric labelOk d ty value [device]) in
                io_bind (emit (on ''sonic_platform_storage_info'')
                           (MustNewConstMetric labelOk platformStorageInfo GaugeValue f64_1
                              [device, field storageData ''device_model'', field storageData ''serial'',
                               field storageData ''firmware'']) metrics) (\<lambda>metrics.
                io_bind (emitValue (read ''health'') (on ''sonic_platform_storage_health_percent'')
                           (mk platformStorageHealthPercent GaugeValue) metrics) (\<lambda>metrics.
                io_bind (emitValue (read ''temperature'') (on ''sonic_platform_storage_temperature_celsius'')
                           (mk platformStorageTemperature GaugeValue) metrics) (\<lambda>metrics.
                io_bind (emitValue (read ''reserved_blocks'') (on ''sonic_platform_storage_reserved_blocks'')
                           (mk platformStorageReservedBlocks GaugeValue) metrics) (\<lambda>metrics.
                io_bind (emitValue (read ''total_fsio_reads'') (on ''sonic_platform_storage_total_fsio_reads_total'')
                           (mk platformStorageFsioReads CounterValue) metrics) (\<lambda>metrics.
                io_bind (emitValue (read ''total_fsio_writes'') (on ''sonic_platform_storage_total_fsio_writes_total'')
                           (mk platformStorageFsioWrites CounterValue) metrics) (\<lambda>metrics.
                io_bind (emitValue (read ''disk_io_reads'') (on ''sonic_platform_storage_disk_io_reads_total'')
                           (mk platformStorageDiskReads CounterValue) metrics) (\<lambda>metrics.
                io_bind (emitValue (read ''disk_io_writes'') (on ''sonic_platform_storage_disk_io_writes_total'')
                           (mk platformStorageDiskWrites CounterValue) metrics) (\<lambda>metrics.
                io_return (Continue (metrics, skippedEntries, truncated, storageCount + 1))))))))))))"

definition platform_health ::
  "(string \<Rightarrow> bool) \<Rightarrow> platformHealthCollector \<Rightarrow> fields \<Rightarrow> nat \<Rightarrow> string \<Rightarrow> metric list
     \<Rightarrow> ('s, metric list loop) rio" where
  "platform_health labelOk c systemHealthData index fld metrics =
     io_bind (emit (Enabled (platform_filter c) ''sonic_platform_system_health_info'')
                (MustNewConstMetric labelOk platformSystemHealthInfo GaugeValue f64_1
                   [trimSpace (fld @ ''='' @ field systemHealthData fld)]) metrics) (\<lambda>metrics.
     io_return (Continue metrics))"

type_synonym platformResult = "metric list \<times> int \<times> f64"

definition platform_scrapeMetrics ::
  "(string \<Rightarrow> bool) \<Rightarrow> 's redisLib \<Rightarrow> platformHealthCollector \<Rightarrow> ('s, platformResult) rio" where
  "platform_scrapeMetrics labelOk lib c =
     withRedis lib (\<lambda>cfg.
       let count = platform_redisScanCount (platform_config c) in
       io_bind (io_wrap ''failed to scan process keys: %w'' []
                  (ScanKeysFromDb lib cfg ''STATE_DB'' ''PROCESS_STATS|*'' count)) (\<lambda>processKeys.
       io_bind (rangeLoop (platform_process labelOk lib cfg c) 0 (sort processKeys) ([], 0, f64_0, 0)) (\<lambda>acc.
       case acc of (metrics, skippedEntries, truncated, processCount) \<Rightarrow>
       io_bind (io_wrap ''failed to scan storage keys: %w'' []
                  (ScanKeysFromDb lib cfg ''STATE_DB'' ''STORAGE_INFO|*'' count)) (\<lambda>storageKeys.
       io_bind (rangeLoop (platform_storage labelOk lib cfg c) 0 (sort storageKeys)
                  (metrics, skippedEntries, truncated, 0)) (\<lambda>acc.
       case acc of (metrics, skippedEntries, truncated, storageCount) \<Rightarrow>
       io_bind (io_wrap ''failed to read SYSTEM_HEALTH_INFO: %w'' []
                  (HgetAllFromDb lib cfg ''STATE_DB'' ''SYSTEM_HEALTH_INFO'')) (\<lambda>systemHealthData.
       io_bind (if systemHealthData = [] then io_return metrics
                else rangeLoop (platform_health labelOk c systemHealthData) 0 (sort (mapKeys systemHealthData)) metrics) (\<lambda>metrics.
       io_return (metrics, skippedEntries, truncated))))))))"

subsection \<open>Refreshing and collecting\<close>

definition platform_assignments ::
  "refreshClock \<Rightarrow> goerr + platformResult \<Rightarrow> (platformHealthCollector \<Rightarrow> platformHealthCollector) list" where
  "platform_assignments clk r =
     (\<lambda>c. c\<lparr>lastScrapeDuration := scrapeSeconds clk\<rparr>) #
     (case r of
        Inl err \<Rightarrow> [\<lambda>c. c\<lparr>lastSuccess := f64_0\<rparr>]
      | Inr (metrics, skippedEntries, truncated) \<Rightarrow>
          [\<lambda>c. c\<lparr>cachedMetrics := metrics\<rparr>,
           \<lambda>c. c\<lparr>lastSkippedEntries := f64_of_int skippedEntries\<rparr>,
           \<lambda>c. c\<lparr>lastTruncated := truncated\<rparr>,
           \<lambda>c. c\<lparr>lastSuccess := f64_1\<rparr>,
           \<lambda>c. c\<lparr>lastRefreshTime := t_stored clk\<rparr>])"

definition platform_refreshMetrics ::
  "(string \<Rightarrow> bool) \<Rightarrow> 's redisLib \<Rightarrow> refreshClock \<Rightarrow> platformHealthCollector \<Rightarrow> ('s, platformHealthCollector) rio" where
  "platform_refreshMetrics labelOk lib clk c =
     refreshWith (platform_scrapeMetrics labelOk lib c) (platform_assignments clk) c"

definition platform_refreshLoop ::
  "(string \<Rightarrow> bool) \<Rightarrow> 's redisLib \<Rightarrow> refreshClock list \<Rightarrow> platformHealthCollector \<Rightarrow> ('s, platformHealthCollector) rio" where
  "platform_refreshLoop labelOk lib ticks c =
     tickerLoop (platform_refreshInterval (platform_config c)) (platform_refreshMetrics labelOk lib) ticks c"

definition NewPlatformHealthCollector ::
  "(string \<Rightarrow> bool) \<Rightarrow> 's redisLib \<Rightarrow> env \<Rightarrow> metricFilter \<Rightarrow> refreshClock \<Rightarrow> refreshClock list
     \<Rightarrow> ('s, platformHealthCollector) rio" where
  "NewPlatformHealthCollector labelOk lib env flt clk ticks =
     (let c = platform_new env flt
      in if \<not> platform_enabled (platform_config c) then io_return c
         else io_bind (platform_refreshMetrics labelOk lib clk c) (platform_refreshLoop labelOk lib ticks))"

text \<open>The copies \<^verbatim>\<open>Collect\<close> makes under the read lock, in its order.\<close>

definition platform_copies :: "(platformHealthCollector \<Rightarrow> platformHealthCollector \<Rightarrow> platformHealthCollector) list" where
  "platform_copies =
     [\<lambda>c l. l\<lparr>cachedMetrics := cachedMetrics c\<rparr>,
      \<lambda>c l. l\<lparr>lastScrapeDuration := lastScrapeDuration c\<rparr>,
      \<lambda>c l. l\<lparr>lastSuccess := lastSuccess c\<rparr>,
      \<lambda>c l. l\<lparr>lastSkippedEntries := lastSkippedEntries c\<rparr>,
      \<lambda>c l. l\<lparr>lastTruncated := lastTruncated c\<rparr>,
      \<lambda>c l. l\<lparr>lastRefreshTime := lastRefreshTime c\<rparr>]"

definition platform_Collect :: "(string \<Rightarrow> bool) \<Rightarrow> gotime \<Rightarrow> platformHealthCollector \<Rightarrow> ('w, metric list) io" where
  "platform_Collect labelOk now c =
     (if \<not> platform_enabled (platform_config c) then io_return []
      else let gauge = (\<lambda>d v. MustNewConstMetric labelOk d GaugeValue v []);
               on = Enabled (platform_filter c)
        in io_bind (emit (on ''sonic_platform_entries_skipped'') (gauge platformEntriesSkipped (lastSkippedEntries c)) (cachedMetrics c)) (\<lambda>ch.
           io_bind (emit (on ''sonic_platform_entries_truncated'') (gauge platformEntriesTruncated (lastTruncated c)) ch) (\<lambda>ch.
           io_bind (emit (on ''sonic_platform_scrape_duration_seconds'') (gauge platformScrapeDuration (lastScrapeDuration c)) ch) (\<lambda>ch.
           io_bind (emit (on ''sonic_platform_collector_success'') (gauge platformScrapeCollectorSuccess (lastSuccess c)) ch) (\<lambda>ch.
           emit (on ''sonic_platform_cache_age_seconds'') (gauge platformCacheAge (cacheAge now (lastRefreshTime c))) ch)))))"

interpretation platform: refresh_contract platform_assignments platform_copies cacheState.truncate
  "\<lambda>c. (platform_config c, platform_filter c)" fst
proof unfold_locales
  show "(platform_config (f c), platform_filter (f c)) = (platform_config c, platform_filter c)"
    if "f \<in> set (platform_assignments clk r)" for f clk r c
    using that by (auto simp: platform_assignments_def split: sum.splits prod.splits)
qed (auto simp: platform_assignments_def platform_copies_def cacheState.truncate_def)

subsection \<open>The descriptions\<close>

lemma fq_platform [simp]:
  "fqName platformProcessInfo = ''sonic_platform_process_info''"
  "fqName platformProcessCPUPercent = ''sonic_platform_process_cpu_percent''"
  "fqName platformProcessMemoryPercent = ''sonic_platform_process_memory_percent''"
  "fqName platformProcessRunning = ''sonic_platform_process_running''"
  "fqName platformStorageInfo = ''sonic_platform_storage_info''"
  "fqName platformStorageHealthPercent = ''sonic_platform_storage_health_percent''"
  "fqName platformStorageTemperature = ''sonic_platform_storage_temperature_celsius''"
  "fqName platformStorageReservedBlocks = ''sonic_platform_storage_reserved_blocks''"
  "fqName platformStorageFsioReads = ''sonic_platform_storage_total_fsio_reads_total''"
  "fqName platformStorageFsioWrites = ''sonic_platform_storage_total_fsio_writes_total''"
  "fqName platformStorageDiskReads = ''sonic_platform_storage_disk_io_reads_total''"
  "fqName platformStorageDiskWrites = ''sonic_platform_storage_disk_io_writes_total''"
  "fqName platformSystemHealthInfo = ''sonic_platform_system_health_info''"
  "fqName platformEntriesSkipped = ''sonic_platform_entries_skipped''"
  "fqName platformEntriesTruncated = ''sonic_platform_entries_truncated''"
  "fqName platformScrapeDuration = ''sonic_platform_scrape_duration_seconds''"
  "fqName platformScrapeCollectorSuccess = ''sonic_platform_collector_success''"
  "fqName platformCacheAge = ''sonic_platform_cache_age_seconds''"
  by (simp_all add: desc_defs)

lemma labels_platform [simp]:
  "length (d_labels platformProcessInfo) = 3"
  "length (d_labels platformProcessCPUPercent) = 2"
  "length (d_labels platformProcessMemoryPercent) = 2"
  "length (d_labels platformProcessRunning) = 2"
  "length (d_labels platformStorageInfo) = 4"
  "length (d_labels platformStorageHealthPercent) = 1"
  "length (d_labels platformStorageTemperature) = 1"
  "length (d_labels platformStorageReservedBlocks) = 1"
  "length (d_labels platformStorageFsioReads) = 1"
  "length (d_labels platformStorageFsioWrites) = 1"
  "length (d_labels platformStorageDiskReads) = 1"
  "length (d_labels platformStorageDiskWrites) = 1"
  "length (d_labels platformSystemHealthInfo) = 1"
  "d_labels platformEntriesSkipped = []"
  "d_labels platformEntriesTruncated = []"
  "d_labels platformScrapeDuration = []"
  "d_labels platformScrapeCollectorSuccess = []"
  "d_labels platformCacheAge = []"
  by (simp_all add: desc_defs)

lemma platform_described [simp]:
  "platformProcessInfo \<in> set platform_Describe"
  "platformProcessCPUPercent \<in> set platform_Describe"
  "platformProcessMemoryPercent \<in> set platform_Describe"
  "platformProcessRunning \<in> set platform_Describe"
  "platformStorageInfo \<in> set platform_Describe"
  "platformStorageHealthPercent \<in> set platform_Describe"
  "platformStorageTemperature \<in> set platform_Describe"
  "platformStorageReservedBlocks \<in> set platform_Describe"
  "platformStorageFsioReads \<in> set platform_Describe"
  "platformStorageFsioWrites \<in> set platform_Describe"
  "platformStorageDiskReads \<in> set platform_Describe"
  "platformStorageDiskWrites \<in> set platform_Describe"
  "platformSystemHealthInfo \<in> set platform_Describe"
  "platformEntriesSkipped \<in> set platform_Describe"
  "platformEntriesTruncated \<in> set platform_Describe"
  "platformScrapeDuration \<in> set platform_Describe"
  "platformScrapeCollectorSuccess \<in> set platform_Describe"
  "platformCacheAge \<in> set platform_Describe"
  by (simp_all add: platform_Describe_def)

lemma platform_names: "ownNames ''platform'' platform_Describe"
  by (simp add: ownNames_def platform_Describe_def subsystemOf_def desc_defs)

subsection \<open>Collect\<close>

definition platform_gauges :: "gotime \<Rightarrow> platformHealthCollector \<Rightarrow> (desc \<times> f64) list" where
  "platform_gauges now c =
     [(platformEntriesSkipped, lastSkippedEntries c),
      (platformEntriesTruncated, lastTruncated c),
      (platformScrapeDuration, lastScrapeDuration c),
      (platformScrapeCollectorSuccess, lastSuccess c),
      (platformCacheAge, cacheAge now (lastRefreshTime c))]"

lemma platform_Collect_yields:
  "platform_IsEnabled c \<Longrightarrow>
    yields I (platform_Collect labelOk now c) (cachedMetrics c @ gauges (platform_filter c) (platform_gauges now c))"
  unfolding platform_Collect_def platform_gauges_def Let_def platform_IsEnabled_def
  by (simp only: not_True_eq_False if_False, rule yields_eq,
      (rule yields_bind_gauge, simp, simp)+, rule yields_gauge)
     (simp_all only: gauges_append append.simps fq_platform labels_platform)

lemma platform_gauges_good: "list_all (goodMetric labelOk flt platform_Describe) (gauges flt (platform_gauges now c))"
  by (rule gauges_good) (auto simp: platform_gauges_def)

subsection \<open>What a refresh exports\<close>

abbreviation platform_good :: "(string \<Rightarrow> bool) \<Rightarrow> platformHealthCollector \<Rightarrow> metric list \<Rightarrow> bool" where
  "platform_good labelOk c \<equiv> list_all (goodMetric labelOk (platform_filter c) platform_Describe)"

lemmas platform_emits =
  post_bind_emit [where descs = platform_Describe] post_bind_emitValue [where descs = platform_Describe]

lemma platform_process_good:
  assumes "platform_good labelOk c (fst acc)"
  shows "post (platform_process labelOk lib cfg c i key acc)
    (\<lambda>r. case r of Continue b \<Rightarrow> platform_good labelOk c (fst b) | Break b \<Rightarrow> platform_good labelOk c (fst b))"
  unfolding platform_process_def Let_def using assms
  by (auto intro!: post_rules platform_emits [where labelOk = labelOk and flt = "platform_filter c"])

lemma platform_storage_good:
  assumes "platform_good labelOk c (fst acc)"
  shows "post (platform_storage labelOk lib cfg c i key acc)
    (\<lambda>r. case r of Continue b \<Rightarrow> platform_good labelOk c (fst b) | Break b \<Rightarrow> platform_good labelOk c (fst b))"
  unfolding platform_storage_def Let_def using assms
  by (auto intro!: post_rules platform_emits [where labelOk = labelOk and flt = "platform_filter c"])

lemma platform_health_good:
  assumes "platform_good labelOk c ms"
  shows "post (platform_health labelOk c data i fld ms)
    (\<lambda>r. case r of Continue b \<Rightarrow> platform_good labelOk c b | Break b \<Rightarrow> platform_good labelOk c b)"
  unfolding platform_health_def using assms
  by (auto intro!: post_rules platform_emits [where labelOk = labelOk and flt = "platform_filter c"])

lemma platform_scrape_ok: "post (platform_scrapeMetrics labelOk lib c) (\<lambda>r. platform_good labelOk c (fst r))"
proof -
  have health: "post (if data = [] then io_return ms
      else rangeLoop (platform_health labelOk c data) 0 fs ms) (platform_good labelOk c)"
    if "platform_good labelOk c ms" for data fs ms
    using that by (auto intro!: post_return post_rangeLoop_inv platform_health_good)
  show ?thesis
    unfolding platform_scrapeMetrics_def Let_def
    apply (rule post_withRedis, rule post_bind_any, rule post_bind)
     apply (rule post_rangeLoop_inv [where Q = "\<lambda>r. platform_good labelOk c (fst r)"], simp, erule platform_process_good)
    apply (rule post_case_prod, rule post_case_prod, rule post_case_prod, rule post_bind_any, rule post_bind)
     apply (rule post_rangeLoop_inv [where Q = "\<lambda>r. platform_good labelOk c (fst r)"], simp, erule platform_storage_good)
    apply (rule post_case_prod, rule post_case_prod, rule post_case_prod, rule post_bind_any, rule post_bind)
     apply (rule health, simp)
    apply (rule post_return, simp)
    done
qed

lemma platform_Collect_good:
  "platform_good labelOk c (cachedMetrics c) \<Longrightarrow>
    post (platform_Collect labelOk now c) (platform_good labelOk c)"
proof (cases "platform_IsEnabled c")
  case True
  assume "platform_good labelOk c (cachedMetrics c)"
  then show ?thesis
    by (intro yields_post [OF platform_Collect_yields [OF True]]) (simp add: platform_gauges_good)
next
  case False
  then show ?thesis by (simp add: platform_Collect_def platform_IsEnabled_def post_return)
qed

interpretation platform_source: metric_source platform_assignments platform_copies cacheState.truncate
  "\<lambda>c. (platform_config c, platform_filter c)" fst "platform_scrapeMetrics labelOk lib" "platform_Collect labelOk"
  "\<lambda>f. list_all (goodMetric labelOk (snd f) platform_Describe)"
  for labelOk lib
  by unfold_locales (simp_all add: platform_Collect_good cacheState.truncate_def platform_scrape_ok)

subsection \<open>The specification of a refresh\<close>

definition process_valid :: "(string \<Rightarrow> fields) \<Rightarrow> string \<Rightarrow> bool" where
  "process_valid db key = (named ''PROCESS_STATS|'' key \<and> db key \<noteq> [])"

definition process_metrics :: "platformHealthCollector \<Rightarrow> (string \<Rightarrow> fields) \<Rightarrow> string \<Rightarrow> metric list" where
  "process_metrics c db key =
     (let on = Enabled (platform_filter c); data = db key; pid = trimPrefix key ''PROCESS_STATS|'';
          process = normalizeProcessName (field data ''CMD'')
      in (if on ''sonic_platform_process_info''
          then [constMetric platformProcessInfo GaugeValue f64_1 [pid, process, trimSpace (field data ''UID'')]] else []) @
         (if on ''sonic_platform_process_running''
          then [constMetric platformProcessRunning GaugeValue f64_1 [pid, process]] else []) @
         optMetric (parseEither (field data ''%CPU'') (field data ''CPU'')) (on ''sonic_platform_process_cpu_percent'')
           (\<lambda>v. constMetric platformProcessCPUPercent GaugeValue v [pid, process]) @
         optMetric (parseEither (field data ''%MEM'') (field data ''MEM'')) (on ''sonic_platform_process_memory_percent'')
           (\<lambda>v. constMetric platformProcessMemoryPercent GaugeValue v [pid, process]))"

definition storage_ignored :: "string \<Rightarrow> bool" where
  "storage_ignored key = (\<not> named ''STORAGE_INFO|'' key \<or> key = ''STORAGE_INFO|FSSTATS_SYNC'')"

definition storage_metrics :: "platformHealthCollector \<Rightarrow> (string \<Rightarrow> fields) \<Rightarrow> string \<Rightarrow> metric list" where
  "storage_metrics c db key =
     (let on = Enabled (platform_filter c); data = db key; device = trimPrefix key ''STORAGE_INFO|'';
          reading = (\<lambda>fld d ty. optMetric (parseCounterLike (field data fld)) (on (fqName d)) (\<lambda>v. constMetric d ty v [device]))
      in (if on ''sonic_platform_storage_info''
          then [constMetric platformStorageInfo GaugeValue f64_1
                  [device, field data ''device_model'', field data ''serial'', field data ''firmware'']] else []) @
         reading ''health'' platformStorageHealthPercent GaugeValue @
         reading ''temperature'' platformStorageTemperature GaugeValue @
         reading ''reserved_blocks'' platformStorageReservedBlocks GaugeValue @
         reading ''total_fsio_reads'' platformStorageFsioReads CounterValue @
         reading ''total_fsio_writes'' platformStorageFsioWrites CounterValue @
         reading ''disk_io_reads'' platformStorageDiskReads CounterValue @
         reading ''disk_io_writes'' platformStorageDiskWrites CounterValue)"

definition platform_spec ::
  "platformHealthCollector \<Rightarrow> (int \<Rightarrow> string \<Rightarrow> fields) \<Rightarrow> (int \<Rightarrow> string \<Rightarrow> string list) \<Rightarrow> platformResult" where
  "platform_spec c db scan =
     (let state = db 6; health = state ''SYSTEM_HEALTH_INFO'';
          ps = filter (\<lambda>k. k \<noteq> ''PROCESS_STATS|LastUpdateTime'') (sort (scan 6 ''PROCESS_STATS|*''));
          ss = filter (\<lambda>k. \<not> storage_ignored k) (sort (scan 6 ''STORAGE_INFO|*''));
          maxProcesses = nat (platform_maxProcesses (platform_config c));
          maxDevices = nat (platform_maxStorageDevices (platform_config c));
          processes = take maxProcesses (filter (process_valid state) ps);
          devices = take maxDevices (filter (\<lambda>k. state k \<noteq> []) ss)
      in (concat (map (process_metrics c state) processes) @
          concat (map (storage_metrics c state) devices) @
          (if Enabled (platform_filter c) ''sonic_platform_system_health_info''
           then map (\<lambda>f. constMetric platformSystemHealthInfo GaugeValue f64_1 [trimSpace (f @ ''='' @ field health f)])
                  (sort (mapKeys health)) else []),
          (int (length ps) - int (length processes)) + (int (length ss) - int (length devices)),
          if after (process_valid state) maxProcesses ps = [] \<and> after (\<lambda>k. state k \<noteq> []) maxDevices ss = []
          then f64_0 else f64_1))"

subsection \<open>The code meets it\<close>

lemma platform_read:
  assumes "serves lib cfg db scan"
  shows "yields (handlesOk cfg) (io_wrap msg args (HgetAllFromDb lib cfg ''STATE_DB'' k)) (db 6 k)"
  by (rule yields_wrap [OF yields_HgetAll [OF assms]]) (simp add: RedisDbId_def)

lemma platform_process_yields:
  assumes "serves lib cfg db scan"
  shows "yields (handlesOk cfg) (platform_process anyLabel lib cfg c i key (ms, sk, t, n))
    (Continue (if key = ''PROCESS_STATS|LastUpdateTime'' then (ms, sk, t, n)
       else if platform_maxProcesses (platform_config c) \<le> n then (ms, sk + 1, f64_1, n)
       else if process_valid (db 6) key then (ms @ process_metrics c (db 6) key, sk, t, n + 1)
       else (ms, sk + 1, t, n)))"
proof (cases "key = ''PROCESS_STATS|LastUpdateTime'' \<or> platform_maxProcesses (platform_config c) \<le> n")
  case True
  then show ?thesis by (auto simp: platform_process_def yields_return)
next
  case room: False
  show ?thesis
  proof (cases rule: parseKeySuffix_cases [of key "''PROCESS_STATS|''"])
    case (error e)
    then show ?thesis using room by (auto simp: platform_process_def process_valid_def named_def yields_return)
  next
    case suffix
    note read = platform_read [OF assms]
    show ?thesis
    proof (cases "db 6 key = []")
      case True
      then show ?thesis
        using room suffix
        by (auto simp: platform_process_def process_valid_def intro!: yields_bind [OF read] yields_return)
    next
      case False
      have "yields (handlesOk cfg) (platform_process anyLabel lib cfg c i key (ms, sk, t, n))
          (Continue (ms @ process_metrics c (db 6) key, sk, t, n + 1))"
        unfolding platform_process_def prod.case suffix(3) sum.case
        by (simp only: room [unfolded de_Morgan_disj] if_False simp_thms, rule yields_bind [OF read],
            simp only: False if_False Let_def, rule yields_eq,
            (rule yields_bind_emit yields_bind_emitValue, simp)+, rule yields_return)
           (simp add: process_metrics_def Let_def)
      then show ?thesis
        using room suffix False by (simp add: process_valid_def named_def)
    qed
  qed
qed

lemma storage_ignored_device:
  "named ''STORAGE_INFO|'' key \<Longrightarrow> (trimPrefix key ''STORAGE_INFO|'' = ''FSSTATS_SYNC'') = storage_ignored key"
proof -
  assume named: "named ''STORAGE_INFO|'' key"
  then have "key = ''STORAGE_INFO|'' @ trimPrefix key ''STORAGE_INFO|''"
    by (intro hasPrefix_trim) (simp add: named_def)
  moreover have "(trimPrefix key ''STORAGE_INFO|'' = ''FSSTATS_SYNC'') =
      (''STORAGE_INFO|'' @ trimPrefix key ''STORAGE_INFO|'' = ''STORAGE_INFO|FSSTATS_SYNC'')"
    by simp
  ultimately show ?thesis using named by (simp add: storage_ignored_def)
qed

lemma platform_storage_yields:
  assumes "serves lib cfg db scan"
  shows "yields (handlesOk cfg) (platform_storage anyLabel lib cfg c i key (ms, sk, t, n))
    (Continue (if storage_ignored key then (ms, sk, t, n)
       else if platform_maxStorageDevices (platform_config c) \<le> n then (ms, sk + 1, f64_1, n)
       else if db 6 key \<noteq> [] then (ms @ storage_metrics c (db 6) key, sk, t, n + 1)
       else (ms, sk + 1, t, n)))"
proof (cases rule: parseKeySuffix_cases [of key "''STORAGE_INFO|''"])
  case (error e)
  then show ?thesis by (auto simp: platform_storage_def storage_ignored_def named_def yields_return)
next
  case suffix
  note read = platform_read [OF assms]
  have device: "(trimPrefix key ''STORAGE_INFO|'' = ''FSSTATS_SYNC'') = storage_ignored key"
    by (rule storage_ignored_device) (use suffix in \<open>simp add: named_def\<close>)
  show ?thesis
  proof (cases "\<not> storage_ignored key \<and> \<not> platform_maxStorageDevices (platform_config c) \<le> n \<and> db 6 key \<noteq> []")
    case False
    then show ?thesis
      using suffix(3) device
      by (auto simp: platform_storage_def intro!: yields_bind [OF read] yields_return)
  next
    case True
    have "yields (handlesOk cfg) (platform_storage anyLabel lib cfg c i key (ms, sk, t, n))
        (Continue (ms @ storage_metrics c (db 6) key, sk, t, n + 1))"
      unfolding platform_storage_def prod.case suffix(3) sum.case device
      by (simp only: True if_False simp_thms, rule yields_bind [OF read],
          simp only: True if_False simp_thms Let_def, rule yields_eq,
          (rule yields_bind_emit yields_bind_emitValue, simp)+, rule yields_return)
         (simp add: storage_metrics_def Let_def)
    then show ?thesis using True by simp
  qed
qed

lemma platform_health_yields:
  "yields I (if data = [] then io_return ms
       else rangeLoop (platform_health anyLabel c data) 0 (sort (mapKeys data)) ms)
    (ms @ (if Enabled (platform_filter c) ''sonic_platform_system_health_info''
           then map (\<lambda>f. constMetric platformSystemHealthInfo GaugeValue f64_1 [trimSpace (f @ ''='' @ field data f)])
                  (sort (mapKeys data)) else []))"
proof -
  have "yields I (rangeLoop (platform_health anyLabel c data) 0 fs ms)
      (ms @ concat (map (\<lambda>f. if Enabled (platform_filter c) ''sonic_platform_system_health_info''
         then [constMetric platformSystemHealthInfo GaugeValue f64_1 [trimSpace (f @ ''='' @ field data f)]] else []) fs))" for fs
    unfolding platform_health_def
    by (rule yields_appendLoop, rule yields_bind_emit, simp, rule yields_return)
  note loop = yields_eq [OF this]
  show ?thesis
    by (cases "data = []") (auto simp: mapKeys_def yields_return intro!: loop)
qed

lemma platform_scrape_spec:
  assumes "serves lib cfg db scan"
  shows "fst (platform_scrapeMetrics anyLabel lib c w) = Ok (platform_spec c db scan)"
proof -
  have keys: "yields (handlesOk cfg) (io_wrap msg args (ScanKeysFromDb lib cfg ''STATE_DB'' p n)) (scan 6 p)" for msg args p n
    by (rule yields_wrap [OF yields_ScanKeys [OF assms]]) (simp add: RedisDbId_def)
  note ploop = counted_loop_yields [where ignored = "\<lambda>k. k = ''PROCESS_STATS|LastUpdateTime''",
      OF platform_process_yields [OF assms], where n = 0, unfolded Let_def]
    and sloop = counted_loop_yields [OF platform_storage_yields [OF assms], where n = 0, unfolded Let_def]
  show ?thesis
    unfolding platform_scrapeMetrics_def Let_def
    by (rule withRedis_yields [OF assms], rule yields_eq, rule yields_bind [OF keys],
        rule yields_bind [OF ploop], simp only: prod.case, rule yields_bind [OF keys],
        rule yields_bind [OF sloop], simp only: prod.case, rule yields_bind [OF platform_read [OF assms]],
        rule yields_bind [OF platform_health_yields], rule yields_return)
       (simp add: platform_spec_def Let_def fold_append_concat)
qed

subsection \<open>Properties\<close>

text \<open>A switch with a process, the table's time stamp, a disk and a health summary.\<close>

definition platform_demoDb :: "int \<Rightarrow> string \<Rightarrow> fields" where
  "platform_demoDb n key =
     (if key = ''PROCESS_STATS|1'' then [(''CMD'', ''/sbin/init splash''), (''CPU'', ''0.1'')]
      else if key = ''STORAGE_INFO|sda'' then [(''health'', ''98'')]
      else if key = ''SYSTEM_HEALTH_INFO'' then [(''summary'', ''OK'')]
      else [])"

definition platform_demoScan :: "int \<Rightarrow> string \<Rightarrow> string list" where
  "platform_demoScan n pattern =
     (if pattern = ''PROCESS_STATS|*'' then [''PROCESS_STATS|LastUpdateTime'', ''PROCESS_STATS|1'']
      else if pattern = ''STORAGE_INFO|*'' then [''STORAGE_INFO|sda'', ''STORAGE_INFO|FSSTATS_SYNC''] else [])"

definition platform_demo :: platformHealthCollector where
  "platform_demo = platform_new (\<lambda>_. None) (NewMetricFilter (\<lambda>_. None))"

text \<open>
  C33. On a server that holds still, a refresh returns exactly what the specification says: the metrics
  of the first processes and storage devices with data, up to the two limits, and one for every field of the
  health summary; as skipped all other entries but the time stamps the tables hold; and the
  truncation flag exactly when an entry comes after a limit was reached.
\<close>

theorem platform_refresh_refines_spec:
  assumes "serves lib cfg db scan"
  shows "fst (platform_scrapeMetrics anyLabel lib c w) = Ok (platform_spec c db scan)"
  by (rule platform_scrape_spec [OF assms])

theorem platform_refresh_refines_spec_witness:
  "fst (platform_scrapeMetrics anyLabel (staticLib localRedis platform_demoDb platform_demoScan) platform_demo
     \<lparr>server = (), databases = []\<rparr>) = Ok (platform_spec platform_demo platform_demoDb platform_demoScan)"
  by (rule platform_refresh_refines_spec [OF staticLib_serves])

text \<open>
  Two fields of the health summary can give one label: where a field ends and its value begins is
  lost in the text.
\<close>

lemma platform_summary_ambiguous:
  assumes "data = [(''a'', ''b=c''), (''a=b'', ''c'')]"
  shows "map (\<lambda>f. trimSpace (f @ ''='' @ field data f)) (sort (mapKeys data)) = [''a=b=c'', ''a=b=c'']"
  unfolding assms by code_simp

end
