(* ===== verification/System.thy ===== *)
theory System
  imports Snapshot GoJson "HOL-Library.AList"
begin

text \<open>
  \<^verbatim>\<open>system_collector.go\<close>: the identity and the software of the switch, each value from the first of several
  sources that has it: Redis, files, and the output of three commands. Files and commands are
  the parameter \<open>host\<close>: what opening and reading a file gives, and what a command writes and how
  it ends, in a state of the machine. No source's failure is a failure of the refresh.
\<close>

subsection \<open>Bounded command output\<close>

record limitedOutputBuffer =
  lb_buf :: string
  lb_maxBytes :: int
  lb_truncated :: bool

text \<open>\<^verbatim>\<open>Write\<close>: the buffer after it, and the number of bytes it reports as written.\<close>

definition limitedWrite :: "limitedOutputBuffer \<Rightarrow> string \<Rightarrow> limitedOutputBuffer \<times> int" where
  "limitedWrite b p =
     (if lb_maxBytes b \<le> 0 then (b, int (length p))
      else if int (length (lb_buf b)) \<ge> lb_maxBytes b then (b\<lparr>lb_truncated := True\<rparr>, int (length p))
      else let remaining = lb_maxBytes b - int (length (lb_buf b)) in
        if int (length p) > remaining
        then (b\<lparr>lb_buf := lb_buf b @ take (nat remaining) p, lb_truncated := True\<rparr>, int (length p))
        else (b\<lparr>lb_buf := lb_buf b @ p\<rparr>, int (length p)))"

definition limitedWrites :: "limitedOutputBuffer \<Rightarrow> string list \<Rightarrow> limitedOutputBuffer" where
  "limitedWrites b ps = fold (\<lambda>p b. fst (limitedWrite b p)) ps b"

definition newOutput :: "int \<Rightarrow> limitedOutputBuffer" where
  "newOutput maxBytes = \<lparr>lb_buf = [], lb_maxBytes = maxBytes, lb_truncated = False\<rparr>"

subsection \<open>The machine\<close>

text \<open>
  A file that cannot be opened, or its bytes up to the end or a read error, and the error of closing it. A
  command's writes to its two output streams, the error of \<^verbatim>\<open>Run\<close>, and whether its deadline had passed.
  \<open>hugeInt64\<close> is \<^verbatim>\<open>int64(v)\<close> outside the range of int64, which the language leaves open.
\<close>

datatype fileRead = OpenFails goerr | Opened string "goerr option" "goerr option"

record cmdRun =
  cmd_writes :: "string list"
  cmd_error :: "goerr option"
  cmd_deadline :: bool

record 's host =
  openFile :: "string \<Rightarrow> 's \<Rightarrow> fileRead \<times> 's"
  runCommand :: "string list \<Rightarrow> 's \<Rightarrow> cmdRun \<times> 's"
  hugeInt64 :: "f64 \<Rightarrow> int"

definition hostCall :: "('s \<Rightarrow> 'a \<times> 's) \<Rightarrow> ('s, 'a) rio" where
  "hostCall f = (\<lambda>w. case f (server w) of (r, s') \<Rightarrow> (Ok r, w\<lparr>server := s'\<rparr>))"

definition io_sum :: "goerr + 'a \<Rightarrow> ('w, 'a) io" where
  "io_sum r = (case r of Inl e \<Rightarrow> io_fail e | Inr x \<Rightarrow> io_return x)"

text \<open>\<^verbatim>\<open>bufio.Scanner\<close>: the lines of a text up to one too long for its buffer, and whether there is such a line.\<close>

definition maxScanTokenSize :: int where "maxScanTokenSize = 65536"

definition rawLines :: "string \<Rightarrow> string list" where
  "rawLines s = (let ls = splitOn (CHR 0x0A) s in if last ls = [] then butlast ls else ls)"

definition dropCR :: "string \<Rightarrow> string" where
  "dropCR l = (if l \<noteq> [] \<and> last l = CHR 0x0D then butlast l else l)"

definition scanLines :: "string \<Rightarrow> string list \<times> bool" where
  "scanLines s =
     (let short = takeWhile (\<lambda>l. int (length l) < maxScanTokenSize) (rawLines s)
      in (map dropCR short, length short < length (rawLines s)))"

text \<open>\<^verbatim>\<open>returnErr = errors.Join(returnErr, file.Close())\<close>; an error with the result makes the callers drop it.\<close>

definition joinClose :: "goerr + 'a \<Rightarrow> goerr option \<Rightarrow> goerr + 'a" where
  "joinClose r closeErr =
     (case r of
        Inr x \<Rightarrow> (case closeErr of None \<Rightarrow> Inr x | Some e \<Rightarrow> Inl (Joined [e]))
      | Inl e \<Rightarrow> Inl (Joined (e # (case closeErr of None \<Rightarrow> [] | Some e' \<Rightarrow> [e']))))"

subsection \<open>Configuration and collector\<close>

record systemCollectorConfig =
  system_enabled :: bool
  system_refreshInterval :: duration
  system_timeout :: duration
  system_commandEnabled :: bool
  system_commandTimeout :: duration
  system_commandMaxOutputBytes :: int
  system_versionFilePath :: string
  system_machineConfFilePath :: string
  system_hostnameFilePath :: string
  system_uptimeFilePath :: string

record systemMetadata =
  md_hostname :: string
  md_platform :: string
  md_hwsku :: string
  md_asic :: string
  md_asicCount :: string
  md_serial :: string
  md_model :: string
  md_revision :: string
  md_sonicVersion :: string
  md_sonicOS :: string
  md_debianVersion :: string
  md_kernelVersion :: string
  md_buildCommit :: string
  md_buildDate :: string
  md_builtBy :: string
  md_branch :: string
  md_release :: string
  md_uptimeSeconds :: f64

record systemCollector = cacheState +
  system_config :: systemCollectorConfig
  system_filter :: metricFilter

subsection \<open>Construction\<close>

definition systemIdentityInfo :: desc where [desc_defs]:
  "systemIdentityInfo = NewDesc ''sonic'' ''system'' ''identity_info''
     ''Switch identity metadata, value is always 1'' [''hostname'', ''platform'', ''hwsku'', ''asic'', ''asic_count'', ''serial'', ''model'', ''revision'']"

definition systemSoftwareInfo :: desc where [desc_defs]:
  "systemSoftwareInfo = NewDesc ''sonic'' ''system'' ''software_info''
     ''Switch software metadata, value is always 1'' [''sonic_version'', ''sonic_os_version'', ''debian_version'', ''kernel_version'', ''build_commit'', ''build_date'', ''built_by'', ''branch'', ''release'']"

definition systemUptimeSeconds :: desc where [desc_defs]:
  "systemUptimeSeconds = NewDesc ''sonic'' ''system'' ''uptime_seconds''
     ''Switch uptime in seconds'' []"

definition systemScrapeDuration :: desc where [desc_defs]:
  "systemScrapeDuration = NewDesc ''sonic'' ''system'' ''scrape_duration_seconds''
     ''Time it took for exporter to refresh system metrics'' []"

definition systemScrapeCollectorSuccess :: desc where [desc_defs]:
  "systemScrapeCollectorSuccess = NewDesc ''sonic'' ''system'' ''collector_success''
     ''Whether system collector succeeded'' []"

definition systemCacheAge :: desc where [desc_defs]:
  "systemCacheAge = NewDesc ''sonic'' ''system'' ''cache_age_seconds''
     ''Age of latest system cache refresh'' []"

definition loadSystemCollectorConfig :: "env \<Rightarrow> systemCollectorConfig" where
  "loadSystemCollectorConfig env =
     \<lparr>system_enabled = parseBoolEnv env ''SYSTEM_ENABLED'' False,
      system_refreshInterval = parseDurationEnv env ''SYSTEM_REFRESH_INTERVAL'' (60 * second),
      system_timeout = parseDurationEnv env ''SYSTEM_TIMEOUT'' (4 * second),
      system_commandEnabled = parseBoolEnv env ''SYSTEM_COMMAND_ENABLED'' True,
      system_commandTimeout = parseDurationEnv env ''SYSTEM_COMMAND_TIMEOUT'' (2 * second),
      system_commandMaxOutputBytes = parseIntEnv env ''SYSTEM_COMMAND_MAX_OUTPUT_BYTES'' 262144,
      system_versionFilePath = parseStringEnv env ''SYSTEM_VERSION_FILE'' ''/etc/sonic/sonic_version.yml'',
      system_machineConfFilePath = parseStringEnv env ''SYSTEM_MACHINE_CONF_FILE'' ''/host/machine.conf'',
      system_hostnameFilePath = parseStringEnv env ''SYSTEM_HOSTNAME_FILE'' ''/etc/hostname'',
      system_uptimeFilePath = parseStringEnv env ''SYSTEM_UPTIME_FILE'' ''/proc/uptime''\<rparr>"

definition system_new :: "env \<Rightarrow> metricFilter \<Rightarrow> systemCollector" where
  "system_new env flt =
     \<lparr>cachedMetrics = [], lastSuccess = f64_0, lastScrapeDuration = f64_0, lastRefreshTime = 0,
      system_config = loadSystemCollectorConfig env, system_filter = flt\<rparr>"

definition system_IsEnabled :: "systemCollector \<Rightarrow> bool" where
  "system_IsEnabled c = system_enabled (system_config c)"

definition system_Describe :: "desc list" where
  "system_Describe =
     [systemIdentityInfo,
      systemSoftwareInfo,
      systemUptimeSeconds,
      systemScrapeDuration,
      systemScrapeCollectorSuccess,
      systemCacheAge]"

subsection \<open>Values and texts\<close>

definition unknownSystemValue :: string where "unknownSystemValue = ''unknown''"

abbreviation quotes :: string where "quotes \<equiv> [CHR 0x27, CHR 0x22]"

definition normalizeSystemValue :: "string \<Rightarrow> string" where
  "normalizeSystemValue value =
     (let trimmed = trimSpace (trimCut value quotes); lowered = toLower trimmed
      in if trimmed = [] then []
         else if lowered = ''n/a'' \<or> lowered = ''na'' \<or> lowered = ''null'' then [] else trimmed)"

text \<open>What \<^verbatim>\<open>setIfEmpty\<close> leaves in its target.\<close>

definition setIfEmpty :: "string \<Rightarrow> string \<Rightarrow> string" where
  "setIfEmpty target value =
     (let normalized = normalizeSystemValue value
      in if normalized = [] then target else if target = [] then normalized else target)"

definition finalizeField :: "string \<Rightarrow> string" where
  "finalizeField value = (let normalized = normalizeSystemValue value in if normalized = [] then unknownSystemValue else normalized)"

text \<open>One line of a file of keys and values, in the map so far.\<close>

definition keyValueLine :: "string \<Rightarrow> fields \<Rightarrow> fields" where
  "keyValueLine text m =
     (let line = trimSpace text in
      if line = [] \<or> hasPrefix line ''#'' then m
      else let equals = splitN2 (CHR ''='') line; colon = (length equals \<noteq> 2);
               parts = (if colon then splitN2 (CHR '':'') line else equals) in
        if length parts \<noteq> 2 then m
        else let key = trimSpace (parts ! 0); value = trimSpace (parts ! 1);
                 value = (if colon \<and> containsChar value (CHR ''#'') then trimSpace (splitN2 (CHR ''#'') value ! 0) else value)
          in AList.update key (trimCut value quotes) m)"

definition keyValues :: "fileRead \<Rightarrow> goerr + fields" where
  "keyValues f =
     (case f of
        OpenFails e \<Rightarrow> Inl e
      | Opened content readErr closeErr \<Rightarrow>
          (case scanLines content of (lines, tooLong) \<Rightarrow>
             joinClose
               (if tooLong then Inl (Errorf ''bufio.Scanner: token too long'' [])
                else case readErr of Some e \<Rightarrow> Inl e | None \<Rightarrow> Inr (fold keyValueLine lines []))
               closeErr))"

definition parseSimpleKeyValueFile :: "'s host \<Rightarrow> string \<Rightarrow> ('s, fields) rio" where
  "parseSimpleKeyValueFile host path = io_bind (hostCall (openFile host path)) (\<lambda>f. io_sum (keyValues f))"

definition singleLine :: "fileRead \<Rightarrow> goerr + string" where
  "singleLine f =
     (case f of
        OpenFails e \<Rightarrow> Inl e
      | Opened content readErr closeErr \<Rightarrow>
          joinClose (case readErr of Some e \<Rightarrow> Inl e | None \<Rightarrow> Inr (trimSpace content)) closeErr)"

definition readSingleLineFile :: "'s host \<Rightarrow> string \<Rightarrow> ('s, string) rio" where
  "readSingleLineFile host path = io_bind (hostCall (openFile host path)) (\<lambda>f. io_sum (singleLine f))"

text \<open>\<^verbatim>\<open>show platform summary\<close>: the text from the first brace to the last, as a map of JSON values.\<close>

definition jsonPart :: "string \<Rightarrow> string option" where
  "jsonPart output =
     (let t = dropWhile (\<lambda>c. c \<noteq> CHR ''{'') output; r = dropWhile (\<lambda>c. c \<noteq> CHR ''}'') (rev t)
      in if t = [] \<or> r = [] then None else Some (rev r))"

definition formatInt :: "int \<Rightarrow> string" where
  "formatInt n = (if n < 0 then CHR ''-'' # itoa (nat (- n)) else itoa (nat n))"

definition int64Of :: "(f64 \<Rightarrow> int) \<Rightarrow> f64 \<Rightarrow> int" where
  "int64Of huge v = (if minInt64 \<le> f64_trunc v \<and> f64_trunc v \<le> maxInt64 then f64_trunc v else huge v)"

text \<open>Decoding into \<^verbatim>\<open>interface{}\<close> fails on a number no binary64 value is near to, at any depth.\<close>

fun numbersFit :: "json \<Rightarrow> bool" where
  "numbersFit (JNumber n) = (ParseFloat n \<noteq> None)"
| "numbersFit (JArray vs) = (\<forall>v\<in>set vs. numbersFit v)"
| "numbersFit (JObject kvs) = (\<forall>kv\<in>set kvs. numbersFit (snd kv))"
| "numbersFit v = True"

definition summaryValue :: "(f64 \<Rightarrow> int) \<Rightarrow> json \<Rightarrow> string option" where
  "summaryValue huge v =
     (case v of
        JString s \<Rightarrow> Some s
      | JNumber n \<Rightarrow> map_option (\<lambda>x. formatInt (int64Of huge x)) (ParseFloat n)
      | _ \<Rightarrow> None)"

definition parseShowPlatformSummaryOutput :: "(f64 \<Rightarrow> int) \<Rightarrow> string \<Rightarrow> goerr + fields" where
  "parseShowPlatformSummaryOutput huge output =
     (case jsonPart output of
        None \<Rightarrow> Inl (Errorf ''show platform summary output does not contain json object'' [])
      | Some trimmed \<Rightarrow>
          (case jsonParse trimmed of
             Some (JObject kvs) \<Rightarrow>
               if numbersFit (JObject kvs)
               then let parsed = fold (\<lambda>(k, v). AList.update k v) kvs []
                 in Inr (concat (map (\<lambda>(k, v). case summaryValue huge v of None \<Rightarrow> [] | Some s \<Rightarrow> [(k, s)]) parsed))
               else Inl (Errorf ''json: cannot unmarshal number'' [])
           | _ \<Rightarrow> Inl (Errorf ''json: syntax error'' [])))"

text \<open>\<^verbatim>\<open>show version\<close>: the keys it looks for, and the lines up to the list of images.\<close>

definition showVersionValue :: "string \<Rightarrow> string \<Rightarrow> fields \<Rightarrow> fields" where
  "showVersionValue key value values =
     (if key = ''SONiC Software Version'' then AList.update ''sonic_version'' value values
      else if key = ''SONiC OS Version'' then AList.update ''sonic_os_version'' value values
      else if key = ''Distribution'' then AList.update ''debian_version'' (trimPrefix value ''Debian '') values
      else if key = ''Kernel'' then AList.update ''kernel_version'' value values
      else if key = ''Build commit'' then AList.update ''build_commit'' value values
      else if key = ''Build date'' then AList.update ''build_date'' value values
      else if key = ''Built by'' then AList.update ''built_by'' value values
      else if key = ''Platform'' then AList.update ''platform'' value values
      else if key = ''HwSKU'' then AList.update ''hwsku'' value values
      else if key = ''ASIC'' then AList.update ''asic'' value values
      else if key = ''ASIC Count'' then AList.update ''asic_count'' value values
      else if key = ''Serial Number'' then AList.update ''serial'' value values
      else if key = ''Model Number'' then AList.update ''model'' value values
      else if key = ''Hardware Revision'' then AList.update ''revision'' value values
      else values)"

fun showVersionLines :: "string list \<Rightarrow> fields \<Rightarrow> fields" where
  "showVersionLines [] values = values"
| "showVersionLines (text # lines) values =
     (let line = trimSpace text in
      if line = [] then showVersionLines lines values
      else if hasPrefix line ''Docker images:'' then values
      else let parts = splitN2 (CHR '':'') line in
        if length parts \<noteq> 2 then showVersionLines lines values
        else showVersionLines lines (showVersionValue (trimSpace (parts ! 0)) (trimSpace (parts ! 1)) values))"

definition parseShowVersionOutput :: "string \<Rightarrow> fields" where
  "parseShowVersionOutput output = showVersionLines (fst (scanLines output)) []"

text \<open>
  The four regular expressions \<^verbatim>\<open>^\s*NAME\s+0x[0-9A-Fa-f]+\s+\d+\s+(.+)$\<close> on a line: what the group
  takes. Every class but the last is apart from what follows it; the last run of spaces gives one
  back when nothing else is left for the group.
\<close>

definition reSpace :: "char \<Rightarrow> bool" where
  "reSpace c = (c \<in> set [CHR 0x09, CHR 0x0A, CHR 0x0C, CHR 0x0D, CHR 0x20])"

definition plusClass :: "(char \<Rightarrow> bool) \<Rightarrow> string \<Rightarrow> string option" where
  "plusClass p s = (if takeWhile p s = [] then None else Some (dropWhile p s))"

definition eepromField :: "string \<Rightarrow> string \<Rightarrow> string option" where
  "eepromField name line =
     (let s = dropWhile reSpace line in
      if \<not> hasPrefix s name then None
      else case plusClass reSpace (trimPrefix s name) of
        None \<Rightarrow> None
      | Some s \<Rightarrow>
          if \<not> hasPrefix s ''0x'' then None
          else case plusClass isHex (trimPrefix s ''0x'') of
            None \<Rightarrow> None
          | Some s \<Rightarrow>
              (case plusClass reSpace s of
                 None \<Rightarrow> None
               | Some s \<Rightarrow>
                   (case plusClass isDigit s of
                      None \<Rightarrow> None
                    | Some s \<Rightarrow>
                        let spaces = takeWhile reSpace s; rest = dropWhile reSpace s in
                        if spaces = [] then None
                        else if rest \<noteq> [] then Some rest
                        else if length spaces \<ge> 2 then Some [last spaces] else None)))"

definition eepromLine :: "string \<Rightarrow> fields \<Rightarrow> fields" where
  "eepromLine line values =
     (let get = (\<lambda>name key values.
        case eepromField name line of None \<Rightarrow> values | Some m \<Rightarrow> AList.update key (trimSpace m) values);
        values = get ''Serial Number'' ''serial'' values;
        values = get ''Product Name'' ''model'' values;
        values = get ''Label Revision'' ''revision'' values
      in if field values ''revision'' = [] then get ''Device Version'' ''revision'' values else values)"

definition parseSysEEPROMOutput :: "string \<Rightarrow> fields" where
  "parseSysEEPROMOutput output = fold eepromLine (fst (scanLines output)) []"

subsection \<open>The sources\<close>

definition allowedCommands :: "string list" where
  "allowedCommands = [''show platform summary --json'', ''show version'', ''show platform syseeprom'']"

text \<open>The output of a command that ran, or its error.\<close>

definition commandOutput :: "systemCollector \<Rightarrow> string list \<Rightarrow> cmdRun \<Rightarrow> goerr + string" where
  "commandOutput c args r =
     (let output = limitedWrites (newOutput (system_commandMaxOutputBytes (system_config c))) (cmd_writes r)
      in case cmd_error r of
           Some e \<Rightarrow>
             if cmd_deadline r then Inl (Errorf ''command timed out: %s'' [joinWith '' '' args])
             else Inl (Wrapf ''command failed: %s: %w'' [joinWith '' '' args] e)
         | None \<Rightarrow> Inr (lb_buf output))"

definition runAllowedCommand :: "'s host \<Rightarrow> systemCollector \<Rightarrow> string list \<Rightarrow> ('s, string) rio" where
  "runAllowedCommand host c args =
     (if joinWith '' '' args \<notin> set allowedCommands
      then io_fail (Errorf ''command not allowed: %s'' [joinWith '' '' args])
      else io_bind (hostCall (runCommand host args)) (\<lambda>r. io_sum (commandOutput c args r)))"

text \<open>
  Each source fills in what is still empty. \<open>deviceFields\<close> and the like are the assignments of one source
  from its values; a source that fails leaves the metadata as it is.
\<close>

definition deviceFields :: "fields \<Rightarrow> systemMetadata \<Rightarrow> systemMetadata" where
  "deviceFields values md = md
     \<lparr>md_hostname := setIfEmpty (md_hostname md) (field values ''hostname''),
      md_platform := setIfEmpty (md_platform md) (field values ''platform''),
      md_hwsku := setIfEmpty (md_hwsku md) (field values ''hwsku'')\<rparr>"

definition partFields :: "fields \<Rightarrow> systemMetadata \<Rightarrow> systemMetadata" where
  "partFields values md = md
     \<lparr>md_serial := setIfEmpty (md_serial md) (field values ''serial''),
      md_model := setIfEmpty (md_model md) (field values ''model''),
      md_revision := setIfEmpty (md_revision md) (field values ''revision'')\<rparr>"

definition versionFields :: "fields \<Rightarrow> systemMetadata \<Rightarrow> systemMetadata" where
  "versionFields values md = md
     \<lparr>md_sonicVersion := setIfEmpty (md_sonicVersion md) (field values ''build_version''),
      md_sonicOS := setIfEmpty (md_sonicOS md) (field values ''sonic_os_version''),
      md_debianVersion := setIfEmpty (md_debianVersion md) (field values ''debian_version''),
      md_kernelVersion := setIfEmpty (md_kernelVersion md) (field values ''kernel_version''),
      md_asic := setIfEmpty (md_asic md) (field values ''asic_type''),
      md_asicCount := setIfEmpty (md_asicCount md) (field values ''asic_count''),
      md_buildCommit := setIfEmpty (md_buildCommit md) (field values ''commit_id''),
      md_buildDate := setIfEmpty (md_buildDate md) (field values ''build_date''),
      md_builtBy := setIfEmpty (md_builtBy md) (field values ''built_by''),
      md_branch := setIfEmpty (md_branch md) (field values ''branch''),
      md_release := setIfEmpty (md_release md) (field values ''release'')\<rparr>"

definition summaryFields :: "fields \<Rightarrow> systemMetadata \<Rightarrow> systemMetadata" where
  "summaryFields values md = md
     \<lparr>md_platform := setIfEmpty (md_platform md) (field values ''platform''),
      md_hwsku := setIfEmpty (md_hwsku md) (field values ''hwsku''),
      md_asic := setIfEmpty (md_asic md) (field values ''asic_type''),
      md_asicCount := setIfEmpty (md_asicCount md) (field values ''asic_count''),
      md_serial := setIfEmpty (md_serial md) (field values ''serial''),
      md_model := setIfEmpty (md_model md) (field values ''model''),
      md_revision := setIfEmpty (md_revision md) (field values ''revision'')\<rparr>"

definition showVersionFields :: "fields \<Rightarrow> systemMetadata \<Rightarrow> systemMetadata" where
  "showVersionFields values md = md
     \<lparr>md_sonicVersion := setIfEmpty (md_sonicVersion md) (field values ''sonic_version''),
      md_sonicOS := setIfEmpty (md_sonicOS md) (field values ''sonic_os_version''),
      md_debianVersion := setIfEmpty (md_debianVersion md) (field values ''debian_version''),
      md_kernelVersion := setIfEmpty (md_kernelVersion md) (field values ''kernel_version''),
      md_buildCommit := setIfEmpty (md_buildCommit md) (field values ''build_commit''),
      md_buildDate := setIfEmpty (md_buildDate md) (field values ''build_date''),
      md_builtBy := setIfEmpty (md_builtBy md) (field values ''built_by''),
      md_platform := setIfEmpty (md_platform md) (field values ''platform''),
      md_hwsku := setIfEmpty (md_hwsku md) (field values ''hwsku''),
      md_asic := setIfEmpty (md_asic md) (field values ''asic''),
      md_asicCount := setIfEmpty (md_asicCount md) (field values ''asic_count''),
      md_serial := setIfEmpty (md_serial md) (field values ''serial''),
      md_model := setIfEmpty (md_model md) (field values ''model''),
      md_revision := setIfEmpty (md_revision md) (field values ''revision'')\<rparr>"

text \<open>\<^verbatim>\<open>values, err := m(); if err != nil { return }; ...\<close>\<close>

definition fromSource :: "('s, 'a) rio \<Rightarrow> ('a \<Rightarrow> systemMetadata \<Rightarrow> systemMetadata) \<Rightarrow> systemMetadata \<Rightarrow> ('s, systemMetadata) rio" where
  "fromSource m fill md = io_bind (io_try m) (\<lambda>r. io_return (case r of Inl err \<Rightarrow> md | Inr values \<Rightarrow> fill values md))"

definition loadFromRedis :: "'s redisLib \<Rightarrow> systemMetadata \<Rightarrow> ('s, systemMetadata) rio" where
  "loadFromRedis lib md =
     io_bind (io_try (NewClient lib)) (\<lambda>r.
     case r of
       Inl err \<Rightarrow> io_return md
     | Inr cfg \<Rightarrow>
         io_defer (Close lib)
           (io_bind (fromSource (HgetAllFromDb lib cfg ''CONFIG_DB'' ''DEVICE_METADATA|localhost'') deviceFields md)
             (fromSource (HgetAllFromDb lib cfg ''STATE_DB'' ''CHASSIS_INFO|chassis 1'') partFields)))"

definition loadFromVersionFile :: "'s host \<Rightarrow> systemCollector \<Rightarrow> systemMetadata \<Rightarrow> ('s, systemMetadata) rio" where
  "loadFromVersionFile host c md =
     fromSource (parseSimpleKeyValueFile host (system_versionFilePath (system_config c))) versionFields md"

definition loadFromMachineConf :: "'s host \<Rightarrow> systemCollector \<Rightarrow> systemMetadata \<Rightarrow> ('s, systemMetadata) rio" where
  "loadFromMachineConf host c md =
     fromSource (parseSimpleKeyValueFile host (system_machineConfFilePath (system_config c)))
       (\<lambda>values md. md\<lparr>md_platform := setIfEmpty (md_platform md) (field values ''onie_platform'')\<rparr>) md"

definition loadFromHostnameFile :: "'s host \<Rightarrow> systemCollector \<Rightarrow> systemMetadata \<Rightarrow> ('s, systemMetadata) rio" where
  "loadFromHostnameFile host c md =
     fromSource (readSingleLineFile host (system_hostnameFilePath (system_config c)))
       (\<lambda>hostname md. md\<lparr>md_hostname := setIfEmpty (md_hostname md) hostname\<rparr>) md"

definition loadFromUptimeFile :: "'s host \<Rightarrow> systemCollector \<Rightarrow> systemMetadata \<Rightarrow> ('s, systemMetadata) rio" where
  "loadFromUptimeFile host c md =
     fromSource (readSingleLineFile host (system_uptimeFilePath (system_config c)))
       (\<lambda>uptimeRaw md.
          if firstField uptimeRaw = [] then md
          else case ParseFloat (firstField uptimeRaw) of None \<Rightarrow> md | Some uptime \<Rightarrow> md\<lparr>md_uptimeSeconds := uptime\<rparr>) md"

definition loadFromShowPlatformSummary :: "'s host \<Rightarrow> systemCollector \<Rightarrow> systemMetadata \<Rightarrow> ('s, systemMetadata) rio" where
  "loadFromShowPlatformSummary host c md =
     fromSource (io_bind (runAllowedCommand host c [''show'', ''platform'', ''summary'', ''--json''])
                  (\<lambda>output. io_sum (parseShowPlatformSummaryOutput (hugeInt64 host) output))) summaryFields md"

definition loadFromShowVersion :: "'s host \<Rightarrow> systemCollector \<Rightarrow> systemMetadata \<Rightarrow> ('s, systemMetadata) rio" where
  "loadFromShowVersion host c md =
     fromSource (runAllowedCommand host c [''show'', ''version''])
       (\<lambda>output. showVersionFields (parseShowVersionOutput output)) md"

definition loadFromShowPlatformSysEEPROM :: "'s host \<Rightarrow> systemCollector \<Rightarrow> systemMetadata \<Rightarrow> ('s, systemMetadata) rio" where
  "loadFromShowPlatformSysEEPROM host c md =
     fromSource (runAllowedCommand host c [''show'', ''platform'', ''syseeprom''])
       (\<lambda>output. partFields (parseSysEEPROMOutput output)) md"

definition finalizeMetadata :: "systemMetadata \<Rightarrow> systemMetadata" where
  "finalizeMetadata md =
     (let md = md
        \<lparr>md_hostname := finalizeField (md_hostname md),
         md_platform := finalizeField (md_platform md),
         md_hwsku := finalizeField (md_hwsku md),
         md_asic := toLower (finalizeField (md_asic md)),
         md_asicCount := finalizeField (md_asicCount md),
         md_serial := finalizeField (md_serial md),
         md_model := finalizeField (md_model md),
         md_revision := finalizeField (md_revision md),
         md_sonicVersion := finalizeField (md_sonicVersion md),
         md_sonicOS := finalizeField (md_sonicOS md),
         md_debianVersion := finalizeField (md_debianVersion md),
         md_kernelVersion := finalizeField (md_kernelVersion md),
         md_buildCommit := finalizeField (md_buildCommit md),
         md_buildDate := finalizeField (md_buildDate md),
         md_builtBy := finalizeField (md_builtBy md),
         md_branch := finalizeField (md_branch md),
         md_release := finalizeField (md_release md)\<rparr>;
        md = (if Atoi (md_asicCount md) = None then md\<lparr>md_asicCount := unknownSystemValue\<rparr> else md)
      in if f64_negative (md_uptimeSeconds md) then md\<lparr>md_uptimeSeconds := f64_0\<rparr> else md)"

definition emptyMetadata :: systemMetadata where
  "emptyMetadata =
     \<lparr>md_hostname = [], md_platform = [], md_hwsku = [], md_asic = [], md_asicCount = [], md_serial = [], md_model = [],
      md_revision = [], md_sonicVersion = [], md_sonicOS = [], md_debianVersion = [], md_kernelVersion = [],
      md_buildCommit = [], md_buildDate = [], md_builtBy = [], md_branch = [], md_release = [], md_uptimeSeconds = f64_0\<rparr>"

definition systemIdentity :: "systemMetadata \<Rightarrow> string list" where
  "systemIdentity md =
     [md_hostname md, md_platform md, md_hwsku md, md_asic md, md_asicCount md, md_serial md, md_model md, md_revision md]"

definition systemSoftware :: "systemMetadata \<Rightarrow> string list" where
  "systemSoftware md =
     [md_sonicVersion md, md_sonicOS md, md_debianVersion md, md_kernelVersion md, md_buildCommit md, md_buildDate md,
      md_builtBy md, md_branch md, md_release md]"

definition loadMetadata :: "'s host \<Rightarrow> 's redisLib \<Rightarrow> systemCollector \<Rightarrow> ('s, systemMetadata) rio" where
  "loadMetadata host lib c =
     io_bind (loadFromRedis lib emptyMetadata) (\<lambda>md.
     io_bind (loadFromVersionFile host c md) (\<lambda>md.
     io_bind (loadFromMachineConf host c md) (\<lambda>md.
     io_bind (loadFromHostnameFile host c md) (\<lambda>md.
     io_bind (loadFromUptimeFile host c md) (\<lambda>md.
     if system_commandEnabled (system_config c)
     then io_bind (loadFromShowPlatformSummary host c md) (\<lambda>md.
          io_bind (loadFromShowVersion host c md) (\<lambda>md.
          if md_serial md = [] \<or> md_model md = [] \<or> md_revision md = []
          then loadFromShowPlatformSysEEPROM host c md else io_return md))
     else io_return md)))))"

definition system_scrapeMetrics ::
  "(string \<Rightarrow> bool) \<Rightarrow> 's host \<Rightarrow> 's redisLib \<Rightarrow> systemCollector \<Rightarrow> ('s, metric list) rio" where
  "system_scrapeMetrics labelOk host lib c =
     io_bind (loadMetadata host lib c) (\<lambda>md.
     let md = finalizeMetadata md; on = Enabled (system_filter c);
         gauge = (\<lambda>d labels value. MustNewConstMetric labelOk d GaugeValue value labels) in
     io_bind (emit (on ''sonic_system_identity_info'') (gauge systemIdentityInfo (systemIdentity md) f64_1) []) (\<lambda>metrics.
     io_bind (emit (on ''sonic_system_software_info'') (gauge systemSoftwareInfo (systemSoftware md) f64_1) metrics) (\<lambda>metrics.
     emit (on ''sonic_system_uptime_seconds'') (gauge systemUptimeSeconds [] (md_uptimeSeconds md)) metrics)))"

subsection \<open>Refreshing and collecting\<close>

definition system_assignments ::
  "refreshClock \<Rightarrow> goerr + metric list \<Rightarrow> (systemCollector \<Rightarrow> systemCollector) list" where
  "system_assignments clk r =
     (\<lambda>c. c\<lparr>lastScrapeDuration := scrapeSeconds clk\<rparr>) #
     (case r of
        Inl err \<Rightarrow> [\<lambda>c. c\<lparr>lastSuccess := f64_0\<rparr>]
      | Inr metrics \<Rightarrow>
          [\<lambda>c. c\<lparr>cachedMetrics := metrics\<rparr>,
           \<lambda>c. c\<lparr>lastSuccess := f64_1\<rparr>,
           \<lambda>c. c\<lparr>lastRefreshTime := t_stored clk\<rparr>])"

definition system_refreshMetrics ::
  "(string \<Rightarrow> bool) \<Rightarrow> 's host \<Rightarrow> 's redisLib \<Rightarrow> refreshClock \<Rightarrow> systemCollector \<Rightarrow> ('s, systemCollector) rio" where
  "system_refreshMetrics labelOk host lib clk c =
     refreshWith (system_scrapeMetrics labelOk host lib c) (system_assignments clk) c"

definition system_refreshLoop ::
  "(string \<Rightarrow> bool) \<Rightarrow> 's host \<Rightarrow> 's redisLib \<Rightarrow> refreshClock list \<Rightarrow> systemCollector \<Rightarrow> ('s, systemCollector) rio" where
  "system_refreshLoop labelOk host lib ticks c =
     tickerLoop (system_refreshInterval (system_config c)) (system_refreshMetrics labelOk host lib) ticks c"

definition NewSystemCollector ::
  "(string \<Rightarrow> bool) \<Rightarrow> 's host \<Rightarrow> 's redisLib \<Rightarrow> env \<Rightarrow> metricFilter \<Rightarrow> refreshClock \<Rightarrow> refreshClock list
     \<Rightarrow> ('s, systemCollector) rio" where
  "NewSystemCollector labelOk host lib env flt clk ticks =
     (let c = system_new env flt
      in if \<not> system_enabled (system_config c) then io_return c
         else io_bind (system_refreshMetrics labelOk host lib clk c) (system_refreshLoop labelOk host lib ticks))"

text \<open>The copies \<^verbatim>\<open>Collect\<close> makes under the read lock, in its order.\<close>

definition system_copies :: "(systemCollector \<Rightarrow> systemCollector \<Rightarrow> systemCollector) list" where
  "system_copies =
     [\<lambda>c l. l\<lparr>cachedMetrics := cachedMetrics c\<rparr>,
      \<lambda>c l. l\<lparr>lastScrapeDuration := lastScrapeDuration c\<rparr>,
      \<lambda>c l. l\<lparr>lastSuccess := lastSuccess c\<rparr>,
      \<lambda>c l. l\<lparr>lastRefreshTime := lastRefreshTime c\<rparr>]"

definition system_Collect :: "(string \<Rightarrow> bool) \<Rightarrow> gotime \<Rightarrow> systemCollector \<Rightarrow> ('w, metric list) io" where
  "system_Collect labelOk now c =
     (if \<not> system_enabled (system_config c) then io_return []
      else let gauge = (\<lambda>d v. MustNewConstMetric labelOk d GaugeValue v []);
               on = Enabled (system_filter c)
        in io_bind (emit (on ''sonic_system_scrape_duration_seconds'') (gauge systemScrapeDuration (lastScrapeDuration c)) (cachedMetrics c)) (\<lambda>ch.
           io_bind (emit (on ''sonic_system_collector_success'') (gauge systemScrapeCollectorSuccess (lastSuccess c)) ch) (\<lambda>ch.
           emit (on ''sonic_system_cache_age_seconds'') (gauge systemCacheAge (cacheAge now (lastRefreshTime c))) ch)))"

interpretation system: refresh_contract system_assignments system_copies cacheState.truncate
  "\<lambda>c. (system_config c, system_filter c)" "\<lambda>ms. ms"
proof unfold_locales
  show "(system_config (f c), system_filter (f c)) = (system_config c, system_filter c)"
    if "f \<in> set (system_assignments clk r)" for f clk r c
    using that by (auto simp: system_assignments_def split: sum.splits)
qed (auto simp: system_assignments_def system_copies_def cacheState.truncate_def)

subsection \<open>The descriptions\<close>

lemma fq_system [simp]:
  "fqName systemIdentityInfo = ''sonic_system_identity_info''"
  "fqName systemSoftwareInfo = ''sonic_system_software_info''"
  "fqName systemUptimeSeconds = ''sonic_system_uptime_seconds''"
  "fqName systemScrapeDuration = ''sonic_system_scrape_duration_seconds''"
  "fqName systemScrapeCollectorSuccess = ''sonic_system_collector_success''"
  "fqName systemCacheAge = ''sonic_system_cache_age_seconds''"
  by (simp_all add: desc_defs)

lemma labels_system [simp]:
  "length (d_labels systemIdentityInfo) = 8"
  "length (d_labels systemSoftwareInfo) = 9"
  "d_labels systemUptimeSeconds = []"
  "d_labels systemScrapeDuration = []"
  "d_labels systemScrapeCollectorSuccess = []"
  "d_labels systemCacheAge = []"
  by (simp_all add: desc_defs)

lemma system_described [simp]:
  "systemIdentityInfo \<in> set system_Describe"
  "systemSoftwareInfo \<in> set system_Describe"
  "systemUptimeSeconds \<in> set system_Describe"
  "systemScrapeDuration \<in> set system_Describe"
  "systemScrapeCollectorSuccess \<in> set system_Describe"
  "systemCacheAge \<in> set system_Describe"
  by (simp_all add: system_Describe_def)

lemma system_names: "ownNames ''system'' system_Describe"
  by (simp add: ownNames_def system_Describe_def subsystemOf_def desc_defs)

subsection \<open>Collect\<close>

definition system_gauges :: "gotime \<Rightarrow> systemCollector \<Rightarrow> (desc \<times> f64) list" where
  "system_gauges now c =
     [(systemScrapeDuration, lastScrapeDuration c),
      (systemScrapeCollectorSuccess, lastSuccess c),
      (systemCacheAge, cacheAge now (lastRefreshTime c))]"

lemma system_Collect_yields:
  "system_IsEnabled c \<Longrightarrow>
    yields I (system_Collect labelOk now c) (cachedMetrics c @ gauges (system_filter c) (system_gauges now c))"
  unfolding system_Collect_def system_gauges_def Let_def system_IsEnabled_def
  by (simp only: not_True_eq_False if_False, rule yields_eq,
      (rule yields_bind_gauge, simp, simp)+, rule yields_gauge)
     (simp_all only: gauges_append append.simps fq_system labels_system)

lemma system_gauges_good: "list_all (goodMetric labelOk flt system_Describe) (gauges flt (system_gauges now c))"
  by (rule gauges_good) (auto simp: system_gauges_def)

subsection \<open>What a refresh exports\<close>

abbreviation system_good :: "(string \<Rightarrow> bool) \<Rightarrow> systemCollector \<Rightarrow> metric list \<Rightarrow> bool" where
  "system_good labelOk c \<equiv> list_all (goodMetric labelOk (system_filter c) system_Describe)"

lemma system_scrape_ok: "post (system_scrapeMetrics labelOk host lib c) (system_good labelOk c)"
  unfolding system_scrapeMetrics_def Let_def
  by (rule post_bind_any)
     (auto intro!: post_rules post_bind_emit [where descs = system_Describe and labelOk = labelOk and flt = "system_filter c"])

lemma system_Collect_good:
  "system_good labelOk c (cachedMetrics c) \<Longrightarrow>
    post (system_Collect labelOk now c) (system_good labelOk c)"
proof (cases "system_IsEnabled c")
  case True
  assume "system_good labelOk c (cachedMetrics c)"
  then show ?thesis
    by (intro yields_post [OF system_Collect_yields [OF True]]) (simp add: system_gauges_good)
next
  case False
  then show ?thesis by (simp add: system_Collect_def system_IsEnabled_def post_return)
qed

interpretation system_source: metric_source system_assignments system_copies cacheState.truncate
  "\<lambda>c. (system_config c, system_filter c)" "\<lambda>ms. ms" "system_scrapeMetrics labelOk host lib" "system_Collect labelOk"
  "\<lambda>f. list_all (goodMetric labelOk (snd f) system_Describe)"
  for labelOk host lib
  by unfold_locales (simp_all add: system_Collect_good cacheState.truncate_def system_scrape_ok)

subsection \<open>The specification of a refresh\<close>

text \<open>The first of several values that is more than blank or a word for a missing value.\<close>

definition firstValue :: "string list \<Rightarrow> string" where
  "firstValue vs = (case filter (\<lambda>v. v \<noteq> []) (map normalizeSystemValue vs) of [] \<Rightarrow> [] | v # _ \<Rightarrow> v)"

definition chosen :: "string list \<Rightarrow> string" where
  "chosen vs = finalizeField (firstValue vs)"

text \<open>What the sources answer; a source that fails has no values.\<close>

record systemSources =
  src_device :: fields
  src_chassis :: fields
  src_version :: fields
  src_machine :: fields
  src_hostname :: string
  src_uptime :: string
  src_summary :: fields
  src_show :: fields
  src_eeprom :: fields

definition system_identity :: "systemSources \<Rightarrow> string list" where
  "system_identity S =
     [chosen [field (src_device S) ''hostname'', src_hostname S],
      chosen [field (src_device S) ''platform'', field (src_machine S) ''onie_platform'', field (src_summary S) ''platform'',
        field (src_show S) ''platform''],
      chosen [field (src_device S) ''hwsku'', field (src_summary S) ''hwsku'', field (src_show S) ''hwsku''],
      toLower (chosen [field (src_version S) ''asic_type'', field (src_summary S) ''asic_type'', field (src_show S) ''asic'']),
      (let count = chosen [field (src_version S) ''asic_count'', field (src_summary S) ''asic_count'', field (src_show S) ''asic_count'']
       in if Atoi count = None then unknownSystemValue else count)] @
     map (\<lambda>k. chosen [field (src_chassis S) k, field (src_summary S) k, field (src_show S) k, field (src_eeprom S) k])
       [''serial'', ''model'', ''revision'']"

definition system_software :: "systemSources \<Rightarrow> string list" where
  "system_software S =
     map (\<lambda>(k, k'). chosen [field (src_version S) k, field (src_show S) k'])
       [(''build_version'', ''sonic_version''), (''sonic_os_version'', ''sonic_os_version''),
        (''debian_version'', ''debian_version''), (''kernel_version'', ''kernel_version''), (''commit_id'', ''build_commit''),
        (''build_date'', ''build_date''), (''built_by'', ''built_by'')] @
     [chosen [field (src_version S) ''branch''], chosen [field (src_version S) ''release'']]"

definition system_uptime :: "systemSources \<Rightarrow> f64" where
  "system_uptime S =
     (case ParseFloat (firstField (src_uptime S)) of None \<Rightarrow> f64_0 | Some v \<Rightarrow> if f64_negative v then f64_0 else v)"

definition system_metrics :: "systemCollector \<Rightarrow> string list \<Rightarrow> string list \<Rightarrow> f64 \<Rightarrow> metric list" where
  "system_metrics c identity software uptime =
     (let on = Enabled (system_filter c)
      in (if on ''sonic_system_identity_info'' then [constMetric systemIdentityInfo GaugeValue f64_1 identity] else []) @
         (if on ''sonic_system_software_info'' then [constMetric systemSoftwareInfo GaugeValue f64_1 software] else []) @
         (if on ''sonic_system_uptime_seconds'' then [constMetric systemUptimeSeconds GaugeValue uptime []] else []))"

text \<open>
  A machine that holds still: its Redis configuration, if it can be read, what each read of Redis gives,
  what its files hold, and what its commands do.
\<close>

definition orEmpty :: "goerr + 'a list \<Rightarrow> 'a list" where
  "orEmpty r = (case r of Inl e \<Rightarrow> [] | Inr x \<Rightarrow> x)"

definition redisAnswers :: "'s redisLib \<Rightarrow> redisConfig option \<Rightarrow> (int \<Rightarrow> string \<Rightarrow> goerr + fields) \<Rightarrow> bool" where
  "redisAnswers lib cfg ans =
     (case cfg of
        None \<Rightarrow> \<forall>s. \<exists>e. readEnv lib s = Inl e
      | Some cfg \<Rightarrow> (\<forall>s. readEnv lib s = Inr cfg) \<and>
          (\<forall>client key s. \<exists>s'. hGetAll lib client key s = (ans (opt_DB client) key, s')))"

definition hostStill :: "'s host \<Rightarrow> (string \<Rightarrow> fileRead) \<Rightarrow> (string list \<Rightarrow> cmdRun) \<Rightarrow> bool" where
  "hostStill host files cmds =
     ((\<forall>p s. \<exists>s'. openFile host p s = (files p, s')) \<and> (\<forall>args s. \<exists>s'. runCommand host args s = (cmds args, s')))"

definition systemSourcesOf ::
  "systemCollector \<Rightarrow> (f64 \<Rightarrow> int) \<Rightarrow> redisConfig option \<Rightarrow> (int \<Rightarrow> string \<Rightarrow> goerr + fields) \<Rightarrow> (string \<Rightarrow> fileRead)
     \<Rightarrow> (string list \<Rightarrow> cmdRun) \<Rightarrow> systemSources" where
  "systemSourcesOf c huge cfg ans files cmds =
     (let redis = (\<lambda>n k. if cfg = None then [] else orEmpty (ans n k)); conf = system_config c;
          shown = (\<lambda>args parse. if system_commandEnabled conf
             then orEmpty (case commandOutput c args (cmds args) of Inl e \<Rightarrow> Inl e | Inr output \<Rightarrow> parse output) else [])
      in \<lparr>src_device = redis 4 ''DEVICE_METADATA|localhost'',
          src_chassis = redis 6 ''CHASSIS_INFO|chassis 1'',
          src_version = orEmpty (keyValues (files (system_versionFilePath conf))),
          src_machine = orEmpty (keyValues (files (system_machineConfFilePath conf))),
          src_hostname = orEmpty (singleLine (files (system_hostnameFilePath conf))),
          src_uptime = orEmpty (singleLine (files (system_uptimeFilePath conf))),
          src_summary = shown [''show'', ''platform'', ''summary'', ''--json''] (parseShowPlatformSummaryOutput huge),
          src_show = shown [''show'', ''version''] (\<lambda>output. Inr (parseShowVersionOutput output)),
          src_eeprom = shown [''show'', ''platform'', ''syseeprom''] (\<lambda>output. Inr (parseSysEEPROMOutput output))\<rparr>)"

definition system_spec :: "systemCollector \<Rightarrow> systemSources \<Rightarrow> metric list" where
  "system_spec c S = system_metrics c (system_identity S) (system_software S) (system_uptime S)"

subsection \<open>The code meets it\<close>

lemma normalize_Nil [simp]: "normalizeSystemValue [] = []"
  by (simp add: normalizeSystemValue_def trimCut_def)

lemma setIfEmpty_blank [simp]: "setIfEmpty t [] = t"
  by (simp add: setIfEmpty_def)

lemma setIfEmpty_full: "t \<noteq> [] \<Longrightarrow> setIfEmpty t v = t"
  by (simp add: setIfEmpty_def Let_def)

lemma setIfEmpty_first: "setIfEmpty [] v = firstValue [v]"
  by (simp add: setIfEmpty_def firstValue_def Let_def)

lemma setIfEmpty_next: "setIfEmpty (firstValue vs) v = firstValue (vs @ [v])"
proof (cases "filter (\<lambda>v. v \<noteq> []) (map normalizeSystemValue vs)")
  case Nil
  then show ?thesis by (simp add: setIfEmpty_def firstValue_def Let_def)
next
  case (Cons a as)
  then have "a \<noteq> []" by (auto dest: filter_eq_Cons_in)
  with Cons show ?thesis by (simp add: setIfEmpty_def firstValue_def Let_def)
qed

lemmas precedence = setIfEmpty_first setIfEmpty_next append.simps

lemma fields_blank:
  "deviceFields [] md = md" "partFields [] md = md" "versionFields [] md = md" "summaryFields [] md = md"
  "showVersionFields [] md = md"
  by (simp_all add: deviceFields_def partFields_def versionFields_def summaryFields_def showVersionFields_def)

text \<open>All sources one after the other, and that the code reads the EEPROM only where it can matter.\<close>

definition gathered :: "systemSources \<Rightarrow> systemMetadata" where
  "gathered S =
     (let md = partFields (src_chassis S) (deviceFields (src_device S) emptyMetadata);
          md = versionFields (src_version S) md;
          md = md\<lparr>md_platform := setIfEmpty (md_platform md) (field (src_machine S) ''onie_platform'')\<rparr>;
          md = md\<lparr>md_hostname := setIfEmpty (md_hostname md) (src_hostname S)\<rparr>;
          md = (case ParseFloat (firstField (src_uptime S)) of None \<Rightarrow> md | Some uptime \<Rightarrow> md\<lparr>md_uptimeSeconds := uptime\<rparr>);
          md = summaryFields (src_summary S) md;
          md = showVersionFields (src_show S) md
      in partFields (src_eeprom S) md)"

lemma partFields_full:
  "md_serial md \<noteq> [] \<Longrightarrow> md_model md \<noteq> [] \<Longrightarrow> md_revision md \<noteq> [] \<Longrightarrow> partFields values md = md"
  by (simp add: partFields_def setIfEmpty_full)

lemma gathered_text:
  "md_hostname (gathered S) = firstValue [field (src_device S) ''hostname'', src_hostname S]"
  "md_platform (gathered S) = firstValue [field (src_device S) ''platform'', field (src_machine S) ''onie_platform'',
     field (src_summary S) ''platform'', field (src_show S) ''platform'']"
  "md_hwsku (gathered S) = firstValue [field (src_device S) ''hwsku'', field (src_summary S) ''hwsku'', field (src_show S) ''hwsku'']"
  "md_asic (gathered S) = firstValue [field (src_version S) ''asic_type'', field (src_summary S) ''asic_type'', field (src_show S) ''asic'']"
  "md_asicCount (gathered S) =
     firstValue [field (src_version S) ''asic_count'', field (src_summary S) ''asic_count'', field (src_show S) ''asic_count'']"
  by (simp_all add: gathered_def Let_def deviceFields_def partFields_def versionFields_def summaryFields_def
      showVersionFields_def emptyMetadata_def precedence split: option.split)

lemma gathered_parts:
  "md_serial (gathered S) = firstValue (map (\<lambda>m. field m ''serial'') [src_chassis S, src_summary S, src_show S, src_eeprom S])"
  "md_model (gathered S) = firstValue (map (\<lambda>m. field m ''model'') [src_chassis S, src_summary S, src_show S, src_eeprom S])"
  "md_revision (gathered S) = firstValue (map (\<lambda>m. field m ''revision'') [src_chassis S, src_summary S, src_show S, src_eeprom S])"
  by (simp_all add: gathered_def Let_def deviceFields_def partFields_def versionFields_def summaryFields_def
      showVersionFields_def emptyMetadata_def precedence split: option.split)

lemma gathered_software:
  "md_sonicVersion (gathered S) = firstValue [field (src_version S) ''build_version'', field (src_show S) ''sonic_version'']"
  "md_sonicOS (gathered S) = firstValue [field (src_version S) ''sonic_os_version'', field (src_show S) ''sonic_os_version'']"
  "md_debianVersion (gathered S) = firstValue [field (src_version S) ''debian_version'', field (src_show S) ''debian_version'']"
  "md_kernelVersion (gathered S) = firstValue [field (src_version S) ''kernel_version'', field (src_show S) ''kernel_version'']"
  "md_buildCommit (gathered S) = firstValue [field (src_version S) ''commit_id'', field (src_show S) ''build_commit'']"
  "md_buildDate (gathered S) = firstValue [field (src_version S) ''build_date'', field (src_show S) ''build_date'']"
  "md_builtBy (gathered S) = firstValue [field (src_version S) ''built_by'', field (src_show S) ''built_by'']"
  "md_branch (gathered S) = firstValue [field (src_version S) ''branch'']"
  "md_release (gathered S) = firstValue [field (src_version S) ''release'']"
  by (simp_all add: gathered_def Let_def deviceFields_def partFields_def versionFields_def summaryFields_def
      showVersionFields_def emptyMetadata_def precedence split: option.split)

lemma gathered_uptime:
  "md_uptimeSeconds (gathered S) = (case ParseFloat (firstField (src_uptime S)) of None \<Rightarrow> f64_0 | Some v \<Rightarrow> v)"
  by (simp add: gathered_def Let_def deviceFields_def partFields_def versionFields_def summaryFields_def
      showVersionFields_def emptyMetadata_def split: option.split)

lemma finalized_identity: "systemIdentity (finalizeMetadata (gathered S)) = system_identity S"
  by (simp add: systemIdentity_def finalizeMetadata_def system_identity_def gathered_text gathered_parts chosen_def Let_def)

lemma finalized_software: "systemSoftware (finalizeMetadata (gathered S)) = system_software S"
  by (simp add: systemSoftware_def finalizeMetadata_def system_software_def gathered_software chosen_def Let_def)

lemma finalized_uptime: "md_uptimeSeconds (finalizeMetadata (gathered S)) = system_uptime S"
  by (simp add: finalizeMetadata_def system_uptime_def gathered_uptime Let_def split: option.split)

text \<open>Reading the sources.\<close>

lemma yields_sum: "yields I (io_try (io_sum r)) r"
  by (cases r) (simp_all add: io_sum_def io_try_def yields_def io_fail_def io_return_def)

lemma yields_try_bind: "yields I m x \<Longrightarrow> yields I (io_try (f x)) r \<Longrightarrow> yields I (io_try (io_bind m f)) r"
  by (fastforce simp: yields_def io_try_def io_bind_def)

lemma yields_source: "yields I (io_try m) r \<Longrightarrow> yields I (fromSource m fill md) (case r of Inl e \<Rightarrow> md | Inr x \<Rightarrow> fill x md)"
  unfolding fromSource_def by (rule yields_bind, assumption, rule yields_return)

lemma yields_hostCall:
  fixes f :: "'a \<Rightarrow> 'b \<times> 'a"
  assumes "\<And>s. \<exists>s'. f s = (x, s')"
  shows "yields (\<lambda>_. True) (hostCall f) x"
  unfolding yields_def
proof (intro allI impI)
  fix w :: "'a world"
  obtain s' where "f (server w) = (x, s')" using assms by blast
  then show "\<exists>w'. hostCall f w = (Ok x, w') \<and> True" by (simp add: hostCall_def)
qed

lemma yields_try_command:
  "yields I (io_try m) r \<Longrightarrow> yields I (io_try (io_bind m (\<lambda>x. io_sum (f x)))) (case r of Inl e \<Rightarrow> Inl e | Inr x \<Rightarrow> f x)"
  unfolding yields_def
proof (intro allI impI)
  fix w
  assume m: "\<forall>w. I w \<longrightarrow> (\<exists>w'. io_try m w = (Ok r, w') \<and> I w')" and "I w"
  then obtain w' where "io_try m w = (Ok r, w')" "I w'" by blast
  moreover obtain o' w1 where "m w = (o', w1)" by fastforce
  ultimately show "\<exists>w'. io_try (io_bind m (\<lambda>x. io_sum (f x))) w = (Ok (case r of Inl e \<Rightarrow> Inl e | Inr x \<Rightarrow> f x), w') \<and> I w'"
    by (cases o') (auto simp: io_try_def io_bind_def io_sum_def io_fail_def io_return_def split: sum.split)
qed

lemma yields_file: "hostStill host files cmds \<Longrightarrow> yields (\<lambda>_. True) (hostCall (openFile host p)) (files p)"
  by (rule yields_hostCall) (simp add: hostStill_def)

lemma yields_command: "hostStill host files cmds \<Longrightarrow> yields (\<lambda>_. True) (hostCall (runCommand host args)) (cmds args)"
  by (rule yields_hostCall) (simp add: hostStill_def)

lemma yields_keyValues: "hostStill host files cmds \<Longrightarrow> yields (\<lambda>_. True) (io_try (parseSimpleKeyValueFile host p)) (keyValues (files p))"
  unfolding parseSimpleKeyValueFile_def by (rule yields_try_bind [OF yields_file yields_sum])

lemma yields_singleLine: "hostStill host files cmds \<Longrightarrow> yields (\<lambda>_. True) (io_try (readSingleLineFile host p)) (singleLine (files p))"
  unfolding readSingleLineFile_def by (rule yields_try_bind [OF yields_file yields_sum])

lemma yields_runAllowed:
  "hostStill host files cmds \<Longrightarrow> joinWith '' '' args \<in> set allowedCommands \<Longrightarrow>
    yields (\<lambda>_. True) (io_try (runAllowedCommand host c args)) (commandOutput c args (cmds args))"
  by (simp add: runAllowedCommand_def yields_try_bind [OF yields_command yields_sum])

lemma yields_try_HgetAll:
  assumes "redisAnswers lib (Some cfg) ans" "RedisDbId name = Some dbId"
  shows "yields (handlesOk cfg) (io_try (HgetAllFromDb lib cfg name key)) (ans dbId key)"
  unfolding yields_def
proof (intro allI impI)
  fix w :: "'a world"
  assume "handlesOk cfg w"
  from with_client [OF this assms(2)] obtain w1
    where w1: "HgetAllFromDb lib cfg name key w = command (hGetAll lib (optionsFor cfg dbId) key) w1" "handlesOk cfg w1"
    unfolding HgetAllFromDb_def by blast
  have "\<forall>client key s. \<exists>s'. hGetAll lib client key s = (ans (opt_DB client) key, s')"
    using assms(1) by (simp add: redisAnswers_def)
  from this [rule_format, of "optionsFor cfg dbId" key "server w1"]
  obtain s' where "hGetAll lib (optionsFor cfg dbId) key (server w1) = (ans dbId key, s')"
    by auto
  with w1 show "\<exists>w'. io_try (HgetAllFromDb lib cfg name key) w = (Ok (ans dbId key), w') \<and> handlesOk cfg w'"
    by (cases "ans dbId key") (simp_all add: command_def io_try_def)
qed

lemma loadFromRedis_yields:
  assumes "redisAnswers lib cfg ans"
  shows "yields (\<lambda>_. True) (loadFromRedis lib md)
    (let redis = (\<lambda>n k. if cfg = None then [] else orEmpty (ans n k))
     in partFields (redis 6 ''CHASSIS_INFO|chassis 1'') (deviceFields (redis 4 ''DEVICE_METADATA|localhost'') md))"
proof (cases cfg)
  case None
  have "loadFromRedis lib md w = (Ok md, w)" for w
  proof -
    obtain e where "readEnv lib (server w) = Inl e"
      using assms None by (auto simp: redisAnswers_def)
    then show ?thesis
      by (simp add: loadFromRedis_def io_bind_def io_try_def NewClient_def io_return_def)
  qed
  then show ?thesis by (simp add: yields_def None fields_blank)
next
  case (Some cfg')
  note answers = assms [unfolded Some]
  note read = yields_source [OF yields_try_HgetAll [OF answers]]
  let ?dev = "orEmpty (ans 4 ''DEVICE_METADATA|localhost'')" and ?ch = "orEmpty (ans 6 ''CHASSIS_INFO|chassis 1'')"
  have "yields (handlesOk cfg')
      (io_bind (fromSource (HgetAllFromDb lib cfg' ''CONFIG_DB'' ''DEVICE_METADATA|localhost'') deviceFields md)
             (fromSource (HgetAllFromDb lib cfg' ''STATE_DB'' ''CHASSIS_INFO|chassis 1'') partFields))
      (partFields ?ch (deviceFields ?dev md))"
    by (rule yields_eq, rule yields_bind, rule read, simp add: RedisDbId_def, rule read, simp add: RedisDbId_def)
       (simp add: orEmpty_def fields_blank split: sum.split)
  then obtain w'' where inner: "\<And>w. handlesOk cfg' w \<Longrightarrow>
      (io_bind (fromSource (HgetAllFromDb lib cfg' ''CONFIG_DB'' ''DEVICE_METADATA|localhost'') deviceFields md)
             (fromSource (HgetAllFromDb lib cfg' ''STATE_DB'' ''CHASSIS_INFO|chassis 1'') partFields)) w =
      (Ok (partFields ?ch (deviceFields ?dev md)), w'' w)"
    unfolding yields_def by metis
  have new: "io_try (NewClient lib) w = (Ok (Inr cfg'), w\<lparr>databases := []\<rparr>)" for w
    using answers by (simp add: redisAnswers_def NewClient_def io_try_def)
  show ?thesis
    unfolding yields_def loadFromRedis_def
    by (simp add: io_bind_def [of "io_try (NewClient lib)"] new io_defer_def inner Some)
qed

lemma orEmpty_source:
  "fill [] md = md \<Longrightarrow> (case r of Inl e \<Rightarrow> md | Inr x \<Rightarrow> fill x md) = fill (orEmpty r) md"
  by (cases r) (simp_all add: orEmpty_def)

lemma loadMetadata_yields:
  assumes "redisAnswers lib cfg ans" "hostStill host files cmds"
  shows "yields (\<lambda>_. True) (loadMetadata host lib c) (gathered (systemSourcesOf c (hugeInt64 host) cfg ans files cmds))"
proof -
  let ?S = "systemSourcesOf c (hugeInt64 host) cfg ans files cmds" and ?I = "\<lambda>_. True"
  have redis: "yields ?I (loadFromRedis lib md) (partFields (src_chassis ?S) (deviceFields (src_device ?S) md))" for md
    using loadFromRedis_yields [OF assms(1), of md] by (simp add: systemSourcesOf_def Let_def)
  have version: "yields ?I (loadFromVersionFile host c md) (versionFields (src_version ?S) md)" for md
    unfolding loadFromVersionFile_def
    by (rule yields_eq [OF yields_source [OF yields_keyValues [OF assms(2)]]])
       (simp add: orEmpty_source fields_blank systemSourcesOf_def Let_def)
  have machine: "yields ?I (loadFromMachineConf host c md)
      (md\<lparr>md_platform := setIfEmpty (md_platform md) (field (src_machine ?S) ''onie_platform'')\<rparr>)" for md
    unfolding loadFromMachineConf_def
    by (rule yields_eq [OF yields_source [OF yields_keyValues [OF assms(2)]]])
       (simp add: orEmpty_def systemSourcesOf_def Let_def split: sum.split)
  have hostname: "yields ?I (loadFromHostnameFile host c md)
      (md\<lparr>md_hostname := setIfEmpty (md_hostname md) (src_hostname ?S)\<rparr>)" for md
    unfolding loadFromHostnameFile_def
    by (rule yields_eq [OF yields_source [OF yields_singleLine [OF assms(2)]]])
       (simp add: orEmpty_def systemSourcesOf_def Let_def split: sum.split)
  have blank: "ParseFloat [] = None"
    by code_simp
  have uptime: "yields ?I (loadFromUptimeFile host c md)
      (case ParseFloat (firstField (src_uptime ?S)) of None \<Rightarrow> md | Some uptime \<Rightarrow> md\<lparr>md_uptimeSeconds := uptime\<rparr>)" for md
    unfolding loadFromUptimeFile_def
    by (rule yields_eq [OF yields_source [OF yields_singleLine [OF assms(2)]]])
       (auto simp: orEmpty_def systemSourcesOf_def Let_def blank split: sum.split)
  have run: "yields ?I (io_try (runAllowedCommand host c args)) (commandOutput c args (cmds args))"
    if "joinWith '' '' args \<in> set allowedCommands" for args
    using yields_runAllowed [OF assms(2) that] .
  have summary: "yields ?I (loadFromShowPlatformSummary host c md) (summaryFields (src_summary ?S) md)"
    if "system_commandEnabled (system_config c)" for md
    unfolding loadFromShowPlatformSummary_def
    by (rule yields_eq [OF yields_source [OF yields_try_command [OF run]]])
       (simp_all add: allowedCommands_def that orEmpty_source fields_blank systemSourcesOf_def Let_def)
  have shown: "yields ?I (loadFromShowVersion host c md) (showVersionFields (src_show ?S) md)"
    if "system_commandEnabled (system_config c)" for md
    unfolding loadFromShowVersion_def
    by (rule yields_eq [OF yields_source [OF run]])
       (simp_all add: allowedCommands_def that orEmpty_def fields_blank systemSourcesOf_def Let_def split: sum.split)
  have eeprom: "yields ?I (loadFromShowPlatformSysEEPROM host c md) (partFields (src_eeprom ?S) md)"
    if "system_commandEnabled (system_config c)" for md
    unfolding loadFromShowPlatformSysEEPROM_def
    by (rule yields_eq [OF yields_source [OF run]])
       (simp_all add: allowedCommands_def that orEmpty_def fields_blank systemSourcesOf_def Let_def split: sum.split)
  have needed: "yields ?I (if md_serial md = [] \<or> md_model md = [] \<or> md_revision md = []
        then loadFromShowPlatformSysEEPROM host c md else io_return md) (partFields (src_eeprom ?S) md)"
    if "system_commandEnabled (system_config c)" for md
    using eeprom [OF that, of md] yields_return [of "\<lambda>_ :: 'a world. True" md] by (auto simp: partFields_full)
  have commands: "yields ?I (if system_commandEnabled (system_config c)
     then io_bind (loadFromShowPlatformSummary host c md) (\<lambda>md.
          io_bind (loadFromShowVersion host c md) (\<lambda>md.
          if md_serial md = [] \<or> md_model md = [] \<or> md_revision md = []
          then loadFromShowPlatformSysEEPROM host c md else io_return md))
     else io_return md) (partFields (src_eeprom ?S) (showVersionFields (src_show ?S) (summaryFields (src_summary ?S) md)))" for md
  proof (rule yields_if)
    assume on: "system_commandEnabled (system_config c)"
    show "yields ?I (io_bind (loadFromShowPlatformSummary host c md) (\<lambda>md.
          io_bind (loadFromShowVersion host c md) (\<lambda>md.
          if md_serial md = [] \<or> md_model md = [] \<or> md_revision md = []
          then loadFromShowPlatformSysEEPROM host c md else io_return md)))
        (partFields (src_eeprom ?S) (showVersionFields (src_show ?S) (summaryFields (src_summary ?S) md)))"
      by (rule yields_bind [OF summary [OF on]], rule yields_bind [OF shown [OF on]], rule needed [OF on])
  next
    assume "\<not> system_commandEnabled (system_config c)"
    then show "yields ?I (io_return md) (partFields (src_eeprom ?S) (showVersionFields (src_show ?S) (summaryFields (src_summary ?S) md)))"
      by (simp add: systemSourcesOf_def Let_def fields_blank yields_return)
  qed
  show ?thesis
    unfolding loadMetadata_def gathered_def Let_def
    by (rule yields_bind [OF redis], rule yields_bind [OF version], rule yields_bind [OF machine],
        rule yields_bind [OF hostname], rule yields_bind [OF uptime], rule commands)
qed

lemma system_scrape_spec:
  assumes "redisAnswers lib cfg ans" "hostStill host files cmds"
  shows "fst (system_scrapeMetrics anyLabel host lib c w) =
    Ok (system_spec c (systemSourcesOf c (hugeInt64 host) cfg ans files cmds))"
proof -
  have lengths: "length (systemIdentity md) = 8" "length (systemSoftware md) = 9" for md
    by (simp_all add: systemIdentity_def systemSoftware_def)
  have "yields (\<lambda>_. True) (system_scrapeMetrics anyLabel host lib c)
      (system_spec c (systemSourcesOf c (hugeInt64 host) cfg ans files cmds))"
    unfolding system_scrapeMetrics_def Let_def
    by (rule yields_bind [OF loadMetadata_yields [OF assms]], rule yields_eq, (rule yields_bind_emit, simp add: lengths)+,
        rule yields_emit, rule yields_MustNew, simp, simp)
       (simp add: system_spec_def system_metrics_def finalized_identity finalized_software finalized_uptime Let_def)
  then show ?thesis by (rule yieldsD) simp
qed

lemma system_metrics_series: "distinct (map series (system_metrics c identity software uptime))"
  by (simp add: system_metrics_def Let_def)

subsection \<open>A refresh never fails\<close>

text \<open>A computation that may fail but neither panics nor hangs returns once its error is a value.\<close>

definition failsOrReturns :: "('w \<Rightarrow> bool) \<Rightarrow> ('w, 'a) io \<Rightarrow> bool" where
  "failsOrReturns I m = returns I (io_try m)"

lemma failsOrReturnsI:
  assumes "\<And>w. I w \<Longrightarrow> \<exists>r w'. m w = (r, w') \<and> I w' \<and> (\<exists>x. r = Ok x \<or> (\<exists>e. r = Fail e))"
  shows "failsOrReturns I m"
  unfolding failsOrReturns_def returns_def using assms by (fastforce simp: io_try_def)

lemma returns_source: "failsOrReturns I m \<Longrightarrow> returns I (fromSource m fill md)"
  unfolding fromSource_def failsOrReturns_def by (intro returns_rules)

lemma hostCall_sum:
  fixes f :: "'a \<Rightarrow> 'b \<times> 'a"
  shows "failsOrReturns (\<lambda>_. True) (io_bind (hostCall f) (\<lambda>x. io_sum (g x)))"
proof (rule failsOrReturnsI)
  fix w :: "'a world"
  obtain x s' where "f (server w) = (x, s')" by fastforce
  then show "\<exists>r w'. io_bind (hostCall f) (\<lambda>x. io_sum (g x)) w = (r, w') \<and> True \<and> (\<exists>x. r = Ok x \<or> (\<exists>e. r = Fail e))"
    by (cases "g x") (simp_all add: io_bind_def hostCall_def io_sum_def io_fail_def io_return_def)
qed

lemma bind_sum: "failsOrReturns I m \<Longrightarrow> failsOrReturns I (io_bind m (\<lambda>x. io_sum (g x)))"
proof (rule failsOrReturnsI)
  fix w
  assume "failsOrReturns I m" "I w"
  then obtain x w' where tried: "io_try m w = (Ok x, w')" "I w'"
    unfolding failsOrReturns_def returns_def by blast
  obtain r w1 where m: "m w = (r, w1)" by fastforce
  show "\<exists>r w'. io_bind m (\<lambda>x. io_sum (g x)) w = (r, w') \<and> I w' \<and> (\<exists>x. r = Ok x \<or> (\<exists>e. r = Fail e))"
  proof (cases r)
    case (Ok y)
    then show ?thesis using tried m
      by (cases "g y") (simp_all add: io_bind_def io_try_def io_sum_def io_fail_def io_return_def)
  qed (use tried m in \<open>simp_all add: io_bind_def io_try_def\<close>)
qed

lemma runAllowed_returns: "failsOrReturns (\<lambda>_. True) (runAllowedCommand host c args)"
proof (cases "joinWith '' '' args \<in> set allowedCommands")
  case True
  then show ?thesis by (simp add: runAllowedCommand_def hostCall_sum)
next
  case False
  then show ?thesis
    by (intro failsOrReturnsI) (simp add: runAllowedCommand_def io_fail_def)
qed

lemma HgetAll_returns:
  assumes "RedisDbId name = Some dbId"
  shows "failsOrReturns (handlesOk cfg) (HgetAllFromDb lib cfg name key)"
proof (rule failsOrReturnsI)
  fix w :: "'a world"
  assume "handlesOk cfg w"
  from with_client [OF this assms] obtain w1
    where w1: "HgetAllFromDb lib cfg name key w = command (hGetAll lib (optionsFor cfg dbId) key) w1" "handlesOk cfg w1"
    unfolding HgetAllFromDb_def by blast
  obtain r s' where "hGetAll lib (optionsFor cfg dbId) key (server w1) = (r, s')" by fastforce
  with w1 show "\<exists>r w'. HgetAllFromDb lib cfg name key w = (r, w') \<and> handlesOk cfg w' \<and> (\<exists>x. r = Ok x \<or> (\<exists>e. r = Fail e))"
    by (cases r) (simp_all add: command_def)
qed

lemma loadFromRedis_returns: "returns (\<lambda>_. True) (loadFromRedis lib md)"
  unfolding returns_def
proof (intro allI impI)
  fix w :: "'a world"
  show "\<exists>x w'. loadFromRedis lib md w = (Ok x, w') \<and> True"
  proof (cases "readEnv lib (server w)")
    case (Inl e)
    then show ?thesis by (simp add: loadFromRedis_def io_bind_def io_try_def NewClient_def io_return_def)
  next
    case (Inr cfg)
    have "returns (handlesOk cfg)
      (io_bind (fromSource (HgetAllFromDb lib cfg ''CONFIG_DB'' ''DEVICE_METADATA|localhost'') deviceFields md)
             (fromSource (HgetAllFromDb lib cfg ''STATE_DB'' ''CHASSIS_INFO|chassis 1'') partFields))"
      by (intro returns_rules returns_source HgetAll_returns) (simp_all add: RedisDbId_def)
    moreover have "handlesOk cfg (w\<lparr>databases := []\<rparr>)" by simp
    ultimately obtain x w' where "io_bind (fromSource (HgetAllFromDb lib cfg ''CONFIG_DB'' ''DEVICE_METADATA|localhost'') deviceFields md)
             (fromSource (HgetAllFromDb lib cfg ''STATE_DB'' ''CHASSIS_INFO|chassis 1'') partFields) (w\<lparr>databases := []\<rparr>) = (Ok x, w')" by (rule returnsE)
    moreover have "io_try (NewClient lib) w = (Ok (Inr cfg), w\<lparr>databases := []\<rparr>)"
      by (simp add: io_try_def NewClient_def Inr)
    ultimately show ?thesis
      by (simp add: loadFromRedis_def io_bind_def [of "io_try (NewClient lib)"] io_defer_def)
  qed
qed

lemma loadMetadata_returns: "returns (\<lambda>_. True) (loadMetadata host lib c)"
  unfolding loadMetadata_def loadFromVersionFile_def loadFromMachineConf_def loadFromHostnameFile_def loadFromUptimeFile_def
    loadFromShowPlatformSummary_def loadFromShowVersion_def loadFromShowPlatformSysEEPROM_def
    parseSimpleKeyValueFile_def readSingleLineFile_def
  by (intro returns_rules loadFromRedis_returns returns_source hostCall_sum runAllowed_returns bind_sum)

text \<open>The labels after the last step are never empty, and the number of ASICs is a number or unknown.\<close>

lemma finalizeField_nonempty: "finalizeField v \<noteq> []"
  by (simp add: finalizeField_def unknownSystemValue_def Let_def)

definition labelsComplete :: "string list \<Rightarrow> string list \<Rightarrow> f64 \<Rightarrow> bool" where
  "labelsComplete identity software uptime =
     (length identity = 8 \<and> length software = 9 \<and> [] \<notin> set identity \<and> [] \<notin> set software \<and>
      (identity ! 4 = unknownSystemValue \<or> Atoi (identity ! 4) \<noteq> None) \<and> \<not> f64_negative uptime)"

lemma toLower_nonempty: "toLower s = [] \<longleftrightarrow> s = []"
  by (simp add: toLower_def)

lemma finalizeMetadata_complete:
  "labelsComplete (systemIdentity (finalizeMetadata md)) (systemSoftware (finalizeMetadata md))
     (md_uptimeSeconds (finalizeMetadata md))"
  using finalizeField_nonempty
  by (auto simp: labelsComplete_def systemIdentity_def systemSoftware_def finalizeMetadata_def Let_def toLower_nonempty
      unknownSystemValue_def eq_commute [of "[]"])

text \<open>The three metrics with any library: it panics at the first label the library does not take.\<close>

definition taken :: "(string \<Rightarrow> bool) \<Rightarrow> metric list \<Rightarrow> bool" where
  "taken labelOk ms = list_all (\<lambda>m. list_all labelOk (m_labels m)) ms"

lemma system_emits:
  assumes "length (d_labels systemIdentityInfo) = length identity" "length (d_labels systemSoftwareInfo) = length software"
    "d_labels systemUptimeSeconds = []"
  shows "fst ((let on = Enabled (system_filter c); gauge = (\<lambda>d labels value. MustNewConstMetric labelOk d GaugeValue value labels) in
     io_bind (emit (on ''sonic_system_identity_info'') (gauge systemIdentityInfo identity f64_1) []) (\<lambda>metrics.
     io_bind (emit (on ''sonic_system_software_info'') (gauge systemSoftwareInfo software f64_1) metrics) (\<lambda>metrics.
     emit (on ''sonic_system_uptime_seconds'') (gauge systemUptimeSeconds [] uptime) metrics))) w) =
    (let ms = system_metrics c identity software uptime in if taken labelOk ms then Ok ms else Panic ''MustNewConstMetric'')"
  using assms
  by (simp add: Let_def emit_def MustNewConstMetric_def io_bind_def io_return_def system_metrics_def taken_def constMetric_def)

lemma system_scrape_outcome:
  "\<exists>identity software uptime.
     fst (system_scrapeMetrics labelOk host lib c w) =
       (let ms = system_metrics c identity software uptime in if taken labelOk ms then Ok ms else Panic ''MustNewConstMetric'') \<and>
     labelsComplete identity software uptime"
proof -
  obtain md w' where md: "loadMetadata host lib c w = (Ok md, w')"
    by (rule returnsE [OF loadMetadata_returns TrueI])
  let ?md = "finalizeMetadata md"
  have "length (systemIdentity ?md) = 8" "length (systemSoftware ?md) = 9"
    by (simp_all add: systemIdentity_def systemSoftware_def)
  with system_emits [of "systemIdentity ?md" "systemSoftware ?md" c labelOk "md_uptimeSeconds ?md" w']
  have "fst (system_scrapeMetrics labelOk host lib c w) =
      (let ms = system_metrics c (systemIdentity ?md) (systemSoftware ?md) (md_uptimeSeconds ?md)
       in if taken labelOk ms then Ok ms else Panic ''MustNewConstMetric'')"
    by (simp only: system_scrapeMetrics_def io_bind_def [of "loadMetadata host lib c"] md prod.case outcome.case Let_def) simp
  then show ?thesis using finalizeMetadata_complete by blast
qed

lemma system_scrape_complete:
  "\<exists>identity software uptime.
     fst (system_scrapeMetrics anyLabel host lib c w) = Ok (system_metrics c identity software uptime) \<and>
     labelsComplete identity software uptime"
  using system_scrape_outcome [of anyLabel host lib c w] by (simp add: taken_def list.pred_True)

subsection \<open>Properties\<close>

text \<open>
  C34. Whatever Redis, the files and the commands answer, fail to answer or write, a refresh neither fails nor hangs: it returns
  the identity, the software and the uptime, as far as enabled, with every label filled in, the number of ASICs a number
  or unknown, and no negative uptime. Only when the client library does not take one of these labels it panics.
\<close>

theorem system_refresh_never_fails:
  "\<exists>identity software uptime.
     fst (system_scrapeMetrics labelOk host lib c w) =
       (let ms = system_metrics c identity software uptime in if taken labelOk ms then Ok ms else Panic ''MustNewConstMetric'') \<and>
     labelsComplete identity software uptime"
  by (rule system_scrape_outcome)

text \<open>
  C35. On a machine that holds still, each label of a refresh is the first value its sources give in the order Redis,
  version file, \<^verbatim>\<open>machine.conf\<close> or host name file, platform summary, \<^verbatim>\<open>show version\<close>, EEPROM, where blank and
  missing-value words do not count and a source that cannot be read has no values; leaving out the EEPROM when its
  three values are known changes nothing.
\<close>

theorem system_refresh_refines_spec:
  assumes "redisAnswers lib cfg ans" "hostStill host files cmds"
  shows "fst (system_scrapeMetrics anyLabel host lib c w) =
    Ok (system_spec c (systemSourcesOf c (hugeInt64 host) cfg ans files cmds))"
  by (rule system_scrape_spec [OF assms])

text \<open>A machine without Redis, with a version file and one command that works.\<close>

definition system_demoFiles :: "string \<Rightarrow> fileRead" where
  "system_demoFiles path =
     (if path = ''/etc/sonic/sonic_version.yml''
      then Opened (''build_version: '' @ quotes @ ''202305.1'' @ quotes @ [CHR 0x0A] @ ''asic_type: Broadcom'') None None
      else if path = ''/proc/uptime'' then Opened ''12.5 3.0'' None None
      else OpenFails (Errorf ''open: no such file or directory'' []))"

definition system_demoCmds :: "string list \<Rightarrow> cmdRun" where
  "system_demoCmds args =
     (if args = [''show'', ''version''] then \<lparr>cmd_writes = [''HwSKU: 7060'', ''CX-32S''], cmd_error = None, cmd_deadline = False\<rparr>
      else \<lparr>cmd_writes = [], cmd_error = Some (Errorf ''exit status 1'' []), cmd_deadline = False\<rparr>)"

definition system_demoHost :: "unit host" where
  "system_demoHost =
     \<lparr>openFile = (\<lambda>p s. (system_demoFiles p, s)), runCommand = (\<lambda>args s. (system_demoCmds args, s)), hugeInt64 = (\<lambda>_. 0)\<rparr>"

definition noRedis :: "unit redisLib" where
  "noRedis = (staticLib localRedis (\<lambda>_ _. []) (\<lambda>_ _. []))\<lparr>readEnv := (\<lambda>s. Inl (Errorf ''bad environment'' []))\<rparr>"

definition system_demo :: systemCollector where
  "system_demo = system_new (\<lambda>_. None) (NewMetricFilter (\<lambda>_. None))"

theorem system_refresh_refines_spec_witness:
  "\<exists>S. fst (system_scrapeMetrics anyLabel system_demoHost noRedis system_demo \<lparr>server = (), databases = []\<rparr>) =
      Ok (system_spec system_demo S) \<and>
    system_identity S = [''unknown'', ''unknown'', ''7060CX-32S'', ''broadcom'', ''unknown'', ''unknown'', ''unknown'', ''unknown'']"
proof -
  have "redisAnswers noRedis None (\<lambda>_ _. Inr [])"
    by (simp add: redisAnswers_def noRedis_def)
  moreover have "hostStill system_demoHost system_demoFiles system_demoCmds"
    by (simp add: hostStill_def system_demoHost_def)
  moreover have "system_identity (systemSourcesOf system_demo (hugeInt64 system_demoHost) None (\<lambda>_ _. Inr []) system_demoFiles system_demoCmds) =
      [''unknown'', ''unknown'', ''7060CX-32S'', ''broadcom'', ''unknown'', ''unknown'', ''unknown'', ''unknown'']"
  proof -
    have paths: "system_commandEnabled (system_config system_demo)"
      "system_versionFilePath (system_config system_demo) = ''/etc/sonic/sonic_version.yml''"
      "system_machineConfFilePath (system_config system_demo) = ''/host/machine.conf''"
      "system_hostnameFilePath (system_config system_demo) = ''/etc/hostname''"
      "system_uptimeFilePath (system_config system_demo) = ''/proc/uptime''"
      by code_simp+
    have version: "keyValues (system_demoFiles ''/etc/sonic/sonic_version.yml'') =
        Inr [(''build_version'', ''202305.1''), (''asic_type'', ''Broadcom'')]"
      and machine: "orEmpty (keyValues (system_demoFiles ''/host/machine.conf'')) = []"
      and hostname: "orEmpty (singleLine (system_demoFiles ''/etc/hostname'')) = []"
      and shown: "commandOutput system_demo [''show'', ''version''] (system_demoCmds [''show'', ''version'']) = Inr ''HwSKU: 7060CX-32S''"
      and parsed: "parseShowVersionOutput ''HwSKU: 7060CX-32S'' = [(''hwsku'', ''7060CX-32S'')]"
      by code_simp+
    have failed: "\<exists>e. commandOutput system_demo args (system_demoCmds args) = Inl e" if "args \<noteq> [''show'', ''version'']" for args
      using that by (simp add: commandOutput_def system_demoCmds_def)
    obtain e1 where e1: "commandOutput system_demo [''show'', ''platform'', ''summary'', ''--json'']
        (system_demoCmds [''show'', ''platform'', ''summary'', ''--json'']) = Inl e1"
      using failed [of "[''show'', ''platform'', ''summary'', ''--json'']"] by auto
    obtain e2 where e2: "commandOutput system_demo [''show'', ''platform'', ''syseeprom'']
        (system_demoCmds [''show'', ''platform'', ''syseeprom'']) = Inl e2"
      using failed [of "[''show'', ''platform'', ''syseeprom'']"] by auto
    have picks: "chosen [[], []] = ''unknown''" "chosen [[], [], [], []] = ''unknown''" "chosen [[], [], ''7060CX-32S''] = ''7060CX-32S''"
      "toLower (chosen [''Broadcom'', [], []]) = ''broadcom''" "chosen [[], [], []] = ''unknown''" "Atoi ''unknown'' = None"
      by code_simp+
    show ?thesis
      by (simp add: systemSourcesOf_def Let_def system_identity_def paths version machine hostname shown parsed e1 e2
          orEmpty_def [of "Inl _"] orEmpty_def [of "Inr _"] picks unknownSystemValue_def)
  qed
  ultimately show ?thesis
    using system_refresh_refines_spec [of noRedis None "\<lambda>_ _. Inr []" system_demoHost system_demoFiles system_demoCmds] by blast
qed

lemma limitedWrites_append:
  assumes "0 < lb_maxBytes b" "int (length (lb_buf b)) \<le> lb_maxBytes b"
  shows "lb_buf (limitedWrites b ps) = take (nat (lb_maxBytes b)) (lb_buf b @ concat ps) \<and>
    ([] \<notin> set ps \<longrightarrow> lb_truncated (limitedWrites b ps) =
      (lb_truncated b \<or> lb_maxBytes b < int (length (lb_buf b @ concat ps))))"
  using assms
proof (induction ps arbitrary: b)
  case Nil
  then show ?case by (simp add: limitedWrites_def)
next
  case (Cons p ps)
  let ?b = "fst (limitedWrite b p)"
  have cut: "int (length (lb_buf ?b)) \<le> lb_maxBytes b" "lb_maxBytes ?b = lb_maxBytes b"
    "lb_buf ?b = take (nat (lb_maxBytes b)) (lb_buf b @ p)"
    and flag: "p \<noteq> [] \<Longrightarrow> lb_truncated ?b = (lb_truncated b \<or> lb_maxBytes b < int (length (lb_buf b @ p)))"
    using Cons.prems by (auto simp: limitedWrite_def Let_def nat_diff_distrib)
  have step: "limitedWrites b (p # ps) = limitedWrites ?b ps"
    by (simp add: limitedWrites_def)
  have "take (nat (lb_maxBytes b)) (lb_buf ?b @ concat ps) = take (nat (lb_maxBytes b)) (lb_buf b @ p @ concat ps)"
    using Cons.prems by (auto simp: cut take_append min_def)
  moreover have "(lb_truncated ?b \<or> lb_maxBytes b < int (length (lb_buf ?b @ concat ps))) =
      (lb_truncated b \<or> lb_maxBytes b < int (length (lb_buf b @ p @ concat ps)))" if "p \<noteq> []" "[] \<notin> set ps"
    using Cons.prems flag [OF that(1)] by (auto simp: cut)
  ultimately show ?case
    using Cons.IH [of ?b] Cons.prems cut(1,2) by (auto simp: step)
qed

text \<open>
  C36. Of everything a command writes, in whatever pieces, exactly the first \<^verbatim>\<open>commandMaxOutputBytes\<close> bytes are
  kept, which is a positive number for every environment; every \<^verbatim>\<open>Write\<close> reports all its bytes as
  written, so that the command is not stopped; and the flag is set exactly when something was cut off.
\<close>

theorem command_output_is_bounded_prefix:
  assumes "maxBytes = system_commandMaxOutputBytes (loadSystemCollectorConfig env)"
  shows "lb_buf (limitedWrites (newOutput maxBytes) ps) = take (nat maxBytes) (concat ps) \<and> 0 < maxBytes \<and>
    snd (limitedWrite b p) = int (length p) \<and>
    ([] \<notin> set ps \<longrightarrow> lb_truncated (limitedWrites (newOutput maxBytes) ps) = (maxBytes < int (length (concat ps))))"
proof -
  have "0 < maxBytes"
    unfolding assms loadSystemCollectorConfig_def by (simp add: parseIntEnv_pos)
  moreover have "snd (limitedWrite b p) = int (length p)"
    by (simp add: limitedWrite_def Let_def)
  ultimately show ?thesis
    using limitedWrites_append [of "newOutput maxBytes" ps] by (simp add: newOutput_def)
qed

theorem command_output_is_bounded_prefix_witness:
  "lb_buf (limitedWrites (newOutput 4) [''abc'', ''def'']) = ''abcd'' \<and> lb_truncated (limitedWrites (newOutput 4) [''abc'', ''def''])"
proof -
  have "4 = system_commandMaxOutputBytes (loadSystemCollectorConfig
      (\<lambda>k. if k = ''SYSTEM_COMMAND_MAX_OUTPUT_BYTES'' then Some ''4'' else None))"
    by code_simp
  from command_output_is_bounded_prefix [OF this, of "[''abc'', ''def'']"] show ?thesis by simp
qed

text \<open>A command that is not on the list does not run.\<close>

lemma runAllowedCommand_refuses:
  "joinWith '' '' args \<notin> set allowedCommands \<Longrightarrow>
    runAllowedCommand host c args w = (Fail (Errorf ''command not allowed: %s'' [joinWith '' '' args]), w)"
  by (simp add: runAllowedCommand_def io_fail_def)

text \<open>
  White space around quotes is not normalised away at once: such a word for a missing value is taken as a value,
  keeps the later sources out and ends as unknown all the same.
\<close>

lemma quoted_missing_value_hides_sources:
  "finalizeField (setIfEmpty (setIfEmpty [] ('' '' @ quotes @ ''N/A'' @ rev quotes)) ''Arista'') = unknownSystemValue"
  by code_simp

text \<open>A line with a colon is cut at an equals sign in its value.\<close>

lemma colon_line_with_equals:
  "keyValueLine ''built_by: ci@host?job=7'' [] = [(''built_by: ci@host?job'', ''7'')]"
  by code_simp

end
