(* ===== verification/GoLayout.thy ===== *)
theory GoLayout
  imports GoTime
begin

text \<open>
  \<^verbatim>\<open>time.Parse(layout, value)\<close> of the Go library for layouts made of a date, a time of day, a
  fraction of a second and a zone. A layout is given as the chunks \<^verbatim>\<open>nextStdChunk\<close> cuts it into;
  the parser works through them as the library does. The result is a \<^verbatim>\<open>time.Time\<close>, so
  nanoseconds since the first of January of the year 1 in UTC.
\<close>

datatype chunk =
  Lit string | StdLongYear | StdZeroMonth | StdZeroDay | StdHour | StdZeroMinute | StdZeroSecond
  | StdFracSecond9 | StdISO8601ColonTZ

record timeFields =
  tf_year :: int
  tf_month :: int
  tf_day :: int
  tf_hour :: int
  tf_min :: int
  tf_sec :: int
  tf_nsec :: int
  tf_offset :: int

text \<open>\<^verbatim>\<open>skip\<close>: a space of the layout stands for any run of spaces, also none at the end.\<close>

function skipPrefix :: "string \<Rightarrow> string \<Rightarrow> string option" where
  "skipPrefix [] v = Some v"
| "skipPrefix (c # p) v =
     (if c = CHR '' '' then (if v \<noteq> [] \<and> hd v \<noteq> CHR '' '' then None else skipPrefix (cutspace p) (cutspace v))
      else (if v = [] \<or> hd v \<noteq> c then None else skipPrefix p (tl v)))"
  by pat_completeness auto

termination
  by (relation "measure (\<lambda>(p, v). length p)")
     (auto simp: cutspace_def intro: le_imp_less_Suc length_dropWhile_le)

text \<open>\<^verbatim>\<open>parseNanoseconds\<close>: the first nine digits count.\<close>

definition nanoseconds :: "string \<Rightarrow> int" where
  "nanoseconds ds = decimal (take 9 ds) * 10 ^ (9 - length (take 9 ds))"

text \<open>A fraction at the front of the text, with its dot or comma.\<close>

definition readFraction :: "string \<Rightarrow> timeFields \<Rightarrow> timeFields \<times> string" where
  "readFraction s f =
     (if 2 \<le> length s \<and> hd s \<in> {CHR ''.'', CHR '',''} \<and> isDigit (s ! 1)
      then (f\<lparr>tf_nsec := nanoseconds (takeWhile isDigit (tl s))\<rparr>, dropWhile isDigit (tl s)) else (f, s))"

text \<open>\<^verbatim>\<open>Z07:00\<close>: the letter Z, or a sign, two digits, a colon and two digits.\<close>

definition readZone :: "string \<Rightarrow> timeFields \<Rightarrow> (timeFields \<times> string) option" where
  "readZone s f =
     (if s \<noteq> [] \<and> hd s = CHR ''Z'' then Some (f\<lparr>tf_offset := 0\<rparr>, tl s)
      else if length s < 6 \<or> s ! 3 \<noteq> CHR '':'' then None
      else obind (getnum True (take 2 (drop 1 s))) (\<lambda>(hr, _).
           obind (getnum True (take 2 (drop 4 s))) (\<lambda>(mm, _).
           if 24 < hr \<or> 60 < mm then None
           else let offset = (hr * 60 + mm) * 60 in
             if hd s = CHR ''+'' then Some (f\<lparr>tf_offset := offset\<rparr>, drop 6 s)
             else if hd s = CHR ''-'' then Some (f\<lparr>tf_offset := - offset\<rparr>, drop 6 s)
             else None)))"

fun parseChunk :: "chunk \<Rightarrow> chunk list \<Rightarrow> string \<Rightarrow> timeFields \<Rightarrow> (timeFields \<times> string) option" where
  "parseChunk (Lit p) rest s f = map_option (\<lambda>s. (f, s)) (skipPrefix p s)"
| "parseChunk StdLongYear rest s f = map_option (\<lambda>(n, s). (f\<lparr>tf_year := n\<rparr>, s)) (longYear s)"
| "parseChunk StdZeroMonth rest s f =
     obind (getnum True s) (\<lambda>(n, s). if n \<le> 0 \<or> 12 < n then None else Some (f\<lparr>tf_month := n\<rparr>, s))"
| "parseChunk StdZeroDay rest s f = map_option (\<lambda>(n, s). (f\<lparr>tf_day := n\<rparr>, s)) (getnum True s)"
| "parseChunk StdHour rest s f =
     obind (getnum False s) (\<lambda>(n, s). if 24 \<le> n then None else Some (f\<lparr>tf_hour := n\<rparr>, s))"
| "parseChunk StdZeroMinute rest s f =
     obind (getnum True s) (\<lambda>(n, s). if 60 \<le> n then None else Some (f\<lparr>tf_min := n\<rparr>, s))"
| "parseChunk StdZeroSecond rest s f =
     obind (getnum True s) (\<lambda>(n, s).
       if 60 \<le> n then None
       else if rest \<noteq> [] \<and> hd rest = StdFracSecond9 then Some (f\<lparr>tf_sec := n\<rparr>, s)
       else Some (readFraction s (f\<lparr>tf_sec := n\<rparr>)))"
| "parseChunk StdFracSecond9 rest s f = Some (readFraction s f)"
| "parseChunk StdISO8601ColonTZ rest s f = readZone s f"

primrec parseChunks :: "chunk list \<Rightarrow> string \<Rightarrow> timeFields \<Rightarrow> timeFields option" where
  "parseChunks [] s f = (if s = [] then Some f else None)"
| "parseChunks (c # cs) s f = obind (parseChunk c cs s f) (\<lambda>(f, s). parseChunks cs s f)"

definition unixToInternal :: int where "unixToInternal = 62135596800"

definition dateOf :: "timeFields \<Rightarrow> gotime" where
  "dateOf f =
     (unixSeconds (tf_year f) (nat (tf_month f)) (tf_day f) (tf_hour f) (tf_min f) (tf_sec f) - tf_offset f
        + unixToInternal) * second + tf_nsec f"

definition timeParse :: "chunk list \<Rightarrow> string \<Rightarrow> gotime option" where
  "timeParse layout s =
     obind (parseChunks layout s
              \<lparr>tf_year = 0, tf_month = 1, tf_day = 1, tf_hour = 0, tf_min = 0, tf_sec = 0, tf_nsec = 0, tf_offset = 0\<rparr>) (\<lambda>f.
       if tf_day f < 1 \<or> daysIn (nat (tf_month f)) (tf_year f) < tf_day f then None else Some (dateOf f))"

text \<open>\<^verbatim>\<open>t.Unix()\<close>\<close>

definition timeUnix :: "gotime \<Rightarrow> int" where
  "timeUnix t = t div second - unixToInternal"

subsection \<open>The layouts of a time stamp\<close>

definition dateChunks :: "string \<Rightarrow> chunk list" where
  "dateChunks sep =
     [StdLongYear, Lit ''-'', StdZeroMonth, Lit ''-'', StdZeroDay, Lit sep,
      StdHour, Lit '':'', StdZeroMinute, Lit '':'', StdZeroSecond]"

text \<open>The text of a date and a time of day, and of a zone.\<close>

definition stampText :: "char \<Rightarrow> nat \<Rightarrow> nat \<Rightarrow> nat \<Rightarrow> nat \<Rightarrow> nat \<Rightarrow> nat \<Rightarrow> string" where
  "stampText sep year month day hh mm ss =
     twoDigits (year div 100) @ twoDigits (year mod 100) @ ''-'' @ twoDigits month @ ''-'' @ twoDigits day @ [sep] @
     twoDigits hh @ '':'' @ twoDigits mm @ '':'' @ twoDigits ss"

definition fractionText :: "string \<Rightarrow> string" where
  "fractionText ds = (if ds = [] then [] else CHR ''.'' # ds)"

datatype zone = UTC | East nat nat | West nat nat

fun zoneText :: "zone \<Rightarrow> string" where
  "zoneText UTC = ''Z''"
| "zoneText (East hh mm) = ''+'' @ twoDigits hh @ '':'' @ twoDigits mm"
| "zoneText (West hh mm) = ''-'' @ twoDigits hh @ '':'' @ twoDigits mm"

fun zoneSeconds :: "zone \<Rightarrow> int" where
  "zoneSeconds UTC = 0"
| "zoneSeconds (East hh mm) = (int hh * 60 + int mm) * 60"
| "zoneSeconds (West hh mm) = - ((int hh * 60 + int mm) * 60)"

fun zoneValid :: "zone \<Rightarrow> bool" where
  "zoneValid UTC = True"
| "zoneValid (East hh mm) = (hh \<le> 24 \<and> mm \<le> 60)"
| "zoneValid (West hh mm) = (hh \<le> 24 \<and> mm \<le> 60)"

definition stampTime :: "nat \<Rightarrow> nat \<Rightarrow> nat \<Rightarrow> nat \<Rightarrow> nat \<Rightarrow> nat \<Rightarrow> string \<Rightarrow> int \<Rightarrow> gotime" where
  "stampTime year month day hh mm ss ds offset =
     (unixSeconds (int year) month (int day) (int hh) (int mm) (int ss) - offset + unixToInternal) * second + nanoseconds ds"

definition stampValid :: "nat \<Rightarrow> nat \<Rightarrow> nat \<Rightarrow> nat \<Rightarrow> nat \<Rightarrow> nat \<Rightarrow> string \<Rightarrow> bool" where
  "stampValid year month day hh mm ss ds =
     (year < 10000 \<and> 1 \<le> month \<and> month \<le> 12 \<and> 1 \<le> day \<and> int day \<le> daysIn month (int year) \<and>
      hh < 24 \<and> mm < 60 \<and> ss < 60 \<and> list_all isDigit ds)"

lemma longYear_four_rest: "y < 10000 \<Longrightarrow> longYear (twoDigits (y div 100) @ twoDigits (y mod 100) @ s) = Some (int y, s)"
proof -
  assume "y < 10000"
  from longYear_four [OF this] show ?thesis
    by (simp add: longYear_def twoDigits_def split: if_splits)
qed

lemma skipPrefix_one: "skipPrefix [c] (c # s) = Some (if c = CHR '' '' then cutspace s else s)"
  by (simp add: cutspace_def)

lemma nanoseconds_Nil [simp]: "nanoseconds [] = 0"
  by (simp add: nanoseconds_def decimal_def)

lemma readFraction_text:
  assumes "list_all isDigit ds" "s = [] \<or> hd s \<in> {CHR ''Z'', CHR ''+'', CHR ''-''}"
  shows "readFraction (fractionText ds @ s) f = (if ds = [] then (f, s) else (f\<lparr>tf_nsec := nanoseconds ds\<rparr>, s))"
proof -
  have stop: "takeWhile isDigit s = []" "dropWhile isDigit s = s"
    using assms(2) by (cases s; auto simp: isDigit_def less_eq_char_def)+
  show ?thesis
  proof (cases ds)
    case Nil
    then show ?thesis using assms(2) by (auto simp: readFraction_def fractionText_def)
  next
    case (Cons d ds')
    with assms(1) stop have "takeWhile isDigit (ds @ s) = ds" "dropWhile isDigit (ds @ s) = s"
      by (auto simp: list_all_iff takeWhile_append2 dropWhile_append2)
    with Cons assms(1) show ?thesis by (simp add: readFraction_def fractionText_def)
  qed
qed

lemma readZone_chars:
  assumes "isDigit a" "isDigit b" "isDigit c" "isDigit d" "sign \<noteq> CHR ''Z''"
    "digitVal a * 10 + digitVal b \<le> 24" "digitVal c * 10 + digitVal d \<le> 60"
  shows "readZone [sign, a, b, CHR '':'', c, d] f =
    (let offset = ((digitVal a * 10 + digitVal b) * 60 + (digitVal c * 10 + digitVal d)) * 60 in
     if sign = CHR ''+'' then Some (f\<lparr>tf_offset := offset\<rparr>, [])
     else if sign = CHR ''-'' then Some (f\<lparr>tf_offset := - offset\<rparr>, []) else None)"
proof -
  have "getnum True [a, b] = Some (digitVal a * 10 + digitVal b, [])" "getnum True [c, d] = Some (digitVal c * 10 + digitVal d, [])"
    using assms by (simp_all add: getnum_def)
  moreover have "take 2 (drop 1 [sign, a, b, CHR '':'', c, d]) = [a, b]" "take 2 (drop 4 [sign, a, b, CHR '':'', c, d]) = [c, d]"
    "drop 6 [sign, a, b, CHR '':'', c, d] = []" "[sign, a, b, CHR '':'', c, d] ! 3 = CHR '':''"
    by simp_all
  ultimately show ?thesis
    unfolding readZone_def obind_def using assms(5-7) by (simp only: option.case prod.case) (simp add: Let_def)
qed

lemma readZone_text: "zoneValid z \<Longrightarrow> readZone (zoneText z) f = Some (f\<lparr>tf_offset := zoneSeconds z\<rparr>, [])"
proof -
  assume valid: "zoneValid z"
  have two: "readZone (sign # twoDigits hh @ '':'' @ twoDigits mm) f =
        (let offset = (int hh * 60 + int mm) * 60 in
         if sign = CHR ''+'' then Some (f\<lparr>tf_offset := offset\<rparr>, [])
         else if sign = CHR ''-'' then Some (f\<lparr>tf_offset := - offset\<rparr>, []) else None)"
    if "hh \<le> 24" "mm \<le> 60" "sign \<noteq> CHR ''Z''" for sign hh mm
    unfolding twoDigits_def append.simps
    by (subst readZone_chars) (use two_digits [of hh] two_digits [of mm] that in simp_all)
  show ?thesis
  proof (cases z)
    case UTC
    then show ?thesis by (simp add: readZone_def)
  next
    case (East hh mm)
    then show ?thesis using valid two [of hh mm "CHR ''+''"] by (simp add: Let_def)
  next
    case (West hh mm)
    then show ?thesis using valid two [of hh mm "CHR ''-''"] by (simp add: Let_def)
  qed
qed

text \<open>The date and the time of day are read from any text, whatever follows.\<close>

lemma parseChunks_date:
  assumes "stampValid year month day hh mm ss ds"
  shows "parseChunks (dateChunks [sep] @ cs) (stampText sep year month day hh mm ss @ rest) f =
    obind (parseChunk StdZeroSecond cs (twoDigits ss @ rest)
             (f\<lparr>tf_year := int year, tf_month := int month, tf_day := int day, tf_hour := int hh, tf_min := int mm\<rparr>))
      (\<lambda>(f, s). parseChunks cs s f)"
proof -
  have small: "year < 10000" "month < 100" "day < 100" "hh < 24" "mm < 60" "1 \<le> month" "month \<le> 12"
    using assms daysIn_less [of month "int year"] by (auto simp: stampValid_def)
  have sep: "skipPrefix [sep] (sep # twoDigits hh @ s) = Some (twoDigits hh @ s)" for s
    using small by (simp add: skipPrefix_one cutspace_two del: skipPrefix.simps)
  have lit: "skipPrefix ''-'' (CHR ''-'' # s) = Some s" "skipPrefix '':'' (CHR '':'' # s) = Some s" for s
    by (simp_all add: skipPrefix_one del: skipPrefix.simps)
  show ?thesis
    unfolding dateChunks_def stampText_def using small
    by (simp add: obind_def longYear_four_rest sep lit getnum_two del: skipPrefix.simps parseChunk.simps(7))
qed

lemma parseChunks_otherSep:
  assumes "stampValid year month day hh mm ss ds" "c \<noteq> CHR '' ''"
  shows "parseChunks (dateChunks '' '' @ cs) (stampText c year month day hh mm ss @ rest) f = None"
proof -
  have small: "year < 10000" "month < 100" "day < 100" "1 \<le> month" "month \<le> 12"
    using assms daysIn_less [of month "int year"] by (auto simp: stampValid_def)
  have lit: "skipPrefix ''-'' (CHR ''-'' # s) = Some s" for s
    by (simp_all add: skipPrefix_one del: skipPrefix.simps)
  show ?thesis
    unfolding dateChunks_def stampText_def using small assms(2)
    by (simp add: obind_def longYear_four_rest lit getnum_two del: parseChunk.simps(7))
qed

text \<open>A layout that ends with the fraction and one that has the zone behind it.\<close>

lemma timeParse_fraction:
  assumes "stampValid year month day hh mm ss ds"
  shows "timeParse (dateChunks [sep] @ [StdFracSecond9]) (stampText sep year month day hh mm ss @ fractionText ds) =
    Some (stampTime year month day hh mm ss ds 0)"
  using assms readFraction_text [of ds "[]"]
  by (simp add: timeParse_def parseChunks_date [OF assms] obind_def getnum_two stampValid_def dateOf_def stampTime_def
      flip: One_nat_def)

lemma timeParse_zone:
  assumes "stampValid year month day hh mm ss ds" "zoneValid z"
  shows "timeParse (dateChunks [sep] @ [StdFracSecond9, StdISO8601ColonTZ])
      (stampText sep year month day hh mm ss @ fractionText ds @ zoneText z) =
    Some (stampTime year month day hh mm ss ds (zoneSeconds z))"
    and "timeParse (dateChunks [sep] @ [StdFracSecond9])
      (stampText sep year month day hh mm ss @ fractionText ds @ zoneText z) = None"
proof -
  have "zoneText z = [] \<or> hd (zoneText z) \<in> {CHR ''Z'', CHR ''+'', CHR ''-''}" "zoneText z \<noteq> []"
    by (cases z; simp)+
  note frac = readFraction_text [of ds, OF _ this(1)] and nonempty = this(2)
  show "timeParse (dateChunks [sep] @ [StdFracSecond9, StdISO8601ColonTZ])
      (stampText sep year month day hh mm ss @ fractionText ds @ zoneText z) =
    Some (stampTime year month day hh mm ss ds (zoneSeconds z))"
    using assms frac
    by (simp add: timeParse_def parseChunks_date [OF assms(1)] obind_def getnum_two stampValid_def dateOf_def
        stampTime_def readZone_text flip: One_nat_def)
  show "timeParse (dateChunks [sep] @ [StdFracSecond9])
      (stampText sep year month day hh mm ss @ fractionText ds @ zoneText z) = None"
    using assms frac nonempty
    by (simp add: timeParse_def parseChunks_date [OF assms(1)] obind_def getnum_two stampValid_def flip: One_nat_def)
qed

end
