(* ===== verification/Docker.thy ===== *)
theory Docker
  imports Counters GoLayout
begin

text \<open>
  \<^verbatim>\<open>docker_collector.go\<close>: the usage of the switch's containers from the table \<^verbatim>\<open>DOCKER_STATS\<close> of
  \<^verbatim>\<open>STATE_DB\<close>, and how old the table is. The age needs a reading of the clock in the middle of a
  scrape; \<open>clock\<close> gives what the clock shows in a state of the server.
\<close>

record dockerCollectorConfig =
  docker_enabled :: bool
  docker_refreshInterval :: duration
  docker_timeout :: duration
  docker_maxContainers :: int
  docker_sourceStaleThreshold :: duration
  docker_redisScanCount :: int

record dockerCollector = cacheState +
  lastSourceUpdateTime :: gotime
  lastSourceStale :: f64
  lastEntriesSkipped :: f64
  lastContainerCount :: f64
  docker_config :: dockerCollectorConfig
  docker_filter :: metricFilter

subsection \<open>Construction\<close>

definition dockerContainerInfo :: desc where [desc_defs]:
  "dockerContainerInfo = NewDesc ''sonic'' ''docker'' ''container_info''
     ''Container metadata from SONiC DOCKER_STATS, value is always 1'' [''container'']"

definition dockerContainerCPUPercent :: desc where [desc_defs]:
  "dockerContainerCPUPercent = NewDesc ''sonic'' ''docker'' ''container_cpu_percent''
     ''Container CPU usage percent'' [''container'']"

definition dockerContainerMemoryBytes :: desc where [desc_defs]:
  "dockerContainerMemoryBytes = NewDesc ''sonic'' ''docker'' ''container_memory_usage_bytes''
     ''Container memory usage bytes'' [''container'']"

definition dockerContainerMemoryLimit :: desc where [desc_defs]:
  "dockerContainerMemoryLimit = NewDesc ''sonic'' ''docker'' ''container_memory_limit_bytes''
     ''Container memory limit bytes'' [''container'']"

definition dockerContainerMemoryPercent :: desc where [desc_defs]:
  "dockerContainerMemoryPercent = NewDesc ''sonic'' ''docker'' ''container_memory_percent''
     ''Container memory usage percent'' [''container'']"

definition dockerContainerNetworkRx :: desc where [desc_defs]:
  "dockerContainerNetworkRx = NewDesc ''sonic'' ''docker'' ''container_network_receive_bytes_total''
     ''Container network receive bytes'' [''container'']"

definition dockerContainerNetworkTx :: desc where [desc_defs]:
  "dockerContainerNetworkTx = NewDesc ''sonic'' ''docker'' ''container_network_transmit_bytes_total''
     ''Container network transmit bytes'' [''container'']"

definition dockerContainerBlockRead :: desc where [desc_defs]:
  "dockerContainerBlockRead = NewDesc ''sonic'' ''docker'' ''container_block_read_bytes_total''
     ''Container block read bytes'' [''container'']"

definition dockerContainerBlockWrite :: desc where [desc_defs]:
  "dockerContainerBlockWrite = NewDesc ''sonic'' ''docker'' ''container_block_write_bytes_total''
     ''Container block write bytes'' [''container'']"

definition dockerContainerPids :: desc where [desc_defs]:
  "dockerContainerPids = NewDesc ''sonic'' ''docker'' ''container_pids''
     ''Container process count'' [''container'']"

definition dockerContainerCount :: desc where [desc_defs]:
  "dockerContainerCount = NewDesc ''sonic'' ''docker'' ''containers''
     ''Number of containers with DOCKER_STATS entries'' []"

definition dockerSourceLastUpdate :: desc where [desc_defs]:
  "dockerSourceLastUpdate = NewDesc ''sonic'' ''docker'' ''source_last_update_timestamp_seconds''
     ''Unix timestamp of DOCKER_STATS|LastUpdateTime source update'' []"

definition dockerSourceAge :: desc where [desc_defs]:
  "dockerSourceAge = NewDesc ''sonic'' ''docker'' ''source_age_seconds''
     ''Age in seconds of DOCKER_STATS source update'' []"

definition dockerSourceStale :: desc where [desc_defs]:
  "dockerSourceStale = NewDesc ''sonic'' ''docker'' ''source_stale''
     ''Whether DOCKER_STATS source data is stale (1=yes, 0=no)'' []"

definition dockerEntriesSkipped :: desc where [desc_defs]:
  "dockerEntriesSkipped = NewDesc ''sonic'' ''docker'' ''entries_skipped''
     ''Number of docker entries skipped during latest refresh'' []"

definition dockerScrapeDuration :: desc where [desc_defs]:
  "dockerScrapeDuration = NewDesc ''sonic'' ''docker'' ''scrape_duration_seconds''
     ''Time it took for exporter to refresh docker metrics'' []"

definition dockerScrapeCollectorSuccess :: desc where [desc_defs]:
  "dockerScrapeCollectorSuccess = NewDesc ''sonic'' ''docker'' ''collector_success''
     ''Whether docker collector succeeded'' []"

definition dockerCacheAge :: desc where [desc_defs]:
  "dockerCacheAge = NewDesc ''sonic'' ''docker'' ''cache_age_seconds''
     ''Age of latest docker cache refresh'' []"

definition loadDockerCollectorConfig :: "env \<Rightarrow> dockerCollectorConfig" where
  "loadDockerCollectorConfig env =
     \<lparr>docker_enabled = parseBoolEnv env ''DOCKER_ENABLED'' False,
      docker_refreshInterval = parseDurationEnv env ''DOCKER_REFRESH_INTERVAL'' (60 * second),
      docker_timeout = parseDurationEnv env ''DOCKER_TIMEOUT'' (2 * second),
      docker_maxContainers = parseIntEnv env ''DOCKER_MAX_CONTAINERS'' 128,
      docker_sourceStaleThreshold = parseDurationEnv env ''DOCKER_SOURCE_STALE_THRESHOLD'' (5 * minute),
      docker_redisScanCount = 256\<rparr>"

definition docker_new :: "env \<Rightarrow> metricFilter \<Rightarrow> dockerCollector" where
  "docker_new env flt =
     \<lparr>cachedMetrics = [], lastSuccess = f64_0, lastScrapeDuration = f64_0, lastRefreshTime = 0,
      lastSourceUpdateTime = 0, lastSourceStale = f64_0, lastEntriesSkipped = f64_0, lastContainerCount = f64_0,
      docker_config = loadDockerCollectorConfig env, docker_filter = flt\<rparr>"

definition docker_IsEnabled :: "dockerCollector \<Rightarrow> bool" where
  "docker_IsEnabled c = docker_enabled (docker_config c)"

definition docker_Describe :: "desc list" where
  "docker_Describe =
     [dockerContainerInfo,
      dockerContainerCPUPercent,
      dockerContainerMemoryBytes,
      dockerContainerMemoryLimit,
      dockerContainerMemoryPercent,
      dockerContainerNetworkRx,
      dockerContainerNetworkTx,
      dockerContainerBlockRead,
      dockerContainerBlockWrite,
      dockerContainerPids,
      dockerContainerCount,
      dockerSourceLastUpdate,
      dockerSourceAge,
      dockerSourceStale,
      dockerEntriesSkipped,
      dockerScrapeDuration,
      dockerScrapeCollectorSuccess,
      dockerCacheAge]"

subsection \<open>Scraping Redis\<close>

definition resolveDockerLastUpdateValue :: "fields \<Rightarrow> string" where
  "resolveDockerLastUpdateValue data =
     (case find (\<lambda>key. trimSpace (field data key) \<noteq> [])
             [''lastupdate'', ''last_update'', ''LastUpdate'', ''LastUpdateTime''] of
        Some key \<Rightarrow> trimSpace (field data key)
      | None \<Rightarrow>
          (case find (\<lambda>(key, value).
                  let normalizedKey = toLower (filter (\<lambda>c. c \<noteq> CHR ''_'') (trimSpace key))
                  in (normalizedKey = ''lastupdate'' \<or> normalizedKey = ''lastupdatetime'') \<and> trimSpace value \<noteq> []) data of
             Some (key, value) \<Rightarrow> trimSpace value
           | None \<Rightarrow> []))"

definition parseDockerFloat :: "fields \<Rightarrow> string \<Rightarrow> f64 option" where
  "parseDockerFloat data key =
     (let raw = trimSpace (field data key) in if raw = [] then None else ParseFloat raw)"

text \<open>
  The layouts in their order; \<^verbatim>\<open>.999999999\<close> and \<^verbatim>\<open>.999999\<close> are the same chunk to the parser. The
  last is \<^verbatim>\<open>time.RFC3339\<close>.
\<close>

definition dockerLayouts :: "chunk list list" where
  "dockerLayouts =
     [dateChunks '' '' @ [StdFracSecond9],
      dateChunks '' '' @ [StdFracSecond9],
      dateChunks '' '' @ [StdFracSecond9, StdISO8601ColonTZ],
      dateChunks '' '' @ [StdFracSecond9, StdISO8601ColonTZ],
      dateChunks '' '',
      dateChunks ''T'' @ [StdFracSecond9, StdISO8601ColonTZ],
      dateChunks ''T'' @ [StdFracSecond9, StdISO8601ColonTZ],
      dateChunks ''T'' @ [StdISO8601ColonTZ]]"

primrec firstParse :: "chunk list list \<Rightarrow> string \<Rightarrow> gotime option" where
  "firstParse [] s = None"
| "firstParse (l # ls) s = (case timeParse l s of Some t \<Rightarrow> Some t | None \<Rightarrow> firstParse ls s)"

definition parseDockerTimestamp :: "string \<Rightarrow> gotime option" where
  "parseDockerTimestamp s = firstParse dockerLayouts s"

definition timeNow :: "('s \<Rightarrow> gotime) \<Rightarrow> ('s, gotime) rio" where
  "timeNow clock = (\<lambda>w. (Ok (clock (server w)), w))"

definition docker_readLastUpdateTime ::
  "('s \<Rightarrow> gotime) \<Rightarrow> 's redisLib \<Rightarrow> redisConfig \<Rightarrow> dockerCollector \<Rightarrow> ('s, gotime \<times> f64) rio" where
  "docker_readLastUpdateTime clock lib cfg c =
     io_bind (io_wrap ''failed to read DOCKER_STATS|LastUpdateTime: %w'' []
                (HgetAllFromDb lib cfg ''STATE_DB'' ''DOCKER_STATS|LastUpdateTime'')) (\<lambda>lastUpdateData.
     let lastUpdateRaw = resolveDockerLastUpdateValue lastUpdateData in
     if lastUpdateRaw = [] then io_return (0, f64_1)
     else case parseDockerTimestamp lastUpdateRaw of
       None \<Rightarrow> io_return (0, f64_1)
     | Some parsedTime \<Rightarrow>
         io_bind (timeNow clock) (\<lambda>now.
         let age = timeSub now parsedTime; age = (if age < 0 then 0 else age) in
         if age > docker_sourceStaleThreshold (docker_config c) then io_return (parsedTime, f64_1)
         else io_return (parsedTime, f64_0)))"

text \<open>\<^verbatim>\<open>if value, ok := parse(x); !ok { skippedEntries++ } else if guard { metrics = append(...) }\<close>\<close>

definition emitRead ::
  "f64 option \<Rightarrow> bool \<Rightarrow> (f64 \<Rightarrow> ('w, metric) io) \<Rightarrow> metric list \<times> int \<Rightarrow> ('w, metric list \<times> int) io" where
  "emitRead parsed guard mk acc =
     (case acc of (metrics, skippedEntries) \<Rightarrow>
      case parsed of
        None \<Rightarrow> io_return (metrics, skippedEntries + 1)
      | Some v \<Rightarrow> io_bind (emit guard (mk v) metrics) (\<lambda>metrics. io_return (metrics, skippedEntries)))"

type_synonym dockerAcc = "metric list \<times> int \<times> int"

definition docker_container ::
  "(string \<Rightarrow> bool) \<Rightarrow> 's redisLib \<Rightarrow> redisConfig \<Rightarrow> dockerCollector \<Rightarrow> nat \<Rightarrow> string
     \<Rightarrow> dockerAcc \<Rightarrow> ('s, dockerAcc loop) rio" where
  "docker_container labelOk lib cfg c index dockerKey acc =
     (case acc of (metrics, skippedEntries, containerCount) \<Rightarrow>
        if dockerKey = ''DOCKER_STATS|LastUpdateTime''
        then io_return (Continue (metrics, skippedEntries, containerCount))
        else if containerCount \<ge> docker_maxContainers (docker_config c)
        then io_return (Continue (metrics, skippedEntries + 1, containerCount))
        else
          io_bind (io_wrap ''failed to read %s: %w'' [dockerKey]
                     (HgetAllFromDb lib cfg ''STATE_DB'' dockerKey)) (\<lambda>containerStats.
          if containerStats = []
          then io_return (Continue (metrics, skippedEntries + 1, containerCount))
          else
            let containerName = trimSpace (field containerStats ''NAME'') in
            if containerName = []
            then io_return (Continue (metrics, skippedEntries + 1, containerCount))
            else
              let on = Enabled (docker_filter c); read = parseDockerFloat containerStats;
                  mk = (\<lambda>d ty value. MustNewConstMetric labelOk d ty value [containerName]) in
              io_bind (emit (on ''sonic_docker_container_info'') (mk dockerContainerInfo GaugeValue f64_1) metrics) (\<lambda>metrics.
              io_bind (emitRead (read ''CPU%'') (on ''sonic_docker_container_cpu_percent'')
                         (mk dockerContainerCPUPercent GaugeValue) (metrics, skippedEntries)) (\<lambda>acc.
              io_bind (emitRead (read ''MEM_BYTES'') (on ''sonic_docker_container_memory_usage_bytes'')
                         (mk dockerContainerMemoryBytes GaugeValue) acc) (\<lambda>acc.
              io_bind (emitRead (read ''MEM_LIMIT_BYTES'') (on ''sonic_docker_container_memory_limit_bytes'')
                         (mk dockerContainerMemoryLimit GaugeValue) acc) (\<lambda>acc.
              io_bind (emitRead (read ''MEM%'') (on ''sonic_docker_container_memory_percent'')
                         (mk dockerContainerMemoryPercent GaugeValue) acc) (\<lambda>acc.
              io_bind (emitRead (read ''NET_IN_BYTES'') (on ''sonic_docker_container_network_receive_bytes_total'')
                         (mk dockerContainerNetworkRx CounterValue) acc) (\<lambda>acc.
              io_bind (emitRead (read ''NET_OUT_BYTES'') (on ''sonic_docker_container_network_transmit_bytes_total'')
                         (mk dockerContainerNetworkTx CounterValue) acc) (\<lambda>acc.
              io_bind (emitRead (read ''BLOCK_IN_BYTES'') (on ''sonic_docker_container_block_read_bytes_total'')
                         (mk dockerContainerBlockRead CounterValue) acc) (\<lambda>acc.
              io_bind (emitRead (read ''BLOCK_OUT_BYTES'') (on ''sonic_docker_container_block_write_bytes_total'')
                         (mk dockerContainerBlockWrite CounterValue) acc) (\<lambda>acc.
              io_bind (emitRead (read ''PIDS'') (on ''sonic_docker_container_pids'')
                         (mk dockerContainerPids GaugeValue) acc) (\<lambda>acc.
              case acc of (metrics, skippedEntries) \<Rightarrow>
              io_return (Continue (metrics, skippedEntries, containerCount + 1))))))))))))))"

type_synonym dockerResult = "metric list \<times> int \<times> int \<times> gotime \<times> f64"

definition docker_scrapeMetrics ::
  "(string \<Rightarrow> bool) \<Rightarrow> ('s \<Rightarrow> gotime) \<Rightarrow> 's redisLib \<Rightarrow> dockerCollector \<Rightarrow> ('s, dockerResult) rio" where
  "docker_scrapeMetrics labelOk clock lib c =
     withRedis lib (\<lambda>cfg.
       io_bind (docker_readLastUpdateTime clock lib cfg c) (\<lambda>(sourceUpdateTime, sourceStale).
       io_bind (io_wrap ''failed to scan DOCKER_STATS keys: %w'' []
                  (ScanKeysFromDb lib cfg ''STATE_DB'' ''DOCKER_STATS|*'' (docker_redisScanCount (docker_config c)))) (\<lambda>dockerKeys.
       io_bind (rangeLoop (docker_container labelOk lib cfg c) 0 (sort dockerKeys) ([], 0, 0)) (\<lambda>acc.
       case acc of (metrics, skippedEntries, containerCount) \<Rightarrow>
       io_return (metrics, skippedEntries, containerCount, sourceUpdateTime, sourceStale)))))"

subsection \<open>Refreshing and collecting\<close>

definition docker_assignments ::
  "refreshClock \<Rightarrow> goerr + dockerResult \<Rightarrow> (dockerCollector \<Rightarrow> dockerCollector) list" where
  "docker_assignments clk r =
     (\<lambda>c. c\<lparr>lastScrapeDuration := scrapeSeconds clk\<rparr>) #
     (case r of
        Inl err \<Rightarrow> [\<lambda>c. c\<lparr>lastSuccess := f64_0\<rparr>]
      | Inr (metrics, skippedEntries, containerCount, sourceUpdateTime, sourceStale) \<Rightarrow>
          [\<lambda>c. c\<lparr>cachedMetrics := metrics\<rparr>,
           \<lambda>c. c\<lparr>lastEntriesSkipped := f64_of_int skippedEntries\<rparr>,
           \<lambda>c. c\<lparr>lastContainerCount := f64_of_int containerCount\<rparr>,
           \<lambda>c. c\<lparr>lastSourceUpdateTime := sourceUpdateTime\<rparr>,
           \<lambda>c. c\<lparr>lastSourceStale := sourceStale\<rparr>,
           \<lambda>c. c\<lparr>lastSuccess := f64_1\<rparr>,
           \<lambda>c. c\<lparr>lastRefreshTime := t_stored clk\<rparr>])"

definition docker_refreshMetrics ::
  "(string \<Rightarrow> bool) \<Rightarrow> ('s \<Rightarrow> gotime) \<Rightarrow> 's redisLib \<Rightarrow> refreshClock \<Rightarrow> dockerCollector \<Rightarrow> ('s, dockerCollector) rio" where
  "docker_refreshMetrics labelOk clock lib clk c =
     refreshWith (docker_scrapeMetrics labelOk clock lib c) (docker_assignments clk) c"

definition docker_refreshLoop ::
  "(string \<Rightarrow> bool) \<Rightarrow> ('s \<Rightarrow> gotime) \<Rightarrow> 's redisLib \<Rightarrow> refreshClock list \<Rightarrow> dockerCollector \<Rightarrow> ('s, dockerCollector) rio" where
  "docker_refreshLoop labelOk clock lib ticks c =
     tickerLoop (docker_refreshInterval (docker_config c)) (docker_refreshMetrics labelOk clock lib) ticks c"

definition NewDockerCollector ::
  "(string \<Rightarrow> bool) \<Rightarrow> ('s \<Rightarrow> gotime) \<Rightarrow> 's redisLib \<Rightarrow> env \<Rightarrow> metricFilter \<Rightarrow> refreshClock \<Rightarrow> refreshClock list
     \<Rightarrow> ('s, dockerCollector) rio" where
  "NewDockerCollector labelOk clock lib env flt clk ticks =
     (let c = docker_new env flt
      in if \<not> docker_enabled (docker_config c) then io_return c
         else io_bind (docker_refreshMetrics labelOk clock lib clk c) (docker_refreshLoop labelOk clock lib ticks))"

text \<open>The copies \<^verbatim>\<open>Collect\<close> makes under the read lock, in its order.\<close>

definition docker_copies :: "(dockerCollector \<Rightarrow> dockerCollector \<Rightarrow> dockerCollector) list" where
  "docker_copies =
     [\<lambda>c l. l\<lparr>cachedMetrics := cachedMetrics c\<rparr>,
      \<lambda>c l. l\<lparr>lastScrapeDuration := lastScrapeDuration c\<rparr>,
      \<lambda>c l. l\<lparr>lastSuccess := lastSuccess c\<rparr>,
      \<lambda>c l. l\<lparr>lastRefreshTime := lastRefreshTime c\<rparr>,
      \<lambda>c l. l\<lparr>lastSourceUpdateTime := lastSourceUpdateTime c\<rparr>,
      \<lambda>c l. l\<lparr>lastSourceStale := lastSourceStale c\<rparr>,
      \<lambda>c l. l\<lparr>lastEntriesSkipped := lastEntriesSkipped c\<rparr>,
      \<lambda>c l. l\<lparr>lastContainerCount := lastContainerCount c\<rparr>]"

text \<open>\<^verbatim>\<open>sourceTimestamp\<close> and \<^verbatim>\<open>sourceAge\<close>; the age is read from the clock after the cache age.\<close>

definition sourceTimestamp :: "gotime \<Rightarrow> f64" where
  "sourceTimestamp updated = (if updated \<noteq> 0 then f64_of_int (timeUnix updated) else f64_0)"

definition sourceAge :: "gotime \<Rightarrow> gotime \<Rightarrow> f64" where
  "sourceAge now updated =
     (if updated \<noteq> 0 then let age = durSeconds (timeSub now updated) in if f64_negative age then f64_0 else age
      else f64_0)"

definition docker_Collect ::
  "(string \<Rightarrow> bool) \<Rightarrow> gotime \<Rightarrow> gotime \<Rightarrow> dockerCollector \<Rightarrow> ('w, metric list) io" where
  "docker_Collect labelOk sourceNow now c =
     (if \<not> docker_enabled (docker_config c) then io_return []
      else let gauge = (\<lambda>d v. MustNewConstMetric labelOk d GaugeValue v []);
               on = Enabled (docker_filter c)
        in io_bind (emit (on ''sonic_docker_containers'') (gauge dockerContainerCount (lastContainerCount c)) (cachedMetrics c)) (\<lambda>ch.
           io_bind (emit (on ''sonic_docker_source_last_update_timestamp_seconds'')
                      (gauge dockerSourceLastUpdate (sourceTimestamp (lastSourceUpdateTime c))) ch) (\<lambda>ch.
           io_bind (emit (on ''sonic_docker_source_age_seconds'')
                      (gauge dockerSourceAge (sourceAge sourceNow (lastSourceUpdateTime c))) ch) (\<lambda>ch.
           io_bind (emit (on ''sonic_docker_source_stale'') (gauge dockerSourceStale (lastSourceStale c)) ch) (\<lambda>ch.
           io_bind (emit (on ''sonic_docker_entries_skipped'') (gauge dockerEntriesSkipped (lastEntriesSkipped c)) ch) (\<lambda>ch.
           io_bind (emit (on ''sonic_docker_scrape_duration_seconds'') (gauge dockerScrapeDuration (lastScrapeDuration c)) ch) (\<lambda>ch.
           io_bind (emit (on ''sonic_docker_collector_success'') (gauge dockerScrapeCollectorSuccess (lastSuccess c)) ch) (\<lambda>ch.
           emit (on ''sonic_docker_cache_age_seconds'') (gauge dockerCacheAge (cacheAge now (lastRefreshTime c))) ch))))))))"

interpretation docker: refresh_contract docker_assignments docker_copies cacheState.truncate
  "\<lambda>c. (docker_config c, docker_filter c)" fst
proof unfold_locales
  show "(docker_config (f c), docker_filter (f c)) = (docker_config c, docker_filter c)"
    if "f \<in> set (docker_assignments clk r)" for f clk r c
    using that by (auto simp: docker_assignments_def split: sum.splits prod.splits)
qed (auto simp: docker_assignments_def docker_copies_def cacheState.truncate_def)

subsection \<open>The descriptions\<close>

lemma fq_docker [simp]:
  "fqName dockerContainerInfo = ''sonic_docker_container_info''"
  "fqName dockerContainerCPUPercent = ''sonic_docker_container_cpu_percent''"
  "fqName dockerContainerMemoryBytes = ''sonic_docker_container_memory_usage_bytes''"
  "fqName dockerContainerMemoryLimit = ''sonic_docker_container_memory_limit_bytes''"
  "fqName dockerContainerMemoryPercent = ''sonic_docker_container_memory_percent''"
  "fqName dockerContainerNetworkRx = ''sonic_docker_container_network_receive_bytes_total''"
  "fqName dockerContainerNetworkTx = ''sonic_docker_container_network_transmit_bytes_total''"
  "fqName dockerContainerBlockRead = ''sonic_docker_container_block_read_bytes_total''"
  "fqName dockerContainerBlockWrite = ''sonic_docker_container_block_write_bytes_total''"
  "fqName dockerContainerPids = ''sonic_docker_container_pids''"
  "fqName dockerContainerCount = ''sonic_docker_containers''"
  "fqName dockerSourceLastUpdate = ''sonic_docker_source_last_update_timestamp_seconds''"
  "fqName dockerSourceAge = ''sonic_docker_source_age_seconds''"
  "fqName dockerSourceStale = ''sonic_docker_source_stale''"
  "fqName dockerEntriesSkipped = ''sonic_docker_entries_skipped''"
  "fqName dockerScrapeDuration = ''sonic_docker_scrape_duration_seconds''"
  "fqName dockerScrapeCollectorSuccess = ''sonic_docker_collector_success''"
  "fqName dockerCacheAge = ''sonic_docker_cache_age_seconds''"
  by (simp_all add: desc_defs)

lemma labels_docker [simp]:
  "length (d_labels dockerContainerInfo) = 1"
  "length (d_labels dockerContainerCPUPercent) = 1"
  "length (d_labels dockerContainerMemoryBytes) = 1"
  "length (d_labels dockerContainerMemoryLimit) = 1"
  "length (d_labels dockerContainerMemoryPercent) = 1"
  "length (d_labels dockerContainerNetworkRx) = 1"
  "length (d_labels dockerContainerNetworkTx) = 1"
  "length (d_labels dockerContainerBlockRead) = 1"
  "length (d_labels dockerContainerBlockWrite) = 1"
  "length (d_labels dockerContainerPids) = 1"
  "d_labels dockerContainerCount = []"
  "d_labels dockerSourceLastUpdate = []"
  "d_labels dockerSourceAge = []"
  "d_labels dockerSourceStale = []"
  "d_labels dockerEntriesSkipped = []"
  "d_labels dockerScrapeDuration = []"
  "d_labels dockerScrapeCollectorSuccess = []"
  "d_labels dockerCacheAge = []"
  by (simp_all add: desc_defs)

lemma docker_described [simp]:
  "dockerContainerInfo \<in> set docker_Describe"
  "dockerContainerCPUPercent \<in> set docker_Describe"
  "dockerContainerMemoryBytes \<in> set docker_Describe"
  "dockerContainerMemoryLimit \<in> set docker_Describe"
  "dockerContainerMemoryPercent \<in> set docker_Describe"
  "dockerContainerNetworkRx \<in> set docker_Describe"
  "dockerContainerNetworkTx \<in> set docker_Describe"
  "dockerContainerBlockRead \<in> set docker_Describe"
  "dockerContainerBlockWrite \<in> set docker_Describe"
  "dockerContainerPids \<in> set docker_Describe"
  "dockerContainerCount \<in> set docker_Describe"
  "dockerSourceLastUpdate \<in> set docker_Describe"
  "dockerSourceAge \<in> set docker_Describe"
  "dockerSourceStale \<in> set docker_Describe"
  "dockerEntriesSkipped \<in> set docker_Describe"
  "dockerScrapeDuration \<in> set docker_Describe"
  "dockerScrapeCollectorSuccess \<in> set docker_Describe"
  "dockerCacheAge \<in> set docker_Describe"
  by (simp_all add: docker_Describe_def)

lemma docker_names: "ownNames ''docker'' docker_Describe"
  by (simp add: ownNames_def docker_Describe_def subsystemOf_def desc_defs)

subsection \<open>Collect\<close>

definition docker_gauges :: "gotime \<Rightarrow> gotime \<Rightarrow> dockerCollector \<Rightarrow> (desc \<times> f64) list" where
  "docker_gauges sourceNow now c =
     [(dockerContainerCount, lastContainerCount c),
      (dockerSourceLastUpdate, sourceTimestamp (lastSourceUpdateTime c)),
      (dockerSourceAge, sourceAge sourceNow (lastSourceUpdateTime c)),
      (dockerSourceStale, lastSourceStale c),
      (dockerEntriesSkipped, lastEntriesSkipped c),
      (dockerScrapeDuration, lastScrapeDuration c),
      (dockerScrapeCollectorSuccess, lastSuccess c),
      (dockerCacheAge, cacheAge now (lastRefreshTime c))]"

lemma docker_Collect_yields:
  "docker_IsEnabled c \<Longrightarrow>
    yields I (docker_Collect labelOk sourceNow now c) (cachedMetrics c @ gauges (docker_filter c) (docker_gauges sourceNow now c))"
  unfolding docker_Collect_def docker_gauges_def Let_def docker_IsEnabled_def
  by (simp only: not_True_eq_False if_False, rule yields_eq,
      (rule yields_bind_gauge, simp, simp)+, rule yields_gauge)
     (simp_all only: gauges_append append.simps fq_docker labels_docker)

lemma docker_gauges_good: "list_all (goodMetric labelOk flt docker_Describe) (gauges flt (docker_gauges sourceNow now c))"
  by (rule gauges_good) (auto simp: docker_gauges_def)

subsection \<open>What a refresh exports\<close>

abbreviation docker_good :: "(string \<Rightarrow> bool) \<Rightarrow> dockerCollector \<Rightarrow> metric list \<Rightarrow> bool" where
  "docker_good labelOk c \<equiv> list_all (goodMetric labelOk (docker_filter c) docker_Describe)"

lemma post_bind_emitRead:
  assumes "list_all (goodMetric labelOk flt descs) (fst acc)"
    and "\<And>v. p = Some v \<Longrightarrow> b \<Longrightarrow> post (mk v) (goodMetric labelOk flt descs)"
    and "\<And>r. list_all (goodMetric labelOk flt descs) (fst r) \<Longrightarrow> post (f r) Q"
  shows "post (io_bind (emitRead p b mk acc) f) Q"
proof (rule post_bind)
  show "post (emitRead p b mk acc) (\<lambda>r. list_all (goodMetric labelOk flt descs) (fst r))"
    using assms(1,2) unfolding emitRead_def
    by (auto intro!: post_return post_bind_emit [where descs = descs and flt = flt and labelOk = labelOk]
        split: prod.split option.split)
qed (rule assms(3))

lemmas docker_emits =
  post_bind_emit [where descs = docker_Describe] post_bind_emitRead [where descs = docker_Describe]

lemma docker_container_good:
  assumes "docker_good labelOk c (fst acc)"
  shows "post (docker_container labelOk lib cfg c i key acc)
    (\<lambda>r. case r of Continue b \<Rightarrow> docker_good labelOk c (fst b) | Break b \<Rightarrow> docker_good labelOk c (fst b))"
  unfolding docker_container_def Let_def using assms
  by (auto intro!: post_rules docker_emits [where labelOk = labelOk and flt = "docker_filter c"])

lemma docker_scrape_ok: "post (docker_scrapeMetrics labelOk clock lib c) (\<lambda>r. docker_good labelOk c (fst r))"
  unfolding docker_scrapeMetrics_def
  apply (rule post_withRedis, rule post_bind_any, rule post_case_prod, rule post_bind_any, rule post_bind)
   apply (rule post_rangeLoop_inv [where Q = "\<lambda>r. docker_good labelOk c (fst r)"], simp, erule docker_container_good)
  apply (rule post_case_prod, rule post_case_prod, rule post_return, simp)
  done

lemma docker_Collect_good:
  "docker_good labelOk c (cachedMetrics c) \<Longrightarrow>
    post (docker_Collect labelOk sourceNow now c) (docker_good labelOk c)"
proof (cases "docker_IsEnabled c")
  case True
  assume "docker_good labelOk c (cachedMetrics c)"
  then show ?thesis
    by (intro yields_post [OF docker_Collect_yields [OF True]]) (simp add: docker_gauges_good)
next
  case False
  then show ?thesis by (simp add: docker_Collect_def docker_IsEnabled_def post_return)
qed

interpretation docker_source: metric_source docker_assignments docker_copies cacheState.truncate
  "\<lambda>c. (docker_config c, docker_filter c)" fst "docker_scrapeMetrics labelOk clock lib" "docker_Collect labelOk sourceNow"
  "\<lambda>f. list_all (goodMetric labelOk (snd f) docker_Describe)"
  for labelOk clock lib sourceNow
  by unfold_locales (simp_all add: docker_Collect_good cacheState.truncate_def docker_scrape_ok)

subsection \<open>The specification of a refresh\<close>

text \<open>The nine readings of a container: field, description and type.\<close>

definition docker_readings :: "(string \<times> desc \<times> valueType) list" where
  "docker_readings =
     [(''CPU%'', dockerContainerCPUPercent, GaugeValue),
      (''MEM_BYTES'', dockerContainerMemoryBytes, GaugeValue),
      (''MEM_LIMIT_BYTES'', dockerContainerMemoryLimit, GaugeValue),
      (''MEM%'', dockerContainerMemoryPercent, GaugeValue),
      (''NET_IN_BYTES'', dockerContainerNetworkRx, CounterValue),
      (''NET_OUT_BYTES'', dockerContainerNetworkTx, CounterValue),
      (''BLOCK_IN_BYTES'', dockerContainerBlockRead, CounterValue),
      (''BLOCK_OUT_BYTES'', dockerContainerBlockWrite, CounterValue),
      (''PIDS'', dockerContainerPids, GaugeValue)]"

definition docker_metrics :: "dockerCollector \<Rightarrow> (string \<Rightarrow> fields) \<Rightarrow> string \<Rightarrow> metric list" where
  "docker_metrics c db key =
     (let on = Enabled (docker_filter c); name = trimSpace (field (db key) ''NAME'')
      in (if on ''sonic_docker_container_info'' then [constMetric dockerContainerInfo GaugeValue f64_1 [name]] else []) @
         concat (map (\<lambda>(k, d, ty). optMetric (parseDockerFloat (db key) k) (on (fqName d)) (\<lambda>v. constMetric d ty v [name]))
           docker_readings))"

definition docker_unreadable :: "(string \<Rightarrow> fields) \<Rightarrow> string \<Rightarrow> int" where
  "docker_unreadable db key = int (length (filter (\<lambda>(k, d, ty). parseDockerFloat (db key) k = None) docker_readings))"

definition docker_valid :: "(string \<Rightarrow> fields) \<Rightarrow> string \<Rightarrow> bool" where
  "docker_valid db key = (db key \<noteq> [] \<and> trimSpace (field (db key) ''NAME'') \<noteq> [])"

text \<open>The age of the table at the time \<open>t\<close>; a table without a readable time stamp is stale.\<close>

definition docker_source :: "dockerCollector \<Rightarrow> fields \<Rightarrow> gotime \<Rightarrow> gotime \<times> f64" where
  "docker_source c data t =
     (case parseDockerTimestamp (resolveDockerLastUpdateValue data) of
        None \<Rightarrow> (0, f64_1)
      | Some updated \<Rightarrow>
          (updated, if docker_sourceStaleThreshold (docker_config c) < max 0 (timeSub t updated) then f64_1 else f64_0))"

definition docker_spec ::
  "dockerCollector \<Rightarrow> (int \<Rightarrow> string \<Rightarrow> fields) \<Rightarrow> (int \<Rightarrow> string \<Rightarrow> string list) \<Rightarrow> gotime \<Rightarrow> dockerResult" where
  "docker_spec c db scan t =
     (let state = db 6; keys = filter (\<lambda>k. k \<noteq> ''DOCKER_STATS|LastUpdateTime'') (sort (scan 6 ''DOCKER_STATS|*''));
          containers = take (nat (docker_maxContainers (docker_config c))) (filter (docker_valid state) keys)
      in (concat (map (docker_metrics c state) containers),
          int (length keys) - int (length containers) + sum_list (map (docker_unreadable state) containers),
          int (length containers),
          docker_source c (state ''DOCKER_STATS|LastUpdateTime'') t))"

subsection \<open>The code meets it\<close>

definition missing :: "'a option \<Rightarrow> int" where
  "missing p = (if p = None then 1 else 0)"

lemma yields_bind_emitRead:
  assumes "length ls = length (d_labels d)"
    and "yields I (f (ms @ optMetric p b (\<lambda>v. constMetric d t v ls), sk + missing p)) r"
  shows "yields I (io_bind (emitRead p b (\<lambda>v. MustNewConstMetric anyLabel d t v ls) (ms, sk)) f) r"
proof (rule yields_bind)
  show "yields I (emitRead p b (\<lambda>v. MustNewConstMetric anyLabel d t v ls) (ms, sk))
      (ms @ optMetric p b (\<lambda>v. constMetric d t v ls), sk + missing p)"
  proof (cases p)
    case None
    then show ?thesis by (simp add: emitRead_def optMetric_def missing_def yields_return)
  next
    case (Some v)
    have "yields I (emitRead p b (\<lambda>v. MustNewConstMetric anyLabel d t v ls) (ms, sk))
        (ms @ (if b then [constMetric d t v ls] else []), sk)"
      unfolding emitRead_def Some prod.case option.case
      by (rule yields_bind_emit, rule assms(1), rule yields_return)
    then show ?thesis by (simp add: Some optMetric_def missing_def)
  qed
qed (rule assms(2))

lemma length_missing: "int (length (filter (\<lambda>x. f x = None) xs)) = sum_list (map (\<lambda>x. missing (f x)) xs)"
  by (induction xs) (simp_all add: missing_def)

lemma docker_unreadable_sum:
  "docker_unreadable db key = sum_list (map (\<lambda>x. missing (parseDockerFloat (db key) (fst x))) docker_readings)"
  unfolding docker_unreadable_def length_missing [symmetric] by (simp add: case_prod_unfold)

lemma docker_read:
  assumes "serves lib cfg db scan"
  shows "yields (handlesOk cfg) (io_wrap msg args (HgetAllFromDb lib cfg ''STATE_DB'' k)) (db 6 k)"
  by (rule yields_wrap [OF yields_HgetAll [OF assms]]) (simp add: RedisDbId_def)

lemma docker_container_yields:
  assumes "serves lib cfg db scan"
  shows "yields (handlesOk cfg) (docker_container anyLabel lib cfg c i key (ms, sk, n))
    (Continue (if key = ''DOCKER_STATS|LastUpdateTime'' then (ms, sk, n)
       else if docker_maxContainers (docker_config c) \<le> n then (ms, sk + 1, n)
       else if docker_valid (db 6) key
       then (ms @ docker_metrics c (db 6) key, sk + docker_unreadable (db 6) key, n + 1)
       else (ms, sk + 1, n)))"
proof (cases "key = ''DOCKER_STATS|LastUpdateTime'' \<or> docker_maxContainers (docker_config c) \<le> n")
  case True
  then show ?thesis by (auto simp: docker_container_def yields_return)
next
  case room: False
  note read = docker_read [OF assms]
  show ?thesis
  proof (cases "docker_valid (db 6) key")
    case False
    then show ?thesis
      using room
      by (auto simp: docker_container_def docker_valid_def Let_def intro!: yields_bind [OF read] yields_return)
  next
    case True
    have "yields (handlesOk cfg) (docker_container anyLabel lib cfg c i key (ms, sk, n))
        (Continue (ms @ docker_metrics c (db 6) key, sk + docker_unreadable (db 6) key, n + 1))"
      unfolding docker_container_def prod.case
      by (simp only: room [unfolded de_Morgan_disj] if_False simp_thms, rule yields_bind [OF read],
          simp only: True [unfolded docker_valid_def] if_False simp_thms Let_def, rule yields_eq,
          (rule yields_bind_emit yields_bind_emitRead, simp)+, simp only: prod.case, rule yields_return)
         (simp add: docker_metrics_def docker_readings_def docker_unreadable_sum Let_def)
    then show ?thesis using room True by simp
  qed
qed

lemma docker_source_yields:
  assumes "serves lib cfg db scan"
  shows "yields (handlesOk cfg) (docker_readLastUpdateTime (\<lambda>_. t) lib cfg c)
    (docker_source c (db 6 ''DOCKER_STATS|LastUpdateTime'') t)"
proof -
  have blank: "parseDockerTimestamp [] = None"
    by code_simp
  have now: "yields (handlesOk cfg) (timeNow (\<lambda>_. t)) t"
    by (simp add: timeNow_def yields_def)
  show ?thesis
    unfolding docker_readLastUpdateTime_def docker_source_def Let_def
    by (rule yields_bind [OF docker_read [OF assms]])
       (auto simp: blank max_def not_less not_le intro!: yields_return yields_bind [OF now] split: option.split)
qed

lemma docker_scrape_still:
  assumes "serves lib cfg db scan"
  shows "fst (docker_scrapeMetrics anyLabel (\<lambda>_. t) lib c w) = Ok (docker_spec c db scan t)"
proof -
  have keys: "yields (handlesOk cfg) (io_wrap msg args (ScanKeysFromDb lib cfg ''STATE_DB'' p n)) (scan 6 p)" for msg args p n
    by (rule yields_wrap [OF yields_ScanKeys [OF assms]]) (simp add: RedisDbId_def)
  note loop = costed_loop_yields [where emb = "\<lambda>a sk (t :: unit) n. (a, sk, n)" and
      ignored = "\<lambda>k. k = ''DOCKER_STATS|LastUpdateTime''" and limit = "docker_maxContainers (docker_config c)" and
      P = "docker_valid (db 6)" and cost = "docker_unreadable (db 6)" and step = "\<lambda>k a. a @ docker_metrics c (db 6) k",
      OF docker_container_yields [OF assms], where n = 0, unfolded Let_def]
  obtain u st where source: "docker_source c (db 6 ''DOCKER_STATS|LastUpdateTime'') t = (u, st)"
    by fastforce
  show ?thesis
    unfolding docker_scrapeMetrics_def
    by (rule withRedis_yields [OF assms], rule yields_eq, rule yields_bind [OF docker_source_yields [OF assms]],
        simp only: source prod.case, rule yields_bind [OF keys], rule yields_bind [OF loop], simp only: prod.case,
        rule yields_return)
       (simp add: docker_spec_def Let_def fold_append_concat source)
qed

text \<open>The clock is read at most once in a scrape: some instant of it serves.\<close>

lemma docker_clock_once: "\<exists>s. docker_readLastUpdateTime clock lib cfg c w = docker_readLastUpdateTime (\<lambda>_. clock s) lib cfg c w"
proof -
  obtain r w' where read: "io_wrap ''failed to read DOCKER_STATS|LastUpdateTime: %w'' []
      (HgetAllFromDb lib cfg ''STATE_DB'' ''DOCKER_STATS|LastUpdateTime'') w = (r, w')"
    by fastforce
  show ?thesis
  proof (cases r)
    case (Ok data)
    show ?thesis
      by (intro exI [of _ "server w'"], cases "parseDockerTimestamp (resolveDockerLastUpdateValue data)")
         (simp_all add: docker_readLastUpdateTime_def io_bind_def read Ok Let_def timeNow_def)
  qed (simp_all add: docker_readLastUpdateTime_def io_bind_def read)
qed

lemma docker_scrape_clock: "\<exists>s. docker_scrapeMetrics labelOk clock lib c w = docker_scrapeMetrics labelOk (\<lambda>_. clock s) lib c w"
proof -
  obtain r w' where new: "io_wrap ''redis client initialization failed: %w'' [] (NewClient lib) w = (r, w')"
    by fastforce
  show ?thesis
  proof (cases r)
    case (Ok cfg)
    obtain s where "docker_readLastUpdateTime clock lib cfg c w' = docker_readLastUpdateTime (\<lambda>_. clock s) lib cfg c w'"
      using docker_clock_once [of clock lib cfg c w'] by blast
    then show ?thesis
      by (intro exI [of _ s]) (simp add: docker_scrapeMetrics_def withRedis_def io_bind_def io_defer_def new Ok)
  qed (simp_all add: docker_scrapeMetrics_def withRedis_def io_bind_def new)
qed

lemma docker_scrape_spec:
  assumes "serves lib cfg db scan"
  shows "\<exists>s. fst (docker_scrapeMetrics anyLabel clock lib c w) = Ok (docker_spec c db scan (clock s))"
  using docker_scrape_clock [of anyLabel clock lib c w] docker_scrape_still [OF assms] by metis

subsection \<open>Properties\<close>

text \<open>A switch with two containers, one of them without a name, and a time stamp as the switch writes it.\<close>

text \<open>Containers with different names share no time series.\<close>

definition docker_name :: "(string \<Rightarrow> fields) \<Rightarrow> string \<Rightarrow> string" where
  "docker_name db key = trimSpace (field (db key) ''NAME'')"

lemma docker_metrics_series: "distinct (map series (docker_metrics c db key))"
  unfolding docker_metrics_def docker_readings_def Let_def
  by (simp add: distinct_optMetric) (auto simp: in_optMetric)

lemma docker_metrics_label: "m \<in> set (docker_metrics c db key) \<Longrightarrow> m_labels m = [docker_name db key]"
  by (auto simp: docker_metrics_def docker_name_def Let_def in_optMetric split: if_splits)

lemma docker_spec_series:
  assumes "distinct (map (docker_name (db 6)) (filter (docker_valid (db 6)) (scan 6 ''DOCKER_STATS|*'')))"
  shows "distinct (map series (fst (docker_spec c db scan t)))"
proof -
  let ?valid = "filter (docker_valid (db 6)) (filter (\<lambda>k. k \<noteq> ''DOCKER_STATS|LastUpdateTime'') (sort (scan 6 ''DOCKER_STATS|*'')))"
  let ?keys = "take (nat (docker_maxContainers (docker_config c))) ?valid"
  have keys: "set ?keys \<subseteq> set (filter (docker_valid (db 6)) (scan 6 ''DOCKER_STATS|*''))"
    using set_take_subset [of _ ?valid] by auto
  have inj: "inj_on (docker_name (db 6)) (set ?keys)"
    using assms keys by (meson distinct_map inj_on_subset)
  have "distinct (filter (docker_valid (db 6)) (sort (scan 6 ''DOCKER_STATS|*'')))"
    using assms by (simp add: distinct_map filter_sort)
  moreover have "?valid = filter (\<lambda>k. k \<noteq> ''DOCKER_STATS|LastUpdateTime'') (filter (docker_valid (db 6)) (sort (scan 6 ''DOCKER_STATS|*'')))"
    by (simp only: filter_filter conj_commute)
  ultimately have "distinct ?keys" by (simp only: distinct_filter distinct_take)
  then have "distinct (concat (map (\<lambda>k. map series (docker_metrics c (db 6) k)) ?keys))"
  proof (rule distinct_concat_tagged [where tag = "\<lambda>s. the_inv_into (set ?keys) (docker_name (db 6)) (hd (snd s))"])
    fix k s
    assume k: "k \<in> set ?keys" and s: "s \<in> set (map series (docker_metrics c (db 6) k))"
    have "hd (snd s) = docker_name (db 6) k"
      using s by (auto simp: series_def dest!: docker_metrics_label)
    then show "the_inv_into (set ?keys) (docker_name (db 6)) (hd (snd s)) = k"
      by (simp only: the_inv_into_f_f [OF inj k])
  qed (rule docker_metrics_series)
  then show ?thesis by (simp add: docker_spec_def Let_def map_concat o_def)
qed

definition docker_demoDb :: "int \<Rightarrow> string \<Rightarrow> fields" where
  "docker_demoDb n key =
     (if key = ''DOCKER_STATS|LastUpdateTime'' then [(''lastupdate'', ''2024-03-01 12:30:45.123456'')]
      else if key = ''DOCKER_STATS|1d0f'' then [(''NAME'', ''syncd''), (''CPU%'', ''0.5''), (''PIDS'', ''41'')]
      else if key = ''DOCKER_STATS|77aa'' then [(''CPU%'', ''2.0'')]
      else [])"

definition docker_demoScan :: "int \<Rightarrow> string \<Rightarrow> string list" where
  "docker_demoScan n pattern =
     (if pattern = ''DOCKER_STATS|*'' then [''DOCKER_STATS|LastUpdateTime'', ''DOCKER_STATS|77aa'', ''DOCKER_STATS|1d0f''] else [])"

definition docker_demo :: dockerCollector where
  "docker_demo = docker_new (\<lambda>_. None) (NewMetricFilter (\<lambda>_. None))"

text \<open>
  C37. On a server that holds still, a refresh returns exactly what the specification says: the metrics of the
  first containers with a name, up to the limit; as skipped all other entries but the table's time
  stamp, and every reading of an exported container that does not parse; the number of containers; and the
  time stamp with its staleness, judged at some moment of the refresh.
\<close>

theorem docker_refresh_refines_spec:
  assumes "serves lib cfg db scan"
  shows "\<exists>s. fst (docker_scrapeMetrics anyLabel clock lib c w) = Ok (docker_spec c db scan (clock s))"
  by (rule docker_scrape_spec [OF assms])

theorem docker_refresh_refines_spec_witness:
  "\<exists>s. fst (docker_scrapeMetrics anyLabel (\<lambda>s. 63844893100 * second) (staticLib localRedis docker_demoDb docker_demoScan) docker_demo
     \<lparr>server = (), databases = []\<rparr>) = Ok (docker_spec docker_demo docker_demoDb docker_demoScan ((\<lambda>s :: unit. 63844893100 * second) s))"
  by (rule docker_refresh_refines_spec [OF staticLib_serves])

lemma parseDockerTimestamp_stamp:
  assumes "stampValid year month day hh mm ss ds"
  shows "parseDockerTimestamp (stampText (CHR '' '') year month day hh mm ss @ fractionText ds) =
    Some (stampTime year month day hh mm ss ds 0)"
  by (simp add: parseDockerTimestamp_def dockerLayouts_def timeParse_fraction [OF assms])

lemma parseDockerTimestamp_zone:
  assumes "stampValid year month day hh mm ss ds" "zoneValid z" "sep \<in> {CHR '' '', CHR ''T''}"
  shows "parseDockerTimestamp (stampText sep year month day hh mm ss @ fractionText ds @ zoneText z) =
    Some (stampTime year month day hh mm ss ds (zoneSeconds z))"
proof (cases "sep = CHR '' ''")
  case True
  then show ?thesis
    by (simp add: parseDockerTimestamp_def dockerLayouts_def timeParse_zone [OF assms(1,2)])
next
  case False
  then have sep: "sep = CHR ''T''" using assms(3) by simp
  have "timeParse (dateChunks '' '' @ cs) (stampText sep year month day hh mm ss @ rest) = None" for cs rest
    using parseChunks_otherSep [OF assms(1), of sep] sep by (simp add: timeParse_def obind_def)
  note this [of "[StdFracSecond9]"] this [of "[StdFracSecond9, StdISO8601ColonTZ]"] this [of "[]", simplified]
  then show ?thesis
    by (simp add: parseDockerTimestamp_def dockerLayouts_def sep timeParse_zone [OF assms(1,2)])
qed

text \<open>
  C38. Every time stamp of an existing date of the years 0 to 9999 with a space before the time of day is read
  back to the nanosecond, in UTC without a zone and shifted by its zone with one; after a \<^verbatim>\<open>T\<close> the zone
  is needed. The instant is that of the proleptic Gregorian calendar, with the first nine digits of the fraction.
\<close>

theorem parseDockerTimestamp_reads_stamps:
  assumes "stampValid year month day hh mm ss ds"
  shows "parseDockerTimestamp (stampText (CHR '' '') year month day hh mm ss @ fractionText ds) =
      Some (stampTime year month day hh mm ss ds 0) \<and>
    (zoneValid z \<longrightarrow> sep \<in> {CHR '' '', CHR ''T''} \<longrightarrow>
       parseDockerTimestamp (stampText sep year month day hh mm ss @ fractionText ds @ zoneText z) =
         Some (stampTime year month day hh mm ss ds (zoneSeconds z)))"
  using parseDockerTimestamp_stamp [OF assms] parseDockerTimestamp_zone [OF assms] by blast

theorem parseDockerTimestamp_reads_stamps_witness:
  "parseDockerTimestamp ''2024-03-01 12:30:45.123456'' = Some (63844893045123456 * 1000) \<and>
   parseDockerTimestamp ''2024-03-01T12:30:45.123456+02:00'' = Some ((63844893045123456 - 7200 * 1000000) * 1000)"
proof -
  have valid: "stampValid 2024 3 1 12 30 45 ''123456''" "zoneValid (East 2 0)"
    by code_simp+
  have texts: "stampText (CHR '' '') 2024 3 1 12 30 45 @ fractionText ''123456'' = ''2024-03-01 12:30:45.123456''"
      "stampText (CHR ''T'') 2024 3 1 12 30 45 @ fractionText ''123456'' @ zoneText (East 2 0) =
        ''2024-03-01T12:30:45.123456+02:00''"
      "stampTime 2024 3 1 12 30 45 ''123456'' 0 = 63844893045123456 * 1000"
      "stampTime 2024 3 1 12 30 45 ''123456'' (zoneSeconds (East 2 0)) = (63844893045123456 - 7200 * 1000000) * 1000"
    by code_simp+
  show ?thesis
    using parseDockerTimestamp_reads_stamps [OF valid(1), of "East 2 0" "CHR ''T''"] valid(2) texts by simp
qed

end
