(* ===== verification/ScrapeCache.thy ===== *)
theory ScrapeCache
  imports Metrics RedisClient
begin

text \<open>
  The shape the scrape-time collectors share (\<^verbatim>\<open>queue_collector.go\<close>, \<^verbatim>\<open>crm_collector.go\<close>):
  \<^verbatim>\<open>Collect\<close>, under one mutex, sends the cached metrics again for 15 seconds after a successful
  scrape, and otherwise scrapes Redis. A scrape appends to the cache as it goes, so what an early
  return leaves there is part of the behaviour: a computation here runs on the world of the Redis
  client together with the collector, and keeps both on an error.
\<close>

record scrapeCollector =
  scrapedMetrics :: "metric list"
  lastScrapeTime :: gotime
  scrape_filter :: metricFilter

type_synonym ('s, 'a) sio = "('s world \<times> scrapeCollector, 'a) io"

text \<open>
  The readings of the clock in one \<^verbatim>\<open>Collect\<close>: its \<^verbatim>\<open>time.Since\<close>, \<^verbatim>\<open>scrapeTime\<close>, the new
  \<^verbatim>\<open>lastScrapeTime\<close>, and the \<^verbatim>\<open>time.Since\<close> of the duration gauge.
\<close>

record scrapeClock =
  t_collect :: gotime
  t_scrape :: gotime
  t_done :: gotime
  t_gauge :: gotime

definition onClient :: "('s, 'a) rio \<Rightarrow> ('s, 'a) sio" where
  "onClient m = (\<lambda>(w, c). case m w of (r, w') \<Rightarrow> (r, (w', c)))"

definition self :: "('s, scrapeCollector) sio" where
  "self = (\<lambda>(w, c). (Ok c, (w, c)))"

definition assign :: "(scrapeCollector \<Rightarrow> scrapeCollector) \<Rightarrow> ('s, unit) sio" where
  "assign f = (\<lambda>(w, c). (Ok (), (w, f c)))"

text \<open>
  \<^verbatim>\<open>if collector.metricFilter.Enabled(name) { collector.cachedMetrics =
  append(collector.cachedMetrics, prometheus.MustNewConstMetric(...)) }\<close>
\<close>

definition exportCached ::
  "(string \<Rightarrow> bool) \<Rightarrow> string \<Rightarrow> desc \<Rightarrow> valueType \<Rightarrow> f64 \<Rightarrow> string list \<Rightarrow> ('s, unit) sio" where
  "exportCached labelOk name d t v ls =
     io_bind self (\<lambda>c.
       if Enabled (scrape_filter c) name
       then io_bind (MustNewConstMetric labelOk d t v ls) (\<lambda>m.
              assign (\<lambda>c. c\<lparr>scrapedMetrics := scrapedMetrics c @ [m]\<rparr>))
       else io_return ())"

text \<open>\<^verbatim>\<open>value, err := parse(text); if err == nil { if collector.metricFilter.Enabled(name) { ... } }\<close>\<close>

definition exportParsed ::
  "(string \<Rightarrow> bool) \<Rightarrow> string \<Rightarrow> desc \<Rightarrow> f64 option \<Rightarrow> string list \<Rightarrow> ('s, unit) sio" where
  "exportParsed labelOk name d p ls =
     (case p of None \<Rightarrow> io_return () | Some v \<Rightarrow> exportCached labelOk name d GaugeValue v ls)"

text \<open>\<^verbatim>\<open>value, err := parseFloat(text)\<close>, with the error returned.\<close>

definition parsed :: "string \<Rightarrow> ('w, f64) io" where
  "parsed str =
     (case parseFloat str of
        None \<Rightarrow> io_fail (Wrapf ''value parse failed: %w'' [] (Errorf ''strconv.ParseFloat'' [str]))
      | Some v \<Rightarrow> io_return v)"

text \<open>\<^verbatim>\<open>xs[i]\<close> and \<^verbatim>\<open>xs[i:]\<close>, which panic out of bounds.\<close>

definition goIndex :: "'x list \<Rightarrow> nat \<Rightarrow> ('w, 'x) io" where
  "goIndex xs i = (if i < length xs then io_return (xs ! i) else (\<lambda>w. (Panic ''index out of range'', w)))"

definition goFrom :: "'x list \<Rightarrow> nat \<Rightarrow> ('w, 'x list) io" where
  "goFrom xs i =
     (if i \<le> length xs then io_return (drop i xs) else (\<lambda>w. (Panic ''slice bounds out of range'', w)))"

text \<open>A \<^verbatim>\<open>range\<close> loop whose body neither breaks nor carries variables.\<close>

primrec forEach :: "('x \<Rightarrow> ('w, unit) io) \<Rightarrow> 'x list \<Rightarrow> ('w, unit) io" where
  "forEach body [] = io_return ()"
| "forEach body (x # xs) = io_bind (body x) (\<lambda>_. forEach body xs)"

text \<open>
  \<^verbatim>\<open>scrapeMetrics\<close> around its reads, \<open>body\<close>: the client is opened before the cache is reset, and
  closed on every way out.
\<close>

definition scrapeWith ::
  "(string \<Rightarrow> bool) \<Rightarrow> 's redisLib \<Rightarrow> string \<Rightarrow> desc \<Rightarrow> scrapeClock \<Rightarrow> (redisConfig \<Rightarrow> ('s, unit) sio) \<Rightarrow> ('s, unit) sio" where
  "scrapeWith labelOk lib durName durDesc clk body =
     io_bind (io_wrap ''redis client initialization failed: %w'' [] (onClient (NewClient lib))) (\<lambda>cfg.
     io_defer (\<lambda>(w, c). (Close lib w, c))
       (io_bind (assign (\<lambda>c. c\<lparr>scrapedMetrics := []\<rparr>)) (\<lambda>_.
        io_bind (body cfg) (\<lambda>_.
        io_bind (assign (\<lambda>c. c\<lparr>lastScrapeTime := t_done clk\<rparr>)) (\<lambda>_.
        exportCached labelOk durName durDesc GaugeValue
          (durSeconds (timeSub (t_gauge clk) (t_scrape clk))) [])))))"

text \<open>\<^verbatim>\<open>err := scrape(); if err != nil { scrapeSuccess = 0 }\<close>\<close>

definition attempt :: "('w, unit) io \<Rightarrow> ('w, f64) io" where
  "attempt m = (\<lambda>w. case m w of (r, w') \<Rightarrow>
     (case r of Ok _ \<Rightarrow> Ok f64_1 | Fail _ \<Rightarrow> Ok f64_0 | Panic p \<Rightarrow> Panic p | Hang \<Rightarrow> Hang, w'))"

definition collectWith ::
  "(string \<Rightarrow> bool) \<Rightarrow> string \<Rightarrow> desc \<Rightarrow> scrapeClock \<Rightarrow> ('s, unit) sio \<Rightarrow> ('s, metric list) sio" where
  "collectWith labelOk okName okDesc clk scrape =
     io_bind self (\<lambda>c.
       if timeSub (t_collect clk) (lastScrapeTime c) < 15 * second
       then io_return (scrapedMetrics c)
       else io_bind (attempt scrape) (\<lambda>scrapeSuccess.
            io_bind (exportCached labelOk okName okDesc GaugeValue scrapeSuccess []) (\<lambda>_.
            io_bind self (\<lambda>c. io_return (scrapedMetrics c)))))"

text \<open>A new collector.\<close>

definition scrape_new :: "metricFilter \<Rightarrow> scrapeCollector" where
  "scrape_new flt = \<lparr>scrapedMetrics = [], lastScrapeTime = 0, scrape_filter = flt\<rparr>"

text \<open>The states after any number of \<^verbatim>\<open>Collect\<close>s that returned, each with the Redis of its time.\<close>

inductive collected :: "(scrapeClock \<Rightarrow> ('s, metric list) sio) \<Rightarrow> scrapeCollector \<Rightarrow> scrapeCollector \<Rightarrow> bool"
  for collect c0 where
  collected_new: "collected collect c0 c0"
| collected_step: "collected collect c0 c \<Longrightarrow> collect clk (w, c) = (Ok ms, (w', c')) \<Longrightarrow> collected collect c0 c'"

text \<open>Several \<^verbatim>\<open>Collect\<close>s one after the other, and what each sent.\<close>

primrec collectEach :: "(scrapeClock \<Rightarrow> ('s, metric list) sio) \<Rightarrow> scrapeClock list \<Rightarrow> ('s, metric list list) sio" where
  "collectEach collect [] = io_return []"
| "collectEach collect (clk # clks) =
     io_bind (collect clk) (\<lambda>ms. io_bind (collectEach collect clks) (\<lambda>rest. io_return (ms # rest)))"

subsection \<open>Invariants of a scrape\<close>

definition filteredBy :: "metricFilter \<Rightarrow> 's world \<times> scrapeCollector \<Rightarrow> bool" where
  "filteredBy flt wc = (scrape_filter (snd wc) = flt)"

definition sendable :: "(string \<Rightarrow> bool) \<Rightarrow> metricFilter \<Rightarrow> desc list \<Rightarrow> 's world \<times> scrapeCollector \<Rightarrow> bool" where
  "sendable labelOk flt descs wc =
     (scrape_filter (snd wc) = flt \<and> list_all (goodMetric labelOk flt descs) (scrapedMetrics (snd wc)))"

definition scrapedAt :: "gotime \<Rightarrow> 's world \<times> scrapeCollector \<Rightarrow> bool" where
  "scrapedAt t wc = (lastScrapeTime (snd wc) = t)"

lemma keeps_onClient: "(\<And>w w' c. I (w, c) = I (w', c)) \<Longrightarrow> keeps I (onClient m)"
  by (auto simp: keeps_def onClient_def split: prod.split)

lemma keeps_onClient_sendable [keeps_rules]: "keeps (sendable labelOk flt descs) (onClient m)"
  by (rule keeps_onClient) (simp add: sendable_def)

lemma keeps_onClient_scrapedAt [keeps_rules]: "keeps (scrapedAt t) (onClient m)"
  by (rule keeps_onClient) (simp add: scrapedAt_def)

lemma keeps_onClient_filteredBy [keeps_rules]: "keeps (filteredBy flt) (onClient m)"
  by (rule keeps_onClient) (simp add: filteredBy_def)

lemma keeps_parsed [keeps_rules]: "keeps I (parsed str)"
  by (auto simp: parsed_def intro!: keeps_rules split: option.split)

lemma keeps_goIndex [keeps_rules]: "keeps I (goIndex xs i)"
  by (simp add: goIndex_def keeps_def io_return_def)

lemma keeps_goFrom [keeps_rules]: "keeps I (goFrom xs i)"
  by (simp add: goFrom_def keeps_def io_return_def)

lemma keeps_forEach [keeps_rules]: "(\<And>x. keeps I (body x)) \<Longrightarrow> keeps I (forEach body xs)"
  by (induction xs) (auto intro!: keeps_rules)

lemma exportCached_eq:
  "exportCached labelOk name d t v ls (w, c) =
     (if Enabled (scrape_filter c) name
      then if length ls = length (d_labels d) \<and> list_all labelOk ls
           then (Ok (), (w, c\<lparr>scrapedMetrics := scrapedMetrics c @ [constMetric d t v ls]\<rparr>))
           else (Panic ''MustNewConstMetric'', (w, c))
      else (Ok (), (w, c)))"
  by (simp add: exportCached_def self_def assign_def MustNewConstMetric_def io_bind_def io_return_def)

lemma keeps_export_sendable [keeps_rules]:
  "d \<in> set descs \<Longrightarrow> fqName d = name \<Longrightarrow> keeps (sendable labelOk flt descs) (exportCached labelOk name d t v ls)"
  by (auto simp: keeps_def sendable_def exportCached_eq goodMetric_def)

lemma keeps_export_scrapedAt [keeps_rules]: "keeps (scrapedAt t) (exportCached labelOk name d vt v ls)"
  by (auto simp: keeps_def scrapedAt_def exportCached_eq)

lemma keeps_export_filteredBy [keeps_rules]: "keeps (filteredBy flt) (exportCached labelOk name d vt v ls)"
  by (auto simp: keeps_def filteredBy_def exportCached_eq)

lemma keeps_exportParsed [keeps_rules]:
  "(\<And>v. keeps I (exportCached labelOk name d GaugeValue v ls)) \<Longrightarrow> keeps I (exportParsed labelOk name d p ls)"
  by (auto simp: exportParsed_def intro!: keeps_rules split: option.split)

lemma keeps_defer: "keeps I m \<Longrightarrow> (\<And>w. I w \<Longrightarrow> I (cleanup w)) \<Longrightarrow> keeps I (io_defer cleanup m)"
  by (fastforce simp: keeps_def io_defer_def split: prod.splits outcome.splits)

lemma keeps_attempt [keeps_rules]: "keeps I m \<Longrightarrow> keeps I (attempt m)"
  by (fastforce simp: keeps_def attempt_def split: prod.splits)

lemma keeps_self [keeps_rules]: "keeps I self"
  by (auto simp: keeps_def self_def)

subsection \<open>The contract of a scrape-time cache\<close>

text \<open>
  What a collector's reads, \<open>body\<close>, promise: they append only metrics the collector describes and
  the filter lets through, and leave the time of the last scrape alone. The lemmas are what every
  such collector then has, whatever it reads.
\<close>

locale scrape_cache =
  fixes labelOk :: "string \<Rightarrow> bool"
    and lib :: "'s redisLib"
    and durName :: string and durDesc :: desc
    and okName :: string and okDesc :: desc
    and descs :: "desc list"
    and body :: "redisConfig \<Rightarrow> ('s, unit) sio"
  assumes dur_desc: "durDesc \<in> set descs" "fqName durDesc = durName" "d_labels durDesc = []"
    and ok_desc: "okDesc \<in> set descs" "fqName okDesc = okName" "d_labels okDesc = []"
    and body_sendable: "keeps (sendable labelOk flt descs) (body cfg)"
    and body_time: "keeps (scrapedAt t) (body cfg)"
    and body_filter: "keeps (filteredBy flt) (body cfg)"
begin

abbreviation scrape :: "scrapeClock \<Rightarrow> ('s, unit) sio" where
  "scrape clk \<equiv> scrapeWith labelOk lib durName durDesc clk body"

abbreviation collect :: "scrapeClock \<Rightarrow> ('s, metric list) sio" where
  "collect clk \<equiv> collectWith labelOk okName okDesc clk (scrape clk)"

lemma scrape_sendable: "keeps (sendable labelOk flt descs) (scrape clk)"
  unfolding scrapeWith_def
  by (intro keeps_rules keeps_defer body_sendable dur_desc)
     (auto simp: keeps_def assign_def sendable_def)

lemma collect_sendable: "keeps (sendable labelOk flt descs) (collect clk)"
  unfolding collectWith_def
  by (intro keeps_rules scrape_sendable ok_desc)

lemma filter_kept: "collect clk (w, c) = (r, (w', c')) \<Longrightarrow> scrape_filter c' = scrape_filter c"
proof -
  have "keeps (filteredBy flt) (collect clk)" for flt
    unfolding collectWith_def scrapeWith_def
    by (intro keeps_rules keeps_defer body_filter) (auto simp: keeps_def assign_def filteredBy_def)
  then show "collect clk (w, c) = (r, (w', c')) \<Longrightarrow> scrape_filter c' = scrape_filter c"
    using keepsD [of "filteredBy (scrape_filter c)" "collect clk" "(w, c)"] by (simp add: filteredBy_def)
qed

lemma scrape_time:
  assumes "scrape clk (w, c) = (r, (w', c'))"
  shows "r = Ok () \<Longrightarrow> lastScrapeTime c' = t_done clk"
    and "r = Fail e \<Longrightarrow> lastScrapeTime c' = lastScrapeTime c"
proof -
  define c0 where "c0 = c\<lparr>scrapedMetrics := []\<rparr>"
  have body: "lastScrapeTime c2 = lastScrapeTime c" if "body cfg (w1, c0) = (r1, (w2, c2))" for cfg w1 r1 w2 c2
    using keepsD [OF body_time, of "lastScrapeTime c" "(w1, c0)" cfg] that
    by (simp add: scrapedAt_def c0_def)
  show "r = Ok () \<Longrightarrow> lastScrapeTime c' = t_done clk"
    and "r = Fail e \<Longrightarrow> lastScrapeTime c' = lastScrapeTime c"
  proof (atomize (full), cases "readEnv lib (server w)")
    case (Inl err)
    then show "(r = Ok () \<longrightarrow> lastScrapeTime c' = t_done clk) \<and> (r = Fail e \<longrightarrow> lastScrapeTime c' = lastScrapeTime c)"
      using assms by (auto simp: scrapeWith_def io_bind_def io_wrap_def onClient_def NewClient_def)
  next
    case (Inr cfg)
    obtain r1 w2 c2 where r1: "body cfg (w\<lparr>databases := []\<rparr>, c0) = (r1, (w2, c2))"
      by (metis prod.exhaust)
    with Inr assms body [OF r1]
    show "(r = Ok () \<longrightarrow> lastScrapeTime c' = t_done clk) \<and> (r = Fail e \<longrightarrow> lastScrapeTime c' = lastScrapeTime c)"
      by (cases r1) (auto simp: scrapeWith_def io_bind_def io_wrap_def onClient_def NewClient_def io_defer_def
          assign_def exportCached_eq c0_def [symmetric] split: if_splits)
  qed
qed

lemma collect_sends_cache: "collect clk (w, c) = (Ok ms, (w', c')) \<Longrightarrow> ms = scrapedMetrics c'"
  by (auto simp: collectWith_def io_bind_def self_def io_return_def
      split: prod.splits outcome.splits if_splits)

lemma collect_fresh:
  "timeSub (t_collect clk) (lastScrapeTime c) < 15 * second \<Longrightarrow>
    collect clk (w, c) = (Ok (scrapedMetrics c), (w, c))"
  by (simp add: collectWith_def io_bind_def self_def io_return_def)

text \<open>A stale \<^verbatim>\<open>Collect\<close> either stores the time of its scrape or leaves the cache stale.\<close>

lemma collect_stale:
  assumes "collect clk (w, c) = (Ok ms, (w', c'))"
    and "\<not> timeSub (t_collect clk) (lastScrapeTime c) < 15 * second"
  shows "lastScrapeTime c' = (if fst (scrape clk (w, c)) = Ok () then t_done clk else lastScrapeTime c)"
proof -
  obtain r w1 c1 where s: "scrape clk (w, c) = (r, (w1, c1))" by (metis prod.exhaust)
  show ?thesis
    using assms scrape_time [OF s] s
    by (cases r) (auto simp: collectWith_def io_bind_def self_def io_return_def attempt_def exportCached_eq
        split: if_splits)
qed

lemma collected_sendable:
  assumes "collected collect c0 c" "scrapedMetrics c0 = []"
  shows "sendable labelOk (scrape_filter c0) descs (w :: 's world, c)"
  using assms
proof (induction arbitrary: w)
  case collected_new
  then show ?case by (simp add: sendable_def)
next
  case (collected_step c clk w0 ms w' c')
  from keepsD [OF collect_sendable collected_step.IH [OF collected_step.prems, of w0], of clk]
    collected_step.hyps(2)
  show ?case by (simp add: sendable_def)
qed

text \<open>Everything sent is good, after scrapes that failed half-way too.\<close>

lemma sent_good:
  assumes "collected collect c0 c" "scrapedMetrics c0 = []" "collect clk (w, c) = (Ok ms, (w', c'))"
  shows "list_all (goodMetric labelOk (scrape_filter c0) descs) ms"
  using collected_sendable [OF collected_step [OF assms(1,3)] assms(2)] collect_sends_cache [OF assms(3)]
  by (simp add: sendable_def)

text \<open>Without its configuration a client cannot be opened: the cache keeps what it has.\<close>

lemma collect_no_client:
  assumes "readEnv lib (server w) = Inl e"
    and "\<not> timeSub (t_collect clk) (lastScrapeTime c) < 15 * second"
  shows "collect clk (w, c) =
     (let ms = scrapedMetrics c @ gauges (scrape_filter c) [(okDesc, f64_0)]
      in (Ok ms, (w, c\<lparr>scrapedMetrics := ms\<rparr>)))"
  using assms ok_desc
  by (simp add: collectWith_def scrapeWith_def io_bind_def self_def io_return_def attempt_def exportCached_eq
      io_wrap_def onClient_def NewClient_def gauges_def Let_def)

lemma collectEach_no_client:
  assumes "readEnv lib (server w) = Inl e"
    and "\<forall>clk\<in>set clks. \<not> timeSub (t_collect clk) (lastScrapeTime c) < 15 * second"
  shows "fst (collectEach collect clks (w, c)) =
     Ok (map (\<lambda>n. scrapedMetrics c @ concat (replicate (Suc n) (gauges (scrape_filter c) [(okDesc, f64_0)]))) [0..<length clks])"
  using assms(2)
proof (induction clks arbitrary: c)
  case Nil
  then show ?case by (simp add: io_return_def)
next
  case (Cons clk clks)
  let ?g = "gauges (scrape_filter c) [(okDesc, f64_0)]"
  let ?c = "c\<lparr>scrapedMetrics := scrapedMetrics c @ ?g\<rparr>"
  have "collect clk (w, c) = (Ok (scrapedMetrics ?c), (w, ?c))"
    using collect_no_client [OF assms(1)] Cons.prems by (simp add: Let_def)
  moreover have "fst (collectEach collect clks (w, ?c)) =
      Ok (map (\<lambda>n. scrapedMetrics ?c @ concat (replicate (Suc n) ?g)) [0..<length clks])"
    using Cons.IH [of ?c] Cons.prems by simp
  ultimately show ?case
    by (cases "collectEach collect clks (w, ?c)")
       (simp add: io_bind_def io_return_def map_upt_Suc del: upt_Suc)
qed

text \<open>For 15 seconds after the scrape of a due \<^verbatim>\<open>Collect\<close> succeeded, its metrics are sent again.\<close>

lemma collect_resends:
  assumes "collect clk (w, c) = (Ok ms, (w', c'))" "\<not> timeSub (t_collect clk) (lastScrapeTime c) < 15 * second"
    and "fst (scrape clk (w, c)) = Ok ()" "timeSub (t_collect clk') (t_done clk) < 15 * second"
  shows "collectWith labelOk' okName' okDesc' clk' scrape' (w'', c') = (Ok ms, (w'', c'))"
  using collect_stale [OF assms(1,2)] collect_sends_cache [OF assms(1)] assms(3,4)
  by (simp add: collectWith_def io_bind_def self_def io_return_def)

end

subsection \<open>What a computation appends\<close>

text \<open>
  \<open>adds cfg flt m r ms\<close>: on a client with sound connections, and with the filter \<open>flt\<close>, \<open>m\<close> ends
  with \<open>r\<close>, an error included, having appended exactly \<open>ms\<close> to the cache.
\<close>

definition adds :: "redisConfig \<Rightarrow> metricFilter \<Rightarrow> ('s, 'a) sio \<Rightarrow> 'a outcome \<Rightarrow> metric list \<Rightarrow> bool" where
  "adds cfg flt m r ms =
     (\<forall>w c. handlesOk cfg w \<longrightarrow> scrape_filter c = flt \<longrightarrow>
        (\<exists>w'. m (w, c) = (r, (w', c\<lparr>scrapedMetrics := scrapedMetrics c @ ms\<rparr>)) \<and> handlesOk cfg w'))"

lemma adds_eq: "adds cfg flt m r ms \<Longrightarrow> r = r' \<Longrightarrow> ms = ms' \<Longrightarrow> adds cfg flt m r' ms'"
  by simp

lemma adds_return: "adds cfg flt (io_return x) (Ok x) []"
  by (simp add: adds_def io_return_def)

lemma adds_bind:
  assumes "adds cfg flt m (Ok x) xs" "adds cfg flt (f x) r ys"
  shows "adds cfg flt (io_bind m f) r (xs @ ys)"
  unfolding adds_def
proof (intro allI impI)
  fix w :: "'a world" and c :: scrapeCollector
  assume "handlesOk cfg w" "scrape_filter c = flt"
  with assms(1) obtain w1 where
    "m (w, c) = (Ok x, (w1, c\<lparr>scrapedMetrics := scrapedMetrics c @ xs\<rparr>))" "handlesOk cfg w1"
    unfolding adds_def by blast
  moreover have "scrape_filter (c\<lparr>scrapedMetrics := scrapedMetrics c @ xs\<rparr>) = flt"
    using \<open>scrape_filter c = flt\<close> by simp
  ultimately obtain w2 where
    "f x (w1, c\<lparr>scrapedMetrics := scrapedMetrics c @ xs\<rparr>) =
       (r, (w2, c\<lparr>scrapedMetrics := (scrapedMetrics c @ xs) @ ys\<rparr>))" "handlesOk cfg w2"
    using assms(2) unfolding adds_def by fastforce
  with \<open>m (w, c) = _\<close>
  show "\<exists>w'. io_bind m f (w, c) = (r, (w', c\<lparr>scrapedMetrics := scrapedMetrics c @ xs @ ys\<rparr>)) \<and> handlesOk cfg w'"
    by (simp add: io_bind_def)
qed

lemma adds_then: "adds cfg flt m (Ok ()) xs \<Longrightarrow> adds cfg flt m' r ys \<Longrightarrow> adds cfg flt (io_bind m (\<lambda>_. m')) r (xs @ ys)"
  by (rule adds_bind)

lemma adds_bind_fail: "adds cfg flt m (Fail e) xs \<Longrightarrow> adds cfg flt (io_bind m f) (Fail e) xs"
  unfolding adds_def io_bind_def by fastforce

lemma adds_wrap: "adds cfg flt m (Ok x) xs \<Longrightarrow> adds cfg flt (io_wrap msg args m) (Ok x) xs"
  unfolding adds_def io_wrap_def by fastforce

lemma adds_wrap_fail:
  "adds cfg flt m (Fail e) xs \<Longrightarrow> adds cfg flt (io_wrap msg args m) (Fail (Wrapf msg args e)) xs"
  unfolding adds_def io_wrap_def by fastforce

lemma adds_read: "yields (handlesOk cfg) m x \<Longrightarrow> adds cfg flt (onClient m) (Ok x) []"
  unfolding adds_def yields_def onClient_def by fastforce

lemma adds_parsed: "parseFloat str = Some v \<Longrightarrow> adds cfg flt (parsed str) (Ok v) []"
  by (simp add: parsed_def adds_return)

lemma adds_export:
  assumes "length ls = length (d_labels d)"
  shows "adds cfg flt (exportCached anyLabel name d t v ls) (Ok ())
     (if Enabled flt name then [constMetric d t v ls] else [])"
  using assms by (simp add: adds_def exportCached_eq list.pred_True)

definition gaugeIf :: "desc \<Rightarrow> f64 option \<Rightarrow> string list \<Rightarrow> metric list" where
  "gaugeIf d p ls = (case p of None \<Rightarrow> [] | Some v \<Rightarrow> [constMetric d GaugeValue v ls])"

text \<open>What a filter leaves of a list of metrics.\<close>

definition enabledOnly :: "metricFilter \<Rightarrow> metric list \<Rightarrow> metric list" where
  "enabledOnly flt = filter (\<lambda>m. Enabled flt (fqName (m_desc m)))"

lemma enabledOnly_append: "enabledOnly flt (ms @ ms') = enabledOnly flt ms @ enabledOnly flt ms'"
  by (simp add: enabledOnly_def)

lemma enabledOnly_Nil [simp]: "enabledOnly flt [] = []"
  by (simp add: enabledOnly_def)

lemma adds_gauge:
  assumes "length ls = length (d_labels d)" "fqName d = name"
  shows "adds cfg flt (exportCached anyLabel name d t v ls) (Ok ()) (enabledOnly flt [constMetric d t v ls])"
  using assms(2) by (intro adds_eq [OF adds_export [OF assms(1)]]) (auto simp: enabledOnly_def)

lemma adds_gaugeIf:
  assumes "length ls = length (d_labels d)" "fqName d = name"
  shows "adds cfg flt (exportParsed anyLabel name d p ls) (Ok ()) (enabledOnly flt (gaugeIf d p ls))"
  unfolding exportParsed_def gaugeIf_def
  by (cases p) (auto intro: adds_return adds_gauge [OF assms])

lemmas enabledOnly_simps = enabledOnly_append [symmetric]

lemma adds_when:
  "adds cfg flt m (Ok ()) ms \<Longrightarrow>
    adds cfg flt (if b then m else io_return ()) (Ok ()) (if b then ms else [])"
  by (simp add: adds_return)

lemma adds_index: "i < length xs \<Longrightarrow> adds cfg flt (goIndex xs i) (Ok (xs ! i)) []"
  by (simp add: goIndex_def adds_return)

lemma adds_from: "i \<le> length xs \<Longrightarrow> adds cfg flt (goFrom xs i) (Ok (drop i xs)) []"
  by (simp add: goFrom_def adds_return)

lemma adds_self:
  assumes "\<And>c. scrape_filter c = flt \<Longrightarrow> adds cfg flt (f c) r ms"
  shows "adds cfg flt (io_bind self f) r ms"
  using assms unfolding adds_def io_bind_def self_def by simp

lemma adds_forEach:
  "(\<And>x. x \<in> set xs \<Longrightarrow> adds cfg flt (body x) (Ok ()) (f x)) \<Longrightarrow>
    adds cfg flt (forEach body xs) (Ok ()) (concat (map f xs))"
  by (induction xs) (auto intro: adds_return adds_bind)

lemma adds_forEach_stops:
  assumes "\<And>x. x \<in> set xs \<Longrightarrow> adds cfg flt (body x) (Ok ()) (f x)" "adds cfg flt (body y) (Fail e) ms"
  shows "adds cfg flt (forEach body (xs @ y # ys)) (Fail e) (concat (map f xs) @ ms)"
  using assms by (induction xs) (auto intro: adds_bind adds_bind_fail)

text \<open>A whole \<^verbatim>\<open>Collect\<close> with a stale cache, when the reads of the scrape succeed and when they fail.\<close>

lemma collect_adds:
  assumes "adds cfg (scrape_filter c) (body cfg) r ms" "r = Ok () \<or> r = Fail e" "serves lib cfg db scan"
    and "\<not> timeSub (t_collect clk) (lastScrapeTime c) < 15 * second"
    and "fqName durDesc = durName" "d_labels durDesc = []" "fqName okDesc = okName" "d_labels okDesc = []"
  shows "fst (collectWith labelOk okName okDesc clk (scrapeWith labelOk lib durName durDesc clk body) (w, c)) =
     Ok (ms @ gauges (scrape_filter c)
       (case r of Ok _ \<Rightarrow> [(durDesc, durSeconds (timeSub (t_gauge clk) (t_scrape clk))), (okDesc, f64_1)]
        | _ \<Rightarrow> [(okDesc, f64_0)]))"
proof -
  let ?w = "w\<lparr>databases := []\<rparr>" and ?c = "c\<lparr>scrapedMetrics := []\<rparr>"
  have "NewClient lib w = (Ok cfg, ?w)"
    using assms(3) by (simp add: NewClient_def serves_def)
  moreover obtain w' where "body cfg (?w, ?c) = (r, (w', c\<lparr>scrapedMetrics := ms\<rparr>))"
    using assms(1) unfolding adds_def by (auto dest!: spec [of _ ?w] spec [of _ ?c])
  ultimately show ?thesis
    using assms(2,4-)
    by (auto simp: collectWith_def scrapeWith_def io_bind_def io_wrap_def onClient_def io_defer_def assign_def
        self_def attempt_def exportCached_eq io_return_def gauges_def)
qed

subsection \<open>Scrapes that end at the first value that does not parse\<close>

text \<open>
  The specification of such a scrape is the list of what it reads, in order: the metrics a value
  gives, or \<open>None\<close> where a value does not parse. The scrape sends what comes before the first \<open>None\<close>
  and succeeds when there is none.
\<close>

definition sentBefore :: "metric list option list \<Rightarrow> metric list" where
  "sentBefore ps = concat (map the (takeWhile (\<lambda>p. p \<noteq> None) ps))"

definition allParse :: "metric list option list \<Rightarrow> bool" where
  "allParse ps = list_all (\<lambda>p. p \<noteq> None) ps"

definition pieces :: "redisConfig \<Rightarrow> metricFilter \<Rightarrow> ('s, unit) sio \<Rightarrow> metric list option list \<Rightarrow> bool" where
  "pieces cfg flt m ps =
     (if allParse ps then adds cfg flt m (Ok ()) (sentBefore ps) else \<exists>e. adds cfg flt m (Fail e) (sentBefore ps))"

lemma pieces_eq: "pieces cfg flt m ps \<Longrightarrow> ps = qs \<Longrightarrow> pieces cfg flt m qs"
  by simp

lemma allParse_append [simp]: "allParse (ps @ qs) \<longleftrightarrow> allParse ps \<and> allParse qs"
  by (simp add: allParse_def)

lemma sentBefore_append: "sentBefore (ps @ qs) = sentBefore ps @ (if allParse ps then sentBefore qs else [])"
  unfolding sentBefore_def allParse_def list_all_iff
  by (auto simp: takeWhile_append takeWhile_eq_all_conv [THEN iffD2])

lemma pieces_adds: "adds cfg flt m (Ok ()) ms \<Longrightarrow> pieces cfg flt m [Some ms]"
  by (simp add: pieces_def allParse_def sentBefore_def)

lemma pieces_return: "pieces cfg flt (io_return ()) []"
  using adds_return [of cfg flt "()"] by (simp add: pieces_def allParse_def sentBefore_def)

text \<open>What comes after a value that does not parse is not read.\<close>

lemma pieces_None: "pieces cfg flt m (None # ps) = pieces cfg flt m [None]"
  by (simp add: pieces_def allParse_def sentBefore_def)

lemma pieces_fail: "pieces cfg flt (io_fail e) [None]"
  by (auto simp: pieces_def allParse_def sentBefore_def adds_def io_fail_def intro: exI [of _ e])

lemma pieces_read: "adds cfg flt m (Ok x) [] \<Longrightarrow> pieces cfg flt (f x) ps \<Longrightarrow> pieces cfg flt (io_bind m f) ps"
  using adds_bind [of cfg flt m x "[]" f] by (fastforce simp: pieces_def split: if_splits)

lemma pieces_then:
  assumes "pieces cfg flt m ps" "pieces cfg flt m' qs"
  shows "pieces cfg flt (io_bind m (\<lambda>_. m')) (ps @ qs)"
proof (cases "allParse ps")
  case True
  with assms adds_then [of cfg flt m "sentBefore ps"] show ?thesis
    by (auto simp: pieces_def sentBefore_append split: if_splits)
next
  case False
  with assms(1) adds_bind_fail [of cfg flt m _ "sentBefore ps" "\<lambda>_. m'"] show ?thesis
    by (auto simp: pieces_def sentBefore_append)
qed

lemma pieces_wrap: "pieces cfg flt m ps \<Longrightarrow> pieces cfg flt (io_wrap msg args m) ps"
  using adds_wrap [of cfg flt m "()"] adds_wrap_fail [of cfg flt m] by (fastforce simp: pieces_def split: if_splits)

lemma pieces_forEach:
  "(\<And>x. x \<in> set xs \<Longrightarrow> pieces cfg flt (body x) (f x)) \<Longrightarrow> pieces cfg flt (forEach body xs) (concat (map f xs))"
  by (induction xs) (auto intro: pieces_return pieces_then)

text \<open>A part that runs when its metric is enabled.\<close>

lemma pieces_enabled:
  assumes "pieces cfg flt m ps"
  shows "pieces cfg flt (io_bind self (\<lambda>c. if Enabled (scrape_filter c) name then m else io_return ()))
     (if Enabled flt name then ps else [])"
proof -
  have "adds cfg flt (io_bind self (\<lambda>c. if Enabled (scrape_filter c) name then m else io_return ())) r ms =
      adds cfg flt (if Enabled flt name then m else io_return ()) r ms" for r ms
    by (simp add: adds_def io_bind_def self_def)
  then have "pieces cfg flt (io_bind self (\<lambda>c. if Enabled (scrape_filter c) name then m else io_return ())) qs =
      pieces cfg flt (if Enabled flt name then m else io_return ()) qs" for qs
    by (simp add: pieces_def)
  then show ?thesis
    using assms by (simp add: pieces_return)
qed

lemma pieces_parsed:
  assumes "\<And>v. parseFloat str = Some v \<Longrightarrow> pieces cfg flt (f v) (ps v)"
  shows "pieces cfg flt (io_bind (parsed str) f) (case parseFloat str of None \<Rightarrow> [None] | Some v \<Rightarrow> ps v)"
proof (cases "parseFloat str")
  case None
  then show ?thesis using pieces_fail by (simp add: parsed_def io_bind_def io_fail_def)
next
  case (Some v)
  then show ?thesis
    using pieces_read [where f = f, OF adds_parsed [OF Some] assms [OF Some]] by simp
qed

text \<open>A value that is read and exported on one description.\<close>

definition valuePiece :: "metricFilter \<Rightarrow> desc \<Rightarrow> valueType \<Rightarrow> string \<Rightarrow> string list \<Rightarrow> metric list option" where
  "valuePiece flt d t str ls = map_option (\<lambda>v. enabledOnly flt [constMetric d t v ls]) (parseFloat str)"

lemma pieces_value:
  assumes "length ls = length (d_labels d)" "fqName d = name"
  shows "pieces cfg flt (io_bind (parsed str) (\<lambda>v. exportCached anyLabel name d t v ls)) [valuePiece flt d t str ls]"
  by (rule pieces_eq, rule pieces_parsed, rule pieces_adds, rule adds_gauge [OF assms])
     (simp add: valuePiece_def split: option.split)

lemma pieces_next:
  assumes "length ls = length (d_labels d)" "fqName d = name" "pieces cfg flt m ps"
  shows "pieces cfg flt (io_bind (parsed str) (\<lambda>v. io_bind (exportCached anyLabel name d t v ls) (\<lambda>_. m)))
     (valuePiece flt d t str ls # ps)"
proof -
  have "pieces cfg flt (io_bind (parsed str) (\<lambda>v. io_bind (exportCached anyLabel name d t v ls) (\<lambda>_. m)))
      (case parseFloat str of None \<Rightarrow> [None] | Some v \<Rightarrow> [Some (enabledOnly flt [constMetric d t v ls])] @ ps)"
    by (rule pieces_parsed, rule pieces_then [OF pieces_adds [OF adds_gauge [OF assms(1,2)]] assms(3)])
  then show ?thesis
    by (cases "parseFloat str") (simp_all add: valuePiece_def pieces_None [of cfg flt _ ps])
qed

text \<open>A whole \<^verbatim>\<open>Collect\<close> with a stale cache.\<close>

definition scrapeGauges :: "desc \<Rightarrow> desc \<Rightarrow> scrapeClock \<Rightarrow> bool \<Rightarrow> (desc \<times> f64) list" where
  "scrapeGauges durDesc okDesc clk complete =
     (if complete then [(durDesc, durSeconds (timeSub (t_gauge clk) (t_scrape clk))), (okDesc, f64_1)] else [(okDesc, f64_0)])"

lemma collect_pieces:
  assumes "pieces cfg (scrape_filter c) (body cfg) ps" "serves lib cfg db scan"
    and "\<not> timeSub (t_collect clk) (lastScrapeTime c) < 15 * second"
    and "fqName durDesc = durName" "d_labels durDesc = []" "fqName okDesc = okName" "d_labels okDesc = []"
  shows "fst (collectWith labelOk okName okDesc clk (scrapeWith labelOk lib durName durDesc clk body) (w, c)) =
     Ok (sentBefore ps @ gauges (scrape_filter c) (scrapeGauges durDesc okDesc clk (allParse ps)))"
proof (cases "allParse ps")
  case True
  with assms(1) have "adds cfg (scrape_filter c) (body cfg) (Ok ()) (sentBefore ps)"
    by (simp add: pieces_def)
  from collect_adds [where body = body, OF this _ assms(2-7)] True show ?thesis by (simp add: scrapeGauges_def)
next
  case False
  with assms(1) obtain e where "adds cfg (scrape_filter c) (body cfg) (Fail e) (sentBefore ps)"
    by (auto simp: pieces_def)
  from collect_adds [where body = body, OF this _ assms(2-7)] False show ?thesis by (simp add: scrapeGauges_def)
qed

lemma scrape_pieces:
  assumes "pieces cfg (scrape_filter c) (body cfg) ps" "serves lib cfg db scan" "allParse ps"
    and "fqName durDesc = durName" "d_labels durDesc = []"
  shows "fst (scrapeWith anyLabel lib durName durDesc clk body (w, c)) = Ok ()"
proof -
  let ?w = "w\<lparr>databases := []\<rparr>" and ?c = "c\<lparr>scrapedMetrics := []\<rparr>"
  have "NewClient lib w = (Ok cfg, ?w)"
    using assms(2) by (simp add: NewClient_def serves_def)
  moreover obtain w' where "body cfg (?w, ?c) = (Ok (), (w', c\<lparr>scrapedMetrics := sentBefore ps\<rparr>))"
    using assms(1,3) unfolding pieces_def adds_def by (auto dest!: spec [of _ ?w] spec [of _ ?c])
  ultimately show ?thesis
    using assms(4,5) by (simp add: scrapeWith_def io_bind_def io_wrap_def onClient_def io_defer_def assign_def exportCached_eq)
qed

text \<open>Readings of the clock for the examples: a scrape that takes one second.\<close>

definition demoClock :: "gotime \<Rightarrow> scrapeClock" where
  "demoClock t = \<lparr>t_collect = t, t_scrape = t, t_done = t + second, t_gauge = t + second\<rparr>"

end
