(* ===== verification/Queue.thy ===== *)
theory Queue
  imports ScrapeCache
begin

text \<open>
  \<^verbatim>\<open>queue_collector.go\<close>: the counters and watermarks of the queues named in
  \<^verbatim>\<open>COUNTERS_QUEUE_NAME_MAP\<close>, read from \<^verbatim>\<open>COUNTERS_DB\<close> when Prometheus scrapes.
\<close>

subsection \<open>Construction\<close>

definition queuePackets :: desc where [desc_defs]:
  "queuePackets = NewDesc ''sonic'' ''queue'' ''packets_total''
     ''Number of packets in a queue'' [''device'', ''queue'']"

definition queueBytes :: desc where [desc_defs]:
  "queueBytes = NewDesc ''sonic'' ''queue'' ''bytes_total''
     ''Number of bytes in a queue'' [''device'', ''queue'']"

definition queueDroppedPackets :: desc where [desc_defs]:
  "queueDroppedPackets = NewDesc ''sonic'' ''queue'' ''dropped_packets_total''
     ''Number of dropped packets in a queue'' [''device'', ''queue'']"

definition queueDroppedBytes :: desc where [desc_defs]:
  "queueDroppedBytes = NewDesc ''sonic'' ''queue'' ''dropped_bytes_total''
     ''Number of dropped bytes in a queue'' [''device'', ''queue'']"

definition queueSharedWatermarkBytes :: desc where [desc_defs]:
  "queueSharedWatermarkBytes = NewDesc ''sonic'' ''queue'' ''shared_watermark_bytes_total''
     ''Number of shared watermark bytes in a queue'' [''device'', ''queue'']"

definition queueWatermarksBytes :: desc where [desc_defs]:
  "queueWatermarksBytes = NewDesc ''sonic'' ''queue'' ''watermark_bytes_total''
     ''Network device property: watermarks of queue'' [''device'', ''queue'', ''type'', ''watermark'']"

definition queueScrapeDuration :: desc where [desc_defs]:
  "queueScrapeDuration = NewDesc ''sonic'' ''queue'' ''scrape_duration_seconds''
     ''Time it took for prometheus to scrape sonic queue metrics'' []"

definition queueScrapeCollectorSuccess :: desc where [desc_defs]:
  "queueScrapeCollectorSuccess = NewDesc ''sonic'' ''queue'' ''collector_success''
     ''Whether queue collector succeeded'' []"

definition NewQueueCollector :: "metricFilter \<Rightarrow> scrapeCollector" where
  "NewQueueCollector flt = scrape_new flt"

definition queue_Describe :: "desc list" where
  "queue_Describe =
     [queuePackets,
      queueBytes,
      queueDroppedPackets,
      queueDroppedBytes,
      queueSharedWatermarkBytes,
      queueWatermarksBytes,
      queueScrapeDuration,
      queueScrapeCollectorSuccess]"

subsection \<open>Scraping Redis\<close>

definition collectQueueCounters ::
  "(string \<Rightarrow> bool) \<Rightarrow> 's redisLib \<Rightarrow> redisConfig \<Rightarrow> string \<Rightarrow> string \<Rightarrow> string \<Rightarrow> ('s, unit) sio" where
  "collectQueueCounters labelOk lib cfg interfaceName queueNumber counterKey =
     (let export = (\<lambda>name d v. exportCached labelOk name d CounterValue v [interfaceName, queueNumber]) in
      io_bind (io_wrap ''redis read failed: %w'' [] (onClient (HgetAllFromDb lib cfg ''COUNTERS_DB'' counterKey))) (\<lambda>counters.
      io_bind (parsed (field counters ''SAI_QUEUE_STAT_PACKETS'')) (\<lambda>packets.
      io_bind (export ''sonic_queue_packets_total'' queuePackets packets) (\<lambda>_.
      io_bind (parsed (field counters ''SAI_QUEUE_STAT_BYTES'')) (\<lambda>bytes.
      io_bind (export ''sonic_queue_bytes_total'' queueBytes bytes) (\<lambda>_.
      io_bind (parsed (field counters ''SAI_QUEUE_STAT_DROPPED_PACKETS'')) (\<lambda>droppedPackets.
      io_bind (export ''sonic_queue_dropped_packets_total'' queueDroppedPackets droppedPackets) (\<lambda>_.
      io_bind (parsed (field counters ''SAI_QUEUE_STAT_DROPPED_BYTES'')) (\<lambda>droppedBytes.
      io_bind (export ''sonic_queue_dropped_bytes_total'' queueDroppedBytes droppedBytes) (\<lambda>_.
      io_bind (parsed (field counters ''SAI_QUEUE_STAT_SHARED_WATERMARK_BYTES'')) (\<lambda>sharedWatermarkBytes.
      export ''sonic_queue_shared_watermark_bytes_total'' queueSharedWatermarkBytes sharedWatermarkBytes)))))))))))"

text \<open>The two prefixes and the suffix taken off a watermark's name.\<close>

definition watermarkLabelOf :: "string \<Rightarrow> string" where
  "watermarkLabelOf watermarkKey =
     (let watermarkLabel = fold (\<lambda>pre l. trimPrefix l pre)
            [''SAI_QUEUE_STAT_'', ''SAI_INGRESS_PRIORITY_GROUP_STAT_''] watermarkKey
      in fold (\<lambda>suf l. trimSuffix l suf) [''_WATERMARK_BYTES''] watermarkLabel)"

definition collectQueueWatermarks ::
  "(string \<Rightarrow> bool) \<Rightarrow> 's redisLib \<Rightarrow> redisConfig \<Rightarrow> string \<Rightarrow> string \<Rightarrow> string \<Rightarrow> ('s, unit) sio" where
  "collectQueueWatermarks labelOk lib cfg interfaceName queueNumber queueName =
     forEach (\<lambda>watermarkType.
       io_bind (io_wrap ''redis read failed: %w'' []
                  (onClient (HgetAllFromDb lib cfg ''COUNTERS_DB'' (watermarkType @ ''_WATERMARKS:'' @ queueName)))) (\<lambda>watermarks.
       forEach (\<lambda>(watermarkKey, value).
         io_bind (parsed value) (\<lambda>watermarkValue.
         exportCached labelOk ''sonic_queue_watermark_bytes_total'' queueWatermarksBytes CounterValue watermarkValue
           [interfaceName, queueNumber, toLower watermarkType, toLower (watermarkLabelOf watermarkKey)]))
         watermarks))
       [''USER'', ''PERSISTENT'', ''PERIODIC'']"

text \<open>One turn of the loop over the names of the queues.\<close>

definition queue_entry ::
  "(string \<Rightarrow> bool) \<Rightarrow> 's redisLib \<Rightarrow> redisConfig \<Rightarrow> fields \<Rightarrow> string \<Rightarrow> ('s, unit) sio" where
  "queue_entry labelOk lib cfg queues queue =
     io_bind (goIndex (splitOn (CHR '':'') queue) 0) (\<lambda>interfaceName.
     io_bind (goIndex (splitOn (CHR '':'') queue) 1) (\<lambda>queueNumber.
     let counterKey = ''COUNTERS:'' @ field queues queue in
     io_bind (io_wrap ''queue counters collection failed: %w'' []
                (collectQueueCounters labelOk lib cfg interfaceName queueNumber counterKey)) (\<lambda>_.
     io_bind self (\<lambda>c.
     if Enabled (scrape_filter c) ''sonic_queue_watermark_bytes_total''
     then io_wrap ''queue watermarks collection failed: %w'' []
            (collectQueueWatermarks labelOk lib cfg interfaceName queueNumber (field queues queue))
     else io_return ()))))"

definition queue_reads :: "(string \<Rightarrow> bool) \<Rightarrow> 's redisLib \<Rightarrow> redisConfig \<Rightarrow> ('s, unit) sio" where
  "queue_reads labelOk lib cfg =
     io_bind (io_wrap ''redis read failed: %w'' []
                (onClient (HgetAllFromDb lib cfg ''COUNTERS_DB'' ''COUNTERS_QUEUE_NAME_MAP''))) (\<lambda>queues.
     forEach (queue_entry labelOk lib cfg queues) (mapKeys queues))"

definition queue_scrapeMetrics :: "(string \<Rightarrow> bool) \<Rightarrow> 's redisLib \<Rightarrow> scrapeClock \<Rightarrow> ('s, unit) sio" where
  "queue_scrapeMetrics labelOk lib clk =
     scrapeWith labelOk lib ''sonic_queue_scrape_duration_seconds'' queueScrapeDuration clk (queue_reads labelOk lib)"

definition queue_Collect :: "(string \<Rightarrow> bool) \<Rightarrow> 's redisLib \<Rightarrow> scrapeClock \<Rightarrow> ('s, metric list) sio" where
  "queue_Collect labelOk lib clk =
     collectWith labelOk ''sonic_queue_collector_success'' queueScrapeCollectorSuccess clk
       (queue_scrapeMetrics labelOk lib clk)"

subsection \<open>The descriptions\<close>

lemma fq_queue [simp]:
  "fqName queuePackets = ''sonic_queue_packets_total''"
  "fqName queueBytes = ''sonic_queue_bytes_total''"
  "fqName queueDroppedPackets = ''sonic_queue_dropped_packets_total''"
  "fqName queueDroppedBytes = ''sonic_queue_dropped_bytes_total''"
  "fqName queueSharedWatermarkBytes = ''sonic_queue_shared_watermark_bytes_total''"
  "fqName queueWatermarksBytes = ''sonic_queue_watermark_bytes_total''"
  "fqName queueScrapeDuration = ''sonic_queue_scrape_duration_seconds''"
  "fqName queueScrapeCollectorSuccess = ''sonic_queue_collector_success''"
  by (simp_all add: desc_defs)

lemma labels_queue [simp]:
  "length (d_labels queuePackets) = 2"
  "length (d_labels queueBytes) = 2"
  "length (d_labels queueDroppedPackets) = 2"
  "length (d_labels queueDroppedBytes) = 2"
  "length (d_labels queueSharedWatermarkBytes) = 2"
  "length (d_labels queueWatermarksBytes) = 4"
  "d_labels queueScrapeDuration = []"
  "d_labels queueScrapeCollectorSuccess = []"
  by (simp_all add: desc_defs)

lemma queue_described [simp]:
  "queuePackets \<in> set queue_Describe"
  "queueBytes \<in> set queue_Describe"
  "queueDroppedPackets \<in> set queue_Describe"
  "queueDroppedBytes \<in> set queue_Describe"
  "queueSharedWatermarkBytes \<in> set queue_Describe"
  "queueWatermarksBytes \<in> set queue_Describe"
  "queueScrapeDuration \<in> set queue_Describe"
  "queueScrapeCollectorSuccess \<in> set queue_Describe"
  by (simp_all add: queue_Describe_def)

lemma queue_names: "ownNames ''queue'' queue_Describe"
  by (simp add: ownNames_def queue_Describe_def subsystemOf_def desc_defs)

subsection \<open>The contract\<close>

lemmas queue_defs = queue_reads_def queue_entry_def collectQueueCounters_def collectQueueWatermarks_def

lemma queue_reads_keeps:
  "keeps (sendable labelOk flt queue_Describe) (queue_reads labelOk lib cfg)"
  "keeps (scrapedAt t) (queue_reads labelOk lib cfg)"
  "keeps (filteredBy flt) (queue_reads labelOk lib cfg)"
  unfolding queue_defs Let_def by (intro keeps_rules queue_described fq_queue)+

interpretation queue: scrape_cache labelOk lib "''sonic_queue_scrape_duration_seconds''" queueScrapeDuration
  "''sonic_queue_collector_success''" queueScrapeCollectorSuccess queue_Describe "queue_reads labelOk lib"
  rewrites "collectWith labelOk ''sonic_queue_collector_success'' queueScrapeCollectorSuccess clk
      (scrapeWith labelOk lib ''sonic_queue_scrape_duration_seconds'' queueScrapeDuration clk (queue_reads labelOk lib)) =
    queue_Collect labelOk lib clk"
  for labelOk lib
  by unfold_locales (simp_all add: queue_reads_keeps queue_Collect_def queue_scrapeMetrics_def)

subsection \<open>The specification of a scrape\<close>

definition queue_counterFields :: "(desc \<times> string) list" where
  "queue_counterFields =
     [(queuePackets, ''SAI_QUEUE_STAT_PACKETS''), (queueBytes, ''SAI_QUEUE_STAT_BYTES''),
      (queueDroppedPackets, ''SAI_QUEUE_STAT_DROPPED_PACKETS''), (queueDroppedBytes, ''SAI_QUEUE_STAT_DROPPED_BYTES''),
      (queueSharedWatermarkBytes, ''SAI_QUEUE_STAT_SHARED_WATERMARK_BYTES'')]"

text \<open>What a queue's entry reads, in order: its five counters and, unless they are disabled, its watermarks.\<close>

definition queue_counterPieces :: "metricFilter \<Rightarrow> string list \<Rightarrow> fields \<Rightarrow> metric list option list" where
  "queue_counterPieces flt ls counters =
     map (\<lambda>(d, f). valuePiece flt d CounterValue (field counters f) ls) queue_counterFields"

definition queue_watermarkPieces :: "metricFilter \<Rightarrow> string list \<Rightarrow> (string \<Rightarrow> fields) \<Rightarrow> string \<Rightarrow> metric list option list" where
  "queue_watermarkPieces flt ls counters queueId =
     concat (map (\<lambda>t. map (\<lambda>(k, v). valuePiece flt queueWatermarksBytes CounterValue v
         (ls @ [toLower t, toLower (watermarkLabelOf k)])) (counters (t @ ''_WATERMARKS:'' @ queueId)))
       [''USER'', ''PERSISTENT'', ''PERIODIC''])"

definition queue_piecesOf :: "metricFilter \<Rightarrow> (string \<Rightarrow> fields) \<Rightarrow> string \<Rightarrow> string \<Rightarrow> metric list option list" where
  "queue_piecesOf flt counters queueId queue =
     (let ls = [splitOn (CHR '':'') queue ! 0, splitOn (CHR '':'') queue ! 1]
      in queue_counterPieces flt ls (counters (''COUNTERS:'' @ queueId)) @
         (if Enabled flt ''sonic_queue_watermark_bytes_total'' then queue_watermarkPieces flt ls counters queueId else []))"

definition queue_nameMap :: "(int \<Rightarrow> string \<Rightarrow> fields) \<Rightarrow> fields" where
  "queue_nameMap db = db 2 ''COUNTERS_QUEUE_NAME_MAP''"

definition queue_spec :: "metricFilter \<Rightarrow> (int \<Rightarrow> string \<Rightarrow> fields) \<Rightarrow> metric list option list" where
  "queue_spec flt db =
     concat (map (\<lambda>queue. queue_piecesOf flt (db 2) (field (queue_nameMap db) queue) queue) (mapKeys (queue_nameMap db)))"

text \<open>Every queue of the name map has a number, \<open>device:number\<close>.\<close>

definition queue_numbered :: "(int \<Rightarrow> string \<Rightarrow> fields) \<Rightarrow> bool" where
  "queue_numbered db = list_all (\<lambda>queue. CHR '':'' \<in> set queue) (mapKeys (queue_nameMap db))"

lemma pieces_counters:
  assumes "serves lib cfg db scan"
  shows "pieces cfg flt (collectQueueCounters anyLabel lib cfg dev q key) (queue_counterPieces flt [dev, q] (db 2 key))"
  unfolding collectQueueCounters_def Let_def
  by (rule pieces_eq, rule pieces_read [OF adds_wrap [OF adds_read [OF yields_HgetAll [OF assms]]]], simp add: RedisDbId_def,
      (rule pieces_next, simp, simp)+, rule pieces_value, simp, simp)
    (simp add: queue_counterPieces_def queue_counterFields_def)

lemma pieces_watermarks:
  assumes "serves lib cfg db scan"
  shows "pieces cfg flt (collectQueueWatermarks anyLabel lib cfg dev q queueId) (queue_watermarkPieces flt [dev, q] (db 2) queueId)"
proof -
  have reading: "pieces cfg flt (case kv of (k, value) \<Rightarrow> io_bind (parsed value) (\<lambda>v.
        exportCached anyLabel ''sonic_queue_watermark_bytes_total'' queueWatermarksBytes CounterValue v
          [dev, q, toLower t, toLower (watermarkLabelOf k)]))
      [case kv of (k, v) \<Rightarrow> valuePiece flt queueWatermarksBytes CounterValue v
         ([dev, q] @ [toLower t, toLower (watermarkLabelOf k)])]" for kv t
    by (cases kv) (simp add: pieces_value)
  show ?thesis
    unfolding collectQueueWatermarks_def
    by (rule pieces_eq, rule pieces_forEach,
        rule pieces_read [OF adds_wrap [OF adds_read [OF yields_HgetAll [OF assms]]]], simp add: RedisDbId_def,
        rule pieces_forEach, rule reading)
      (simp add: queue_watermarkPieces_def concat_map_singleton split_def)
qed

lemma pieces_queue:
  assumes "serves lib cfg db scan" "CHR '':'' \<in> set queue"
  shows "pieces cfg flt (queue_entry anyLabel lib cfg queues queue) (queue_piecesOf flt (db 2) (field queues queue) queue)"
proof -
  have two: "1 < length (splitOn (CHR '':'') queue)"
    using assms(2) by (rule splitOn_two)
  then have one: "0 < length (splitOn (CHR '':'') queue)"
    by simp
  show ?thesis
    unfolding queue_entry_def Let_def queue_piecesOf_def
    by (intro pieces_read [OF adds_index [OF one]] pieces_read [OF adds_index [OF two]] pieces_then pieces_enabled
        pieces_wrap pieces_counters [OF assms(1)] pieces_watermarks [OF assms(1)])
qed

lemma pieces_queues:
  assumes "serves lib cfg db scan" "queue_numbered db"
  shows "pieces cfg flt (queue_reads anyLabel lib cfg) (queue_spec flt db)"
  unfolding queue_reads_def queue_spec_def
  by (rule pieces_read [OF adds_wrap [OF adds_read [OF yields_HgetAll [OF assms(1)]]]], simp add: RedisDbId_def,
      unfold queue_nameMap_def, rule pieces_forEach, rule pieces_queue [OF assms(1)])
    (use assms(2) in \<open>simp add: queue_numbered_def list_all_iff queue_nameMap_def\<close>)

lemma queue_Collect_complete:
  assumes "serves lib cfg db scan" "queue_numbered db"
    and "\<not> timeSub (t_collect clk) (lastScrapeTime c) < 15 * second"
  shows "fst (queue_Collect anyLabel lib clk (w, c)) = Ok (sentBefore (queue_spec (scrape_filter c) db) @
     gauges (scrape_filter c)
       (scrapeGauges queueScrapeDuration queueScrapeCollectorSuccess clk (allParse (queue_spec (scrape_filter c) db))))"
  unfolding queue_Collect_def queue_scrapeMetrics_def
  by (rule collect_pieces [where body = "queue_reads anyLabel lib", OF pieces_queues [OF assms(1,2)] assms(1,3)]) simp_all

lemma queue_stays_stale:
  assumes "queue_Collect labelOk lib clk (w, c) = (Ok ms, (w', c'))"
    and "\<not> timeSub (t_collect clk) (lastScrapeTime c) < 15 * second"
    and "fst (queue_scrapeMetrics labelOk lib clk (w, c)) \<noteq> Ok ()" "t_collect clk \<le> t_collect clk'"
  shows "\<not> timeSub (t_collect clk') (lastScrapeTime c') < 15 * second"
  using queue.collect_stale [OF assms(1,2)] assms(2,3) timeSub_mono [OF assms(4), of "lastScrapeTime c"]
  unfolding queue_scrapeMetrics_def [symmetric] by auto

lemma queue_filter_kept:
  "queue_Collect labelOk lib clk (w, c) = (r, (w', c')) \<Longrightarrow> scrape_filter c' = scrape_filter c"
  by (rule queue.filter_kept)

subsection \<open>Properties\<close>

definition queue_demoDb :: "int \<Rightarrow> string \<Rightarrow> fields" where
  "queue_demoDb n key =
     (if key = ''COUNTERS_QUEUE_NAME_MAP'' then [(''Ethernet0:1'', ''oid:0x15'')]
      else if key = ''COUNTERS:oid:0x15'' then [(''SAI_QUEUE_STAT_PACKETS'', ''7'')]
      else [])"

text \<open>The same with a second counter that is not a number.\<close>

definition queue_badDb :: "int \<Rightarrow> string \<Rightarrow> fields" where
  "queue_badDb n key =
     (if key = ''COUNTERS_QUEUE_NAME_MAP'' then [(''Ethernet0:1'', ''oid:0x15'')]
      else if key = ''COUNTERS:oid:0x15'' then [(''SAI_QUEUE_STAT_PACKETS'', ''7''), (''SAI_QUEUE_STAT_BYTES'', ''x'')]
      else [])"

definition queue_demo :: scrapeCollector where
  "queue_demo = NewQueueCollector (NewMetricFilter (\<lambda>_. None))"

lemma queue_demo_numbered: "queue_numbered queue_demoDb"
  by (simp add: queue_numbered_def queue_nameMap_def queue_demoDb_def mapKeys_def)

lemma queue_demo_stale: "\<not> timeSub (t_collect (demoClock (60 * second))) (lastScrapeTime queue_demo) < 15 * second"
  by (simp add: demoClock_def queue_demo_def NewQueueCollector_def scrape_new_def timeSub_def minInt64_def maxInt64_def)

lemma queue_demo_complete: "allParse (queue_spec flt queue_demoDb)"
  using parseFloat_7 parseFloat_Nil
  by (simp add: allParse_def queue_spec_def queue_piecesOf_def queue_counterPieces_def queue_counterFields_def
      queue_watermarkPieces_def valuePiece_def queue_nameMap_def queue_demoDb_def mapKeys_def Let_def)

text \<open>What its first \<^verbatim>\<open>Collect\<close> sends.\<close>

definition queue_demoSent :: "metric list" where
  "queue_demoSent = sentBefore (queue_spec (scrape_filter queue_demo) queue_demoDb) @ gauges (scrape_filter queue_demo)
     (scrapeGauges queueScrapeDuration queueScrapeCollectorSuccess (demoClock (60 * second))
       (allParse (queue_spec (scrape_filter queue_demo) queue_demoDb)))"

lemma queue_demo_scrapes:
  "fst (queue_scrapeMetrics anyLabel (staticLib localRedis queue_demoDb (\<lambda>_ _. [])) clk (\<lparr>server = (), databases = []\<rparr>, queue_demo)) = Ok ()"
  unfolding queue_scrapeMetrics_def
  by (rule scrape_pieces [OF pieces_queues [OF staticLib_serves queue_demo_numbered] staticLib_serves])
     (simp_all add: queue_demo_complete)

text \<open>
  C23. On a server that holds still and whose queues all have a number, a scrape that is due reads, for every
  queue of the name map and in its order, the five counters of its hash and, unless the filter disables them, its
  watermarks of the three kinds, each with the device and the queue number its name is made of. When all of them
  parse it sends them with its duration and a success of 1; otherwise those before the first that does not, without
  a duration and with a success of 0. What an earlier scrape left in the cache is gone.
\<close>

theorem queue_scrape_refines_spec:
  assumes "serves lib cfg db scan" "queue_numbered db"
    and "\<not> timeSub (t_collect clk) (lastScrapeTime c) < 15 * second"
  shows "fst (queue_Collect anyLabel lib clk (w, c)) =
    (let ps = queue_spec (scrape_filter c) db in
     Ok (sentBefore ps @ gauges (scrape_filter c)
       (if allParse ps
        then [(queueScrapeDuration, durSeconds (timeSub (t_gauge clk) (t_scrape clk))), (queueScrapeCollectorSuccess, f64_1)]
        else [(queueScrapeCollectorSuccess, f64_0)])))"
  unfolding queue_Collect_complete [OF assms] Let_def scrapeGauges_def by (rule refl)

theorem queue_scrape_refines_spec_witness:
  "fst (queue_Collect anyLabel (staticLib localRedis queue_demoDb (\<lambda>_ _. [])) (demoClock (60 * second))
      (\<lparr>server = (), databases = []\<rparr>, queue_demo)) =
    Ok (sentBefore (queue_spec (scrape_filter queue_demo) queue_demoDb) @
      gauges (scrape_filter queue_demo) [(queueScrapeDuration, durSeconds (timeSub (61 * second) (60 * second))),
        (queueScrapeCollectorSuccess, f64_1)]) \<and>
   fst (queue_Collect anyLabel (staticLib localRedis queue_badDb (\<lambda>_ _. [])) (demoClock (60 * second))
      (\<lparr>server = (), databases = []\<rparr>, queue_demo)) =
    Ok [constMetric queuePackets CounterValue (the (parseFloat ''7'')) [''Ethernet0'', ''1''],
        constMetric queueScrapeCollectorSuccess GaugeValue f64_0 []]"
proof -
  have bad: "queue_numbered queue_badDb"
    by (simp add: queue_numbered_def queue_nameMap_def queue_badDb_def mapKeys_def)
  have "parseFloat ''x'' = None"
    by code_simp
  moreover have "splitOn (CHR '':'') ''Ethernet0:1'' = [''Ethernet0'', ''1'']"
    by code_simp
  moreover have "Enabled (NewMetricFilter (\<lambda>_. None)) name" for name
    by (rule Enabled_empty) simp
  ultimately have "queue_spec (scrape_filter queue_demo) queue_badDb =
      Some [constMetric queuePackets CounterValue (the (parseFloat ''7'')) [''Ethernet0'', ''1'']] # None #
        tl (tl (queue_spec (scrape_filter queue_demo) queue_badDb))"
    by (simp add: queue_spec_def queue_piecesOf_def queue_counterPieces_def queue_counterFields_def valuePiece_def
        queue_nameMap_def queue_badDb_def mapKeys_def Let_def enabledOnly_def parseFloat_7 queue_demo_def
        NewQueueCollector_def scrape_new_def)
  then obtain rest where stop: "queue_spec (scrape_filter queue_demo) queue_badDb =
      Some [constMetric queuePackets CounterValue (the (parseFloat ''7'')) [''Ethernet0'', ''1'']] # None # rest"
    by blast
  have "gauges (scrape_filter queue_demo) [(queueScrapeCollectorSuccess, f64_0)] =
      [constMetric queueScrapeCollectorSuccess GaugeValue f64_0 []]"
    by (simp add: gauges_def queue_demo_def NewQueueCollector_def scrape_new_def Enabled_empty)
  moreover have "sentBefore (queue_spec (scrape_filter queue_demo) queue_badDb) =
      [constMetric queuePackets CounterValue (the (parseFloat ''7'')) [''Ethernet0'', ''1'']]"
    "\<not> allParse (queue_spec (scrape_filter queue_demo) queue_badDb)"
    by (simp_all add: stop sentBefore_def allParse_def)
  ultimately show ?thesis
    using queue_scrape_refines_spec [OF staticLib_serves queue_demo_numbered queue_demo_stale]
      queue_scrape_refines_spec [OF staticLib_serves bad queue_demo_stale]
    by (simp add: Let_def queue_demo_complete demoClock_def)
qed

text \<open>
  C27. A failed scrape delays nothing: whatever it left in the cache, the next \<^verbatim>\<open>Collect\<close>, at any
  later reading of the clock, finds the cache stale and scrapes again. On a server that then holds still and whose
  queues all have a number it sends what C23 says, complete and with success 1 when every value parses, and
  nothing of the failed scrape.
\<close>

theorem queue_recovers_after_failure:
  assumes "queue_Collect labelOk lib clk (w, c) = (Ok ms, (w', c'))"
    and "\<not> timeSub (t_collect clk) (lastScrapeTime c) < 15 * second"
    and "fst (queue_scrapeMetrics labelOk lib clk (w, c)) \<noteq> Ok ()"
    and "t_collect clk \<le> t_collect clk'"
    and "serves lib' cfg db scan" "queue_numbered db"
  shows "fst (queue_Collect anyLabel lib' clk' (w'', c')) =
    (let ps = queue_spec (scrape_filter c) db in
     Ok (sentBefore ps @ gauges (scrape_filter c)
       (if allParse ps
        then [(queueScrapeDuration, durSeconds (timeSub (t_gauge clk') (t_scrape clk'))), (queueScrapeCollectorSuccess, f64_1)]
        else [(queueScrapeCollectorSuccess, f64_0)])))"
  using queue_Collect_complete [OF assms(5,6) queue_stays_stale [OF assms(1-4)]] queue_filter_kept [OF assms(1)]
  by (simp add: Let_def scrapeGauges_def)

theorem queue_recovers_after_failure_witness:
  "\<exists>w' c'. fst (queue_Collect anyLabel (staticLib localRedis queue_demoDb (\<lambda>_ _. [])) (demoClock (61 * second)) (w', c')) =
    Ok (sentBefore (queue_spec (scrape_filter queue_demo) queue_demoDb) @
      gauges (scrape_filter queue_demo) [(queueScrapeDuration, durSeconds (timeSub (62 * second) (61 * second))),
        (queueScrapeCollectorSuccess, f64_1)]) \<and>
    scrapedMetrics c' = gauges (scrape_filter queue_demo) [(queueScrapeCollectorSuccess, f64_0)]"
proof -
  let ?w = "\<lparr>server = 0, databases = []\<rparr> :: nat world" and ?lib = "timedLib localRedis"
  let ?clk = "demoClock (60 * second)"
  obtain w1 where reads: "queue_reads anyLabel ?lib localRedis (?w, queue_demo) =
      (Fail (Wrapf ''redis read failed: %w'' [] (Errorf ''context deadline exceeded'' [])), (w1, queue_demo))"
    by (simp add: queue_reads_def io_bind_def io_wrap_def onClient_def HgetAllFromDb_def selectClient_def
        RedisDbId_def lookupDb_def connect_def io_return_def command_def timedLib_def)
  have empty: "queue_demo\<lparr>scrapedMetrics := []\<rparr> = queue_demo" "?w\<lparr>databases := []\<rparr> = ?w"
    by (simp_all add: queue_demo_def NewQueueCollector_def scrape_new_def)
  have scrape: "queue_scrapeMetrics anyLabel ?lib ?clk (?w, queue_demo) =
      (Fail (Wrapf ''redis read failed: %w'' [] (Errorf ''context deadline exceeded'' [])), (Close ?lib w1, queue_demo))"
    using reads empty
    by (simp add: queue_scrapeMetrics_def scrapeWith_def io_bind_def io_wrap_def onClient_def NewClient_def
        timedLib_def io_defer_def assign_def)
  let ?ms = "gauges (scrape_filter queue_demo) [(queueScrapeCollectorSuccess, f64_0)]"
  have "queue_Collect anyLabel ?lib ?clk (?w, queue_demo) =
      (Ok ?ms, (Close ?lib w1, queue_demo\<lparr>scrapedMetrics := ?ms\<rparr>))"
    using scrape queue_demo_stale empty(1)
    by (simp add: queue_Collect_def collectWith_def io_bind_def self_def attempt_def exportCached_eq io_return_def
        gauges_def) (simp add: queue_demo_def NewQueueCollector_def scrape_new_def)
  from queue_recovers_after_failure [OF this queue_demo_stale _ _ staticLib_serves queue_demo_numbered,
      of "demoClock (61 * second)"] scrape
  show ?thesis
    by (intro exI [of _ "\<lparr>server = (), databases = []\<rparr>"] exI [of _ "queue_demo\<lparr>scrapedMetrics := ?ms\<rparr>"])
       (simp add: demoClock_def queue_demo_complete Let_def)
qed

text \<open>
  C28. For 15 seconds after the scrape of a \<^verbatim>\<open>Collect\<close> that was due succeeded, \<^verbatim>\<open>Collect\<close> sends again exactly
  what that one sent, without a single access to Redis, whatever state Redis is in, and changes nothing: the seconds
  count from the end of the reads of that scrape.
\<close>

theorem queue_resends_cache:
  assumes "queue_Collect labelOk lib clk (w, c) = (Ok ms, (w', c'))"
    and "\<not> timeSub (t_collect clk) (lastScrapeTime c) < 15 * second"
    and "fst (queue_scrapeMetrics labelOk lib clk (w, c)) = Ok ()"
    and "timeSub (t_collect clk') (t_done clk) < 15 * second"
  shows "queue_Collect labelOk' lib' clk' (w'', c') = (Ok ms, (w'', c'))"
  unfolding queue_Collect_def
  by (rule queue.collect_resends [OF assms(1,2) assms(3) [unfolded queue_scrapeMetrics_def] assms(4)])

theorem queue_resends_cache_witness:
  "\<exists>w' c'. queue_Collect anyLabel (staticLib localRedis queue_demoDb (\<lambda>_ _. [])) (demoClock (60 * second))
      (\<lparr>server = (), databases = []\<rparr>, queue_demo) = (Ok queue_demoSent, (w', c')) \<and>
    queue_Collect anyLabel (timedLib localRedis) (demoClock (70 * second)) (\<lparr>server = 0, databases = []\<rparr>, c') =
      (Ok queue_demoSent, (\<lparr>server = 0, databases = []\<rparr>, c'))"
proof -
  let ?lib = "staticLib localRedis queue_demoDb (\<lambda>_ _. [])" and ?clk = "demoClock (60 * second)"
  let ?w = "\<lparr>server = (), databases = []\<rparr> :: unit world"
  obtain w' c' where run: "queue_Collect anyLabel ?lib ?clk (?w, queue_demo) = (Ok queue_demoSent, (w', c'))"
    using queue_Collect_complete [OF staticLib_serves queue_demo_numbered queue_demo_stale, of localRedis "\<lambda>_ _. []" ?w]
    unfolding queue_demoSent_def by (cases "queue_Collect anyLabel ?lib ?clk (?w, queue_demo)") auto
  have "fst (queue_scrapeMetrics anyLabel ?lib ?clk (?w, queue_demo)) = Ok ()"
    by (rule queue_demo_scrapes)
  from queue_resends_cache [OF run queue_demo_stale this, of "demoClock (70 * second)"] run show ?thesis
    by (auto simp: demoClock_def timeSub_def minInt64_def maxInt64_def)
qed

text \<open>
  C29. While the client cannot be opened (its configuration does not read), every due \<^verbatim>\<open>Collect\<close> appends
  one more success gauge 0, if it is enabled, to a cache that nothing resets: the n-th sends what the cache held
  before the outage, with that scrape's success gauge of 1, and then the same series n times, which the registry
  refuses.
\<close>

theorem queue_outage_repeats_success_gauge:
  assumes "readEnv lib (server w) = Inl e"
    and "\<forall>clk\<in>set clks. 15 * second \<le> timeSub (t_collect clk) (lastScrapeTime c)"
  shows "fst (collectEach (queue_Collect labelOk lib) clks (w, c)) =
    Ok (map (\<lambda>n. scrapedMetrics c @
        (if Enabled (scrape_filter c) ''sonic_queue_collector_success''
         then replicate (Suc n) (constMetric queueScrapeCollectorSuccess GaugeValue f64_0 []) else []))
      [0..<length clks])"
proof -
  have "concat (replicate n (gauges flt [(queueScrapeCollectorSuccess, f64_0)])) =
      (if Enabled flt ''sonic_queue_collector_success''
       then replicate n (constMetric queueScrapeCollectorSuccess GaugeValue f64_0 []) else [])" for n flt
    by (induction n) (simp_all add: gauges_def)
  with queue.collectEach_no_client [OF assms(1), of clks c labelOk] assms(2) show ?thesis
    by (simp add: not_less del: replicate_Suc)
qed

theorem queue_outage_repeats_success_gauge_witness:
  "fst (collectEach (queue_Collect anyLabel ((timedLib localRedis)\<lparr>readEnv := \<lambda>_. Inl (Errorf ''bad'' [])\<rparr>))
      [demoClock (60 * second), demoClock (61 * second)]
      (\<lparr>server = 0, databases = []\<rparr>,
       queue_demo\<lparr>scrapedMetrics := [constMetric queueScrapeCollectorSuccess GaugeValue f64_1 []]\<rparr>)) =
    Ok [[constMetric queueScrapeCollectorSuccess GaugeValue f64_1 [], constMetric queueScrapeCollectorSuccess GaugeValue f64_0 []],
        [constMetric queueScrapeCollectorSuccess GaugeValue f64_1 [], constMetric queueScrapeCollectorSuccess GaugeValue f64_0 [],
         constMetric queueScrapeCollectorSuccess GaugeValue f64_0 []]]"
  by (subst queue_outage_repeats_success_gauge)
     (simp_all add: demoClock_def timeSub_def minInt64_def maxInt64_def Enabled_empty queue_demo_def NewQueueCollector_def
        scrape_new_def)

end
