(* ===== verification/Crm.thy ===== *)
theory Crm
  imports ScrapeCache
begin

text \<open>
  \<^verbatim>\<open>crm_collector.go\<close>: the resource monitor's statistics, \<^verbatim>\<open>CRM:STATS\<close> and
  \<^verbatim>\<open>CRM:ACL_STATS:*\<close> in \<^verbatim>\<open>COUNTERS_DB\<close>, read when Prometheus scrapes.
\<close>

subsection \<open>Construction\<close>

definition crmResourceAvailable :: desc where [desc_defs]:
  "crmResourceAvailable = NewDesc ''sonic'' ''crm'' ''resource_available''
     ''Maximum available value for a resource'' [''resource'']"

definition crmResourceUsed :: desc where [desc_defs]:
  "crmResourceUsed = NewDesc ''sonic'' ''crm'' ''resource_used''
     ''Used value for a resource'' [''resource'']"

definition crmAclResourceAvailable :: desc where [desc_defs]:
  "crmAclResourceAvailable = NewDesc ''sonic'' ''crm'' ''acl_resource_available''
     ''Maximum available value for an ACL resource'' [''acl_target'', ''resource'']"

definition crmAclResourceUsed :: desc where [desc_defs]:
  "crmAclResourceUsed = NewDesc ''sonic'' ''crm'' ''acl_resource_used''
     ''Used value for an ACL resource'' [''acl_target'', ''resource'']"

definition crmScrapeDuration :: desc where [desc_defs]:
  "crmScrapeDuration = NewDesc ''sonic'' ''crm'' ''scrape_duration_seconds''
     ''Time it took for prometheus to scrape sonic crm metrics'' []"

definition crmScrapeCollectorSuccess :: desc where [desc_defs]:
  "crmScrapeCollectorSuccess = NewDesc ''sonic'' ''crm'' ''collector_success''
     ''Whether crm collector succeeded'' []"

definition NewCrmCollector :: "metricFilter \<Rightarrow> scrapeCollector" where
  "NewCrmCollector flt = scrape_new flt"

definition crm_Describe :: "desc list" where
  "crm_Describe =
     [crmResourceAvailable,
      crmResourceUsed,
      crmAclResourceAvailable,
      crmAclResourceUsed,
      crmScrapeDuration,
      crmScrapeCollectorSuccess]"

subsection \<open>Scraping Redis\<close>

text \<open>One turn of the loop over \<^verbatim>\<open>CRM:STATS\<close>.\<close>

definition crm_stat :: "(string \<Rightarrow> bool) \<Rightarrow> string \<times> string \<Rightarrow> ('s, unit) sio" where
  "crm_stat labelOk = (\<lambda>(stat, value).
     io_bind (parsed value) (\<lambda>parsedValue.
     io_bind
       (if hasSuffix stat ''available''
        then let label = trimSuffix (trimPrefix stat ''crm_stats_'') ''_available''
             in exportCached labelOk ''sonic_crm_resource_available'' crmResourceAvailable GaugeValue parsedValue [label]
        else io_return ()) (\<lambda>_.
     if hasSuffix stat ''used''
     then let label = trimSuffix (trimPrefix stat ''crm_stats_'') ''_used''
          in exportCached labelOk ''sonic_crm_resource_used'' crmResourceUsed GaugeValue parsedValue [label]
     else io_return ())))"

definition collectCrmStatsCounters :: "(string \<Rightarrow> bool) \<Rightarrow> fields \<Rightarrow> ('s, unit) sio" where
  "collectCrmStatsCounters labelOk crmStats = forEach (crm_stat labelOk) crmStats"

text \<open>One turn of the loop over the statistics of an ACL group, and over the groups' keys.\<close>

definition crm_aclStat :: "(string \<Rightarrow> bool) \<Rightarrow> string \<Rightarrow> string \<times> string \<Rightarrow> ('s, unit) sio" where
  "crm_aclStat labelOk aclTarget = (\<lambda>(stat, value).
     io_bind (parsed value) (\<lambda>parsedValue.
     io_bind
       (if hasSuffix stat ''available''
        then let label = trimSuffix (trimPrefix stat ''crm_stats_'') ''_available''
             in exportCached labelOk ''sonic_crm_acl_resource_available'' crmAclResourceAvailable GaugeValue parsedValue
                  [aclTarget, label]
        else io_return ()) (\<lambda>_.
     if hasSuffix stat ''used''
     then let label = trimSuffix (trimPrefix stat ''crm_stats_'') ''_used''
          in exportCached labelOk ''sonic_crm_acl_resource_used'' crmAclResourceUsed GaugeValue parsedValue
               [aclTarget, label]
     else io_return ())))"

definition crm_aclGroup :: "(string \<Rightarrow> bool) \<Rightarrow> 's redisLib \<Rightarrow> redisConfig \<Rightarrow> string \<Rightarrow> ('s, unit) sio" where
  "crm_aclGroup labelOk lib cfg key =
     io_bind (goFrom (splitOn (CHR '':'') key) 2) (\<lambda>parts.
     let aclTarget = toLower (joinWith ''_'' parts) in
     io_bind (io_wrap ''redis read failed: %w'' [] (onClient (HgetAllFromDb lib cfg ''COUNTERS_DB'' key))) (\<lambda>aclGroupStats.
     forEach (crm_aclStat labelOk aclTarget) aclGroupStats))"

definition collectCrmAclStats :: "(string \<Rightarrow> bool) \<Rightarrow> 's redisLib \<Rightarrow> redisConfig \<Rightarrow> ('s, unit) sio" where
  "collectCrmAclStats labelOk lib cfg =
     io_bind (io_wrap ''redis read failed: %w'' []
                (onClient (KeysFromDb lib cfg ''COUNTERS_DB'' ''CRM:ACL_STATS:*''))) (\<lambda>crmAclKeys.
     forEach (crm_aclGroup labelOk lib cfg) crmAclKeys)"

definition crm_reads :: "(string \<Rightarrow> bool) \<Rightarrow> 's redisLib \<Rightarrow> redisConfig \<Rightarrow> ('s, unit) sio" where
  "crm_reads labelOk lib cfg =
     io_bind (io_wrap ''redis read failed: %w'' [] (onClient (HgetAllFromDb lib cfg ''COUNTERS_DB'' ''CRM:STATS''))) (\<lambda>crmStats.
     io_bind (io_wrap ''crm stats collection failed: %w'' [] (collectCrmStatsCounters labelOk crmStats)) (\<lambda>_.
     io_wrap ''crm acl stats collection failed: %w'' [] (collectCrmAclStats labelOk lib cfg)))"

definition crm_scrapeMetrics :: "(string \<Rightarrow> bool) \<Rightarrow> 's redisLib \<Rightarrow> scrapeClock \<Rightarrow> ('s, unit) sio" where
  "crm_scrapeMetrics labelOk lib clk =
     scrapeWith labelOk lib ''sonic_crm_scrape_duration_seconds'' crmScrapeDuration clk (crm_reads labelOk lib)"

definition crm_Collect :: "(string \<Rightarrow> bool) \<Rightarrow> 's redisLib \<Rightarrow> scrapeClock \<Rightarrow> ('s, metric list) sio" where
  "crm_Collect labelOk lib clk =
     collectWith labelOk ''sonic_crm_collector_success'' crmScrapeCollectorSuccess clk
       (crm_scrapeMetrics labelOk lib clk)"

subsection \<open>The descriptions\<close>

lemma fq_crm [simp]:
  "fqName crmResourceAvailable = ''sonic_crm_resource_available''"
  "fqName crmResourceUsed = ''sonic_crm_resource_used''"
  "fqName crmAclResourceAvailable = ''sonic_crm_acl_resource_available''"
  "fqName crmAclResourceUsed = ''sonic_crm_acl_resource_used''"
  "fqName crmScrapeDuration = ''sonic_crm_scrape_duration_seconds''"
  "fqName crmScrapeCollectorSuccess = ''sonic_crm_collector_success''"
  by (simp_all add: desc_defs)

lemma labels_crm [simp]:
  "length (d_labels crmResourceAvailable) = 1"
  "length (d_labels crmResourceUsed) = 1"
  "length (d_labels crmAclResourceAvailable) = 2"
  "length (d_labels crmAclResourceUsed) = 2"
  "d_labels crmScrapeDuration = []"
  "d_labels crmScrapeCollectorSuccess = []"
  by (simp_all add: desc_defs)

lemma crm_described [simp]:
  "crmResourceAvailable \<in> set crm_Describe"
  "crmResourceUsed \<in> set crm_Describe"
  "crmAclResourceAvailable \<in> set crm_Describe"
  "crmAclResourceUsed \<in> set crm_Describe"
  "crmScrapeDuration \<in> set crm_Describe"
  "crmScrapeCollectorSuccess \<in> set crm_Describe"
  by (simp_all add: crm_Describe_def)

lemma crm_names: "ownNames ''crm'' crm_Describe"
  by (simp add: ownNames_def crm_Describe_def subsystemOf_def desc_defs)

subsection \<open>The contract\<close>

lemmas crm_defs = crm_reads_def collectCrmStatsCounters_def crm_stat_def collectCrmAclStats_def crm_aclGroup_def
  crm_aclStat_def

lemma crm_reads_keeps:
  "keeps (sendable labelOk flt crm_Describe) (crm_reads labelOk lib cfg)"
  "keeps (scrapedAt t) (crm_reads labelOk lib cfg)"
  "keeps (filteredBy flt) (crm_reads labelOk lib cfg)"
  unfolding crm_defs Let_def by (intro keeps_rules crm_described fq_crm)+

interpretation crm: scrape_cache labelOk lib "''sonic_crm_scrape_duration_seconds''" crmScrapeDuration
  "''sonic_crm_collector_success''" crmScrapeCollectorSuccess crm_Describe "crm_reads labelOk lib"
  rewrites "collectWith labelOk ''sonic_crm_collector_success'' crmScrapeCollectorSuccess clk
      (scrapeWith labelOk lib ''sonic_crm_scrape_duration_seconds'' crmScrapeDuration clk (crm_reads labelOk lib)) =
    crm_Collect labelOk lib clk"
  for labelOk lib
  by unfold_locales (simp_all add: crm_reads_keeps crm_Collect_def crm_scrapeMetrics_def)

subsection \<open>The specification of a scrape\<close>

text \<open>
  The resource a statistic is about, taken from its name, and the description it belongs to: a name
  that ends in neither word gives nothing.
\<close>

definition crm_statPiece :: "metricFilter \<Rightarrow> desc \<Rightarrow> desc \<Rightarrow> string list \<Rightarrow> string \<times> string \<Rightarrow> metric list option" where
  "crm_statPiece flt available used ls = (\<lambda>(stat, value).
     let resource = trimPrefix stat ''crm_stats_''
     in map_option (\<lambda>v.
          (if hasSuffix stat ''available'' \<and> Enabled flt (fqName available)
           then [constMetric available GaugeValue v (ls @ [trimSuffix resource ''_available''])] else []) @
          (if hasSuffix stat ''used'' \<and> Enabled flt (fqName used)
           then [constMetric used GaugeValue v (ls @ [trimSuffix resource ''_used''])] else [])) (parseFloat value))"

definition crm_aclTarget :: "string \<Rightarrow> string" where
  "crm_aclTarget key = toLower (joinWith ''_'' (drop 2 (splitOn (CHR '':'') key)))"

text \<open>Everything a scrape reads: the global statistics, then those of every ACL group.\<close>

definition crm_spec :: "metricFilter \<Rightarrow> (string \<Rightarrow> fields) \<Rightarrow> string list \<Rightarrow> metric list option list" where
  "crm_spec flt counters keys =
     map (crm_statPiece flt crmResourceAvailable crmResourceUsed []) (counters ''CRM:STATS'') @
     concat (map (\<lambda>key. map (crm_statPiece flt crmAclResourceAvailable crmAclResourceUsed [crm_aclTarget key]) (counters key)) keys)"

lemma pieces_crm_stat:
  "pieces cfg flt (crm_stat anyLabel sv) [crm_statPiece flt crmResourceAvailable crmResourceUsed [] sv]"
  "pieces cfg flt (crm_aclStat anyLabel target sv) [crm_statPiece flt crmAclResourceAvailable crmAclResourceUsed [target] sv]"
proof -
  obtain stat val where sv: "sv = (stat, val)"
    by (cases sv)
  show "pieces cfg flt (crm_stat anyLabel sv) [crm_statPiece flt crmResourceAvailable crmResourceUsed [] sv]"
    unfolding crm_stat_def sv Let_def prod.case
    by (rule pieces_eq, rule pieces_parsed, rule pieces_adds, rule adds_then [OF adds_when [OF adds_export]], simp,
        rule adds_when [OF adds_export], simp)
      (simp add: crm_statPiece_def Let_def split: option.split)
  show "pieces cfg flt (crm_aclStat anyLabel target sv) [crm_statPiece flt crmAclResourceAvailable crmAclResourceUsed [target] sv]"
    unfolding crm_aclStat_def sv Let_def prod.case
    by (rule pieces_eq, rule pieces_parsed, rule pieces_adds, rule adds_then [OF adds_when [OF adds_export]], simp,
        rule adds_when [OF adds_export], simp)
      (simp add: crm_statPiece_def Let_def split: option.split)
qed

lemma pieces_crm_group:
  assumes "serves lib cfg db scan" "CHR '':'' \<in> set key"
  shows "pieces cfg flt (crm_aclGroup anyLabel lib cfg key)
     (map (crm_statPiece flt crmAclResourceAvailable crmAclResourceUsed [crm_aclTarget key]) (db 2 key))"
proof -
  have "2 \<le> length (splitOn (CHR '':'') key)"
    using splitOn_two [OF assms(2)] by simp
  then show ?thesis
    unfolding crm_aclGroup_def Let_def
    by (intro pieces_eq [OF pieces_read [OF adds_from pieces_read [OF adds_wrap [OF adds_read [OF yields_HgetAll [OF assms(1)]]]
            pieces_forEach [OF pieces_crm_stat(2)]]]]) (simp_all add: RedisDbId_def concat_map_singleton crm_aclTarget_def)
qed

lemma pieces_crm:
  assumes "serves lib cfg db scan" "servesKeys lib keysOf"
    and "list_all (\<lambda>key. CHR '':'' \<in> set key) (keysOf 2 ''CRM:ACL_STATS:*'')"
  shows "pieces cfg flt (crm_reads anyLabel lib cfg) (crm_spec flt (db 2) (keysOf 2 ''CRM:ACL_STATS:*''))"
proof -
  have stats: "pieces cfg flt (collectCrmStatsCounters anyLabel stats)
      (map (crm_statPiece flt crmResourceAvailable crmResourceUsed []) stats)" for stats
    unfolding collectCrmStatsCounters_def
    by (rule pieces_eq, rule pieces_forEach, rule pieces_crm_stat(1)) (simp add: concat_map_singleton)
  have "pieces cfg flt (crm_aclGroup anyLabel lib cfg key)
      (map (crm_statPiece flt crmAclResourceAvailable crmAclResourceUsed [crm_aclTarget key]) (db 2 key))"
    if "key \<in> set (keysOf 2 ''CRM:ACL_STATS:*'')" for key
    using assms(3) that by (intro pieces_crm_group [OF assms(1)]) (simp add: list_all_iff)
  note groups = pieces_forEach [OF this]
  show ?thesis
    unfolding crm_reads_def collectCrmAclStats_def crm_spec_def
    by (rule pieces_read [OF adds_wrap [OF adds_read [OF yields_HgetAll [OF assms(1)]]]], simp add: RedisDbId_def,
        rule pieces_then [OF pieces_wrap [OF stats]], rule pieces_wrap,
        rule pieces_read [OF adds_wrap [OF adds_read [OF yields_Keys [OF assms(2)]]]], simp add: RedisDbId_def, rule groups)
qed

subsection \<open>Properties\<close>

definition crm_demoDb :: "int \<Rightarrow> string \<Rightarrow> fields" where
  "crm_demoDb n key =
     (if key = ''CRM:STATS'' then [(''crm_stats_ipv4_route_used'', ''7'')]
      else [(''crm_stats_acl_entry_available'', ''7'')])"

text \<open>The same with an ACL statistic that is not a number.\<close>

definition crm_badDb :: "int \<Rightarrow> string \<Rightarrow> fields" where
  "crm_badDb n key =
     (if key = ''CRM:STATS'' then [(''crm_stats_ipv4_route_used'', ''7'')]
      else [(''crm_stats_acl_entry_available'', ''x''), (''crm_stats_acl_entry_used'', ''7'')])"

definition crm_demo :: scrapeCollector where
  "crm_demo = NewCrmCollector (NewMetricFilter (\<lambda>_. None))"

lemma crm_demo_stale:
  "\<not> timeSub (t_collect (demoClock (60 * second))) (lastScrapeTime crm_demo) < 15 * second"
  by (simp add: demoClock_def crm_demo_def NewCrmCollector_def scrape_new_def timeSub_def minInt64_def maxInt64_def)

text \<open>
  C24. On a server that holds still and whose ACL keys have the form asked for, a scrape that is due reads the
  global statistics and then those of every ACL group. When all parse it sends one gauge for each available and each
  used statistic, with the duration and a success of 1; otherwise the gauges of the statistics before the first that does
  not parse, global or of a group, without a duration and with a success of 0.
\<close>

theorem crm_scrape_refines_spec:
  assumes "serves lib cfg db scan" "servesKeys lib keysOf"
    and "list_all (\<lambda>key. CHR '':'' \<in> set key) (keysOf 2 ''CRM:ACL_STATS:*'')"
    and "\<not> timeSub (t_collect clk) (lastScrapeTime c) < 15 * second"
  shows "fst (crm_Collect anyLabel lib clk (w, c)) =
    (let ps = crm_spec (scrape_filter c) (db 2) (keysOf 2 ''CRM:ACL_STATS:*'') in
     Ok (sentBefore ps @ gauges (scrape_filter c)
       (if allParse ps
        then [(crmScrapeDuration, durSeconds (timeSub (t_gauge clk) (t_scrape clk))), (crmScrapeCollectorSuccess, f64_1)]
        else [(crmScrapeCollectorSuccess, f64_0)])))"
  unfolding crm_Collect_def crm_scrapeMetrics_def Let_def
  by (subst collect_pieces [where body = "crm_reads anyLabel lib", OF pieces_crm [OF assms(1-3)] assms(1,4)])
     (simp_all add: scrapeGauges_def)

theorem crm_scrape_refines_spec_witness:
  "fst (crm_Collect anyLabel (staticLib localRedis crm_demoDb (\<lambda>_ _. [''CRM:ACL_STATS:INGRESS:PORT''])) (demoClock (60 * second))
      (\<lparr>server = (), databases = []\<rparr>, crm_demo)) =
    Ok ([constMetric crmResourceUsed GaugeValue (the (parseFloat ''7'')) [''ipv4_route''],
         constMetric crmAclResourceAvailable GaugeValue (the (parseFloat ''7'')) [''ingress_port'', ''acl_entry'']] @
      gauges (scrape_filter crm_demo) [(crmScrapeDuration, durSeconds (timeSub (61 * second) (60 * second))),
        (crmScrapeCollectorSuccess, f64_1)]) \<and>
   fst (crm_Collect anyLabel (staticLib localRedis crm_badDb (\<lambda>_ _. [''CRM:ACL_STATS:INGRESS:PORT''])) (demoClock (60 * second))
      (\<lparr>server = (), databases = []\<rparr>, crm_demo)) =
    Ok ([constMetric crmResourceUsed GaugeValue (the (parseFloat ''7'')) [''ipv4_route'']] @
      gauges (scrape_filter crm_demo) [(crmScrapeCollectorSuccess, f64_0)])"
proof -
  let ?keys = "[''CRM:ACL_STATS:INGRESS:PORT'']"
  have keys: "list_all (\<lambda>key. CHR '':'' \<in> set key) ?keys"
    by simp
  have on: "Enabled (scrape_filter crm_demo) name" for name
    by (simp add: crm_demo_def NewCrmCollector_def scrape_new_def Enabled_empty)
  have names: "crm_aclTarget ''CRM:ACL_STATS:INGRESS:PORT'' = ''ingress_port''"
    "\<not> hasSuffix ''crm_stats_ipv4_route_used'' ''available''" "hasSuffix ''crm_stats_ipv4_route_used'' ''used''"
    "trimSuffix (trimPrefix ''crm_stats_ipv4_route_used'' ''crm_stats_'') ''_used'' = ''ipv4_route''"
    "hasSuffix ''crm_stats_acl_entry_available'' ''available''" "\<not> hasSuffix ''crm_stats_acl_entry_available'' ''used''"
    "trimSuffix (trimPrefix ''crm_stats_acl_entry_available'' ''crm_stats_'') ''_available'' = ''acl_entry''"
    by code_simp+
  have x: "parseFloat ''x'' = None"
    by code_simp
  have good: "crm_spec (scrape_filter crm_demo) (crm_demoDb 2) ?keys =
      [Some [constMetric crmResourceUsed GaugeValue (the (parseFloat ''7'')) [''ipv4_route'']],
       Some [constMetric crmAclResourceAvailable GaugeValue (the (parseFloat ''7'')) [''ingress_port'', ''acl_entry'']]]"
    by (simp add: crm_spec_def crm_demoDb_def crm_statPiece_def Let_def on names parseFloat_7)
  have bad: "\<exists>p. crm_spec (scrape_filter crm_demo) (crm_badDb 2) ?keys =
      [Some [constMetric crmResourceUsed GaugeValue (the (parseFloat ''7'')) [''ipv4_route'']], None, p]"
    by (simp add: crm_spec_def crm_badDb_def crm_statPiece_def Let_def on names parseFloat_7 x)
  from bad obtain p where bad: "crm_spec (scrape_filter crm_demo) (crm_badDb 2) ?keys =
      [Some [constMetric crmResourceUsed GaugeValue (the (parseFloat ''7'')) [''ipv4_route'']], None, p]"
    by blast
  show ?thesis
    using crm_scrape_refines_spec [OF staticLib_serves [of localRedis crm_demoDb "\<lambda>_ _. ?keys"] staticLib_servesKeys keys crm_demo_stale]
      crm_scrape_refines_spec [OF staticLib_serves [of localRedis crm_badDb "\<lambda>_ _. ?keys"] staticLib_servesKeys keys crm_demo_stale]
    by (simp add: Let_def good bad demoClock_def sentBefore_def allParse_def)
qed

end
