(* ===== verification/Hw.thy ===== *)
theory Hw
  imports ScrapeCache
begin

text \<open>
  \<^verbatim>\<open>hw_collector.go\<close>: power supplies, fans and the chassis, read from \<^verbatim>\<open>STATE_DB\<close> when
  Prometheus scrapes.
\<close>

subsection \<open>Construction\<close>

definition hwPsuInfo :: desc where [desc_defs]:
  "hwPsuInfo = NewDesc ''sonic'' ''hw'' ''psu_info''
     ''Non-numeric data about PSU, value is always 1'' [''slot'', ''serial'', ''model_name'', ''model'']"

definition hwPsuVoltageVolts :: desc where [desc_defs]:
  "hwPsuVoltageVolts = NewDesc ''sonic'' ''hw'' ''psu_voltage_volts''
     ''PSU voltage'' [''slot'']"

definition hwPsuCurrentAmperes :: desc where [desc_defs]:
  "hwPsuCurrentAmperes = NewDesc ''sonic'' ''hw'' ''psu_current_amperes''
     ''PSU current'' [''slot'']"

definition hwPsuPowerWatts :: desc where [desc_defs]:
  "hwPsuPowerWatts = NewDesc ''sonic'' ''hw'' ''psu_power_watts''
     ''PSU power'' [''slot'']"

definition hwPsuOperationalStatus :: desc where [desc_defs]:
  "hwPsuOperationalStatus = NewDesc ''sonic'' ''hw'' ''psu_operational_status''
     ''PSU operational status: 0(DOWN), 1(UP)'' [''slot'']"

definition hwPsuAvailableStatus :: desc where [desc_defs]:
  "hwPsuAvailableStatus = NewDesc ''sonic'' ''hw'' ''psu_available_status''
     ''PSU availability status: not plugged in - 0, plugged in - 1'' [''slot'']"

definition hwPsuTemperatureCelsius :: desc where [desc_defs]:
  "hwPsuTemperatureCelsius = NewDesc ''sonic'' ''hw'' ''psu_temperature_celsius''
     ''PSU temperature'' [''slot'']"

definition hwFanRpm :: desc where [desc_defs]:
  "hwFanRpm = NewDesc ''sonic'' ''hw'' ''fan_rpm''
     ''Fan RPM'' [''name'', ''slot'']"

definition hwFanOperationalStatus :: desc where [desc_defs]:
  "hwFanOperationalStatus = NewDesc ''sonic'' ''hw'' ''fan_operational_status''
     ''Fan operational status: 0(DOWN), 1(UP)'' [''name'', ''slot'']"

definition hwFanAvailableStatus :: desc where [desc_defs]:
  "hwFanAvailableStatus = NewDesc ''sonic'' ''hw'' ''fan_available_status''
     ''Fan availability status: not plugged in - 0, plugged in - 1'' [''name'', ''slot'']"

definition hwChassisInfo :: desc where [desc_defs]:
  "hwChassisInfo = NewDesc ''sonic'' ''hw'' ''chassis_info''
     ''Non-numeric data about chassis, value is always 1'' [''name'', ''psu_num'', ''serial'', ''model'']"

definition hwScrapeDuration :: desc where [desc_defs]:
  "hwScrapeDuration = NewDesc ''sonic'' ''hw'' ''scrape_duration_seconds''
     ''Time it took for prometheus to scrape sonic hw metrics'' []"

definition hwScrapeCollectorSuccess :: desc where [desc_defs]:
  "hwScrapeCollectorSuccess = NewDesc ''sonic'' ''hw'' ''collector_success''
     ''Whether hw collector succeeded'' []"

definition NewHwCollector :: "metricFilter \<Rightarrow> scrapeCollector" where
  "NewHwCollector flt = scrape_new flt"

definition hw_Describe :: "desc list" where
  "hw_Describe =
     [hwPsuInfo,
      hwPsuVoltageVolts,
      hwPsuCurrentAmperes,
      hwPsuPowerWatts,
      hwPsuOperationalStatus,
      hwPsuAvailableStatus,
      hwPsuTemperatureCelsius,
      hwFanRpm,
      hwFanOperationalStatus,
      hwFanAvailableStatus,
      hwChassisInfo,
      hwScrapeDuration,
      hwScrapeCollectorSuccess]"

subsection \<open>Values and keys\<close>

definition parsePsuFloat :: "string \<Rightarrow> f64 option" where
  "parsePsuFloat value =
     (let value = trimSpace value
      in if value = [] \<or> equalFold value ''N/A'' then None else ParseFloat value)"

definition trueGauge :: "string \<Rightarrow> f64" where
  "trueGauge value = (if toLower value = ''true'' then f64_1 else f64_0)"

definition psuSlot :: "string \<Rightarrow> string" where
  "psuSlot psuKey = trimSpace (trimLeftCut (trimSpace (trimPrefix psuKey ''PSU_INFO|PSU'')) ''_-'')"

text \<open>
  The regular expression \<^verbatim>\<open>(?i)FAN_INFO\|(PSU\d+|Fantray\d+)(\s|\-)(.+)\<close>, leftmost match: the
  submatches 1 and 3. Its \<^verbatim>\<open>\d+\<close> takes all digits, since no digit can follow in a match; its
  \<^verbatim>\<open>.+\<close> takes everything up to a line feed. Letters match in both cases (ASCII).
\<close>

definition matchFold :: "string \<Rightarrow> string \<Rightarrow> string option" where
  "matchFold pat s =
     (if length pat \<le> length s \<and> equalFold (take (length pat) s) pat then Some (take (length pat) s) else None)"

definition fanBay :: "string \<Rightarrow> string \<Rightarrow> (string \<times> string) option" where
  "fanBay pat s =
     (case matchFold pat s of
        None \<Rightarrow> None
      | Some name \<Rightarrow>
          let rest = drop (length pat) s; digits = takeWhile isDigit rest; after = dropWhile isDigit rest
          in if digits = [] then None
             else case after of
               [] \<Rightarrow> None
             | c # cs \<Rightarrow>
                 if c \<in> set [CHR 0x09, CHR 0x0A, CHR 0x0C, CHR 0x0D, CHR 0x20, CHR ''-'']
                    \<and> takeWhile (\<lambda>c. c \<noteq> CHR 0x0A) cs \<noteq> []
                 then Some (name @ digits, takeWhile (\<lambda>c. c \<noteq> CHR 0x0A) cs)
                 else None)"

definition fanMatchHere :: "string \<Rightarrow> (string \<times> string) option" where
  "fanMatchHere s =
     (case matchFold ''FAN_INFO|'' s of
        None \<Rightarrow> None
      | Some _ \<Rightarrow>
          let rest = drop (length ''FAN_INFO|'') s
          in case fanBay ''PSU'' rest of Some m \<Rightarrow> Some m | None \<Rightarrow> fanBay ''Fantray'' rest)"

fun fanRegex :: "string \<Rightarrow> (string \<times> string) option" where
  "fanRegex s =
     (case fanMatchHere s of
        Some m \<Rightarrow> Some m
      | None \<Rightarrow> (case s of [] \<Rightarrow> None | c # cs \<Rightarrow> fanRegex cs))"

declare fanRegex.simps [simp del]

text \<open>The fan keys of the platforms: a bay, its number, a space or dash, the fan.\<close>

lemma fanRegex_key:
  assumes "bay \<in> {''PSU'', ''Fantray''}" "ds \<noteq> []" "\<forall>d\<in>set ds. isDigit d" "sep \<in> {CHR 0x20, CHR ''-''}"
    and "name \<noteq> []" "CHR 0x0A \<notin> set name"
  shows "fanRegex (''FAN_INFO|'' @ bay @ ds @ sep # name) = Some (bay @ ds, name)"
proof -
  have sep: "\<not> isDigit sep" "sep \<in> set [CHR 0x09, CHR 0x0A, CHR 0x0C, CHR 0x0D, CHR 0x20, CHR ''-'']"
    using assms(4) by (auto simp: isDigit_def less_eq_char_def)
  have tw: "takeWhile (\<lambda>c. c \<noteq> CHR 0x0A) name = name"
    using assms(6) by (auto simp: takeWhile_eq_all_conv)
  have digits: "takeWhile isDigit (ds @ sep # name) = ds" "dropWhile isDigit (ds @ sep # name) = sep # name"
    using assms(3) sep(1) by (auto simp: takeWhile_append dropWhile_append)
  have bay: "fanBay bay (bay @ ds @ sep # name) = Some (bay @ ds, name)"
    using sep(2) assms(2,5) by (simp add: fanBay_def matchFold_def equalFold_def digits tw Let_def)
  moreover have "fanBay ''PSU'' (''Fantray'' @ ds @ sep # name) = None"
  proof -
    have "toLower ''Fan'' \<noteq> toLower ''PSU''" by code_simp
    then show ?thesis by (simp add: fanBay_def matchFold_def equalFold_def)
  qed
  ultimately have "fanMatchHere (''FAN_INFO|'' @ bay @ ds @ sep # name) = Some (bay @ ds, name)"
    using assms(1) by (auto simp: fanMatchHere_def matchFold_def equalFold_def Let_def)
  then show ?thesis by (simp add: fanRegex.simps)
qed

subsection \<open>Scraping Redis\<close>

definition hw_psu :: "(string \<Rightarrow> bool) \<Rightarrow> 's redisLib \<Rightarrow> redisConfig \<Rightarrow> string \<Rightarrow> ('s, unit) sio" where
  "hw_psu labelOk lib cfg psuKey =
     (let psuId = psuSlot psuKey; gauge = (\<lambda>name d v ls. exportCached labelOk name d GaugeValue v ls) in
      if psuId = [] then io_fail (Errorf ''invalid PSU key %q: missing slot'' [psuKey])
      else
        io_bind (onClient (HgetAllFromDb lib cfg ''STATE_DB'' psuKey)) (\<lambda>psuData.
        let serial = field psuData ''serial''; modelName = field psuData ''name''; model = field psuData ''model'' in
        io_bind (gauge ''sonic_hw_psu_info'' hwPsuInfo f64_1 [psuId, serial, modelName, model]) (\<lambda>_.
        io_bind (gauge ''sonic_hw_psu_operational_status'' hwPsuOperationalStatus
                   (trueGauge (field psuData ''status'')) [psuId]) (\<lambda>_.
        io_bind (gauge ''sonic_hw_psu_available_status'' hwPsuAvailableStatus
                   (trueGauge (field psuData ''presence'')) [psuId]) (\<lambda>_.
        io_bind (exportParsed labelOk ''sonic_hw_psu_voltage_volts'' hwPsuVoltageVolts
                   (parsePsuFloat (field psuData ''voltage'')) [psuId]) (\<lambda>_.
        io_bind (exportParsed labelOk ''sonic_hw_psu_current_amperes'' hwPsuCurrentAmperes
                   (parsePsuFloat (field psuData ''current'')) [psuId]) (\<lambda>_.
        io_bind (exportParsed labelOk ''sonic_hw_psu_power_watts'' hwPsuPowerWatts
                   (parsePsuFloat (field psuData ''power'')) [psuId]) (\<lambda>_.
        exportParsed labelOk ''sonic_hw_psu_temperature_celsius'' hwPsuTemperatureCelsius
          (parseFloat (field psuData ''temp'')) [psuId]))))))))"

definition collectPsuInfo :: "(string \<Rightarrow> bool) \<Rightarrow> 's redisLib \<Rightarrow> redisConfig \<Rightarrow> ('s, unit) sio" where
  "collectPsuInfo labelOk lib cfg =
     io_bind (onClient (KeysFromDb lib cfg ''STATE_DB'' ''PSU_INFO|PSU*'')) (\<lambda>psuKeys.
     forEach (hw_psu labelOk lib cfg) psuKeys)"

text \<open>Slot and name of a fan: from its key, then the drawer of its data.\<close>

definition fanSlotOf :: "string \<Rightarrow> fields \<Rightarrow> string" where
  "fanSlotOf fanKey fanData =
     (let fanSlot = (case fanRegex fanKey of None \<Rightarrow> ''0'' | Some (slot, name) \<Rightarrow> slot)
      in case map_of fanData ''drawer_name'' of
           None \<Rightarrow> fanSlot
         | Some value \<Rightarrow> if value \<noteq> ''N/A'' then value else fanSlot)"

definition hw_fan :: "(string \<Rightarrow> bool) \<Rightarrow> 's redisLib \<Rightarrow> redisConfig \<Rightarrow> string \<Rightarrow> ('s, unit) sio" where
  "hw_fan labelOk lib cfg fanKey =
     io_bind (goIndex (splitOn (CHR ''|'') fanKey) 1) (\<lambda>keyName.
     let fanName = (case fanRegex fanKey of None \<Rightarrow> keyName | Some (slot, name) \<Rightarrow> name) in
     io_bind (onClient (HgetAllFromDb lib cfg ''STATE_DB'' fanKey)) (\<lambda>fanData.
     let fanSlot = fanSlotOf fanKey fanData in
     io_bind (exportCached labelOk ''sonic_hw_fan_operational_status'' hwFanOperationalStatus GaugeValue
                (trueGauge (field fanData ''status'')) [fanName, fanSlot]) (\<lambda>_.
     io_bind (exportCached labelOk ''sonic_hw_fan_available_status'' hwFanAvailableStatus GaugeValue
                (trueGauge (field fanData ''presence'')) [fanName, fanSlot]) (\<lambda>_.
     exportParsed labelOk ''sonic_hw_fan_rpm'' hwFanRpm (parseFloat (field fanData ''speed'')) [fanName, fanSlot]))))"

definition collectFanInfo :: "(string \<Rightarrow> bool) \<Rightarrow> 's redisLib \<Rightarrow> redisConfig \<Rightarrow> ('s, unit) sio" where
  "collectFanInfo labelOk lib cfg =
     io_bind (onClient (KeysFromDb lib cfg ''STATE_DB'' ''FAN_INFO|*'')) (\<lambda>fanKeys.
     forEach (hw_fan labelOk lib cfg) fanKeys)"

definition hw_chassis :: "(string \<Rightarrow> bool) \<Rightarrow> 's redisLib \<Rightarrow> redisConfig \<Rightarrow> string \<Rightarrow> ('s, unit) sio" where
  "hw_chassis labelOk lib cfg chassisKey =
     io_bind (goIndex (splitOn (CHR ''|'') chassisKey) 1) (\<lambda>chassisId.
     io_bind (onClient (HgetAllFromDb lib cfg ''STATE_DB'' chassisKey)) (\<lambda>chassisData.
     let psuNum = field chassisData ''psu_num''; serial = field chassisData ''serial''; model = field chassisData ''model'' in
     exportCached labelOk ''sonic_hw_chassis_info'' hwChassisInfo GaugeValue f64_1 [chassisId, psuNum, serial, model]))"

definition collectChassisInfo :: "(string \<Rightarrow> bool) \<Rightarrow> 's redisLib \<Rightarrow> redisConfig \<Rightarrow> ('s, unit) sio" where
  "collectChassisInfo labelOk lib cfg =
     io_bind (onClient (KeysFromDb lib cfg ''STATE_DB'' ''CHASSIS_INFO|*'')) (\<lambda>chassisKeys.
     forEach (hw_chassis labelOk lib cfg) chassisKeys)"

definition hw_reads :: "(string \<Rightarrow> bool) \<Rightarrow> 's redisLib \<Rightarrow> redisConfig \<Rightarrow> ('s, unit) sio" where
  "hw_reads labelOk lib cfg =
     io_bind (io_wrap ''hw psu info collection failed: %w'' [] (collectPsuInfo labelOk lib cfg)) (\<lambda>_.
     io_bind (io_wrap ''hw psu info collection failed: %w'' [] (collectFanInfo labelOk lib cfg)) (\<lambda>_.
     io_wrap ''hw chassis info collection failed: %w'' [] (collectChassisInfo labelOk lib cfg)))"

definition hw_scrapeMetrics :: "(string \<Rightarrow> bool) \<Rightarrow> 's redisLib \<Rightarrow> scrapeClock \<Rightarrow> ('s, unit) sio" where
  "hw_scrapeMetrics labelOk lib clk =
     scrapeWith labelOk lib ''sonic_hw_scrape_duration_seconds'' hwScrapeDuration clk (hw_reads labelOk lib)"

definition hw_Collect :: "(string \<Rightarrow> bool) \<Rightarrow> 's redisLib \<Rightarrow> scrapeClock \<Rightarrow> ('s, metric list) sio" where
  "hw_Collect labelOk lib clk =
     collectWith labelOk ''sonic_hw_collector_success'' hwScrapeCollectorSuccess clk (hw_scrapeMetrics labelOk lib clk)"

subsection \<open>The descriptions\<close>

lemma fq_hw [simp]:
  "fqName hwPsuInfo = ''sonic_hw_psu_info''"
  "fqName hwPsuVoltageVolts = ''sonic_hw_psu_voltage_volts''"
  "fqName hwPsuCurrentAmperes = ''sonic_hw_psu_current_amperes''"
  "fqName hwPsuPowerWatts = ''sonic_hw_psu_power_watts''"
  "fqName hwPsuOperationalStatus = ''sonic_hw_psu_operational_status''"
  "fqName hwPsuAvailableStatus = ''sonic_hw_psu_available_status''"
  "fqName hwPsuTemperatureCelsius = ''sonic_hw_psu_temperature_celsius''"
  "fqName hwFanRpm = ''sonic_hw_fan_rpm''"
  "fqName hwFanOperationalStatus = ''sonic_hw_fan_operational_status''"
  "fqName hwFanAvailableStatus = ''sonic_hw_fan_available_status''"
  "fqName hwChassisInfo = ''sonic_hw_chassis_info''"
  "fqName hwScrapeDuration = ''sonic_hw_scrape_duration_seconds''"
  "fqName hwScrapeCollectorSuccess = ''sonic_hw_collector_success''"
  by (simp_all add: desc_defs)

lemma labels_hw [simp]:
  "length (d_labels hwPsuInfo) = 4"
  "length (d_labels hwPsuVoltageVolts) = 1"
  "length (d_labels hwPsuCurrentAmperes) = 1"
  "length (d_labels hwPsuPowerWatts) = 1"
  "length (d_labels hwPsuOperationalStatus) = 1"
  "length (d_labels hwPsuAvailableStatus) = 1"
  "length (d_labels hwPsuTemperatureCelsius) = 1"
  "length (d_labels hwFanRpm) = 2"
  "length (d_labels hwFanOperationalStatus) = 2"
  "length (d_labels hwFanAvailableStatus) = 2"
  "length (d_labels hwChassisInfo) = 4"
  "d_labels hwScrapeDuration = []"
  "d_labels hwScrapeCollectorSuccess = []"
  by (simp_all add: desc_defs)

lemma hw_described [simp]:
  "hwPsuInfo \<in> set hw_Describe"
  "hwPsuVoltageVolts \<in> set hw_Describe"
  "hwPsuCurrentAmperes \<in> set hw_Describe"
  "hwPsuPowerWatts \<in> set hw_Describe"
  "hwPsuOperationalStatus \<in> set hw_Describe"
  "hwPsuAvailableStatus \<in> set hw_Describe"
  "hwPsuTemperatureCelsius \<in> set hw_Describe"
  "hwFanRpm \<in> set hw_Describe"
  "hwFanOperationalStatus \<in> set hw_Describe"
  "hwFanAvailableStatus \<in> set hw_Describe"
  "hwChassisInfo \<in> set hw_Describe"
  "hwScrapeDuration \<in> set hw_Describe"
  "hwScrapeCollectorSuccess \<in> set hw_Describe"
  by (simp_all add: hw_Describe_def)

lemma hw_names: "ownNames ''hw'' hw_Describe"
  by (simp add: ownNames_def hw_Describe_def subsystemOf_def desc_defs)

subsection \<open>The contract\<close>

lemmas hw_defs = hw_reads_def collectPsuInfo_def hw_psu_def collectFanInfo_def hw_fan_def collectChassisInfo_def
  hw_chassis_def

lemma hw_reads_keeps:
  "keeps (sendable labelOk flt hw_Describe) (hw_reads labelOk lib cfg)"
  "keeps (scrapedAt t) (hw_reads labelOk lib cfg)"
  "keeps (filteredBy flt) (hw_reads labelOk lib cfg)"
  unfolding hw_defs Let_def by (intro keeps_rules hw_described fq_hw)+

interpretation hw: scrape_cache labelOk lib "''sonic_hw_scrape_duration_seconds''" hwScrapeDuration
  "''sonic_hw_collector_success''" hwScrapeCollectorSuccess hw_Describe "hw_reads labelOk lib"
  rewrites "collectWith labelOk ''sonic_hw_collector_success'' hwScrapeCollectorSuccess clk
      (scrapeWith labelOk lib ''sonic_hw_scrape_duration_seconds'' hwScrapeDuration clk (hw_reads labelOk lib)) =
    hw_Collect labelOk lib clk"
  for labelOk lib
  by unfold_locales (simp_all add: hw_reads_keeps hw_Collect_def hw_scrapeMetrics_def)

subsection \<open>The specification of a scrape\<close>

definition hw_psuSpec :: "metricFilter \<Rightarrow> fields \<Rightarrow> string \<Rightarrow> metric list" where
  "hw_psuSpec flt psuData slot =
     enabledOnly flt
       ([constMetric hwPsuInfo GaugeValue f64_1 [slot, field psuData ''serial'', field psuData ''name'', field psuData ''model''],
         constMetric hwPsuOperationalStatus GaugeValue (trueGauge (field psuData ''status'')) [slot],
         constMetric hwPsuAvailableStatus GaugeValue (trueGauge (field psuData ''presence'')) [slot]] @
        gaugeIf hwPsuVoltageVolts (parsePsuFloat (field psuData ''voltage'')) [slot] @
        gaugeIf hwPsuCurrentAmperes (parsePsuFloat (field psuData ''current'')) [slot] @
        gaugeIf hwPsuPowerWatts (parsePsuFloat (field psuData ''power'')) [slot] @
        gaugeIf hwPsuTemperatureCelsius (parseFloat (field psuData ''temp'')) [slot])"

definition hw_fanSpec :: "metricFilter \<Rightarrow> fields \<Rightarrow> string \<Rightarrow> metric list" where
  "hw_fanSpec flt fanData key =
     (let name = (case fanRegex key of None \<Rightarrow> splitOn (CHR ''|'') key ! 1 | Some (slot, name) \<Rightarrow> name);
          ls = [name, fanSlotOf key fanData]
      in enabledOnly flt
       ([constMetric hwFanOperationalStatus GaugeValue (trueGauge (field fanData ''status'')) ls,
         constMetric hwFanAvailableStatus GaugeValue (trueGauge (field fanData ''presence'')) ls] @
        gaugeIf hwFanRpm (parseFloat (field fanData ''speed'')) ls))"

definition hw_chassisSpec :: "metricFilter \<Rightarrow> fields \<Rightarrow> string \<Rightarrow> metric list" where
  "hw_chassisSpec flt chassisData key =
     enabledOnly flt
       [constMetric hwChassisInfo GaugeValue f64_1
         [splitOn (CHR ''|'') key ! 1, field chassisData ''psu_num'', field chassisData ''serial'', field chassisData ''model'']]"

text \<open>All power supplies up to the first key without a slot; fans and chassis only when there is none.\<close>

definition hw_spec :: "metricFilter \<Rightarrow> (string \<Rightarrow> fields) \<Rightarrow> (string \<Rightarrow> string list) \<Rightarrow> metric list" where
  "hw_spec flt state keysOf =
     (let psus = keysOf ''PSU_INFO|PSU*'' in
      concat (map (\<lambda>k. hw_psuSpec flt (state k) (psuSlot k)) (takeWhile (\<lambda>k. psuSlot k \<noteq> []) psus)) @
      (if list_all (\<lambda>k. psuSlot k \<noteq> []) psus
       then concat (map (\<lambda>k. hw_fanSpec flt (state k) k) (keysOf ''FAN_INFO|*'')) @
            concat (map (\<lambda>k. hw_chassisSpec flt (state k) k) (keysOf ''CHASSIS_INFO|*''))
       else []))"

lemma adds_hw_psu:
  assumes "serves lib cfg db scan" "psuSlot key \<noteq> []"
  shows "adds cfg flt (hw_psu anyLabel lib cfg key) (Ok ()) (hw_psuSpec flt (db 6 key) (psuSlot key))"
  unfolding hw_psu_def Let_def if_not_P [OF assms(2)]
  by (rule adds_eq, rule adds_bind [OF adds_read [OF yields_HgetAll [OF assms(1)]]], simp add: RedisDbId_def,
      (rule adds_bind [OF adds_gauge], simp, simp)+, (rule adds_bind [OF adds_gaugeIf], simp, simp)+,
      rule adds_gaugeIf, simp, simp, simp)
    (simp add: hw_psuSpec_def enabledOnly_simps)

lemma adds_hw_fan:
  assumes "serves lib cfg db scan" "CHR ''|'' \<in> set key"
  shows "adds cfg flt (hw_fan anyLabel lib cfg key) (Ok ()) (hw_fanSpec flt (db 6 key) key)"
  unfolding hw_fan_def Let_def
  by (rule adds_eq, rule adds_bind [OF adds_index [OF splitOn_two [OF assms(2)]]],
      rule adds_bind [OF adds_read [OF yields_HgetAll [OF assms(1)]]], simp add: RedisDbId_def,
      (rule adds_bind [OF adds_gauge], simp, simp)+, rule adds_gaugeIf, simp, simp, simp)
    (simp add: hw_fanSpec_def enabledOnly_simps Let_def)

lemma adds_hw_chassis:
  assumes "serves lib cfg db scan" "CHR ''|'' \<in> set key"
  shows "adds cfg flt (hw_chassis anyLabel lib cfg key) (Ok ()) (hw_chassisSpec flt (db 6 key) key)"
  unfolding hw_chassis_def Let_def
  by (rule adds_eq, rule adds_bind [OF adds_index [OF splitOn_two [OF assms(2)]]],
      rule adds_bind [OF adds_read [OF yields_HgetAll [OF assms(1)]]], simp add: RedisDbId_def,
      rule adds_gauge, simp, simp, simp)
    (simp add: hw_chassisSpec_def)

lemma adds_hw_reads:
  assumes "serves lib cfg db scan" "servesKeys lib keysOf"
    and "\<forall>k\<in>set (keysOf 6 ''FAN_INFO|*'') \<union> set (keysOf 6 ''CHASSIS_INFO|*''). CHR ''|'' \<in> set k"
    and "list_all (\<lambda>k. psuSlot k \<noteq> []) (keysOf 6 ''PSU_INFO|PSU*'')"
  shows "adds cfg flt (hw_reads anyLabel lib cfg) (Ok ()) (hw_spec flt (db 6) (keysOf 6))"
proof -
  note keys = adds_bind [OF adds_read [OF yields_Keys [OF assms(2)]]]
  have psu: "adds cfg flt (collectPsuInfo anyLabel lib cfg) (Ok ())
      ([] @ concat (map (\<lambda>k. hw_psuSpec flt (db 6 k) (psuSlot k)) (keysOf 6 ''PSU_INFO|PSU*'')))"
    unfolding collectPsuInfo_def
    by (rule keys, simp add: RedisDbId_def, intro adds_forEach adds_hw_psu [OF assms(1)])
      (use assms(4) in \<open>simp add: list_all_iff\<close>)
  have fan: "adds cfg flt (collectFanInfo anyLabel lib cfg) (Ok ())
      ([] @ concat (map (\<lambda>k. hw_fanSpec flt (db 6 k) k) (keysOf 6 ''FAN_INFO|*'')))"
    unfolding collectFanInfo_def
    by (rule keys, simp add: RedisDbId_def, intro adds_forEach adds_hw_fan [OF assms(1)]) (use assms(3) in simp)
  have chassis: "adds cfg flt (collectChassisInfo anyLabel lib cfg) (Ok ())
      ([] @ concat (map (\<lambda>k. hw_chassisSpec flt (db 6 k) k) (keysOf 6 ''CHASSIS_INFO|*'')))"
    unfolding collectChassisInfo_def
    by (rule keys, simp add: RedisDbId_def, intro adds_forEach adds_hw_chassis [OF assms(1)]) (use assms(3) in simp)
  have all: "takeWhile (\<lambda>k. psuSlot k \<noteq> []) (keysOf 6 ''PSU_INFO|PSU*'') = keysOf 6 ''PSU_INFO|PSU*''"
    using assms(4) by (simp add: takeWhile_eq_all_conv list_all_iff)
  show ?thesis
    unfolding hw_reads_def
    by (intro adds_eq [OF adds_bind [OF adds_wrap [OF psu] adds_bind [OF adds_wrap [OF fan] adds_wrap [OF chassis]]]])
       (simp_all add: hw_spec_def Let_def all assms(4))
qed

lemma adds_hw_reads_stop:
  assumes "serves lib cfg db scan" "servesKeys lib keysOf"
    and "\<not> list_all (\<lambda>k. psuSlot k \<noteq> []) (keysOf 6 ''PSU_INFO|PSU*'')"
  shows "adds cfg flt (hw_reads anyLabel lib cfg)
     (Fail (Wrapf ''hw psu info collection failed: %w'' []
       (Errorf ''invalid PSU key %q: missing slot'' [hd (dropWhile (\<lambda>k. psuSlot k \<noteq> []) (keysOf 6 ''PSU_INFO|PSU*''))])))
     (hw_spec flt (db 6) (keysOf 6))"
proof -
  let ?ks = "keysOf 6 ''PSU_INFO|PSU*''" and ?P = "\<lambda>k. psuSlot k \<noteq> []"
  obtain bad rest where split: "dropWhile ?P ?ks = bad # rest"
    using assms(3) by (cases "dropWhile ?P ?ks") (auto simp: list_all_iff dropWhile_eq_Nil_conv)
  then have "psuSlot bad = []" and ks: "?ks = takeWhile ?P ?ks @ bad # rest"
    using hd_dropWhile [of ?P ?ks] takeWhile_dropWhile_id [of ?P ?ks] by auto
  have bad: "adds cfg flt (hw_psu anyLabel lib cfg bad) (Fail (Errorf ''invalid PSU key %q: missing slot'' [bad])) []"
    using \<open>psuSlot bad = []\<close> by (simp add: hw_psu_def adds_def io_fail_def)
  have "adds cfg flt (collectPsuInfo anyLabel lib cfg) (Fail (Errorf ''invalid PSU key %q: missing slot'' [bad]))
      ([] @ concat (map (\<lambda>k. hw_psuSpec flt (db 6 k) (psuSlot k)) (takeWhile ?P ?ks)) @ [])"
    unfolding collectPsuInfo_def
  proof (rule adds_bind [OF adds_read [OF yields_Keys [OF assms(2)]]])
    show "adds cfg flt (forEach (hw_psu anyLabel lib cfg) ?ks) (Fail (Errorf ''invalid PSU key %q: missing slot'' [bad]))
      (concat (map (\<lambda>k. hw_psuSpec flt (db 6 k) (psuSlot k)) (takeWhile ?P ?ks)) @ [])"
      by (subst ks, rule adds_forEach_stops, rule adds_hw_psu [OF assms(1)], blast dest: set_takeWhileD, rule bad)
  qed (simp add: RedisDbId_def)
  from adds_bind_fail [OF adds_wrap_fail [OF this]] show ?thesis
    unfolding hw_reads_def using split assms(3) by (simp add: hw_spec_def Let_def)
qed

subsection \<open>Properties\<close>

definition hw_demoDb :: "int \<Rightarrow> string \<Rightarrow> fields" where
  "hw_demoDb n key =
     (if key = ''PSU_INFO|PSU 1'' then [(''status'', ''true''), (''voltage'', ''N/A'')]
      else [(''drawer_name'', ''N/A''), (''presence'', ''True'')])"

definition hw_demoKeys :: "int \<Rightarrow> string \<Rightarrow> string list" where
  "hw_demoKeys n pattern =
     (if pattern = ''PSU_INFO|PSU*'' then [''PSU_INFO|PSU 1'']
      else if pattern = ''FAN_INFO|*'' then [''FAN_INFO|PSU1 FAN-1''] else [])"

definition hw_demo :: scrapeCollector where
  "hw_demo = NewHwCollector (NewMetricFilter (\<lambda>_. None))"

lemma hw_demo_stale: "\<not> timeSub (t_collect (demoClock (60 * second))) (lastScrapeTime hw_demo) < 15 * second"
  by (simp add: demoClock_def hw_demo_def NewHwCollector_def scrape_new_def timeSub_def minInt64_def maxInt64_def)

lemma hw_Collect_spec:
  assumes "serves lib cfg db scan" "servesKeys lib keysOf"
    and "\<not> timeSub (t_collect clk) (lastScrapeTime c) < 15 * second"
    and "\<forall>k\<in>set (keysOf 6 ''FAN_INFO|*'') \<union> set (keysOf 6 ''CHASSIS_INFO|*''). CHR ''|'' \<in> set k"
  shows "fst (hw_Collect anyLabel lib clk (w, c)) =
    Ok (hw_spec (scrape_filter c) (db 6) (keysOf 6) @
      gauges (scrape_filter c)
        (if list_all (\<lambda>k. psuSlot k \<noteq> []) (keysOf 6 ''PSU_INFO|PSU*'')
         then [(hwScrapeDuration, durSeconds (timeSub (t_gauge clk) (t_scrape clk))), (hwScrapeCollectorSuccess, f64_1)]
         else [(hwScrapeCollectorSuccess, f64_0)]))"
proof (cases "list_all (\<lambda>k. psuSlot k \<noteq> []) (keysOf 6 ''PSU_INFO|PSU*'')")
  case True
  from collect_adds [where body = "hw_reads anyLabel lib", OF adds_hw_reads [OF assms(1,2,4) True] _ assms(1,3)] True
  show ?thesis by (simp add: hw_Collect_def hw_scrapeMetrics_def)
next
  case False
  from collect_adds [where body = "hw_reads anyLabel lib", OF adds_hw_reads_stop [OF assms(1,2) False] _ assms(1,3)] False
  show ?thesis by (simp add: hw_Collect_def hw_scrapeMetrics_def)
qed

text \<open>
  C26. On a server that holds still, a scrape that is due sends the power supplies up to the first
  key without a slot, and, when there is no such key, the fans and the chassis, the duration and a
  success of 1; otherwise a success of 0. Each reading that parses has its gauge, each that does
  not has none, and a fan's slot and name come from its key unless its data name a drawer.
\<close>

theorem hw_scrape_refines_spec:
  assumes "serves lib cfg db scan" "servesKeys lib keysOf"
    and "\<not> timeSub (t_collect clk) (lastScrapeTime c) < 15 * second"
    and "\<forall>k\<in>set (keysOf 6 ''FAN_INFO|*'') \<union> set (keysOf 6 ''CHASSIS_INFO|*''). CHR ''|'' \<in> set k"
  shows "fst (hw_Collect anyLabel lib clk (w, c)) =
    Ok (hw_spec (scrape_filter c) (db 6) (keysOf 6) @
      gauges (scrape_filter c)
        (if list_all (\<lambda>k. psuSlot k \<noteq> []) (keysOf 6 ''PSU_INFO|PSU*'')
         then [(hwScrapeDuration, durSeconds (timeSub (t_gauge clk) (t_scrape clk))), (hwScrapeCollectorSuccess, f64_1)]
         else [(hwScrapeCollectorSuccess, f64_0)]))"
  by (rule hw_Collect_spec [OF assms])

theorem hw_scrape_refines_spec_witness:
  "fst (hw_Collect anyLabel (staticLib localRedis hw_demoDb hw_demoKeys) (demoClock (60 * second))
      (\<lparr>server = (), databases = []\<rparr>, hw_demo)) =
    Ok (hw_spec (scrape_filter hw_demo) (hw_demoDb 6) (hw_demoKeys 6) @
      gauges (scrape_filter hw_demo)
        [(hwScrapeDuration, durSeconds (timeSub (61 * second) (60 * second))), (hwScrapeCollectorSuccess, f64_1)]) \<and>
    constMetric hwFanAvailableStatus GaugeValue f64_1 [''FAN-1'', ''PSU1'']
      \<in> set (hw_spec (scrape_filter hw_demo) (hw_demoDb 6) (hw_demoKeys 6))"
proof
  have slot: "psuSlot ''PSU_INFO|PSU 1'' = ''1''"
    by code_simp
  show "fst (hw_Collect anyLabel (staticLib localRedis hw_demoDb hw_demoKeys) (demoClock (60 * second))
      (\<lparr>server = (), databases = []\<rparr>, hw_demo)) =
    Ok (hw_spec (scrape_filter hw_demo) (hw_demoDb 6) (hw_demoKeys 6) @
      gauges (scrape_filter hw_demo)
        [(hwScrapeDuration, durSeconds (timeSub (61 * second) (60 * second))), (hwScrapeCollectorSuccess, f64_1)])"
    using hw_scrape_refines_spec [OF staticLib_serves staticLib_servesKeys hw_demo_stale, of hw_demoKeys localRedis hw_demoDb] slot
    by (simp add: demoClock_def hw_demoKeys_def)
  have low: "toLower ''True'' = ''true''" "toLower [] = []"
    by code_simp+
  have "fanRegex ''FAN_INFO|PSU1 FAN-1'' = Some (''PSU1'', ''FAN-1'')"
    by code_simp
  then show "constMetric hwFanAvailableStatus GaugeValue f64_1 [''FAN-1'', ''PSU1'']
      \<in> set (hw_spec (scrape_filter hw_demo) (hw_demoDb 6) (hw_demoKeys 6))"
    using slot by (simp add: hw_spec_def hw_demoKeys_def hw_fanSpec_def fanSlotOf_def hw_demoDb_def trueGauge_def
        hw_demo_def NewHwCollector_def scrape_new_def Enabled_empty enabledOnly_def Let_def low)
qed

end
