(* ===== verification/Interface.thy ===== *)
theory Interface
  imports ScrapeCache
begin

text \<open>
  \<^verbatim>\<open>interface_collector.go\<close>: counters, configuration, state and optics of the ports, read from
  four databases when Prometheus scrapes. The error counters are listed in a map literal; the
  order in which the runtime ranges over it, for each port anew, is the argument \<open>rangeOrder\<close>.
\<close>

subsection \<open>Construction\<close>

definition interfaceInfo :: desc where [desc_defs]:
  "interfaceInfo = NewDesc ''sonic'' ''interface'' ''info''
     ''Non-numeric data about interface, value is always 1'' [''device'', ''alias'', ''index'', ''description'']"

definition interfaceMtu :: desc where [desc_defs]:
  "interfaceMtu = NewDesc ''sonic'' ''interface'' ''mtu_bytes''
     ''Network device property: mtu_bytes'' [''device'']"

definition interfaceSpeed :: desc where [desc_defs]:
  "interfaceSpeed = NewDesc ''sonic'' ''interface'' ''speed_bytes''
     ''Network device property: speed_bytes'' [''device'']"

definition interfaceAdminStatus :: desc where [desc_defs]:
  "interfaceAdminStatus = NewDesc ''sonic'' ''interface'' ''admin_status''
     ''Network device administrative status: 0(DOWN), 1(UP)'' [''device'']"

definition interfaceOperationslStatus :: desc where [desc_defs]:
  "interfaceOperationslStatus = NewDesc ''sonic'' ''interface'' ''operational_status''
     ''Network device operational status:  0(DOWN), 1(UP)'' [''device'']"

definition interfaceTransceiverTemperature :: desc where [desc_defs]:
  "interfaceTransceiverTemperature = NewDesc ''sonic'' ''interface'' ''transceiver_temperature_celsius''
     ''Network device transceiver temperature (celsius)'' [''device'']"

definition interfaceTransceiverVoltage :: desc where [desc_defs]:
  "interfaceTransceiverVoltage = NewDesc ''sonic'' ''interface'' ''transceiver_voltage''
     ''Network device transceiver voltage'' [''device'']"

definition interfaceOpticTransmitPower :: desc where [desc_defs]:
  "interfaceOpticTransmitPower = NewDesc ''sonic'' ''interface'' ''optic_transmit_power_dbm''
     ''Network device transceiver voltage'' [''device'', ''unit'']"

definition interfaceTransmitEthernetPackets :: desc where [desc_defs]:
  "interfaceTransmitEthernetPackets = NewDesc ''sonic'' ''interface'' ''transmit_ethernet_packets_total''
     ''Number of ethernet packets transmitted on an interface'' [''device'', ''size'']"

definition interfaceTransmitPackets :: desc where [desc_defs]:
  "interfaceTransmitPackets = NewDesc ''sonic'' ''interface'' ''transmit_packets_total''
     ''Number of packets transmitted on an interface'' [''device'', ''method'']"

definition interfaceTransmitErrs :: desc where [desc_defs]:
  "interfaceTransmitErrs = NewDesc ''sonic'' ''interface'' ''transmit_errs_total''
     ''Number of transmit errs on an interface'' [''device'', ''type'']"

definition interfaceTransmitBytes :: desc where [desc_defs]:
  "interfaceTransmitBytes = NewDesc ''sonic'' ''interface'' ''transmit_bytes_total''
     ''Number of bytes transmitted on an interface'' [''device'']"

definition interfaceOpticReceivePower :: desc where [desc_defs]:
  "interfaceOpticReceivePower = NewDesc ''sonic'' ''interface'' ''optic_receive_power_dbm''
     ''Network device transceiver voltage'' [''device'', ''unit'']"

definition interfaceReceiveEthernetPackets :: desc where [desc_defs]:
  "interfaceReceiveEthernetPackets = NewDesc ''sonic'' ''interface'' ''receive_ethernet_packets_total''
     ''Number of ethernet packets received on an interface'' [''device'', ''size'']"

definition interfaceReceivePackets :: desc where [desc_defs]:
  "interfaceReceivePackets = NewDesc ''sonic'' ''interface'' ''receive_packets_total''
     ''Number of packets received on an interface'' [''device'', ''method'']"

definition interfaceReceiveErrs :: desc where [desc_defs]:
  "interfaceReceiveErrs = NewDesc ''sonic'' ''interface'' ''receive_errs_total''
     ''Number of receive errs on an interface'' [''device'', ''type'']"

definition interfaceReceivedBytes :: desc where [desc_defs]:
  "interfaceReceivedBytes = NewDesc ''sonic'' ''interface'' ''receive_bytes_total''
     ''Number of bytes received on an interface'' [''device'']"

definition interfaceScrapeDuration :: desc where [desc_defs]:
  "interfaceScrapeDuration = NewDesc ''sonic'' ''interface'' ''scrape_duration_seconds''
     ''Time it took for prometheus to scrape sonic interface metrics'' []"

definition interfaceScrapeCollectorSuccess :: desc where [desc_defs]:
  "interfaceScrapeCollectorSuccess = NewDesc ''sonic'' ''interface'' ''collector_success''
     ''Whether interface collector succeeded'' []"

definition NewInterfaceCollector :: "metricFilter \<Rightarrow> scrapeCollector" where
  "NewInterfaceCollector flt = scrape_new flt"

definition interface_Describe :: "desc list" where
  "interface_Describe =
     [interfaceInfo,
      interfaceMtu,
      interfaceSpeed,
      interfaceAdminStatus,
      interfaceOperationslStatus,
      interfaceTransceiverTemperature,
      interfaceTransceiverVoltage,
      interfaceOpticTransmitPower,
      interfaceTransmitEthernetPackets,
      interfaceTransmitPackets,
      interfaceTransmitErrs,
      interfaceTransmitBytes,
      interfaceOpticReceivePower,
      interfaceReceiveEthernetPackets,
      interfaceReceivePackets,
      interfaceReceiveErrs,
      interfaceReceivedBytes,
      interfaceScrapeDuration,
      interfaceScrapeCollectorSuccess]"

subsection \<open>Counters\<close>

definition collectInterfaceByteCounters :: "(string \<Rightarrow> bool) \<Rightarrow> string \<Rightarrow> fields \<Rightarrow> ('s, unit) sio" where
  "collectInterfaceByteCounters labelOk interfaceName counters =
     forEach (\<lambda>direction.
       io_bind (parsed (field counters (''SAI_PORT_STAT_IF_'' @ toUpper direction @ ''_OCTETS''))) (\<lambda>bytes.
       if direction = ''in''
       then exportCached labelOk ''sonic_interface_receive_bytes_total'' interfaceReceivedBytes CounterValue bytes
              [interfaceName]
       else if direction = ''out''
       then exportCached labelOk ''sonic_interface_transmit_bytes_total'' interfaceTransmitBytes CounterValue bytes
              [interfaceName]
       else io_return ()))
       [''in'', ''out'']"

definition interfaceErrorTypeMap :: "string \<Rightarrow> fields" where
  "interfaceErrorTypeMap direction =
     (if direction = ''in''
      then [(''error'', ''SAI_PORT_STAT_IF_IN_ERRORS''),
            (''discard'', ''SAI_PORT_STAT_IF_IN_DISCARDS''),
            (''drop'', ''SAI_PORT_STAT_IN_DROPPED_PKTS''),
            (''pause'', ''SAI_PORT_STAT_PAUSE_RX_PKTS'')]
      else if direction = ''out''
      then [(''error'', ''SAI_PORT_STAT_IF_OUT_ERRORS''),
            (''discard'', ''SAI_PORT_STAT_IF_OUT_DISCARDS''),
            (''pause'', ''SAI_PORT_STAT_PAUSE_TX_PKTS'')]
      else [])"

definition collectInterfaceErrCounters ::
  "(string \<Rightarrow> bool) \<Rightarrow> (fields \<Rightarrow> fields) \<Rightarrow> string \<Rightarrow> fields \<Rightarrow> ('s, unit) sio" where
  "collectInterfaceErrCounters labelOk rangeOrder interfaceName counters =
     forEach (\<lambda>direction.
       forEach (\<lambda>(errType, key).
         io_bind (parsed (field counters key)) (\<lambda>packets.
         if direction = ''in''
         then exportCached labelOk ''sonic_interface_receive_errs_total'' interfaceReceiveErrs CounterValue packets
                [interfaceName, errType]
         else if direction = ''out''
         then exportCached labelOk ''sonic_interface_transmit_errs_total'' interfaceTransmitErrs CounterValue packets
                [interfaceName, errType]
         else io_return ()))
         (rangeOrder (interfaceErrorTypeMap direction)))
       [''in'', ''out'']"

definition collectInterfacePacketCounters :: "(string \<Rightarrow> bool) \<Rightarrow> string \<Rightarrow> fields \<Rightarrow> ('s, unit) sio" where
  "collectInterfacePacketCounters labelOk interfaceName counters =
     forEach (\<lambda>direction.
       forEach (\<lambda>method.
         io_bind (parsed (field counters
                    (''SAI_PORT_STAT_IF_'' @ toUpper direction @ ''_'' @ toUpper method @ ''_PKTS''))) (\<lambda>packets.
         if direction = ''in''
         then exportCached labelOk ''sonic_interface_receive_packets_total'' interfaceReceivePackets CounterValue packets
                [interfaceName, method]
         else if direction = ''out''
         then exportCached labelOk ''sonic_interface_transmit_packets_total'' interfaceTransmitPackets CounterValue packets
                [interfaceName, method]
         else io_return ()))
         [''ucast'', ''broadcast'', ''multicast''])
       [''in'', ''out'']"

definition packetSizeFormat :: "string \<Rightarrow> string \<Rightarrow> string" where
  "packetSizeFormat p direction =
     (let direction = toUpper direction; name = (\<lambda>range. ''SAI_PORT_STAT_ETHER_'' @ direction @ ''_PKTS_'' @ range @ ''_OCTETS'') in
      if p = ''64'' then name ''64''
      else if p = ''127'' then name ''65_TO_127''
      else if p = ''255'' then name ''128_TO_255''
      else if p = ''511'' then name ''256_TO_511''
      else if p = ''1023'' then name ''512_TO_1023''
      else if p = ''1518'' then name ''1024_TO_1518''
      else if p = ''2047'' then name ''1519_TO_2047''
      else if p = ''4095'' then name ''2048_TO_4095''
      else if p = ''9216'' then name ''4096_TO_9216''
      else if p = ''16383'' then name ''9217_TO_16383''
      else [])"

definition collectInterfacePacketSizeCounters :: "(string \<Rightarrow> bool) \<Rightarrow> string \<Rightarrow> fields \<Rightarrow> ('s, unit) sio" where
  "collectInterfacePacketSizeCounters labelOk interfaceName counters =
     forEach (\<lambda>direction.
       forEach (\<lambda>size.
         io_bind (parsed (field counters (packetSizeFormat size direction))) (\<lambda>bytes.
         if direction = ''in''
         then exportCached labelOk ''sonic_interface_receive_ethernet_packets_total'' interfaceReceiveEthernetPackets
                CounterValue bytes [interfaceName, size]
         else if direction = ''out''
         then exportCached labelOk ''sonic_interface_transmit_ethernet_packets_total'' interfaceTransmitEthernetPackets
                CounterValue bytes [interfaceName, size]
         else io_return ()))
         [''64'', ''127'', ''255'', ''511'', ''1023'', ''1518'', ''2047'', ''4095'', ''9216'', ''16383''])
       [''in'', ''out'']"

definition collectInterfaceCounters ::
  "(string \<Rightarrow> bool) \<Rightarrow> 's redisLib \<Rightarrow> redisConfig \<Rightarrow> (fields \<Rightarrow> fields) \<Rightarrow> string \<Rightarrow> string \<Rightarrow> ('s, unit) sio" where
  "collectInterfaceCounters labelOk lib cfg rangeOrder interfaceName counterKey =
     io_bind (io_wrap ''redis read failed: %w'' [] (onClient (HgetAllFromDb lib cfg ''COUNTERS_DB'' counterKey))) (\<lambda>counters.
     io_bind (io_wrap ''byte counters collection failed: %w'' []
                (collectInterfaceByteCounters labelOk interfaceName counters)) (\<lambda>_.
     io_bind (io_wrap ''err counters collection failed: %w'' []
                (collectInterfaceErrCounters labelOk rangeOrder interfaceName counters)) (\<lambda>_.
     io_bind (io_wrap ''packet counters collection failed: %w'' []
                (collectInterfacePacketCounters labelOk interfaceName counters)) (\<lambda>_.
     io_wrap ''packet size counters collection failed: %w'' []
       (collectInterfacePacketSizeCounters labelOk interfaceName counters)))))"

subsection \<open>Configuration, state and optics\<close>

definition collectInterfaceConfigInfo ::
  "(string \<Rightarrow> bool) \<Rightarrow> 's redisLib \<Rightarrow> redisConfig \<Rightarrow> string \<Rightarrow> ('s, unit) sio" where
  "collectInterfaceConfigInfo labelOk lib cfg interfaceName =
     (let interfaceKey = (if hasPrefix interfaceName ''Ethernet'' then ''PORT|'' @ interfaceName
                          else ''PORTCHANNEL|'' @ interfaceName) in
      io_bind (io_wrap ''redis read failed: %w'' [] (onClient (HgetAllFromDb lib cfg ''CONFIG_DB'' interfaceKey))) (\<lambda>info.
      let description = field info ''description'' in
      io_bind (parsed (field info ''mtu'')) (\<lambda>mtu.
      io_bind (parsed (field info ''speed'')) (\<lambda>speed.
      io_bind (exportCached labelOk ''sonic_interface_info'' interfaceInfo GaugeValue f64_1
                 [interfaceName, field info ''alias'', field info ''index'', description]) (\<lambda>_.
      io_bind (exportCached labelOk ''sonic_interface_mtu_bytes'' interfaceMtu GaugeValue mtu [interfaceName]) (\<lambda>_.
      exportCached labelOk ''sonic_interface_speed_bytes'' interfaceSpeed GaugeValue
        (f64_div (f64_mul (f64_mul speed (f64_of_int 1000)) (f64_of_int 1000)) (f64_of_int 8)) [interfaceName]))))))"

definition collectInterfaceOperationInfo ::
  "(string \<Rightarrow> bool) \<Rightarrow> 's redisLib \<Rightarrow> redisConfig \<Rightarrow> string \<Rightarrow> ('s, unit) sio" where
  "collectInterfaceOperationInfo labelOk lib cfg interfaceName =
     io_bind (io_wrap ''redis read failed: %w'' []
                (onClient (HgetAllFromDb lib cfg ''APPL_DB'' (''PORT_TABLE:'' @ interfaceName)))) (\<lambda>info.
     let adminStatus = (if field info ''admin_status'' = ''up'' then f64_1 else f64_0);
         operationalStatus = (if field info ''oper_status'' = ''up'' then f64_1 else f64_0) in
     io_bind (exportCached labelOk ''sonic_interface_admin_status'' interfaceAdminStatus GaugeValue adminStatus
                [interfaceName]) (\<lambda>_.
     exportCached labelOk ''sonic_interface_operational_status'' interfaceOperationslStatus GaugeValue operationalStatus
       [interfaceName]))"

definition collectInterfaceInfo ::
  "(string \<Rightarrow> bool) \<Rightarrow> 's redisLib \<Rightarrow> redisConfig \<Rightarrow> string \<Rightarrow> ('s, unit) sio" where
  "collectInterfaceInfo labelOk lib cfg interfaceName =
     io_bind (collectInterfaceConfigInfo labelOk lib cfg interfaceName) (\<lambda>_.
     collectInterfaceOperationInfo labelOk lib cfg interfaceName)"

text \<open>Submatch 1 of \<^verbatim>\<open>^rx(\d*)power$\<close> and of \<^verbatim>\<open>^tx(\d*)power$\<close>.\<close>

definition powerUnit :: "string \<Rightarrow> string \<Rightarrow> string option" where
  "powerUnit dir name =
     (let rest = trimPrefix name dir; unit = trimSuffix rest ''power''
      in if hasPrefix name dir \<and> hasSuffix rest ''power'' \<and> list_all isDigit unit then Some unit else None)"

text \<open>One turn of the loop over the readings of a transceiver.\<close>

definition interface_reading :: "(string \<Rightarrow> bool) \<Rightarrow> string \<Rightarrow> string \<times> string \<Rightarrow> ('s, unit) sio" where
  "interface_reading labelOk interfaceName = (\<lambda>(name, value).
     case parseFloat value of
       None \<Rightarrow> io_return ()
     | Some parsedValue \<Rightarrow>
         if name = ''temperature''
         then exportCached labelOk ''sonic_interface_transceiver_temperature_celsius'' interfaceTransceiverTemperature
                GaugeValue parsedValue [interfaceName]
         else if name = ''voltage''
         then exportCached labelOk ''sonic_interface_transceiver_voltage'' interfaceTransceiverVoltage
                GaugeValue parsedValue [interfaceName]
         else (case powerUnit ''rx'' name of
           Some opticUnit \<Rightarrow>
             exportCached labelOk ''sonic_interface_optic_receive_power_dbm'' interfaceOpticReceivePower
               GaugeValue parsedValue [interfaceName, opticUnit]
         | None \<Rightarrow>
             (case powerUnit ''tx'' name of
                Some opticUnit \<Rightarrow>
                  exportCached labelOk ''sonic_interface_optic_transmit_power_dbm'' interfaceOpticTransmitPower
                    GaugeValue parsedValue [interfaceName, opticUnit]
              | None \<Rightarrow> io_return ())))"

definition interface_transceiver ::
  "(string \<Rightarrow> bool) \<Rightarrow> 's redisLib \<Rightarrow> redisConfig \<Rightarrow> string \<Rightarrow> ('s, unit) sio" where
  "interface_transceiver labelOk lib cfg transceiverKey =
     io_bind (goIndex (splitOn (CHR ''|'') transceiverKey) 1) (\<lambda>interfaceName.
     io_bind (onClient (HgetAllFromDb lib cfg ''STATE_DB'' transceiverKey)) (\<lambda>readings.
     forEach (interface_reading labelOk interfaceName) readings))"

definition collectInterfaceOpticalInfo :: "(string \<Rightarrow> bool) \<Rightarrow> 's redisLib \<Rightarrow> redisConfig \<Rightarrow> ('s, unit) sio" where
  "collectInterfaceOpticalInfo labelOk lib cfg =
     io_bind (onClient (KeysFromDb lib cfg ''STATE_DB'' ''TRANSCEIVER_DOM_SENSOR|*'')) (\<lambda>transceiverKeys.
     forEach (interface_transceiver labelOk lib cfg) transceiverKeys)"

subsection \<open>The scrape\<close>

definition interface_port ::
  "(string \<Rightarrow> bool) \<Rightarrow> 's redisLib \<Rightarrow> redisConfig \<Rightarrow> (string \<Rightarrow> fields \<Rightarrow> fields) \<Rightarrow> fields \<Rightarrow> string \<Rightarrow> ('s, unit) sio" where
  "interface_port labelOk lib cfg rangeOrder ports port =
     (let counterKey = ''COUNTERS:'' @ field ports port in
      io_bind (io_wrap ''interface counters collection failed: %w'' []
                 (collectInterfaceCounters labelOk lib cfg (rangeOrder port) port counterKey)) (\<lambda>_.
      io_wrap ''interface info collection failed: %w'' [] (collectInterfaceInfo labelOk lib cfg port)))"

definition interface_reads ::
  "(string \<Rightarrow> bool) \<Rightarrow> 's redisLib \<Rightarrow> (string \<Rightarrow> fields \<Rightarrow> fields) \<Rightarrow> redisConfig \<Rightarrow> ('s, unit) sio" where
  "interface_reads labelOk lib rangeOrder cfg =
     io_bind (io_wrap ''redis read failed: %w'' []
                (onClient (HgetAllFromDb lib cfg ''COUNTERS_DB'' ''COUNTERS_PORT_NAME_MAP''))) (\<lambda>ports.
     io_bind (forEach (interface_port labelOk lib cfg rangeOrder ports) (mapKeys ports)) (\<lambda>_.
     io_wrap ''interface optical info collection failed: %w'' [] (collectInterfaceOpticalInfo labelOk lib cfg)))"

definition interface_scrapeMetrics ::
  "(string \<Rightarrow> bool) \<Rightarrow> 's redisLib \<Rightarrow> (string \<Rightarrow> fields \<Rightarrow> fields) \<Rightarrow> scrapeClock \<Rightarrow> ('s, unit) sio" where
  "interface_scrapeMetrics labelOk lib rangeOrder clk =
     scrapeWith labelOk lib ''sonic_interface_scrape_duration_seconds'' interfaceScrapeDuration clk
       (interface_reads labelOk lib rangeOrder)"

definition interface_Collect ::
  "(string \<Rightarrow> bool) \<Rightarrow> 's redisLib \<Rightarrow> (string \<Rightarrow> fields \<Rightarrow> fields) \<Rightarrow> scrapeClock \<Rightarrow> ('s, metric list) sio" where
  "interface_Collect labelOk lib rangeOrder clk =
     collectWith labelOk ''sonic_interface_collector_success'' interfaceScrapeCollectorSuccess clk
       (interface_scrapeMetrics labelOk lib rangeOrder clk)"

subsection \<open>The descriptions\<close>

lemma fq_interface [simp]:
  "fqName interfaceInfo = ''sonic_interface_info''"
  "fqName interfaceMtu = ''sonic_interface_mtu_bytes''"
  "fqName interfaceSpeed = ''sonic_interface_speed_bytes''"
  "fqName interfaceAdminStatus = ''sonic_interface_admin_status''"
  "fqName interfaceOperationslStatus = ''sonic_interface_operational_status''"
  "fqName interfaceTransceiverTemperature = ''sonic_interface_transceiver_temperature_celsius''"
  "fqName interfaceTransceiverVoltage = ''sonic_interface_transceiver_voltage''"
  "fqName interfaceOpticTransmitPower = ''sonic_interface_optic_transmit_power_dbm''"
  "fqName interfaceTransmitEthernetPackets = ''sonic_interface_transmit_ethernet_packets_total''"
  "fqName interfaceTransmitPackets = ''sonic_interface_transmit_packets_total''"
  "fqName interfaceTransmitErrs = ''sonic_interface_transmit_errs_total''"
  "fqName interfaceTransmitBytes = ''sonic_interface_transmit_bytes_total''"
  "fqName interfaceOpticReceivePower = ''sonic_interface_optic_receive_power_dbm''"
  "fqName interfaceReceiveEthernetPackets = ''sonic_interface_receive_ethernet_packets_total''"
  "fqName interfaceReceivePackets = ''sonic_interface_receive_packets_total''"
  "fqName interfaceReceiveErrs = ''sonic_interface_receive_errs_total''"
  "fqName interfaceReceivedBytes = ''sonic_interface_receive_bytes_total''"
  "fqName interfaceScrapeDuration = ''sonic_interface_scrape_duration_seconds''"
  "fqName interfaceScrapeCollectorSuccess = ''sonic_interface_collector_success''"
  by (simp_all add: desc_defs)

lemma labels_interface [simp]:
  "length (d_labels interfaceInfo) = 4"
  "length (d_labels interfaceMtu) = 1"
  "length (d_labels interfaceSpeed) = 1"
  "length (d_labels interfaceAdminStatus) = 1"
  "length (d_labels interfaceOperationslStatus) = 1"
  "length (d_labels interfaceTransceiverTemperature) = 1"
  "length (d_labels interfaceTransceiverVoltage) = 1"
  "length (d_labels interfaceOpticTransmitPower) = 2"
  "length (d_labels interfaceTransmitEthernetPackets) = 2"
  "length (d_labels interfaceTransmitPackets) = 2"
  "length (d_labels interfaceTransmitErrs) = 2"
  "length (d_labels interfaceTransmitBytes) = 1"
  "length (d_labels interfaceOpticReceivePower) = 2"
  "length (d_labels interfaceReceiveEthernetPackets) = 2"
  "length (d_labels interfaceReceivePackets) = 2"
  "length (d_labels interfaceReceiveErrs) = 2"
  "length (d_labels interfaceReceivedBytes) = 1"
  "d_labels interfaceScrapeDuration = []"
  "d_labels interfaceScrapeCollectorSuccess = []"
  by (simp_all add: desc_defs)

lemma interface_described [simp]:
  "interfaceInfo \<in> set interface_Describe"
  "interfaceMtu \<in> set interface_Describe"
  "interfaceSpeed \<in> set interface_Describe"
  "interfaceAdminStatus \<in> set interface_Describe"
  "interfaceOperationslStatus \<in> set interface_Describe"
  "interfaceTransceiverTemperature \<in> set interface_Describe"
  "interfaceTransceiverVoltage \<in> set interface_Describe"
  "interfaceOpticTransmitPower \<in> set interface_Describe"
  "interfaceTransmitEthernetPackets \<in> set interface_Describe"
  "interfaceTransmitPackets \<in> set interface_Describe"
  "interfaceTransmitErrs \<in> set interface_Describe"
  "interfaceTransmitBytes \<in> set interface_Describe"
  "interfaceOpticReceivePower \<in> set interface_Describe"
  "interfaceReceiveEthernetPackets \<in> set interface_Describe"
  "interfaceReceivePackets \<in> set interface_Describe"
  "interfaceReceiveErrs \<in> set interface_Describe"
  "interfaceReceivedBytes \<in> set interface_Describe"
  "interfaceScrapeDuration \<in> set interface_Describe"
  "interfaceScrapeCollectorSuccess \<in> set interface_Describe"
  by (simp_all add: interface_Describe_def)

lemma interface_names: "ownNames ''interface'' interface_Describe"
  by (simp add: ownNames_def interface_Describe_def subsystemOf_def desc_defs)

subsection \<open>The contract\<close>

lemmas interface_defs = interface_reads_def interface_port_def collectInterfaceCounters_def
  collectInterfaceByteCounters_def collectInterfaceErrCounters_def collectInterfacePacketCounters_def
  collectInterfacePacketSizeCounters_def collectInterfaceInfo_def collectInterfaceConfigInfo_def
  collectInterfaceOperationInfo_def collectInterfaceOpticalInfo_def interface_transceiver_def interface_reading_def

lemma interface_reads_keeps:
  "keeps (sendable labelOk flt interface_Describe) (interface_reads labelOk lib rangeOrder cfg)"
  "keeps (scrapedAt t) (interface_reads labelOk lib rangeOrder cfg)"
  "keeps (filteredBy flt) (interface_reads labelOk lib rangeOrder cfg)"
  unfolding interface_defs Let_def by (intro keeps_rules interface_described fq_interface)+

interpretation interface: scrape_cache labelOk lib "''sonic_interface_scrape_duration_seconds''" interfaceScrapeDuration
  "''sonic_interface_collector_success''" interfaceScrapeCollectorSuccess interface_Describe
  "interface_reads labelOk lib rangeOrder"
  rewrites "collectWith labelOk ''sonic_interface_collector_success'' interfaceScrapeCollectorSuccess clk
      (scrapeWith labelOk lib ''sonic_interface_scrape_duration_seconds'' interfaceScrapeDuration clk
        (interface_reads labelOk lib rangeOrder)) =
    interface_Collect labelOk lib rangeOrder clk"
  for labelOk lib rangeOrder
  by unfold_locales (simp_all add: interface_reads_keeps interface_Collect_def interface_scrapeMetrics_def)

subsection \<open>The specification of a scrape\<close>

text \<open>The counters of a port: description, field of its hash, labels.\<close>

definition interface_errorTable :: "(fields \<Rightarrow> fields) \<Rightarrow> string \<Rightarrow> (desc \<times> string \<times> string list) list" where
  "interface_errorTable order port =
     map (\<lambda>(errType, key). (interfaceReceiveErrs, key, [port, errType])) (order (interfaceErrorTypeMap ''in'')) @
     map (\<lambda>(errType, key). (interfaceTransmitErrs, key, [port, errType])) (order (interfaceErrorTypeMap ''out''))"

definition interface_packetTable :: "string \<Rightarrow> (desc \<times> string \<times> string list) list" where
  "interface_packetTable port =
     [(interfaceReceivePackets, ''SAI_PORT_STAT_IF_IN_UCAST_PKTS'', [port, ''ucast'']),
      (interfaceReceivePackets, ''SAI_PORT_STAT_IF_IN_BROADCAST_PKTS'', [port, ''broadcast'']),
      (interfaceReceivePackets, ''SAI_PORT_STAT_IF_IN_MULTICAST_PKTS'', [port, ''multicast'']),
      (interfaceTransmitPackets, ''SAI_PORT_STAT_IF_OUT_UCAST_PKTS'', [port, ''ucast'']),
      (interfaceTransmitPackets, ''SAI_PORT_STAT_IF_OUT_BROADCAST_PKTS'', [port, ''broadcast'']),
      (interfaceTransmitPackets, ''SAI_PORT_STAT_IF_OUT_MULTICAST_PKTS'', [port, ''multicast''])]"

definition interface_sizeRanges :: "(string \<times> string) list" where
  "interface_sizeRanges =
     [(''64'', ''64''), (''127'', ''65_TO_127''), (''255'', ''128_TO_255''), (''511'', ''256_TO_511''),
      (''1023'', ''512_TO_1023''), (''1518'', ''1024_TO_1518''), (''2047'', ''1519_TO_2047''),
      (''4095'', ''2048_TO_4095''), (''9216'', ''4096_TO_9216''), (''16383'', ''9217_TO_16383'')]"

definition interface_sizeTable :: "string \<Rightarrow> (desc \<times> string \<times> string list) list" where
  "interface_sizeTable port =
     map (\<lambda>(size, range). (interfaceReceiveEthernetPackets, ''SAI_PORT_STAT_ETHER_IN_PKTS_'' @ range @ ''_OCTETS'', [port, size]))
       interface_sizeRanges @
     map (\<lambda>(size, range). (interfaceTransmitEthernetPackets, ''SAI_PORT_STAT_ETHER_OUT_PKTS_'' @ range @ ''_OCTETS'', [port, size]))
       interface_sizeRanges"

definition interface_counterTable :: "(fields \<Rightarrow> fields) \<Rightarrow> string \<Rightarrow> (desc \<times> string \<times> string list) list" where
  "interface_counterTable order port =
     [(interfaceReceivedBytes, ''SAI_PORT_STAT_IF_IN_OCTETS'', [port]),
      (interfaceTransmitBytes, ''SAI_PORT_STAT_IF_OUT_OCTETS'', [port])] @
     interface_errorTable order port @ interface_packetTable port @ interface_sizeTable port"

text \<open>What is read of a table's counters, in its order.\<close>

definition tablePieces :: "metricFilter \<Rightarrow> fields \<Rightarrow> (desc \<times> string \<times> string list) list \<Rightarrow> metric list option list" where
  "tablePieces flt counters table =
     map (\<lambda>(d, key, ls). valuePiece flt d CounterValue (field counters key) ls) table"

definition interface_configKey :: "string \<Rightarrow> string" where
  "interface_configKey port = (if hasPrefix port ''Ethernet'' then ''PORT|'' @ port else ''PORTCHANNEL|'' @ port)"

text \<open>The configuration of a port is sent when both its MTU and its speed parse.\<close>

definition interface_infoPieces :: "metricFilter \<Rightarrow> fields \<Rightarrow> fields \<Rightarrow> string \<Rightarrow> metric list option list" where
  "interface_infoPieces flt config appl port =
     [(case (parseFloat (field config ''mtu''), parseFloat (field config ''speed'')) of
         (Some mtu, Some speed) \<Rightarrow> Some (enabledOnly flt
           [constMetric interfaceInfo GaugeValue f64_1
              [port, field config ''alias'', field config ''index'', field config ''description''],
            constMetric interfaceMtu GaugeValue mtu [port],
            constMetric interfaceSpeed GaugeValue
              (f64_div (f64_mul (f64_mul speed (f64_of_int 1000)) (f64_of_int 1000)) (f64_of_int 8)) [port]])
       | _ \<Rightarrow> None),
      Some (let up = (\<lambda>v. if v = ''up'' then f64_1 else f64_0) in enabledOnly flt
        [constMetric interfaceAdminStatus GaugeValue (up (field appl ''admin_status'')) [port],
         constMetric interfaceOperationslStatus GaugeValue (up (field appl ''oper_status'')) [port]])]"

definition interface_readingMetrics :: "metricFilter \<Rightarrow> string \<Rightarrow> string \<times> string \<Rightarrow> metric list" where
  "interface_readingMetrics flt port = (\<lambda>(name, value).
     enabledOnly flt
       (if name = ''temperature'' then gaugeIf interfaceTransceiverTemperature (parseFloat value) [port]
        else if name = ''voltage'' then gaugeIf interfaceTransceiverVoltage (parseFloat value) [port]
        else (case powerUnit ''rx'' name of
            Some unit \<Rightarrow> gaugeIf interfaceOpticReceivePower (parseFloat value) [port, unit]
          | None \<Rightarrow> (case powerUnit ''tx'' name of
                Some unit \<Rightarrow> gaugeIf interfaceOpticTransmitPower (parseFloat value) [port, unit]
              | None \<Rightarrow> []))))"

definition interface_spec ::
  "metricFilter \<Rightarrow> (string \<Rightarrow> fields \<Rightarrow> fields) \<Rightarrow> (int \<Rightarrow> string \<Rightarrow> fields) \<Rightarrow> string list \<Rightarrow> metric list option list" where
  "interface_spec flt order db optics =
     (let ports = db 2 ''COUNTERS_PORT_NAME_MAP'' in
      concat (map (\<lambda>port.
        tablePieces flt (db 2 (''COUNTERS:'' @ field ports port)) (interface_counterTable (order port) port) @
        interface_infoPieces flt (db 4 (interface_configKey port)) (db 0 (''PORT_TABLE:'' @ port)) port) (mapKeys ports)) @
      concat (map (\<lambda>key. map (\<lambda>r. Some (interface_readingMetrics flt (splitOn (CHR ''|'') key ! 1) r)) (db 6 key)) optics))"

lemma tablePieces_append: "tablePieces flt cs (t @ t') = tablePieces flt cs t @ tablePieces flt cs t'"
  by (simp add: tablePieces_def)

lemma pieces_counter:
  "length ls = length (d_labels d) \<Longrightarrow> fqName d = name \<Longrightarrow>
    pieces cfg flt (io_bind (parsed (field counters key)) (\<lambda>v. exportCached anyLabel name d CounterValue v ls))
      (tablePieces flt counters [(d, key, ls)])"
  by (simp add: tablePieces_def pieces_value)

lemma upper_directions:
  "toUpper ''in'' = ''IN''" "toUpper ''out'' = ''OUT''"
  "toUpper ''ucast'' = ''UCAST''" "toUpper ''broadcast'' = ''BROADCAST''" "toUpper ''multicast'' = ''MULTICAST''"
  by code_simp+

lemma pieces_directions:
  assumes "pieces cfg flt (body ''in'') ps" "pieces cfg flt (body ''out'') qs"
  shows "pieces cfg flt (forEach body [''in'', ''out'']) (ps @ qs)"
proof -
  have "pieces cfg flt (forEach body [''in'', ''out'']) (ps @ qs @ [])"
    unfolding forEach.simps by (intro pieces_then assms pieces_return)
  then show ?thesis by simp
qed

lemma pieces_bytes:
  "pieces cfg flt (collectInterfaceByteCounters anyLabel port counters)
     (tablePieces flt counters [(interfaceReceivedBytes, ''SAI_PORT_STAT_IF_IN_OCTETS'', [port])] @
      tablePieces flt counters [(interfaceTransmitBytes, ''SAI_PORT_STAT_IF_OUT_OCTETS'', [port])])"
  unfolding collectInterfaceByteCounters_def
  by (rule pieces_directions; simp add: upper_directions pieces_counter)

text \<open>A loop over names whose counters are read and exported on one description.\<close>

lemma pieces_counters_loop:
  assumes "length (d_labels d) = 2" "fqName d = name"
  shows "pieces cfg flt (forEach (\<lambda>x. io_bind (parsed (field counters (key x))) (\<lambda>v.
       exportCached anyLabel name d CounterValue v [port, label x])) xs)
     (tablePieces flt counters (map (\<lambda>x. (d, key x, [port, label x])) xs))"
  by (rule pieces_eq, rule pieces_forEach, rule pieces_value [OF _ assms(2)])
     (simp_all add: assms(1) tablePieces_def concat_map_singleton)

lemma pieces_errs:
  "pieces cfg flt (collectInterfaceErrCounters anyLabel order port counters)
     (tablePieces flt counters (interface_errorTable order port))"
  unfolding collectInterfaceErrCounters_def interface_errorTable_def tablePieces_append split_def
  by (intro pieces_directions; simp del: forEach.simps; intro pieces_counters_loop) simp_all

lemma pieces_packets:
  "pieces cfg flt (collectInterfacePacketCounters anyLabel port counters)
     (tablePieces flt counters (interface_packetTable port))"
proof -
  let ?ms = "[''ucast'', ''broadcast'', ''multicast'']"
  have table: "interface_packetTable port =
      map (\<lambda>m. (interfaceReceivePackets, ''SAI_PORT_STAT_IF_'' @ toUpper ''in'' @ ''_'' @ toUpper m @ ''_PKTS'', [port, m])) ?ms @
      map (\<lambda>m. (interfaceTransmitPackets, ''SAI_PORT_STAT_IF_'' @ toUpper ''out'' @ ''_'' @ toUpper m @ ''_PKTS'', [port, m])) ?ms"
    by (simp add: interface_packetTable_def upper_directions)
  show ?thesis
    unfolding collectInterfacePacketCounters_def table tablePieces_append
    by (intro pieces_directions; simp del: forEach.simps list.map; intro pieces_counters_loop) simp_all
qed

lemma pieces_sizes:
  "pieces cfg flt (collectInterfacePacketSizeCounters anyLabel port counters)
     (tablePieces flt counters (interface_sizeTable port))"
proof -
  let ?ss = "map fst interface_sizeRanges"
  have table: "interface_sizeTable port =
      map (\<lambda>s. (interfaceReceiveEthernetPackets, packetSizeFormat s ''in'', [port, s])) ?ss @
      map (\<lambda>s. (interfaceTransmitEthernetPackets, packetSizeFormat s ''out'', [port, s])) ?ss"
    by (simp add: interface_sizeTable_def interface_sizeRanges_def packetSizeFormat_def upper_directions)
  have sizes: "[''64'', ''127'', ''255'', ''511'', ''1023'', ''1518'', ''2047'', ''4095'', ''9216'', ''16383''] = ?ss"
    by (simp add: interface_sizeRanges_def)
  show ?thesis
    unfolding collectInterfacePacketSizeCounters_def table tablePieces_append sizes
    by (intro pieces_directions; simp del: forEach.simps map_map; intro pieces_counters_loop) simp_all
qed

lemma pieces_port_counters:
  assumes "serves lib cfg db scan"
  shows "pieces cfg flt (collectInterfaceCounters anyLabel lib cfg order port key)
     (tablePieces flt (db 2 key) (interface_counterTable order port))"
  unfolding collectInterfaceCounters_def
  by (rule pieces_eq, rule pieces_read [OF adds_wrap [OF adds_read [OF yields_HgetAll [OF assms]]]], simp add: RedisDbId_def,
      rule pieces_then [OF pieces_wrap [OF pieces_bytes]], rule pieces_then [OF pieces_wrap [OF pieces_errs]],
      rule pieces_then [OF pieces_wrap [OF pieces_packets]], rule pieces_wrap [OF pieces_sizes])
    (simp add: interface_counterTable_def tablePieces_def)

lemma pieces_port_info:
  assumes "serves lib cfg db scan"
  shows "pieces cfg flt (collectInterfaceInfo anyLabel lib cfg port)
     (interface_infoPieces flt (db 4 (interface_configKey port)) (db 0 (''PORT_TABLE:'' @ port)) port)"
proof -
  have config: "pieces cfg flt (collectInterfaceConfigInfo anyLabel lib cfg port)
      [hd (interface_infoPieces flt (db 4 (interface_configKey port)) (db 0 (''PORT_TABLE:'' @ port)) port)]"
    unfolding collectInterfaceConfigInfo_def Let_def interface_configKey_def [symmetric]
    by (rule pieces_eq, rule pieces_read [OF adds_wrap [OF adds_read [OF yields_HgetAll [OF assms]]]], simp add: RedisDbId_def,
        rule pieces_parsed, rule pieces_parsed, rule pieces_adds,
        rule adds_then [OF adds_gauge], simp, simp, rule adds_then [OF adds_gauge], simp, simp, rule adds_gauge, simp, simp)
      (simp add: interface_infoPieces_def enabledOnly_simps split: option.split)
  have "pieces cfg flt (collectInterfaceOperationInfo anyLabel lib cfg port)
      (tl (interface_infoPieces flt (db 4 (interface_configKey port)) (db 0 (''PORT_TABLE:'' @ port)) port))"
    unfolding collectInterfaceOperationInfo_def Let_def
    by (rule pieces_eq, rule pieces_read [OF adds_wrap [OF adds_read [OF yields_HgetAll [OF assms]]]], simp add: RedisDbId_def,
        rule pieces_adds, rule adds_then [OF adds_gauge], simp, simp, rule adds_gauge, simp, simp)
      (simp add: interface_infoPieces_def enabledOnly_simps Let_def)
  from pieces_then [OF config this] show ?thesis
    by (simp add: collectInterfaceInfo_def interface_infoPieces_def)
qed

lemma adds_reading:
  "adds cfg flt (interface_reading anyLabel port reading) (Ok ()) (interface_readingMetrics flt port reading)"
proof (cases reading)
  case (Pair name val)
  then show ?thesis
    unfolding interface_reading_def interface_readingMetrics_def
    by (cases "parseFloat val")
       (auto simp: gaugeIf_def intro: adds_return adds_gauge split: option.split)
qed

lemma pieces_transceiver:
  assumes "serves lib cfg db scan" "CHR ''|'' \<in> set key"
  shows "pieces cfg flt (interface_transceiver anyLabel lib cfg key)
     (map (\<lambda>r. Some (interface_readingMetrics flt (splitOn (CHR ''|'') key ! 1) r)) (db 6 key))"
  unfolding interface_transceiver_def
  by (rule pieces_eq, rule pieces_read [OF adds_index [OF splitOn_two [OF assms(2)]]],
      rule pieces_read [OF adds_read [OF yields_HgetAll [OF assms(1)]]], simp add: RedisDbId_def,
      rule pieces_forEach, rule pieces_adds, rule adds_reading) (simp add: concat_map_singleton)

lemma pieces_interface:
  assumes "serves lib cfg db scan" "servesKeys lib keysOf"
    and "list_all (\<lambda>key. CHR ''|'' \<in> set key) (keysOf 6 ''TRANSCEIVER_DOM_SENSOR|*'')"
  shows "pieces cfg flt (interface_reads anyLabel lib order cfg)
     (interface_spec flt order db (keysOf 6 ''TRANSCEIVER_DOM_SENSOR|*''))"
proof -
  have port: "pieces cfg flt (interface_port anyLabel lib cfg order ports port)
      (tablePieces flt (db 2 (''COUNTERS:'' @ field ports port)) (interface_counterTable (order port) port) @
       interface_infoPieces flt (db 4 (interface_configKey port)) (db 0 (''PORT_TABLE:'' @ port)) port)" for ports port
    unfolding interface_port_def Let_def
    by (intro pieces_then pieces_wrap pieces_port_counters [OF assms(1)] pieces_port_info [OF assms(1)])
  have "pieces cfg flt (interface_transceiver anyLabel lib cfg key)
      (map (\<lambda>r. Some (interface_readingMetrics flt (splitOn (CHR ''|'') key ! 1) r)) (db 6 key))"
    if "key \<in> set (keysOf 6 ''TRANSCEIVER_DOM_SENSOR|*'')" for key
    using assms(3) that by (intro pieces_transceiver [OF assms(1)]) (simp add: list_all_iff)
  note optics = pieces_forEach [OF this]
  show ?thesis
    unfolding interface_reads_def collectInterfaceOpticalInfo_def interface_spec_def Let_def
    by (rule pieces_read [OF adds_wrap [OF adds_read [OF yields_HgetAll [OF assms(1)]]]], simp add: RedisDbId_def,
        rule pieces_then [OF pieces_forEach [OF port]], rule pieces_wrap,
        rule pieces_read [OF adds_read [OF yields_Keys [OF assms(2)]]], simp add: RedisDbId_def, rule optics)
qed

subsection \<open>Properties\<close>

definition interface_demoDb :: "int \<Rightarrow> string \<Rightarrow> fields" where
  "interface_demoDb n key =
     (if key = ''COUNTERS_PORT_NAME_MAP'' then [(''Ethernet0'', ''oid:0x1'')]
      else if n = 6 then [(''rx1power'', ''7''), (''vendor'', ''X'')]
      else [])"

definition interface_demoKeys :: "int \<Rightarrow> string \<Rightarrow> string list" where
  "interface_demoKeys n pattern = [''TRANSCEIVER_DOM_SENSOR|Ethernet0'']"

definition interface_demo :: scrapeCollector where
  "interface_demo = NewInterfaceCollector (NewMetricFilter (\<lambda>_. None))"

lemma interface_demo_stale:
  "\<not> timeSub (t_collect (demoClock (60 * second))) (lastScrapeTime interface_demo) < 15 * second"
  by (simp add: demoClock_def interface_demo_def NewInterfaceCollector_def scrape_new_def timeSub_def
      minInt64_def maxInt64_def)

text \<open>A port without counters (all are 0) whose speed is not a number.\<close>

definition interface_badDb :: "int \<Rightarrow> string \<Rightarrow> fields" where
  "interface_badDb n key =
     (if key = ''COUNTERS_PORT_NAME_MAP'' then [(''Ethernet0'', ''oid:0x1'')]
      else if key = ''PORT|Ethernet0'' then [(''mtu'', ''7''), (''speed'', ''x'')] else [])"

text \<open>
  C25. On a server that holds still and whose transceiver keys have the form asked for, a scrape that is due reads, for
  every port of the name map and in its order, its byte, error, packet and packet size counters, each under the direction
  and kind its SAI name says, then its configuration and state (the speed of the configuration, in megabits, as bytes
  per second); then the readings of every transceiver, of which it leaves out those that do not parse. When every
  counter, MTU and speed parses it sends all of it with the duration and a success of 1; otherwise what comes before the first
  that does not, without a duration and with a success of 0.
\<close>

theorem interface_scrape_refines_spec:
  assumes "serves lib cfg db scan" "servesKeys lib keysOf"
    and "list_all (\<lambda>key. CHR ''|'' \<in> set key) (keysOf 6 ''TRANSCEIVER_DOM_SENSOR|*'')"
    and "\<not> timeSub (t_collect clk) (lastScrapeTime c) < 15 * second"
  shows "fst (interface_Collect anyLabel lib order clk (w, c)) =
    (let ps = interface_spec (scrape_filter c) order db (keysOf 6 ''TRANSCEIVER_DOM_SENSOR|*'') in
     Ok (sentBefore ps @ gauges (scrape_filter c)
       (if allParse ps
        then [(interfaceScrapeDuration, durSeconds (timeSub (t_gauge clk) (t_scrape clk))), (interfaceScrapeCollectorSuccess, f64_1)]
        else [(interfaceScrapeCollectorSuccess, f64_0)])))"
  unfolding interface_Collect_def interface_scrapeMetrics_def Let_def
  by (subst collect_pieces [where body = "interface_reads anyLabel lib order", OF pieces_interface [OF assms(1-3)] assms(1,4)])
     (simp_all add: scrapeGauges_def)

lemma interface_demo_complete: "allParse (interface_spec flt order interface_demoDb keys)"
  by (auto simp: allParse_def interface_spec_def interface_demoDb_def mapKeys_def tablePieces_def valuePiece_def
      interface_infoPieces_def interface_configKey_def parseFloat_Nil list_all_iff split_def Let_def)

theorem interface_scrape_refines_spec_witness:
  "fst (interface_Collect anyLabel (staticLib localRedis interface_demoDb interface_demoKeys) (\<lambda>_. rev)
      (demoClock (60 * second)) (\<lparr>server = (), databases = []\<rparr>, interface_demo)) =
    Ok (sentBefore (interface_spec (scrape_filter interface_demo) (\<lambda>_. rev) interface_demoDb [''TRANSCEIVER_DOM_SENSOR|Ethernet0'']) @
      gauges (scrape_filter interface_demo) [(interfaceScrapeDuration, durSeconds (timeSub (61 * second) (60 * second))),
        (interfaceScrapeCollectorSuccess, f64_1)]) \<and>
   fst (interface_Collect anyLabel (staticLib localRedis interface_badDb interface_demoKeys) (\<lambda>_. rev)
      (demoClock (60 * second)) (\<lparr>server = (), databases = []\<rparr>, interface_demo)) =
    Ok (sentBefore (tablePieces (scrape_filter interface_demo) [] (interface_counterTable rev ''Ethernet0'')) @
      gauges (scrape_filter interface_demo) [(interfaceScrapeCollectorSuccess, f64_0)])"
proof -
  have keys: "list_all (\<lambda>key. CHR ''|'' \<in> set key) (interface_demoKeys 6 ''TRANSCEIVER_DOM_SENSOR|*'')"
    by (simp add: interface_demoKeys_def)
  have optic: "interface_demoKeys 6 ''TRANSCEIVER_DOM_SENSOR|*'' = [''TRANSCEIVER_DOM_SENSOR|Ethernet0'']"
    by (simp add: interface_demoKeys_def)
  let ?counters = "tablePieces (scrape_filter interface_demo) [] (interface_counterTable rev ''Ethernet0'')"
  have "parseFloat ''x'' = None"
    by code_simp
  then have "\<exists>p qs. interface_spec (scrape_filter interface_demo) (\<lambda>_. rev) interface_badDb (interface_demoKeys 6 ''TRANSCEIVER_DOM_SENSOR|*'') =
      ?counters @ None # p # qs"
    by (simp add: interface_spec_def interface_badDb_def mapKeys_def interface_infoPieces_def interface_configKey_def
        interface_demoKeys_def hasPrefix_def parseFloat_7 Let_def)
  moreover have "allParse ?counters"
    by (simp add: allParse_def tablePieces_def valuePiece_def parseFloat_Nil list_all_iff split_def)
  ultimately have "sentBefore (interface_spec (scrape_filter interface_demo) (\<lambda>_. rev) interface_badDb (interface_demoKeys 6 ''TRANSCEIVER_DOM_SENSOR|*'')) =
      sentBefore ?counters"
    "\<not> allParse (interface_spec (scrape_filter interface_demo) (\<lambda>_. rev) interface_badDb (interface_demoKeys 6 ''TRANSCEIVER_DOM_SENSOR|*''))"
    by (auto simp: sentBefore_append) (simp_all add: sentBefore_def allParse_def)
  then show ?thesis
    using interface_scrape_refines_spec [OF staticLib_serves [of localRedis interface_demoDb interface_demoKeys] staticLib_servesKeys keys interface_demo_stale,
        of "\<lambda>_. rev"] interface_demo_complete
      interface_scrape_refines_spec [OF staticLib_serves [of localRedis interface_badDb interface_demoKeys] staticLib_servesKeys keys interface_demo_stale,
        of "\<lambda>_. rev"]
    by (simp add: Let_def demoClock_def optic)
qed

end
