(* ===== verification/GoDuration.thy ===== *)
theory GoDuration
  imports GoConv
begin

text \<open>
  \<^verbatim>\<open>d.String()\<close> of a \<^verbatim>\<open>time.Duration\<close>, and that \<^verbatim>\<open>time.ParseDuration\<close> reads every duration back
  from it, to the nanosecond: the floats that \<^verbatim>\<open>ParseDuration\<close> uses for a fraction are exact there.
\<close>

text \<open>\<open>fmtFrac\<close> writes the last digits of \<open>v\<close> as a fraction without trailing zeros.\<close>

fun fmtFrac :: "nat \<Rightarrow> int \<Rightarrow> bool \<Rightarrow> string \<Rightarrow> string \<times> int" where
  "fmtFrac 0 v pr buf = (if pr then CHR ''.'' # buf else buf, v)"
| "fmtFrac (Suc prec) v pr buf =
     (let digit = v mod 10; pr = (pr \<or> digit \<noteq> 0)
      in fmtFrac prec (v div 10) pr (if pr then itoa (nat digit) @ buf else buf))"

definition durationText :: "duration \<Rightarrow> string" where
  "durationText d =
     (let u = \<bar>d\<bar>;
          text = (if u = 0 then ''0s''
            else if u < second then
              (let (prec, prefix) = (if u < 1000 then (0, ''n'') else if u < 1000000 then (3, [CHR 0xC2, CHR 0xB5]) else (6, ''m''));
                   (frac, v) = fmtFrac prec u False []
               in itoa (nat v) @ frac @ prefix @ ''s'')
            else
              (let (frac, v) = fmtFrac 9 u False [];
                   secs = itoa (nat (v mod 60)) @ frac @ ''s''; minutes = v div 60;
                   mins = itoa (nat (minutes mod 60)) @ ''m'' @ secs; hours = minutes div 60
               in if minutes = 0 then secs else if hours = 0 then mins else itoa (nat hours) @ ''h'' @ mins))
      in if d < 0 then CHR ''-'' # text else text)"

subsection \<open>Exact products and quotients\<close>

lemma f64_mul_exact:
  assumes "0 \<le> a" "a < 2 ^ 53" "0 \<le> b" "b < 2 ^ 53"
  shows "f64_mul (f64_of_int a) (f64_of_int b) = f64_of_int (a * b)"
proof -
  obtain m e where a: "f64_of_int a = Fin False m e" "0 \<le> e" "m * 2 ^ nat e = a"
    using f64_of_int_Fin [OF assms(1,2)] by blast
  obtain n f where b: "f64_of_int b = Fin False n f" "0 \<le> f" "n * 2 ^ nat f = b"
    using f64_of_int_Fin [OF assms(3,4)] by blast
  have "m * n * pow 2 (e + f) = a * b"
    using a(2,3) b(2,3) by (simp add: pow_def nat_add_distrib power_add algebra_simps flip: a(3) b(3))
  then show ?thesis
    using assms a(2) b(2) by (simp add: a(1) b(1) f64_of_int_def [of "a * b"] mult_less_0_iff not_less)
qed

lemma f64_div_tens:
  "k \<le> 3 \<Longrightarrow> f64_div (f64_of_int 1000) (f64_of_int (10 ^ k)) = f64_of_int (10 ^ (3 - k))"
  "k \<le> 6 \<Longrightarrow> f64_div (f64_of_int 1000000) (f64_of_int (10 ^ k)) = f64_of_int (10 ^ (6 - k))"
  "k \<le> 9 \<Longrightarrow> f64_div (f64_of_int second) (f64_of_int (10 ^ k)) = f64_of_int (10 ^ (9 - k))"
proof -
  have "list_all (\<lambda>k. f64_div (f64_of_int 1000) (f64_of_int (10 ^ k)) = f64_of_int (10 ^ (3 - k))) [0..<4]"
    "list_all (\<lambda>k. f64_div (f64_of_int 1000000) (f64_of_int (10 ^ k)) = f64_of_int (10 ^ (6 - k))) [0..<7]"
    "list_all (\<lambda>k. f64_div (f64_of_int second) (f64_of_int (10 ^ k)) = f64_of_int (10 ^ (9 - k))) [0..<10]"
    by code_simp+
  then show
    "k \<le> 3 \<Longrightarrow> f64_div (f64_of_int 1000) (f64_of_int (10 ^ k)) = f64_of_int (10 ^ (3 - k))"
    "k \<le> 6 \<Longrightarrow> f64_div (f64_of_int 1000000) (f64_of_int (10 ^ k)) = f64_of_int (10 ^ (6 - k))"
    "k \<le> 9 \<Longrightarrow> f64_div (f64_of_int second) (f64_of_int (10 ^ k)) = f64_of_int (10 ^ (9 - k))"
    by (simp_all add: list_all_iff less_Suc_eq_le)
qed

subsection \<open>Digits\<close>

lemma digitVal_range: "isDigit c \<Longrightarrow> 0 \<le> digitVal c \<and> digitVal c \<le> 9"
proof -
  assume c: "isDigit c"
  then have "48 \<le> (of_char c :: nat) \<and> (of_char c :: nat) \<le> 57"
    by (simp add: isDigit_def less_eq_char_def)
  then have n: "(of_char c :: nat) - 48 < 10" and "(of_char c :: nat) - 48 + 48 = of_char c"
    by linarith+
  then have "char_of ((of_char c :: nat) - 48 + 48) = c" by simp
  then have "digitVal c = int (of_char c - 48)" using digit_char [OF n] by metis
  then show ?thesis using n by linarith
qed

lemma decimal_snoc: "decimal (s @ [c]) = decimal s * 10 + digitVal c"
  by (simp add: decimal_def)

lemma decimal_foldl: "foldl (\<lambda>a c. a * 10 + digitVal c) x s = x * 10 ^ length s + decimal s"
proof (induction s rule: rev_induct)
  case (snoc c s)
  then show ?case by (simp add: decimal_snoc algebra_simps)
qed (simp add: decimal_def)

lemma decimal_Cons: "decimal (c # s) = digitVal c * 10 ^ length s + decimal s"
  using decimal_foldl [of "digitVal c" s] by (simp add: decimal_def)

lemma decimal_range: "list_all isDigit s \<Longrightarrow> 0 \<le> decimal s \<and> decimal s < 10 ^ length s"
proof (induction s rule: rev_induct)
  case (snoc c s)
  then show ?case using digitVal_range [of c] by (simp add: decimal_snoc)
qed (simp add: decimal_def)

lemma itoa_decimal: "list_all isDigit (itoa n)" "itoa n \<noteq> []" "decimal (itoa n) = int n"
  using itoa_digits [of n] by (simp_all add: decimal_def)

lemma leadingInt_digits:
  assumes "list_all isDigit s" "r = [] \<or> \<not> isDigit (hd r)" "0 \<le> x" "x * 10 ^ length s + decimal s \<le> pow63"
  shows "leadingInt (s @ r) x = Some (x * 10 ^ length s + decimal s, r)"
  using assms
proof (induction s arbitrary: x)
  case Nil
  then show ?case by (cases r) (simp_all add: decimal_def)
next
  case (Cons c s)
  let ?y = "x * 10 + digitVal c"
  have c: "isDigit c" "0 \<le> digitVal c" "0 \<le> decimal s"
    using Cons.prems digitVal_range [of c] decimal_range [of s] by simp_all
  have sum: "x * 10 ^ length (c # s) + decimal (c # s) = ?y * 10 ^ length s + decimal s"
    by (simp add: decimal_Cons algebra_simps)
  have "?y \<le> ?y * 10 ^ length s"
    using mult_left_mono [of 1 "10 ^ length s" ?y] c Cons.prems(3) by simp
  then have y: "?y \<le> pow63"
    using Cons.prems(4) c(3) unfolding sum by linarith
  then have "x \<le> pow63 div 10" using c(2) by (simp add: pow63_def)
  then show ?case
    using Cons.IH [of ?y] Cons.prems c y by (simp only: sum append_Cons) (simp add: Let_def)
qed

lemma leadingFraction_digits:
  assumes "list_all isDigit s" "r = [] \<or> \<not> isDigit (hd r)" "0 \<le> x" "x < 10 ^ j" "j + length s \<le> 15"
  shows "leadingFraction (s @ r) False x (f64_of_int (10 ^ j)) =
    (x * 10 ^ length s + decimal s, f64_of_int (10 ^ (j + length s)), r)"
  using assms
proof (induction s arbitrary: x j)
  case Nil
  then show ?case by (cases r) (simp_all add: decimal_def)
next
  case (Cons c s)
  let ?y = "x * 10 + digitVal c"
  have c: "isDigit c" "0 \<le> digitVal c" "digitVal c \<le> 9"
    using Cons.prems digitVal_range [of c] by simp_all
  have tens: "(10 :: int) ^ j \<le> 10 ^ 14"
    using Cons.prems(5) by (intro power_increasing) simp_all
  have x: "\<not> x > maxInt64 div 10" "\<not> ?y > pow63"
    using tens c Cons.prems(4) by (simp_all add: maxInt64_def pow63_def)
  have y: "0 \<le> ?y" "?y < 10 ^ Suc j" using c Cons.prems(3,4) by simp_all
  have scale: "f64_mul (f64_of_int (10 ^ j)) (f64_of_int 10) = f64_of_int (10 ^ Suc j)"
    using tens by (subst f64_mul_exact) (simp_all add: mult.commute)
  have sum: "x * 10 ^ length (c # s) + decimal (c # s) = ?y * 10 ^ length s + decimal s"
    by (simp add: decimal_Cons algebra_simps)
  have "leadingFraction ((c # s) @ r) False x (f64_of_int (10 ^ j)) = leadingFraction (s @ r) False ?y (f64_of_int (10 ^ Suc j))"
    using c(1) x scale by (simp add: Let_def)
  then show ?case
    using Cons.IH [of ?y "Suc j"] Cons.prems y by (simp only: sum) simp
qed

lemma fmtFrac_digits:
  assumes "0 \<le> v"
  shows "\<exists>ds. length ds = p \<and> list_all isDigit ds \<and> decimal ds = v mod 10 ^ p \<and>
    fmtFrac p v True buf = (CHR ''.'' # ds @ buf, v div 10 ^ p)"
  using assms
proof (induction p arbitrary: v buf)
  case 0
  then show ?case by (simp add: decimal_def)
next
  case (Suc p)
  let ?n = "nat (v mod 10)"
  have n: "?n < 10" by simp
  obtain ds where ds: "length ds = p" "list_all isDigit ds" "decimal ds = v div 10 mod 10 ^ p"
    "fmtFrac p (v div 10) True (itoa ?n @ buf) = (CHR ''.'' # ds @ itoa ?n @ buf, v div 10 div 10 ^ p)"
    using Suc.IH [of "v div 10" "itoa ?n @ buf"] Suc.prems by (auto simp: pos_imp_zdiv_nonneg_iff)
  have "v mod 10 ^ Suc p = v div 10 mod 10 ^ p * 10 + v mod 10"
    using zmod_zmult2_eq [of "10 ^ p" v 10] by (simp add: algebra_simps)
  then have "decimal (ds @ itoa ?n) = v mod 10 ^ Suc p"
    using n digit_char [of ?n] ds(3) by (simp add: itoa_digit decimal_snoc)
  moreover have "list_all isDigit (ds @ itoa ?n)" "length (ds @ itoa ?n) = Suc p"
    using ds n digit_char [OF n] by (simp_all add: itoa_digit)
  moreover have "fmtFrac (Suc p) v True buf = (CHR ''.'' # (ds @ itoa ?n) @ buf, v div 10 ^ Suc p)"
    using ds(4) by (simp add: Let_def zdiv_zmult2_eq)
  ultimately show ?case by blast
qed

text \<open>The fraction is empty, or a point and at most \<open>p\<close> digits worth the remainder.\<close>

definition fractionOf :: "nat \<Rightarrow> int \<Rightarrow> string \<Rightarrow> bool" where
  "fractionOf p x s =
     (if x = 0 then s = []
      else \<exists>ds. s = CHR ''.'' # ds \<and> ds \<noteq> [] \<and> list_all isDigit ds \<and> length ds \<le> p \<and> decimal ds * 10 ^ (p - length ds) = x)"

lemma fmtFrac_fraction:
  assumes "0 \<le> v"
  obtains s where "fmtFrac p v False [] = (s, v div 10 ^ p)" "fractionOf p (v mod 10 ^ p) s"
proof -
  have "\<exists>s. fmtFrac p v False [] = (s, v div 10 ^ p) \<and> fractionOf p (v mod 10 ^ p) s"
    using assms
  proof (induction p arbitrary: v)
    case 0
    then show ?case by (simp add: fractionOf_def)
  next
    case (Suc p)
    have rest: "v mod 10 ^ Suc p = v div 10 mod 10 ^ p * 10 + v mod 10"
      using zmod_zmult2_eq [of "10 ^ p" v 10] by (simp add: algebra_simps)
    show ?case
    proof (cases "v mod 10 = 0")
      case True
      obtain s where s: "fmtFrac p (v div 10) False [] = (s, v div 10 div 10 ^ p)" "fractionOf p (v div 10 mod 10 ^ p) s"
        using Suc.IH [of "v div 10"] Suc.prems by (auto simp: pos_imp_zdiv_nonneg_iff)
      have "fractionOf (Suc p) (v mod 10 ^ Suc p) s"
      proof (cases "v div 10 mod 10 ^ p = 0")
        case False
        then obtain ds where ds: "s = CHR ''.'' # ds" "ds \<noteq> []" "list_all isDigit ds" "length ds \<le> p"
          "decimal ds * 10 ^ (p - length ds) = v div 10 mod 10 ^ p"
          using s(2) by (auto simp: fractionOf_def)
        have "decimal ds * 10 ^ (Suc p - length ds) = v mod 10 ^ Suc p"
        proof -
          have "decimal ds * 10 ^ (Suc p - length ds) = decimal ds * 10 ^ (p - length ds) * 10"
            using ds(4) by (simp add: Suc_diff_le)
          then show ?thesis unfolding ds(5) rest True by simp
        qed
        then show ?thesis
          using False ds True unfolding fractionOf_def by (auto simp: rest)
      next
        case zero: True
        then have "v mod 10 ^ Suc p = 0" unfolding rest using True by simp
        then show ?thesis using s(2) zero by (simp add: fractionOf_def del: power_Suc)
      qed
      then show ?thesis using s(1) True by (simp add: Let_def zdiv_zmult2_eq)
    next
      case False
      have "fmtFrac (Suc p) v False [] = fmtFrac (Suc p) v True []"
        using False by (simp add: Let_def)
      then obtain ds where "length ds = Suc p" "list_all isDigit ds" "decimal ds = v mod 10 ^ Suc p"
        "fmtFrac (Suc p) v False [] = (CHR ''.'' # ds, v div 10 ^ Suc p)"
        using fmtFrac_digits [OF Suc.prems, of "Suc p" "[]"] by auto
      moreover have "v mod 10 ^ Suc p \<noteq> 0"
      proof
        assume "v mod 10 ^ Suc p = 0"
        moreover have "0 \<le> v div 10 mod 10 ^ p" "0 \<le> v mod 10" by simp_all
        ultimately show False using False unfolding rest by linarith
      qed
      ultimately show ?thesis
        by (intro exI [of _ "CHR ''.'' # ds"]) (auto simp: fractionOf_def)
    qed
  qed
  with that show thesis by blast
qed

subsection \<open>One number with its unit\<close>

definition unitText :: "string \<Rightarrow> string \<Rightarrow> bool" where
  "unitText u r = (u \<noteq> [] \<and> list_all isUnitChar u \<and> (r = [] \<or> \<not> isUnitChar (hd r)))"

lemma unitText_spans:
  assumes "unitText u r"
  shows "takeWhile isUnitChar (u @ r) = u" "dropWhile isUnitChar (u @ r) = r"
    "hd (u @ r) \<noteq> CHR ''.''" "\<not> isDigit (hd (u @ r))" "u @ r \<noteq> []"
  using assms by (cases u; cases r; auto simp: unitText_def isUnitChar_def list_all_iff takeWhile_append dropWhile_append)+

lemma leadingInt_itoa:
  assumes "r = [] \<or> \<not> isDigit (hd r)" "int n \<le> pow63"
  shows "leadingInt (itoa n @ r) 0 = Some (int n, r)"
  using leadingInt_digits [OF itoa_decimal(1) assms(1), of 0 n] assms(2) by (simp add: itoa_decimal)

lemma itoa_not_rest: "itoa n @ r \<noteq> r"
  using itoa_decimal(2) [of n] by simp

lemma quotient_bound: "0 < unit \<Longrightarrow> 0 \<le> x \<Longrightarrow> n * unit + x \<le> pow63 \<Longrightarrow> n \<le> pow63 div unit" for n unit x :: int
  using zdiv_mono1 [of "n * unit" pow63 unit] by simp

lemma durationItem_whole:
  assumes "map_of unitMap u = Some unit" "1 \<le> unit" "unitText u r" "int n * unit \<le> pow63"
  shows "durationItem (itoa n @ u @ r) = Some (int n * unit, r)"
proof -
  note spans = unitText_spans [OF assms(3)]
  have fits: "int n \<le> pow63 div unit"
    using quotient_bound [of unit 0 "int n"] assms(2,4) by simp
  have "int n \<le> int n * unit" using assms(2) mult_left_mono [of 1 unit "int n"] by simp
  then have lead: "leadingInt (itoa n @ u @ r) 0 = Some (int n, u @ r)"
    using leadingInt_itoa [of "u @ r" n] spans assms(4) by simp
  show ?thesis
    using assms spans fits itoa_not_rest [of n "u @ r"]
    by (simp add: durationItem_def lead unitText_def not_less)
qed

lemma durationItem_fraction:
  assumes "map_of unitMap u = Some unit" "unit = 10 ^ p" "p \<le> 9" "unitText u r" "fractionOf p x fr" "0 \<le> x" "x < unit"
    "int n * unit + x \<le> pow63"
    and tens: "\<And>k. k \<le> p \<Longrightarrow> f64_div (f64_of_int unit) (f64_of_int (10 ^ k)) = f64_of_int (10 ^ (p - k))"
  shows "durationItem (itoa n @ fr @ u @ r) = Some (int n * unit + x, r)"
proof (cases "x = 0")
  case True
  then have "fr = []" using assms(5) by (simp add: fractionOf_def)
  then show ?thesis using durationItem_whole [OF assms(1) _ assms(4)] assms(2,8) True by simp
next
  case False
  then obtain ds where ds: "fr = CHR ''.'' # ds" "ds \<noteq> []" "list_all isDigit ds" "length ds \<le> p"
    "decimal ds * 10 ^ (p - length ds) = x"
    using assms(5) by (auto simp: fractionOf_def)
  note spans = unitText_spans [OF assms(4)]
  have unit: "1 \<le> unit" "unit \<le> 10 ^ 9"
    using assms(2,3) power_increasing [of p 9 "10 :: int"] by simp_all
  have fits: "int n \<le> pow63 div unit"
    using quotient_bound [of unit x "int n"] unit assms(6,8) by simp
  have "int n \<le> int n * unit" using unit mult_left_mono [of 1 unit "int n"] by simp
  then have lead: "leadingInt (itoa n @ fr @ u @ r) 0 = Some (int n, fr @ u @ r)"
    using leadingInt_itoa [of "fr @ u @ r" n] ds(1) assms(6,8) by (simp add: isDigit_def less_eq_char_def)
  have "u \<noteq> []" using assms(4) by (simp add: unitText_def)
  have one: "f64_of_int (10 ^ 0) = f64_1" by code_simp
  have frac: "leadingFraction (ds @ u @ r) False 0 f64_1 = (decimal ds, f64_of_int (10 ^ length ds), u @ r)"
    using leadingFraction_digits [OF ds(3), of "u @ r" 0 0] spans ds(4) assms(3) unfolding one by simp
  have pos: "0 < decimal ds"
    using False ds(5) decimal_range [OF ds(3)] by (cases "decimal ds = 0") auto
  have "decimal ds \<le> x"
    using mult_left_mono [of 1 "10 ^ (p - length ds)" "decimal ds"] pos ds(5) by simp
  then have "decimal ds < 2 ^ 53" "x < 2 ^ 53"
    using assms(7) unit by simp_all
  moreover have "(10 :: int) ^ (p - length ds) < 2 ^ 53"
    by (rule le_less_trans [OF power_increasing [of _ 9]]) (use assms(3) in simp_all)
  ultimately have "f64_trunc (f64_mul (f64_of_int (decimal ds)) (f64_div (f64_of_int unit) (f64_of_int (10 ^ length ds)))) = x"
    using pos ds(5) assms(6) by (simp add: tens [OF ds(4)] f64_mul_exact f64_of_int_exact)
  then show ?thesis
    using assms(1,8) spans fits pos ds(1,2) \<open>u \<noteq> []\<close> itoa_not_rest [of n "fr @ u @ r"] frac
    by (simp add: durationItem_def lead [unfolded ds(1) append_Cons] Let_def not_less)
qed

subsection \<open>Durations are read back\<close>

lemma durationSum_item:
  assumes "durationItem s = Some (w, r)" "0 \<le> d" "0 \<le> w" "d + w \<le> pow63"
  shows "durationSum s d = durationSum r (d + w)"
proof -
  have "s \<noteq> []" using durationItem_shorter [OF assms(1)] by auto
  moreover have "(d + w) mod (2 * pow63) = d + w"
    using assms by (intro mod_pos_pos_trivial) (simp_all add: pow63_def)
  ultimately show ?thesis
    using assms by (subst durationSum.simps) (simp add: Let_def)
qed

lemma durationSum_Nil: "durationSum [] d = Some d"
  by (simp add: durationSum.simps)

lemma itoa_starts_digit: "isDigit (hd (itoa n @ r))" "itoa n @ r \<noteq> []"
  using itoa_decimal(1,2) [of n] by (cases "itoa n"; simp)+

lemma unitText_next:
  "list_all isUnitChar u \<Longrightarrow> u \<noteq> [] \<Longrightarrow> unitText u (itoa n @ r)"
  "list_all isUnitChar u \<Longrightarrow> u \<noteq> [] \<Longrightarrow> unitText u []"
  using itoa_starts_digit by (simp_all add: unitText_def isUnitChar_def)

text \<open>The text without its sign, as nested items.\<close>

lemma durationSum_seconds:
  assumes "0 \<le> u" "0 \<le> d" "d + u \<le> pow63" "fractionOf 9 (u mod second) fr"
  shows "durationSum (itoa (nat (u div second)) @ fr @ ''s'') d = Some (d + u)"
proof -
  have nat: "int (nat (u div second)) = u div second" using assms(1) by (simp add: pos_imp_zdiv_nonneg_iff)
  have whole: "u div second * second + u mod second = u" by simp
  have "durationItem (itoa (nat (u div second)) @ fr @ ''s'' @ []) = Some (int (nat (u div second)) * second + u mod second, [])"
  proof (rule durationItem_fraction [where p = 9])
    show "int (nat (u div second)) * second + u mod second \<le> pow63"
      unfolding nat whole using assms(2,3) by simp
    show "f64_div (f64_of_int second) (f64_of_int (10 ^ k)) = f64_of_int (10 ^ (9 - k))" if "k \<le> 9" for k
      using f64_div_tens(3) [OF that] .
  qed (use assms(4) in \<open>simp_all add: unitMap_def unitText_def isUnitChar_def isDigit_def less_eq_char_def\<close>)
  then have "durationItem (itoa (nat (u div second)) @ fr @ ''s'') = Some (u, [])"
    unfolding nat whole by simp
  then show ?thesis using assms durationSum_item durationSum_Nil by metis
qed

lemma durationSum_whole:
  assumes "map_of unitMap u = Some unit" "1 \<le> unit" "unitText u r" "0 \<le> n" "0 \<le> d" "d + n * unit \<le> pow63"
  shows "durationSum (itoa (nat n) @ u @ r) d = durationSum r (d + n * unit)"
  using durationItem_whole [OF assms(1-3), of "nat n"] assms(2,4-6)
  by (intro durationSum_item) simp_all

lemma units:
  "map_of unitMap ''m'' = Some minute" "map_of unitMap ''h'' = Some (3600 * second)"
  "list_all isUnitChar ''m''" "list_all isUnitChar ''h''" "''m'' \<noteq> []" "''h'' \<noteq> []"
  "1 \<le> minute" "1 \<le> 3600 * second" "0 \<le> (0 :: int)"
  by (simp_all add: unitMap_def isUnitChar_def isDigit_def less_eq_char_def)

lemma durationText_seconds:
  assumes "second \<le> u" "u \<le> pow63"
  shows "durationSum (durationText u) 0 = Some u \<and> (\<exists>n r. durationText u = itoa n @ r \<and> r \<noteq> [])"
proof -
  obtain fr where fr: "fmtFrac 9 u False [] = (fr, u div second)" "fractionOf 9 (u mod second) fr"
    using fmtFrac_fraction [of u 9] assms(1) by auto
  define v where "v = u div second"
  let ?m = "v div 60" and ?h = "v div 60 div 60"
  let ?secs = "itoa (nat (v mod 60)) @ fr @ ''s''" and ?su = "v mod 60 * second + u mod second"
  let ?mins = "itoa (nat (?m mod 60)) @ ''m'' @ ?secs"
  have v: "1 \<le> v" unfolding v_def using zdiv_mono1 [OF assms(1), of second] by simp
  have "v * second + u mod second = u" unfolding v_def by simp
  moreover have "v = ?m * 60 + v mod 60" "?m = ?h * 60 + ?m mod 60" by simp_all
  ultimately have sum: "?h * (3600 * second) + ?m mod 60 * minute + ?su = u" by linarith
  have nonneg: "0 \<le> ?h" "0 \<le> ?m" "0 \<le> ?m mod 60" "0 \<le> v mod 60" "0 \<le> u mod second" "u mod second < second"
    using v by (simp_all add: pos_imp_zdiv_nonneg_iff)
  have su: "?su div second = v mod 60" "?su mod second = u mod second"
    using nonneg(6) by simp_all
  have secs: "durationSum ?secs d = Some (d + ?su)" if "0 \<le> d" "d + ?su \<le> pow63" for d
    using durationSum_seconds [of ?su d fr] that fr(2) nonneg unfolding su by simp
  have mins: "durationSum ?mins d = Some (d + ?m mod 60 * minute + ?su)" if "0 \<le> d" "d + ?m mod 60 * minute + ?su \<le> pow63" for d
  proof -
    have "0 \<le> ?su" "0 \<le> ?m mod 60 * minute" using nonneg by simp_all
    then have "durationSum ?mins d = durationSum ?secs (d + ?m mod 60 * minute)"
      using that by (intro durationSum_whole units unitText_next nonneg) linarith+
    also have "\<dots> = Some (d + ?m mod 60 * minute + ?su)"
      using that \<open>0 \<le> ?m mod 60 * minute\<close> by (intro secs) linarith+
    finally show ?thesis .
  qed
  have hours: "durationSum (itoa (nat ?h) @ ''h'' @ ?mins) 0 = Some u"
  proof -
    have parts: "0 \<le> ?su" "0 \<le> ?m mod 60 * minute" "0 \<le> ?h * (3600 * second)" using nonneg by simp_all
    then have "durationSum (itoa (nat ?h) @ ''h'' @ ?mins) 0 = durationSum ?mins (0 + ?h * (3600 * second))"
      using sum assms(2) by (intro durationSum_whole units unitText_next nonneg) linarith+
    also have "\<dots> = Some (0 + ?h * (3600 * second) + ?m mod 60 * minute + ?su)"
      using parts sum assms(2) by (intro mins) linarith+
    finally show ?thesis using sum by simp
  qed
  have shape: "durationText u = (if ?m = 0 then ?secs else if ?h = 0 then ?mins else itoa (nat ?h) @ ''h'' @ ?mins)"
  proof -
    have u: "\<bar>u\<bar> = u" "(u < 0) = False" "(u = 0) = False" "(u < second) = False" using assms(1) by simp_all
    show ?thesis
      unfolding durationText_def Let_def u fr(1) case_prod_conv if_False v_def by (rule refl)
  qed
  consider "?m = 0" | "?m \<noteq> 0" "?h = 0" | "?m \<noteq> 0" "?h \<noteq> 0" by blast
  then show ?thesis
  proof cases
    case 1
    have "durationText u = ?secs" unfolding shape by (rule if_P [OF 1])
    moreover have "durationSum ?secs 0 = Some u"
      using secs [of 0] sum assms(2) 1 by simp
    ultimately show ?thesis by (simp only:) blast
  next
    case 2
    have "durationText u = ?mins" unfolding shape if_not_P [OF 2(1)] by (rule if_P [OF 2(2)])
    moreover have "durationSum ?mins 0 = Some u"
      using mins [of 0] sum assms(2) unfolding 2(2) by (simp only: mult_zero_left add_0_left order_refl)
    ultimately show ?thesis by (simp only:) blast
  next
    case 3
    have "durationText u = itoa (nat ?h) @ ''h'' @ ?mins" unfolding shape if_not_P [OF 3(1)] by (rule if_not_P [OF 3(2)])
    then show ?thesis using hours by (simp only:) blast
  qed
qed

lemma durationText_below:
  assumes "0 < u" "u < second"
  shows "durationSum (durationText u) 0 = Some u \<and> (\<exists>n r. durationText u = itoa n @ r \<and> r \<noteq> [])"
proof -
  have item: "durationSum (itoa (nat (u div 10 ^ p)) @ fr @ x) 0 = Some u"
    if "fractionOf p (u mod 10 ^ p) fr" "map_of unitMap x = Some (10 ^ p)" "p \<le> 9" "unitText x []"
      "\<And>k. k \<le> p \<Longrightarrow> f64_div (f64_of_int (10 ^ p)) (f64_of_int (10 ^ k)) = f64_of_int (10 ^ (p - k))" for p fr x
  proof -
    have nat: "int (nat (u div 10 ^ p)) = u div 10 ^ p" using assms(1) by (simp add: pos_imp_zdiv_nonneg_iff)
    have whole: "u div 10 ^ p * 10 ^ p + u mod 10 ^ p = u" by (rule div_mult_mod_eq)
    have "durationItem (itoa (nat (u div 10 ^ p)) @ fr @ x @ []) = Some (u, [])"
      using durationItem_fraction [OF that(2) refl that(3,4,1), of "nat (u div 10 ^ p)", unfolded nat whole, OF _ _ _ that(5)] assms
      by (simp add: pow63_def)
    then show ?thesis
      using durationSum_item [of _ u "[]" 0] assms by (simp add: durationSum_Nil pow63_def)
  qed
  consider (ns) "u < 1000" | (us) "1000 \<le> u" "u < 1000000" | (ms) "1000000 \<le> u" by linarith
  then show ?thesis
  proof cases
    case ns
    then have "durationText u = itoa (nat u) @ [] @ ''ns''"
      using assms by (simp add: durationText_def)
    moreover have "durationSum (itoa (nat (u div 10 ^ 0)) @ [] @ ''ns'') 0 = Some u"
      by (rule item) (simp_all add: fractionOf_def unitMap_def unitText_next isUnitChar_def isDigit_def less_eq_char_def, code_simp)
    ultimately show ?thesis by auto
  next
    case us
    obtain fr where fr: "fmtFrac 3 u False [] = (fr, u div 10 ^ 3)" "fractionOf 3 (u mod 10 ^ 3) fr"
      using fmtFrac_fraction [of u 3] assms(1) by auto
    then have "durationText u = itoa (nat (u div 10 ^ 3)) @ fr @ [CHR 0xC2, CHR 0xB5, CHR ''s'']"
      using us assms by (simp add: durationText_def)
    moreover have "durationSum (itoa (nat (u div 10 ^ 3)) @ fr @ [CHR 0xC2, CHR 0xB5, CHR ''s'']) 0 = Some u"
      by (rule item [OF fr(2)]) (use f64_div_tens(1) in \<open>simp_all add: unitMap_def unitText_next isUnitChar_def isDigit_def less_eq_char_def\<close>)
    ultimately show ?thesis by auto
  next
    case ms
    obtain fr where fr: "fmtFrac 6 u False [] = (fr, u div 10 ^ 6)" "fractionOf 6 (u mod 10 ^ 6) fr"
      using fmtFrac_fraction [of u 6] assms(1) by auto
    then have "durationText u = itoa (nat (u div 10 ^ 6)) @ fr @ ''ms''"
      using ms assms by (simp add: durationText_def)
    moreover have "durationSum (itoa (nat (u div 10 ^ 6)) @ fr @ ''ms'') 0 = Some u"
      by (rule item [OF fr(2)]) (use f64_div_tens(2) in \<open>simp_all add: unitMap_def unitText_next isUnitChar_def isDigit_def less_eq_char_def\<close>)
    ultimately show ?thesis by auto
  qed
qed

lemma ParseDuration_unsigned:
  assumes "durationSum t 0 = Some u" "isDigit (hd t)" "t \<noteq> []" "t \<noteq> ''0''"
  shows "ParseDuration t = (if u > maxInt64 then None else Some u)" "ParseDuration (CHR ''-'' # t) = Some (- u)"
proof -
  obtain c r where t: "t = c # r" using assms(3) by (cases t) auto
  then have c: "c \<noteq> CHR ''+''" "c \<noteq> CHR ''-''" using assms(2) isDigit_not_special [of c] by simp_all
  then have "dropSign t = t" "dropSign (CHR ''-'' # t) = t" by (simp_all add: t dropSign_def)
  then show "ParseDuration t = (if u > maxInt64 then None else Some u)" "ParseDuration (CHR ''-'' # t) = Some (- u)"
    using assms c t by (auto simp: ParseDuration_def Let_def)
qed

text \<open>Every duration is read back from its text.\<close>

lemma ParseDuration_durationText:
  assumes "minInt64 \<le> d" "d \<le> maxInt64"
  shows "ParseDuration (durationText d) = Some d"
proof (cases "d = 0")
  case True
  have "ParseDuration (durationText 0) = Some 0" by code_simp
  then show ?thesis unfolding True .
next
  case False
  define u where "u = \<bar>d\<bar>"
  have u: "0 < u" "u \<le> pow63" using False assms by (simp_all add: u_def minInt64_def maxInt64_def pow63_def)
  have body: "durationSum (durationText u) 0 = Some u" "\<exists>n r. durationText u = itoa n @ r \<and> r \<noteq> []"
    using durationText_seconds [of u] durationText_below [of u] u by (cases "u < second"; simp only: not_less simp_thms)+
  then obtain n r where r: "durationText u = itoa n @ r" "r \<noteq> []" by blast
  have first: "isDigit (hd (durationText u))" "durationText u \<noteq> []"
    unfolding r(1) by (rule itoa_starts_digit)+
  have other: "durationText u \<noteq> ''0''"
    unfolding r(1) using r(2) itoa_decimal(2) [of n] by (cases "itoa n") auto
  have sign: "durationText d = (if d < 0 then CHR ''-'' # durationText u else durationText u)"
    unfolding u_def durationText_def Let_def abs_idempotent by simp
  show ?thesis
    unfolding sign using ParseDuration_unsigned [OF body(1) first other] assms by (auto simp: u_def)
qed

lemma durationText_example:
  "durationText (90 * minute + 1500000000) = ''1h30m1.5s''" "durationText (- 2500) = ''-2.5'' @ [CHR 0xC2, CHR 0xB5, CHR ''s'']"
  by code_simp+

lemma durationSum_nonneg: "0 \<le> d \<Longrightarrow> durationSum s d = Some v \<Longrightarrow> 0 \<le> v"
proof (induction s d rule: durationSum.induct)
  case (1 s d)
  then show ?case
    by (subst (asm) (2) durationSum.simps) (auto simp: Let_def pow63_def split: if_splits option.splits)
qed

lemma ParseDuration_max: "ParseDuration s = Some d \<Longrightarrow> d \<le> maxInt64"
  using durationSum_nonneg [of 0 "dropSign s"]
  by (auto simp: ParseDuration_def Let_def maxInt64_def split: if_splits option.splits)

end
