(* ===== verification/Frr.thy ===== *)
theory Frr
  imports Metrics GoDuration
begin

text \<open>
  \<^verbatim>\<open>frr_collector.go\<close>: the wrapper around the third-party exporter for the routing suite FRR. The settings of the
  environment become flags of that exporter on the global command line of the flag library. The exporter
  and the flag library are the parameter \<open>frrLib\<close>.
\<close>

record frrCollectorConfig =
  frr_enabled :: bool
  frr_socketDirPath :: string
  frr_socketTimeout :: duration
  frr_vtyshEnabled :: bool
  frr_vtyshPath :: string
  frr_vtyshTimeout :: duration
  frr_vtyshSudo :: bool
  frr_vtyshOptions :: string
  frr_bgpEnabled :: bool
  frr_bgp6Enabled :: bool
  frr_bgpL2VPNEnabled :: bool
  frr_ospfEnabled :: bool
  frr_ospfInstances :: string
  frr_bfdEnabled :: bool
  frr_routeEnabled :: bool
  frr_routeDetailedEnabled :: bool
  frr_rpkiEnabled :: bool
  frr_vrrpEnabled :: bool
  frr_pimEnabled :: bool
  frr_statusEnabled :: bool
  frr_bgpPeerTypesEnabled :: bool
  frr_bgpPeerTypesKeys :: string
  frr_bgpPeerDescriptionsEnabled :: bool
  frr_bgpPeerDescriptionsPlainText :: bool
  frr_bgpPeerGroupsEnabled :: bool
  frr_bgpPeerHostnamesEnabled :: bool
  frr_bgpAdvertisedPrefixesEnabled :: bool
  frr_bgpAcceptedFilteredPrefixesEnabled :: bool
  frr_bgpNextHopInterfaceEnabled :: bool
  frr_bgpMonitoredPrefixesFile :: string

definition loadFrrCollectorConfig :: "env \<Rightarrow> frrCollectorConfig" where
  "loadFrrCollectorConfig env =
     \<lparr>frr_enabled = parseBoolEnv env ''FRR_ENABLED'' False,
      frr_socketDirPath = parseStringEnv env ''FRR_SOCKET_DIR_PATH'' ''/var/run/frr'',
      frr_socketTimeout = parseDurationEnv env ''FRR_SOCKET_TIMEOUT'' (20 * second),
      frr_vtyshEnabled = parseBoolEnv env ''FRR_VTYSH_ENABLED'' False,
      frr_vtyshPath = parseStringEnv env ''FRR_VTYSH_PATH'' ''/usr/bin/vtysh'',
      frr_vtyshTimeout = parseDurationEnv env ''FRR_VTYSH_TIMEOUT'' (20 * second),
      frr_vtyshSudo = parseBoolEnv env ''FRR_VTYSH_SUDO'' False,
      frr_vtyshOptions = parseStringEnv env ''FRR_VTYSH_OPTIONS'' [],
      frr_bgpEnabled = parseBoolEnv env ''FRR_BGP_ENABLED'' True,
      frr_bgp6Enabled = parseBoolEnv env ''FRR_BGP6_ENABLED'' False,
      frr_bgpL2VPNEnabled = parseBoolEnv env ''FRR_BGPL2VPN_ENABLED'' False,
      frr_ospfEnabled = parseBoolEnv env ''FRR_OSPF_ENABLED'' True,
      frr_ospfInstances = parseStringEnv env ''FRR_OSPF_INSTANCES'' [],
      frr_bfdEnabled = parseBoolEnv env ''FRR_BFD_ENABLED'' True,
      frr_routeEnabled = parseBoolEnv env ''FRR_ROUTE_ENABLED'' True,
      frr_routeDetailedEnabled = parseBoolEnv env ''FRR_ROUTE_DETAILED_ENABLED'' False,
      frr_rpkiEnabled = parseBoolEnv env ''FRR_RPKI_ENABLED'' False,
      frr_vrrpEnabled = parseBoolEnv env ''FRR_VRRP_ENABLED'' False,
      frr_pimEnabled = parseBoolEnv env ''FRR_PIM_ENABLED'' False,
      frr_statusEnabled = parseBoolEnv env ''FRR_STATUS_ENABLED'' True,
      frr_bgpPeerTypesEnabled = parseBoolEnv env ''FRR_BGP_PEER_TYPES_ENABLED'' False,
      frr_bgpPeerTypesKeys = parseStringEnv env ''FRR_BGP_PEER_TYPES_KEYS'' ''type'',
      frr_bgpPeerDescriptionsEnabled = parseBoolEnv env ''FRR_BGP_PEER_DESCRIPTIONS_ENABLED'' False,
      frr_bgpPeerDescriptionsPlainText = parseBoolEnv env ''FRR_BGP_PEER_DESCRIPTIONS_PLAIN_TEXT'' False,
      frr_bgpPeerGroupsEnabled = parseBoolEnv env ''FRR_BGP_PEER_GROUPS_ENABLED'' False,
      frr_bgpPeerHostnamesEnabled = parseBoolEnv env ''FRR_BGP_PEER_HOSTNAMES_ENABLED'' False,
      frr_bgpAdvertisedPrefixesEnabled = parseBoolEnv env ''FRR_BGP_ADVERTISED_PREFIXES_ENABLED'' False,
      frr_bgpAcceptedFilteredPrefixesEnabled = parseBoolEnv env ''FRR_BGP_ACCEPTED_FILTERED_PREFIXES_ENABLED'' False,
      frr_bgpNextHopInterfaceEnabled = parseBoolEnv env ''FRR_BGP_NEXT_HOP_INTERFACE_ENABLED'' False,
      frr_bgpMonitoredPrefixesFile = parseStringEnv env ''FRR_BGP_MONITORED_PREFIXES_FILE'' []\<rparr>"

subsection \<open>Flags\<close>

definition appendBoolFlag :: "string list \<Rightarrow> string \<Rightarrow> bool \<Rightarrow> bool \<Rightarrow> string list" where
  "appendBoolFlag args name value defaultValue =
     (if value = defaultValue then args
      else if value then args @ [''--'' @ name]
      else args @ [''--no-'' @ name])"

definition appendStringFlag :: "string list \<Rightarrow> string \<Rightarrow> string \<Rightarrow> string \<Rightarrow> string list" where
  "appendStringFlag args name value defaultValue =
     (if value = defaultValue \<or> value = [] then args else args @ [''--'' @ name @ ''='' @ value])"

definition appendDurationFlag :: "string list \<Rightarrow> string \<Rightarrow> duration \<Rightarrow> duration \<Rightarrow> string list" where
  "appendDurationFlag args name value defaultValue =
     (if value = defaultValue then args else args @ [''--'' @ name @ ''='' @ durationText value])"

definition appendRepeatedStringFlag :: "string list \<Rightarrow> string \<Rightarrow> string list \<Rightarrow> string list \<Rightarrow> string list" where
  "appendRepeatedStringFlag args name values defaultValues =
     (if joinWith '','' values = joinWith '','' defaultValues then args
      else fold (\<lambda>value args. if value = [] then args else args @ [''--'' @ name @ ''='' @ value]) values args)"

definition splitCommaSeparated :: "string \<Rightarrow> string list" where
  "splitCommaSeparated value =
     (if trimSpace value = [] then []
      else filter (\<lambda>trimmed. trimmed \<noteq> []) (map trimSpace (splitOn (CHR '','') value)))"

definition buildFrrCollectorArgs :: "frrCollectorConfig \<Rightarrow> string list" where
  "buildFrrCollectorArgs config =
     (let args = [];
          args = appendStringFlag args ''frr.socket.dir-path'' (frr_socketDirPath config) ''/var/run/frr'';
          args = appendDurationFlag args ''frr.socket.timeout'' (frr_socketTimeout config) (20 * second);
          args = appendBoolFlag args ''frr.vtysh'' (frr_vtyshEnabled config) False;
          args = appendStringFlag args ''frr.vtysh.path'' (frr_vtyshPath config) ''/usr/bin/vtysh'';
          args = appendDurationFlag args ''frr.vtysh.timeout'' (frr_vtyshTimeout config) (20 * second);
          args = appendBoolFlag args ''frr.vtysh.sudo'' (frr_vtyshSudo config) False;
          args = appendStringFlag args ''frr.vtysh.options'' (frr_vtyshOptions config) [];
          args = appendBoolFlag args ''collector.bgp'' (frr_bgpEnabled config) True;
          args = appendBoolFlag args ''collector.bgp6'' (frr_bgp6Enabled config) False;
          args = appendBoolFlag args ''collector.bgpl2vpn'' (frr_bgpL2VPNEnabled config) False;
          args = appendBoolFlag args ''collector.ospf'' (frr_ospfEnabled config) True;
          args = appendStringFlag args ''collector.ospf.instances'' (frr_ospfInstances config) [];
          args = appendBoolFlag args ''collector.bfd'' (frr_bfdEnabled config) True;
          args = appendBoolFlag args ''collector.route'' (frr_routeEnabled config) True;
          args = appendBoolFlag args ''collector.route.detailed-routes'' (frr_routeDetailedEnabled config) False;
          args = appendBoolFlag args ''collector.rpki'' (frr_rpkiEnabled config) False;
          args = appendBoolFlag args ''collector.vrrp'' (frr_vrrpEnabled config) False;
          args = appendBoolFlag args ''collector.pim'' (frr_pimEnabled config) False;
          args = appendBoolFlag args ''collector.status'' (frr_statusEnabled config) True;
          args = appendBoolFlag args ''collector.bgp.peer-types'' (frr_bgpPeerTypesEnabled config) False;
          args = appendRepeatedStringFlag args ''collector.bgp.peer-types.keys'' (splitCommaSeparated (frr_bgpPeerTypesKeys config)) [''type''];
          args = appendBoolFlag args ''collector.bgp.peer-descriptions'' (frr_bgpPeerDescriptionsEnabled config) False;
          args = appendBoolFlag args ''collector.bgp.peer-descriptions.plain-text'' (frr_bgpPeerDescriptionsPlainText config) False;
          args = appendBoolFlag args ''collector.bgp.peer-groups'' (frr_bgpPeerGroupsEnabled config) False;
          args = appendBoolFlag args ''collector.bgp.peer-hostnames'' (frr_bgpPeerHostnamesEnabled config) False;
          args = appendBoolFlag args ''collector.bgp.advertised-prefixes'' (frr_bgpAdvertisedPrefixesEnabled config) False;
          args = appendBoolFlag args ''collector.bgp.accepted-filtered-prefixes'' (frr_bgpAcceptedFilteredPrefixesEnabled config) False;
          args = appendBoolFlag args ''collector.bgp.next-hop-interface'' (frr_bgpNextHopInterfaceEnabled config) False;
          args = appendStringFlag args ''collector.bgp.monitored-prefixes'' (frr_bgpMonitoredPrefixesFile config) []
      in args)"

subsection \<open>The collector\<close>

record ('s, 'x) frrLib =
  parseFlags :: "string list \<Rightarrow> 's \<Rightarrow> goerr option \<times> 's"
  newExporter :: "'s \<Rightarrow> (goerr + 'x) \<times> 's"
  exporterDescribe :: "'x \<Rightarrow> desc list"
  exporterCollect :: "'x \<Rightarrow> 's \<Rightarrow> metric list \<times> 's"

record 'x frrCollector =
  frr_config :: frrCollectorConfig
  frr_exporter :: "'x option"

definition NewFrrCollector :: "('s, 'x) frrLib \<Rightarrow> env \<Rightarrow> 's \<Rightarrow> 'x frrCollector \<times> 's" where
  "NewFrrCollector lib env s =
     (let config = loadFrrCollectorConfig env;
          collector = \<lparr>frr_config = config, frr_exporter = None\<rparr>;
          disabled = \<lparr>frr_config = config\<lparr>frr_enabled := False\<rparr>, frr_exporter = None\<rparr> in
      if \<not> frr_enabled config then (collector, s)
      else case parseFlags lib (buildFrrCollectorArgs config) s of
        (Some err, s) \<Rightarrow> (disabled, s)
      | (None, s) \<Rightarrow>
          (case newExporter lib s of
             (Inl err, s) \<Rightarrow> (disabled, s)
           | (Inr exporter, s) \<Rightarrow> (collector\<lparr>frr_exporter := Some exporter\<rparr>, s)))"

definition frr_IsEnabled :: "'x frrCollector \<Rightarrow> bool" where
  "frr_IsEnabled c = (frr_enabled (frr_config c) \<and> frr_exporter c \<noteq> None)"

definition frr_Describe :: "('s, 'x) frrLib \<Rightarrow> 'x frrCollector \<Rightarrow> desc list" where
  "frr_Describe lib c =
     (if \<not> frr_IsEnabled c then []
      else case frr_exporter c of None \<Rightarrow> [] | Some exporter \<Rightarrow> exporterDescribe lib exporter)"

definition frr_Collect :: "('s, 'x) frrLib \<Rightarrow> 'x frrCollector \<Rightarrow> 's \<Rightarrow> metric list \<times> 's" where
  "frr_Collect lib c s =
     (if \<not> frr_IsEnabled c then ([], s)
      else case frr_exporter c of None \<Rightarrow> ([], s) | Some exporter \<Rightarrow> exporterCollect lib exporter s)"

lemma frr_enabled_cases:
  assumes "NewFrrCollector lib env s = (c, s')"
  shows "frr_IsEnabled c \<longleftrightarrow> frr_enabled (loadFrrCollectorConfig env) \<and>
    (\<exists>s1 x. parseFlags lib (buildFrrCollectorArgs (loadFrrCollectorConfig env)) s = (None, s1) \<and> newExporter lib s1 = (Inr x, s'))"
  using assms by (auto simp: NewFrrCollector_def frr_IsEnabled_def Let_def split: if_splits prod.splits option.splits sum.splits)

lemma frr_silent: "\<not> frr_IsEnabled c \<Longrightarrow> frr_Describe lib c = [] \<and> frr_Collect lib c s = ([], s)"
  by (simp add: frr_Describe_def frr_Collect_def)

subsection \<open>What the flags say\<close>

text \<open>
  The flags one by one, with the default the other side has, and how a command line is read: a switch is on
  with its name and off with \<^verbatim>\<open>no-\<close> before it, a value is what follows the equals sign, and without any the
  default stands.
\<close>

datatype frrFlag =
  BoolFlag string bool bool
  | StringFlag string string string
  | DurationFlag string duration duration
  | RepeatedFlag string "string list" "string list"

fun flagName :: "frrFlag \<Rightarrow> string" where
  "flagName (BoolFlag n v d) = n"
| "flagName (StringFlag n x y) = n"
| "flagName (DurationFlag n u e) = n"
| "flagName (RepeatedFlag n vs ds) = n"

definition frrFlags :: "frrCollectorConfig \<Rightarrow> frrFlag list" where
  "frrFlags config =
     [StringFlag ''frr.socket.dir-path'' (frr_socketDirPath config) ''/var/run/frr'',
      DurationFlag ''frr.socket.timeout'' (frr_socketTimeout config) (20 * second),
      BoolFlag ''frr.vtysh'' (frr_vtyshEnabled config) False,
      StringFlag ''frr.vtysh.path'' (frr_vtyshPath config) ''/usr/bin/vtysh'',
      DurationFlag ''frr.vtysh.timeout'' (frr_vtyshTimeout config) (20 * second),
      BoolFlag ''frr.vtysh.sudo'' (frr_vtyshSudo config) False,
      StringFlag ''frr.vtysh.options'' (frr_vtyshOptions config) [],
      BoolFlag ''collector.bgp'' (frr_bgpEnabled config) True,
      BoolFlag ''collector.bgp6'' (frr_bgp6Enabled config) False,
      BoolFlag ''collector.bgpl2vpn'' (frr_bgpL2VPNEnabled config) False,
      BoolFlag ''collector.ospf'' (frr_ospfEnabled config) True,
      StringFlag ''collector.ospf.instances'' (frr_ospfInstances config) [],
      BoolFlag ''collector.bfd'' (frr_bfdEnabled config) True,
      BoolFlag ''collector.route'' (frr_routeEnabled config) True,
      BoolFlag ''collector.route.detailed-routes'' (frr_routeDetailedEnabled config) False,
      BoolFlag ''collector.rpki'' (frr_rpkiEnabled config) False,
      BoolFlag ''collector.vrrp'' (frr_vrrpEnabled config) False,
      BoolFlag ''collector.pim'' (frr_pimEnabled config) False,
      BoolFlag ''collector.status'' (frr_statusEnabled config) True,
      BoolFlag ''collector.bgp.peer-types'' (frr_bgpPeerTypesEnabled config) False,
      RepeatedFlag ''collector.bgp.peer-types.keys'' (splitCommaSeparated (frr_bgpPeerTypesKeys config)) [''type''],
      BoolFlag ''collector.bgp.peer-descriptions'' (frr_bgpPeerDescriptionsEnabled config) False,
      BoolFlag ''collector.bgp.peer-descriptions.plain-text'' (frr_bgpPeerDescriptionsPlainText config) False,
      BoolFlag ''collector.bgp.peer-groups'' (frr_bgpPeerGroupsEnabled config) False,
      BoolFlag ''collector.bgp.peer-hostnames'' (frr_bgpPeerHostnamesEnabled config) False,
      BoolFlag ''collector.bgp.advertised-prefixes'' (frr_bgpAdvertisedPrefixesEnabled config) False,
      BoolFlag ''collector.bgp.accepted-filtered-prefixes'' (frr_bgpAcceptedFilteredPrefixesEnabled config) False,
      BoolFlag ''collector.bgp.next-hop-interface'' (frr_bgpNextHopInterfaceEnabled config) False,
      StringFlag ''collector.bgp.monitored-prefixes'' (frr_bgpMonitoredPrefixesFile config) []]"

definition readBool :: "string list \<Rightarrow> string \<Rightarrow> bool \<Rightarrow> bool" where
  "readBool args name d = (if ''--'' @ name \<in> set args then True else if ''--no-'' @ name \<in> set args then False else d)"

definition readValues :: "string list \<Rightarrow> string \<Rightarrow> string list" where
  "readValues args name = map (\<lambda>a. trimPrefix a (''--'' @ name @ ''='')) (filter (\<lambda>a. hasPrefix a (''--'' @ name @ ''='')) args)"

text \<open>
  A setting arrives. The exception is an empty list of keys, which no flag can say: the default list stays.
\<close>

fun flagCarried :: "string list \<Rightarrow> frrFlag \<Rightarrow> bool" where
  "flagCarried args (BoolFlag n v d) = (readBool args n d = v)"
| "flagCarried args (StringFlag n x y) = ((if readValues args n = [] then [y] else readValues args n) = [x])"
| "flagCarried args (DurationFlag n u e) =
     ((if readValues args n = [] then [Some e] else map ParseDuration (readValues args n)) = [Some u])"
| "flagCarried args (RepeatedFlag n vs ds) =
     ((if readValues args n = [] then ds else readValues args n) = (if vs = [] then ds else vs))"

fun flagArgs :: "frrFlag \<Rightarrow> string list" where
  "flagArgs (BoolFlag n v d) = appendBoolFlag [] n v d"
| "flagArgs (StringFlag n x y) = appendStringFlag [] n x y"
| "flagArgs (DurationFlag n u e) = appendDurationFlag [] n u e"
| "flagArgs (RepeatedFlag n vs ds) = appendRepeatedStringFlag [] n vs ds"

fun flagValid :: "frrFlag \<Rightarrow> bool" where
  "flagValid (StringFlag n x y) = (x = [] \<longrightarrow> y = [])"
| "flagValid (RepeatedFlag n vs ds) =
     (list_all (\<lambda>v. v \<noteq> [] \<and> CHR '','' \<notin> set v) vs \<and> ds \<noteq> [] \<and> list_all (\<lambda>v. v \<noteq> [] \<and> CHR '','' \<notin> set v) ds)"
| "flagValid (DurationFlag n u e) = (0 < u \<and> u \<le> maxInt64)"
| "flagValid f = True"

definition plainName :: "string \<Rightarrow> bool" where
  "plainName n = (CHR ''='' \<notin> set n \<and> \<not> prefix ''no-'' n)"

lemma append_flags:
  "appendBoolFlag args n v d = args @ flagArgs (BoolFlag n v d)"
  "appendStringFlag args n x y = args @ flagArgs (StringFlag n x y)"
  "appendDurationFlag args n u e = args @ flagArgs (DurationFlag n u e)"
  by (simp_all add: appendBoolFlag_def appendStringFlag_def appendDurationFlag_def)

lemma repeated_fold:
  "fold (\<lambda>value args. if value = [] then args else args @ [f value]) vs args = args @ map f (filter (\<lambda>v. v \<noteq> []) vs)"
  by (induction vs arbitrary: args) auto

lemma append_repeated: "appendRepeatedStringFlag args n vs ds = args @ flagArgs (RepeatedFlag n vs ds)"
  by (simp add: appendRepeatedStringFlag_def repeated_fold)

lemma buildFrrCollectorArgs_flags: "buildFrrCollectorArgs config = concat (map flagArgs (frrFlags config))"
  unfolding buildFrrCollectorArgs_def frrFlags_def Let_def append_flags append_repeated
  by (simp del: flagArgs.simps)

text \<open>The arguments of one flag are not read as another's.\<close>

lemma joinWith_comma_inj:
  "list_all (\<lambda>v. v \<noteq> [] \<and> CHR '','' \<notin> set v) vs \<Longrightarrow> list_all (\<lambda>v. v \<noteq> [] \<and> CHR '','' \<notin> set v) ws \<Longrightarrow>
    joinWith '','' vs = joinWith '','' ws \<Longrightarrow> vs = ws"
proof -
  have split: "vs \<noteq> [] \<Longrightarrow> list_all (\<lambda>v. v \<noteq> [] \<and> CHR '','' \<notin> set v) vs \<Longrightarrow> splitOn (CHR '','') (joinWith '','' vs) = vs" for vs
  proof (induction vs)
    case (Cons v vs)
    show ?case
    proof (cases vs)
      case Nil
      then show ?thesis using Cons.prems by (simp add: splitOn_no_sep)
    next
      case (Cons v' vs')
      then show ?thesis using Cons.IH Cons.prems by (simp add: splitOn_append)
    qed
  qed simp
  have empty: "joinWith '','' vs = [] \<longleftrightarrow> vs = []" if "list_all (\<lambda>v. v \<noteq> [] \<and> CHR '','' \<notin> set v) vs" for vs
    using that by (cases vs rule: list.exhaust; cases "tl vs") auto
  show "list_all (\<lambda>v. v \<noteq> [] \<and> CHR '','' \<notin> set v) vs \<Longrightarrow> list_all (\<lambda>v. v \<noteq> [] \<and> CHR '','' \<notin> set v) ws \<Longrightarrow>
    joinWith '','' vs = joinWith '','' ws \<Longrightarrow> vs = ws"
    using split empty by metis
qed

lemma flagArgs_shape:
  assumes "a \<in> set (flagArgs f)"
  obtains (on) "a = ''--'' @ flagName f" | (off) "a = ''--no-'' @ flagName f" | (set) v where "a = ''--'' @ flagName f @ ''='' @ v"
  using assms
  by (cases f) (auto simp: appendBoolFlag_def appendStringFlag_def appendDurationFlag_def appendRepeatedStringFlag_def
      repeated_fold split: if_splits)

lemma split_at_equals: "CHR ''='' \<notin> set m \<Longrightarrow> CHR ''='' \<notin> set n \<Longrightarrow> m @ CHR ''='' # v = n @ CHR ''='' # w \<Longrightarrow> m = n"
  by (metis append_Cons splitOn_append list.inject append_Nil)

lemma foreign_args:
  assumes "a \<in> set (flagArgs g)" "plainName (flagName g)" "plainName n" "flagName g \<noteq> n"
  shows "a \<noteq> ''--'' @ n \<and> a \<noteq> ''--no-'' @ n \<and> \<not> hasPrefix a (''--'' @ n @ ''='')"
proof -
  let ?m = "flagName g"
  have eq: "CHR ''='' \<notin> set n" "CHR ''='' \<notin> set ?m" "CHR ''='' \<notin> set (''no-'' @ n)" "CHR ''='' \<notin> set (''no-'' @ ?m)"
    and no: "n \<noteq> ''no-'' @ ?m" "?m \<noteq> ''no-'' @ n"
    using assms(2,3) by (auto simp: plainName_def)
  have prefixed: "hasPrefix (''--'' @ x) (''--'' @ n @ ''='') \<longleftrightarrow> (\<exists>w. x = n @ CHR ''='' # w)" for x
    by (auto simp: hasPrefix_def prefix_def)
  from assms(1) show ?thesis
  proof (cases rule: flagArgs_shape)
    case on
    then show ?thesis using eq no assms(4) by (simp only: prefixed) auto
  next
    case off
    then have "a = ''--'' @ (''no-'' @ ?m)" by simp
    moreover have "''no-'' @ ?m \<noteq> n @ CHR ''='' # w" for w
      using eq(4) by (metis in_set_conv_decomp)
    ultimately show ?thesis using no assms(4) by (simp only: prefixed) auto
  next
    case (set v)
    then have a: "a = ''--'' @ (?m @ CHR ''='' # v)" by simp
    have "?m @ CHR ''='' # v \<noteq> n" "?m @ CHR ''='' # v \<noteq> ''no-'' @ n"
      using eq(1,3) by (metis in_set_conv_decomp)+
    moreover have "?m @ CHR ''='' # v \<noteq> n @ CHR ''='' # w" for w
      using split_at_equals [OF eq(2,1)] assms(4) by blast
    ultimately show ?thesis by (simp only: a prefixed) simp
  qed
qed

lemma filter_own:
  assumes "distinct (map flagName fs)" "f \<in> set fs" "\<And>g. g \<in> set fs \<Longrightarrow> flagName g \<noteq> flagName f \<Longrightarrow> filter P (flagArgs g) = []"
  shows "filter P (concat (map flagArgs fs)) = filter P (flagArgs f)"
  using assms
proof (induction fs)
  case (Cons g fs)
  show ?case
  proof (cases "g = f")
    case True
    have "filter P (concat (map flagArgs hs)) = []" if "set hs \<subseteq> set fs" for hs
      using that Cons.prems(1,3) True by (induction hs) (auto simp: image_iff)
    then show ?thesis using True by simp
  next
    case False
    then have "f \<in> set fs" "flagName g \<noteq> flagName f" using Cons.prems by (auto simp: image_iff)
    then show ?thesis using Cons by simp
  qed
qed simp

lemma readValues_own: "readValues (map (\<lambda>v. ''--'' @ n @ ''='' @ v) vs) n = vs"
proof -
  have "hasPrefix (''--'' @ n @ ''='' @ v) (''--'' @ n @ ''='')" "trimPrefix (''--'' @ n @ ''='' @ v) (''--'' @ n @ ''='') = v" for v
    using hasPrefix_append [of "''--'' @ n @ ''=''" v] trimPrefix_append [of "''--'' @ n @ ''=''" v] by simp_all
  then show ?thesis by (induction vs) (simp_all add: readValues_def)
qed

lemma flagCarried_own:
  assumes "flagValid f"
  shows "flagCarried (flagArgs f) f"
proof (cases f)
  case (BoolFlag n v d)
  have "''--'' @ n \<noteq> ''--no-'' @ n" by (rule notI, drule arg_cong [where f = length]) simp
  then have "readBool [''--no-'' @ n] n d = False" "readBool [''--'' @ n] n d = True" "readBool [] n d = d"
    unfolding readBool_def by (simp_all only: list.set insert_iff empty_iff simp_thms if_True if_False)
  then show ?thesis by (cases v; cases d) (simp_all only: BoolFlag flagArgs.simps flagCarried.simps appendBoolFlag_def
      append_Nil if_True if_False simp_thms)
next
  case (StringFlag n x y)
  note none = readValues_own [of n "[]", simplified] and one = readValues_own [of n "[x]", unfolded list.map]
  show ?thesis
  proof (cases "x = y \<or> x = []")
    case True
    then have "x = y" using assms by (auto simp: StringFlag)
    then show ?thesis by (simp add: StringFlag appendStringFlag_def none)
  next
    case False
    then have "flagArgs f = [''--'' @ n @ ''='' @ x]" by (simp add: StringFlag appendStringFlag_def)
    then show ?thesis by (simp only: StringFlag flagCarried.simps one) simp
  qed
next
  case (DurationFlag n u e)
  note none = readValues_own [of n "[]", simplified] and one = readValues_own [of n "[durationText u]", unfolded list.map]
  show ?thesis
  proof (cases "u = e")
    case True
    then show ?thesis by (simp add: DurationFlag appendDurationFlag_def none)
  next
    case False
    then have "flagArgs f = [''--'' @ n @ ''='' @ durationText u]" by (simp add: DurationFlag appendDurationFlag_def)
    moreover have "ParseDuration (durationText u) = Some u"
      using assms by (intro ParseDuration_durationText) (simp_all add: DurationFlag minInt64_def)
    ultimately show ?thesis by (simp only: DurationFlag flagCarried.simps one) simp
  qed
next
  case (RepeatedFlag n vs ds)
  have full: "filter (\<lambda>v. v \<noteq> []) vs = vs"
    using assms by (auto simp: RepeatedFlag list_all_iff filter_id_conv)
  show ?thesis
  proof (cases "joinWith '','' vs = joinWith '','' ds")
    case True
    then have "vs = ds" using assms joinWith_comma_inj [of vs ds] by (simp add: RepeatedFlag)
    then show ?thesis by (simp add: RepeatedFlag appendRepeatedStringFlag_def readValues_def)
  next
    case False
    then have "flagArgs f = map (\<lambda>v. ''--'' @ n @ ''='' @ v) vs"
      by (simp add: RepeatedFlag appendRepeatedStringFlag_def repeated_fold full)
    then show ?thesis by (simp only: RepeatedFlag flagCarried.simps readValues_own)
  qed
qed

lemma flagCarried_cong:
  "(''--'' @ flagName f \<in> set args) = (''--'' @ flagName f \<in> set args') \<Longrightarrow>
    (''--no-'' @ flagName f \<in> set args) = (''--no-'' @ flagName f \<in> set args') \<Longrightarrow>
    readValues args (flagName f) = readValues args' (flagName f) \<Longrightarrow> flagCarried args f = flagCarried args' f"
  by (cases f) (simp_all add: readBool_def)

lemma mem_filter: "a \<in> set xs \<longleftrightarrow> filter (\<lambda>b. b = a) xs \<noteq> []"
  by (induction xs) auto

lemma flags_carried:
  assumes "distinct (map flagName fs)" "list_all (plainName \<circ> flagName) fs" "f \<in> set fs" "flagValid f"
  shows "flagCarried (concat (map flagArgs fs)) f"
proof -
  let ?n = "flagName f" and ?args = "concat (map flagArgs fs)"
  have plain: "plainName ?n" using assms(2,3) by (simp add: list_all_iff)
  have own: "filter P ?args = filter P (flagArgs f)"
    if P: "\<And>a. P a \<Longrightarrow> a = ''--'' @ ?n \<or> a = ''--no-'' @ ?n \<or> hasPrefix a (''--'' @ ?n @ ''='')" for P
  proof (rule filter_own [OF assms(1,3)])
    fix g assume "g \<in> set fs" "flagName g \<noteq> ?n"
    then have "\<not> P a" if "a \<in> set (flagArgs g)" for a
      using foreign_args [OF that _ plain] assms(2) P [of a] by (auto simp: list_all_iff)
    then show "filter P (flagArgs g) = []" by (simp add: filter_empty_conv)
  qed
  have "''--'' @ ?n \<in> set ?args \<longleftrightarrow> ''--'' @ ?n \<in> set (flagArgs f)"
    "''--no-'' @ ?n \<in> set ?args \<longleftrightarrow> ''--no-'' @ ?n \<in> set (flagArgs f)"
    unfolding mem_filter by (subst own, simp, rule refl)+
  moreover have "readValues ?args ?n = readValues (flagArgs f) ?n"
    unfolding readValues_def by (subst own) simp_all
  ultimately show ?thesis
    using flagCarried_own [OF assms(4)] flagCarried_cong by metis
qed

lemma parseStringEnv_nonempty: "d \<noteq> [] \<Longrightarrow> parseStringEnv env key d \<noteq> []"
  by (simp add: parseStringEnv_def split: option.split)

lemma parseDurationEnv_max: "d \<le> 9223372036854775807 \<Longrightarrow> parseDurationEnv env key d \<le> maxInt64"
  by (auto simp: parseDurationEnv_def maxInt64_def split: option.split dest!: ParseDuration_max)

lemma splitCommaSeparated_parts: "list_all (\<lambda>v. v \<noteq> [] \<and> CHR '','' \<notin> set v) (splitCommaSeparated value)"
proof -
  have "CHR '','' \<notin> set (trimSpace p)" if "p \<in> set (splitOn (CHR '','') value)" for p
    using sep_notin_splitOn [OF that] set_trimSpace by blast
  then show ?thesis by (auto simp: splitCommaSeparated_def list_all_iff)
qed

lemma frrFlags_valid: "f \<in> set (frrFlags (loadFrrCollectorConfig env)) \<Longrightarrow> flagValid f"
  using splitCommaSeparated_parts
  by (auto simp: frrFlags_def loadFrrCollectorConfig_def parseStringEnv_nonempty parseDurationEnv_pos parseDurationEnv_max)

subsection \<open>Properties\<close>

text \<open>
  C39. For every environment, each of the twenty-nine settings arrives on the other side: read back from the flags
  with the defaults the code assumes there, every switch, text and list of keys is the one configured, and every
  duration is it to the nanosecond once \<^verbatim>\<open>time.ParseDuration\<close> has read it. The only
  exception is an empty list of keys, for which the default list stays.
\<close>

theorem frr_flags_carry_settings:
  "list_all (flagCarried (buildFrrCollectorArgs (loadFrrCollectorConfig env))) (frrFlags (loadFrrCollectorConfig env))"
  unfolding buildFrrCollectorArgs_flags list_all_iff
proof
  fix f
  assume f: "f \<in> set (frrFlags (loadFrrCollectorConfig env))"
  show "flagCarried (concat (map flagArgs (frrFlags (loadFrrCollectorConfig env)))) f"
    by (rule flags_carried [OF _ _ f frrFlags_valid [OF f]])
       (simp_all add: frrFlags_def plainName_def)
qed

text \<open>With nothing in the environment there is nothing to say.\<close>

lemma frr_default_flags: "buildFrrCollectorArgs (loadFrrCollectorConfig (\<lambda>_. None)) = []"
  by code_simp

lemma frr_some_flags:
  "buildFrrCollectorArgs (loadFrrCollectorConfig ((\<lambda>_. None)
     (''FRR_SOCKET_TIMEOUT'' := Some ''1500ms'', ''FRR_BGP_ENABLED'' := Some ''0'', ''FRR_BGP_PEER_TYPES_KEYS'' := Some ''type, role''))) =
   [''--frr.socket.timeout=1.5s'', ''--no-collector.bgp'', ''--collector.bgp.peer-types.keys=type'',
    ''--collector.bgp.peer-types.keys=role'']"
  by code_simp

end
