(* ===== verification/Listener.thy ===== *)
theory Listener
  imports Effects GoStrings
begin

text \<open>
  \<^verbatim>\<open>cmd/sonic-exporter/listener.go\<close> and \<^verbatim>\<open>listener_linux.go\<close>: the listeners of the metrics page, bound to a
  network device (VRF) before they are served, and what becomes of them when something fails. The network and
  the web toolkit are the parameter \<open>netLib\<close>; a listener is its number. The world keeps which
  listeners were opened and which were closed, in order.
\<close>

record webFlags =
  web_listenAddresses :: "string list"
  web_systemdSocket :: bool

record 's netLib =
  listenTCP :: "('s \<Rightarrow> goerr option \<times> 's) \<Rightarrow> string \<Rightarrow> 's \<Rightarrow> (goerr + nat) \<times> 's"
  rawControl :: "'s \<Rightarrow> (int option \<times> goerr option) \<times> 's"
  setSocketOption :: "int \<Rightarrow> string \<Rightarrow> string \<Rightarrow> string \<Rightarrow> 's \<Rightarrow> goerr option \<times> 's"
  closeListener :: "nat \<Rightarrow> 's \<Rightarrow> goerr option \<times> 's"
  listenAndServe :: "webFlags \<Rightarrow> 's \<Rightarrow> goerr option \<times> 's"
  serveMultiple :: "nat list \<Rightarrow> webFlags \<Rightarrow> 's \<Rightarrow> goerr option \<times> 's"

record 's webWorld =
  net_state :: 's
  net_opened :: "nat list"
  net_closed :: "nat list"

definition defaultWebVRF :: string where "defaultWebVRF = ''mgmt''"

text \<open>
  The control function of a socket: \<^verbatim>\<open>rawConn.Control\<close> runs the callback on a descriptor or does not, and
  returns an error or does not.
\<close>

definition bindSocketToDevice :: "'s netLib \<Rightarrow> string \<Rightarrow> 's \<Rightarrow> goerr option \<times> 's" where
  "bindSocketToDevice lib vrf s =
     (case rawControl lib s of
        ((fd, err), s) \<Rightarrow>
          (case (case fd of None \<Rightarrow> (None, s) | Some fd \<Rightarrow> setSocketOption lib fd ''SOL_SOCKET'' ''SO_BINDTODEVICE'' vrf s) of
             (socketErr, s) \<Rightarrow>
               (case err of
                  Some e \<Rightarrow> (Some (Wrapf ''access socket file descriptor for VRF %q: %w'' [vrf] e), s)
                | None \<Rightarrow>
                    (case socketErr of
                       Some e \<Rightarrow> (Some (Wrapf ''set SO_BINDTODEVICE for VRF %q: %w'' [vrf] e), s)
                     | None \<Rightarrow> (None, s)))))"

definition listenTCPInVRF :: "'s netLib \<Rightarrow> string \<Rightarrow> string \<Rightarrow> ('s webWorld, nat) io" where
  "listenTCPInVRF lib address vrf =
     (\<lambda>w. case listenTCP lib (bindSocketToDevice lib vrf) address (net_state w) of
        (Inl e, s) \<Rightarrow> (Fail (Wrapf ''listen TCP: %w'' [] e), w\<lparr>net_state := s\<rparr>)
      | (Inr listener, s) \<Rightarrow> (Ok listener, w\<lparr>net_state := s, net_opened := net_opened w @ [listener]\<rparr>))"

text \<open>\<^verbatim>\<open>listener_nonlinux.go\<close>\<close>

definition listenTCPInVRF_other :: "string \<Rightarrow> string \<Rightarrow> string \<Rightarrow> ('s webWorld, nat) io" where
  "listenTCPInVRF_other goos address vrf =
     io_fail (Errorf ''VRF listener binding is unsupported on %s; set --web.vrf= to use exporter-toolkit listener handling'' [goos])"

primrec closeEach :: "'s netLib \<Rightarrow> nat list \<Rightarrow> goerr list \<Rightarrow> ('s webWorld, goerr list) io" where
  "closeEach lib [] errs = io_return errs"
| "closeEach lib (listener # listeners) errs =
     (\<lambda>w. case closeListener lib listener (net_state w) of
        (err, s) \<Rightarrow>
          closeEach lib listeners (case err of None \<Rightarrow> errs | Some e \<Rightarrow> errs @ [e])
            (w\<lparr>net_state := s, net_closed := net_closed w @ [listener]\<rparr>))"

definition closeWebListeners :: "'s netLib \<Rightarrow> nat list \<Rightarrow> ('s webWorld, goerr option) io" where
  "closeWebListeners lib listeners =
     io_bind (closeEach lib listeners []) (\<lambda>errs. io_return (if errs = [] then None else Some (Joined errs)))"

primrec bindEach :: "'s netLib \<Rightarrow> string \<Rightarrow> string list \<Rightarrow> nat list \<Rightarrow> ('s webWorld, nat list) io" where
  "bindEach lib vrf [] listeners = io_return listeners"
| "bindEach lib vrf (address # addresses) listeners =
     io_bind (io_try (listenTCPInVRF lib address vrf)) (\<lambda>r.
     case r of
       Inr listener \<Rightarrow> bindEach lib vrf addresses (listeners @ [listener])
     | Inl err \<Rightarrow>
         io_bind (closeWebListeners lib listeners) (\<lambda>closeErr.
         case closeErr of
           Some e \<Rightarrow> io_fail (Wrapf ''bind web listener %q to VRF %q: %w'' [address, vrf] (Joined [err, e]))
         | None \<Rightarrow> io_fail (Wrapf ''bind web listener %q to VRF %q: %w'' [address, vrf] err)))"

definition bindWebListeners :: "'s netLib \<Rightarrow> string list \<Rightarrow> string \<Rightarrow> ('s webWorld, nat list) io" where
  "bindWebListeners lib addresses vrf = bindEach lib vrf addresses []"

definition netCall :: "('s \<Rightarrow> 'a \<times> 's) \<Rightarrow> ('s webWorld, 'a) io" where
  "netCall f = (\<lambda>w. case f (net_state w) of (r, s) \<Rightarrow> (Ok r, w\<lparr>net_state := s\<rparr>))"

text \<open>\<^verbatim>\<open>return err\<close>\<close>

definition returnErr :: "goerr option \<Rightarrow> ('w, unit) io" where
  "returnErr err = (case err of None \<Rightarrow> io_return () | Some e \<Rightarrow> io_fail e)"

definition isVsock :: "string \<Rightarrow> bool" where
  "isVsock address = hasPrefix address ''vsock://''"

definition serve :: "'s netLib \<Rightarrow> webFlags \<Rightarrow> string \<Rightarrow> ('s webWorld, unit) io" where
  "serve lib flags vrf =
     (if vrf = [] then io_bind (netCall (listenAndServe lib flags)) returnErr
      else if web_systemdSocket flags
      then io_fail (Errorf ''--web.vrf %q cannot be used with systemd socket activation; set --web.vrf= to use it'' [vrf])
      else case find isVsock (web_listenAddresses flags) of
        Some address \<Rightarrow>
          io_fail (Errorf ''--web.vrf %q cannot be used with vsock listener %q; set --web.vrf= to use it'' [vrf, address])
      | None \<Rightarrow>
          io_bind (bindWebListeners lib (web_listenAddresses flags) vrf) (\<lambda>listeners.
          io_bind (netCall (serveMultiple lib listeners flags)) (\<lambda>serveErr.
          case serveErr of
            None \<Rightarrow> io_return ()
          | Some e \<Rightarrow>
              io_bind (closeWebListeners lib listeners) (\<lambda>closeErr.
              case closeErr of
                Some ce \<Rightarrow> io_fail (Wrapf ''serve pre-bound web listeners for VRF %q: %w'' [vrf] (Joined [e, ce]))
              | None \<Rightarrow> io_fail e))))"

subsection \<open>Opening and closing\<close>

lemma closeEach_closes:
  obtains errs s where "closeEach lib ls es w = (Ok errs, w\<lparr>net_state := s, net_closed := net_closed w @ ls\<rparr>)"
proof -
  have "\<exists>errs s. closeEach lib ls es w = (Ok errs, w\<lparr>net_state := s, net_closed := net_closed w @ ls\<rparr>)"
  proof (induction ls arbitrary: es w)
    case Nil
    show ?case by (intro exI [of _ es] exI [of _ "net_state w"]) (simp add: io_return_def)
  next
    case (Cons l ls)
    obtain e s where "closeListener lib l (net_state w) = (e, s)" by fastforce
    then show ?case
      using Cons.IH [of "case e of None \<Rightarrow> es | Some e \<Rightarrow> es @ [e]" "w\<lparr>net_state := s, net_closed := net_closed w @ [l]\<rparr>"] by simp
  qed
  with that show thesis by blast
qed

lemma closeWebListeners_closes:
  obtains e s where "closeWebListeners lib ls w = (Ok e, w\<lparr>net_state := s, net_closed := net_closed w @ ls\<rparr>)"
proof -
  obtain errs s where "closeEach lib ls [] w = (Ok errs, w\<lparr>net_state := s, net_closed := net_closed w @ ls\<rparr>)"
    by (rule closeEach_closes)
  then show thesis by (intro that) (simp add: closeWebListeners_def io_bind_def io_return_def)
qed

text \<open>
  The accounting of a step that holds the listeners \<open>held\<close> when it starts: those it opens come on top, and
  an error closes all of them, while a result \<open>held'\<close> is what is open then.
\<close>

definition accounted :: "nat list \<Rightarrow> 's webWorld \<Rightarrow> 'a outcome \<times> 's webWorld \<Rightarrow> ('a \<Rightarrow> nat list \<Rightarrow> bool) \<Rightarrow> bool" where
  "accounted held w rw held' =
     (\<exists>new. net_opened (snd rw) = net_opened w @ new \<and>
       (case fst rw of
          Ok x \<Rightarrow> net_closed (snd rw) = net_closed w \<and> held' x (held @ new)
        | Fail e \<Rightarrow> net_closed (snd rw) = net_closed w @ held @ new
        | _ \<Rightarrow> False))"

lemma bindEach_accounted:
  "accounted held w (bindEach lib vrf addresses held w)
     (\<lambda>ls open. ls = open \<and> length ls = length held + length addresses)"
proof (induction addresses arbitrary: held w)
  case Nil
  show ?case by (simp add: accounted_def io_return_def)
next
  case (Cons a as)
  obtain r s where listen: "listenTCP lib (bindSocketToDevice lib vrf) a (net_state w) = (r, s)" by fastforce
  show ?case
  proof (cases r)
    case (Inr l)
    let ?w = "w\<lparr>net_state := s, net_opened := net_opened w @ [l]\<rparr>"
    have step: "bindEach lib vrf (a # as) held w = bindEach lib vrf as (held @ [l]) ?w"
      by (simp add: io_bind_def io_try_def listenTCPInVRF_def listen Inr)
    obtain r' w' where rec: "bindEach lib vrf as (held @ [l]) ?w = (r', w')" by fastforce
    from Cons.IH [of "held @ [l]" ?w]
    have "accounted (held @ [l]) ?w (r', w') (\<lambda>ls open. ls = open \<and> length ls = length (held @ [l]) + length as)"
      unfolding rec .
    then show ?thesis
      unfolding step rec accounted_def by (cases r') auto
  next
    case (Inl e)
    let ?w = "w\<lparr>net_state := s\<rparr>"
    obtain ce s' where "closeWebListeners lib held ?w = (Ok ce, ?w\<lparr>net_state := s', net_closed := net_closed ?w @ held\<rparr>)"
      by (rule closeWebListeners_closes)
    then show ?thesis
      by (cases ce) (simp_all add: accounted_def io_bind_def io_try_def listenTCPInVRF_def listen Inl io_fail_def)
  qed
qed

lemma serve_accounted:
  "accounted [] w (serve lib flags vrf w)
     (\<lambda>_ open. if vrf = [] then open = [] else length open = length (web_listenAddresses flags))"
proof -
  consider (toolkit) "vrf = []"
    | (rejected) e where "vrf \<noteq> []" "serve lib flags vrf w = (Fail e, w)"
    | (bound) "vrf \<noteq> []" "\<not> web_systemdSocket flags" "find isVsock (web_listenAddresses flags) = None"
    by (cases "web_systemdSocket flags"; cases "find isVsock (web_listenAddresses flags)")
       (force simp: serve_def io_fail_def)+
  then show ?thesis
  proof cases
    case toolkit
    obtain e s where "listenAndServe lib flags (net_state w) = (e, s)" by fastforce
    with toolkit show ?thesis
      by (cases e) (simp_all add: serve_def accounted_def io_bind_def netCall_def returnErr_def io_return_def io_fail_def)
  next
    case (rejected e)
    then show ?thesis by (simp add: accounted_def)
  next
    case bound
    let ?bind = "bindEach lib vrf (web_listenAddresses flags) [] w"
    obtain r w1 where bind: "?bind = (r, w1)" by fastforce
    from bindEach_accounted [of "[]" w lib vrf "web_listenAddresses flags"]
    have acc: "accounted [] w (r, w1) (\<lambda>ls open. ls = open \<and> length ls = length (web_listenAddresses flags))"
      unfolding bind by simp
    show ?thesis
    proof (cases r)
      case (Ok ls)
      then have opened: "net_opened w1 = net_opened w @ ls" "net_closed w1 = net_closed w" "length ls = length (web_listenAddresses flags)"
        using acc by (auto simp: accounted_def)
      obtain e s where served: "serveMultiple lib ls flags (net_state w1) = (e, s)" by fastforce
      let ?w = "w1\<lparr>net_state := s\<rparr>"
      obtain ce s' where "closeWebListeners lib ls ?w = (Ok ce, ?w\<lparr>net_state := s', net_closed := net_closed ?w @ ls\<rparr>)"
        by (rule closeWebListeners_closes)
      with Ok opened bound bind served show ?thesis
        by (cases e; cases ce)
           (simp_all add: accounted_def serve_def bindWebListeners_def io_bind_def netCall_def io_return_def io_fail_def)
    next
      case (Fail e)
      with acc bound bind show ?thesis
        by (simp add: accounted_def serve_def bindWebListeners_def io_bind_def)
    qed (use acc in \<open>simp_all add: accounted_def\<close>)
  qed
qed

text \<open>\<^verbatim>\<open>errors.Is\<close>: an error is somewhere below another.\<close>

fun errIs :: "goerr \<Rightarrow> goerr \<Rightarrow> bool" where
  "errIs (Errorf f as) t = (t = Errorf f as)"
| "errIs (Wrapf f as e) t = (t = Wrapf f as e \<or> errIs e t)"
| "errIs (Joined es) t = (t = Joined es \<or> (\<exists>e\<in>set es. errIs e t))"

lemma errIs_refl: "errIs e e"
  by (cases e) simp_all

lemma serve_keeps_error:
  assumes "vrf \<noteq> []" "\<not> web_systemdSocket flags" "find isVsock (web_listenAddresses flags) = None"
    and "bindWebListeners lib (web_listenAddresses flags) vrf w = (Ok ls, w1)"
    and "serveMultiple lib ls flags (net_state w1) = (Some e, s)"
  shows "\<exists>e' w'. serve lib flags vrf w = (Fail e', w') \<and> errIs e' e"
proof -
  let ?w = "w1\<lparr>net_state := s\<rparr>"
  obtain ce s' where "closeWebListeners lib ls ?w = (Ok ce, ?w\<lparr>net_state := s', net_closed := net_closed ?w @ ls\<rparr>)"
    by (rule closeWebListeners_closes)
  with assms show ?thesis
    by (cases ce) (simp_all add: serve_def io_bind_def netCall_def io_fail_def errIs_refl)
qed

text \<open>A control function that succeeded on a descriptor bound it to the device.\<close>

lemma bindSocketToDevice_bound:
  assumes "bindSocketToDevice lib vrf s = (None, s')" "rawControl lib s = ((Some fd, err), s1)"
  shows "err = None \<and> setSocketOption lib fd ''SOL_SOCKET'' ''SO_BINDTODEVICE'' vrf s1 = (None, s')"
  using assms by (auto simp: bindSocketToDevice_def split: prod.splits option.splits)

subsection \<open>Properties\<close>

text \<open>
  C40. Whatever the network does, the server either runs or has closed what it opened: when it returns an
  error, it has closed exactly the listeners it opened, each once and in their order; when it returns without one, it closed
  none, and with a VRF it had opened one for each address. A configuration a VRF cannot have (a systemd socket or
  a \<^verbatim>\<open>vsock\<close> address) is an error before anything is touched.
\<close>

theorem serve_closes_what_it_opened:
  "case serve lib flags vrf w of
     (r, w') \<Rightarrow>
       (\<exists>new. net_opened w' = net_opened w @ new \<and>
         (case r of
            Ok _ \<Rightarrow> net_closed w' = net_closed w \<and>
              (if vrf = [] then new = [] else length new = length (web_listenAddresses flags))
          | Fail e \<Rightarrow> net_closed w' = net_closed w @ new
          | _ \<Rightarrow> False)) \<and>
       (if vrf \<noteq> [] \<and> (web_systemdSocket flags \<or> list_ex isVsock (web_listenAddresses flags))
        then w' = w \<and> (\<exists>e. r = Fail e) else True)"
proof -
  have "find isVsock (web_listenAddresses flags) \<noteq> None" if "list_ex isVsock (web_listenAddresses flags)"
    using that by (auto simp: find_None_iff list_ex_iff)
  then have "serve lib flags vrf w = (r, w') \<Longrightarrow>
      vrf \<noteq> [] \<and> (web_systemdSocket flags \<or> list_ex isVsock (web_listenAddresses flags)) \<Longrightarrow> w' = w \<and> (\<exists>e. r = Fail e)" for r w'
    by (auto simp: serve_def io_fail_def split: if_splits option.splits)
  then show ?thesis
    using serve_accounted [of w lib flags vrf]
    by (cases "serve lib flags vrf w") (auto simp: accounted_def split: outcome.splits)
qed

end
