(* ===== verification/Exporter.thy ===== *)
theory Exporter
  imports Lldp Vlan Lag Switch Thermal Routing Fdb Transceiver PlatformHealth System Docker Queue Crm Hw Interface Frr Listener
begin

text \<open>
  \<^verbatim>\<open>cmd/sonic-exporter/main.go\<close>: the flags given to the embedded node exporter, the collectors that are registered, and
  the index page. The flag library is that of \<open>frrLib\<close>; both third-party exporters take their flags from its one
  global command line.
\<close>

definition nodeCollectorNames :: "string list" where
  "nodeCollectorNames = [''loadavg'', ''cpu'', ''diskstats'', ''filesystem'', ''meminfo'', ''time'', ''stat'']"

definition nodeCollectorArgs :: "string \<Rightarrow> string list" where
  "nodeCollectorArgs rootfs = map (\<lambda>collectorName. ''--collector.'' @ collectorName) nodeCollectorNames @ [''--path.rootfs='' @ rootfs]"

record versionInfo =
  ver_Version :: string
  ver_Branch :: string
  ver_BuildUser :: string
  ver_BuildDate :: string

definition normalizeVersionMetadata :: "versionInfo \<Rightarrow> versionInfo" where
  "normalizeVersionMetadata v =
     (let v = (if ver_Version v = [] then v\<lparr>ver_Version := ''unknown''\<rparr> else v);
          v = (if ver_Branch v = [] then v\<lparr>ver_Branch := ''unknown''\<rparr> else v);
          v = (if ver_BuildUser v = [] then v\<lparr>ver_BuildUser := ''unknown''\<rparr> else v)
      in if ver_BuildDate v = [] then v\<lparr>ver_BuildDate := ''unknown''\<rparr> else v)"

text \<open>
  The SONiC collectors in the order \<^verbatim>\<open>main\<close> registers them: the scrape-time ones always, a background one
  when it is enabled. Constructing a collector leaves its configuration as it was loaded.
\<close>

definition mainCollectors :: "env \<Rightarrow> metricFilter \<Rightarrow> (string \<times> desc list) list" where
  "mainCollectors env flt =
     [(''interface'', interface_Describe), (''hw'', hw_Describe), (''crm'', crm_Describe), (''queue'', queue_Describe)] @
     (if lldp_IsEnabled (lldp_new env flt) then [(''lldp'', lldp_Describe)] else []) @
     (if vlan_IsEnabled (vlan_new env flt) then [(''vlan'', vlan_Describe)] else []) @
     (if lag_IsEnabled (lag_new env flt) then [(''lag'', lag_Describe)] else []) @
     (if fdb_IsEnabled (fdb_new env flt) then [(''fdb'', fdb_Describe)] else []) @
     (if routing_IsEnabled (routing_new env flt) then [(''routing'', routing_Describe)] else []) @
     (if switch_IsEnabled (switch_new env flt) then [(''switch'', switch_Describe)] else []) @
     (if thermal_IsEnabled (thermal_new env flt) then [(''thermal'', thermal_Describe)] else []) @
     (if transceiver_IsEnabled (transceiver_new env flt) then [(''transceiver'', transceiver_Describe)] else []) @
     (if platform_IsEnabled (platform_new env flt) then [(''platform'', platform_Describe)] else []) @
     (if system_IsEnabled (system_new env flt) then [(''system'', system_Describe)] else []) @
     (if docker_IsEnabled (docker_new env flt) then [(''docker'', docker_Describe)] else [])"

text \<open>
  The two times \<^verbatim>\<open>main\<close> has the global command line parsed: for the node exporter, and in the constructor of
  the FRR collector. \<open>None\<close> is \<^verbatim>\<open>os.Exit(1)\<close>.
\<close>

definition mainFlags :: "('s, 'x) frrLib \<Rightarrow> env \<Rightarrow> string \<Rightarrow> 's \<Rightarrow> 'x frrCollector option \<times> 's" where
  "mainFlags lib env rootfs s =
     (case parseFlags lib (nodeCollectorArgs rootfs) s of
        (Some err, s) \<Rightarrow> (None, s)
      | (None, s) \<Rightarrow> (case NewFrrCollector lib env s of (c, s) \<Rightarrow> (Some c, s)))"

definition indexPage :: "string \<Rightarrow> string" where
  "indexPage metricsPath =
     joinWith (CHR 0x0A # replicate 13 (CHR '' ''))
       [''<html>'', ''<head><title>Sonic Exporter</title></head>'', ''<body>'', ''<h1>Sonic Exporter</h1>'',
        ''<p><a href='' @ [CHR 0x27] @ metricsPath @ [CHR 0x27] @ ''>Metrics</a></p>'', ''</body>'', ''</html>'']"

lemma normalizeVersionMetadata_known:
  "ver_Version (normalizeVersionMetadata v) \<noteq> [] \<and> ver_Branch (normalizeVersionMetadata v) \<noteq> [] \<and>
    ver_BuildUser (normalizeVersionMetadata v) \<noteq> [] \<and> ver_BuildDate (normalizeVersionMetadata v) \<noteq> []"
  by (simp add: normalizeVersionMetadata_def Let_def)

lemma chosen_keys_distinct:
  "distinct (map fst (map snd xs)) \<Longrightarrow> distinct (map fst (concat (map (\<lambda>(on, x). if on then [x] else []) xs)))"
  by (induction xs) (auto split: if_splits, (metis fst_conv image_eqI snd_conv)+)?

lemma mainCollectors_once: "distinct (map fst (mainCollectors env flt))"
proof -
  let ?all = "[(True, ''interface'', interface_Describe), (True, ''hw'', hw_Describe), (True, ''crm'', crm_Describe),
    (True, ''queue'', queue_Describe), (lldp_IsEnabled (lldp_new env flt), ''lldp'', lldp_Describe),
    (vlan_IsEnabled (vlan_new env flt), ''vlan'', vlan_Describe), (lag_IsEnabled (lag_new env flt), ''lag'', lag_Describe),
    (fdb_IsEnabled (fdb_new env flt), ''fdb'', fdb_Describe),
    (routing_IsEnabled (routing_new env flt), ''routing'', routing_Describe),
    (switch_IsEnabled (switch_new env flt), ''switch'', switch_Describe),
    (thermal_IsEnabled (thermal_new env flt), ''thermal'', thermal_Describe),
    (transceiver_IsEnabled (transceiver_new env flt), ''transceiver'', transceiver_Describe),
    (platform_IsEnabled (platform_new env flt), ''platform'', platform_Describe),
    (system_IsEnabled (system_new env flt), ''system'', system_Describe),
    (docker_IsEnabled (docker_new env flt), ''docker'', docker_Describe)]"
  have "mainCollectors env flt = concat (map (\<lambda>(on, x). if on then [x] else []) ?all)"
    by (simp add: mainCollectors_def)
  moreover have "distinct (map fst (map snd ?all))"
    by simp
  ultimately show ?thesis by (simp only: chosen_keys_distinct)
qed

subsection \<open>The collectors as constructed\<close>

text \<open>
  A constructor returns a collector as it was made, after some refreshes; these leave the configuration and the filter
  alone, so whether \<^verbatim>\<open>main\<close> registers it depends on the environment only.
\<close>

lemma background_constructed:
  "NewLldpCollector labelOk lib env flt clk ticks w = (Ok c1, w1) \<Longrightarrow>
    reaches (lldp_refreshMetrics labelOk lib) (lldp_new env flt) c1"
  "NewVlanCollector labelOk lib env flt clk ticks w = (Ok c2, w2) \<Longrightarrow>
    reaches (vlan_refreshMetrics labelOk lib) (vlan_new env flt) c2"
  "NewLagCollector labelOk lib env flt clk ticks w = (Ok c3, w3) \<Longrightarrow>
    reaches (lag_refreshMetrics labelOk lib) (lag_new env flt) c3"
  "NewFdbCollector labelOk lib env flt clk ticks w = (Ok c4, w4) \<Longrightarrow>
    reaches (fdb_refreshMetrics labelOk lib) (fdb_new env flt) c4"
  "NewRoutingCollector labelOk lib env flt clk ticks w = (Ok c5, w5) \<Longrightarrow>
    reaches (routing_refreshMetrics labelOk lib) (routing_new env flt) c5"
  "NewSwitchCollector labelOk lib env flt clk ticks w = (Ok c6, w6) \<Longrightarrow>
    reaches (switch_refreshMetrics labelOk lib) (switch_new env flt) c6"
  "NewThermalCollector labelOk lib env flt clk ticks w = (Ok c7, w7) \<Longrightarrow>
    reaches (thermal_refreshMetrics labelOk lib) (thermal_new env flt) c7"
  "NewTransceiverCollector labelOk lib env flt clk ticks w = (Ok c8, w8) \<Longrightarrow>
    reaches (transceiver_refreshMetrics labelOk lib) (transceiver_new env flt) c8"
  "NewPlatformHealthCollector labelOk lib env flt clk ticks w = (Ok c9, w9) \<Longrightarrow>
    reaches (platform_refreshMetrics labelOk lib) (platform_new env flt) c9"
  "NewSystemCollector labelOk host lib env flt clk ticks w = (Ok c10, w10) \<Longrightarrow>
    reaches (system_refreshMetrics labelOk host lib) (system_new env flt) c10"
  "NewDockerCollector labelOk clock lib env flt clk ticks w = (Ok c11, w11) \<Longrightarrow>
    reaches (docker_refreshMetrics labelOk clock lib) (docker_new env flt) c11"
  unfolding NewLldpCollector_def lldp_refreshLoop_def [abs_def]
    NewVlanCollector_def vlan_refreshLoop_def [abs_def]
    NewLagCollector_def lag_refreshLoop_def [abs_def]
    NewFdbCollector_def fdb_refreshLoop_def [abs_def]
    NewRoutingCollector_def routing_refreshLoop_def [abs_def]
    NewSwitchCollector_def switch_refreshLoop_def [abs_def]
    NewThermalCollector_def thermal_refreshLoop_def [abs_def]
    NewTransceiverCollector_def transceiver_refreshLoop_def [abs_def]
    NewPlatformHealthCollector_def platform_refreshLoop_def [abs_def]
    NewSystemCollector_def system_refreshLoop_def [abs_def]
    NewDockerCollector_def docker_refreshLoop_def [abs_def] Let_def
  by - (erule constructed_reaches)+

lemma lldp_registered:
  assumes "NewLldpCollector labelOk lib env flt clk ticks w = (Ok c, w')"
  shows "lldp_IsEnabled c = lldp_IsEnabled (lldp_new env flt)"
  using lldp.reaches_fixed [OF background_constructed(1) [OF assms, unfolded lldp_refreshMetrics_def [abs_def]]]
  by (simp add: lldp_IsEnabled_def)

lemma vlan_registered:
  assumes "NewVlanCollector labelOk lib env flt clk ticks w = (Ok c, w')"
  shows "vlan_IsEnabled c = vlan_IsEnabled (vlan_new env flt)"
  using vlan.reaches_fixed [OF background_constructed(2) [OF assms, unfolded vlan_refreshMetrics_def [abs_def]]]
  by (simp add: vlan_IsEnabled_def)

lemma lag_registered:
  assumes "NewLagCollector labelOk lib env flt clk ticks w = (Ok c, w')"
  shows "lag_IsEnabled c = lag_IsEnabled (lag_new env flt)"
  using lag.reaches_fixed [OF background_constructed(3) [OF assms, unfolded lag_refreshMetrics_def [abs_def]]]
  by (simp add: lag_IsEnabled_def)

lemma fdb_registered:
  assumes "NewFdbCollector labelOk lib env flt clk ticks w = (Ok c, w')"
  shows "fdb_IsEnabled c = fdb_IsEnabled (fdb_new env flt)"
  using fdb.reaches_fixed [OF background_constructed(4) [OF assms, unfolded fdb_refreshMetrics_def [abs_def]]]
  by (simp add: fdb_IsEnabled_def)

lemma routing_registered:
  assumes "NewRoutingCollector labelOk lib env flt clk ticks w = (Ok c, w')"
  shows "routing_IsEnabled c = routing_IsEnabled (routing_new env flt)"
  using routing.reaches_fixed [OF background_constructed(5) [OF assms, unfolded routing_refreshMetrics_def [abs_def]]]
  by (simp add: routing_IsEnabled_def)

lemma switch_registered:
  assumes "NewSwitchCollector labelOk lib env flt clk ticks w = (Ok c, w')"
  shows "switch_IsEnabled c = switch_IsEnabled (switch_new env flt)"
  using switch.reaches_fixed [OF background_constructed(6) [OF assms, unfolded switch_refreshMetrics_def [abs_def]]]
  by (simp add: switch_IsEnabled_def)

lemma thermal_registered:
  assumes "NewThermalCollector labelOk lib env flt clk ticks w = (Ok c, w')"
  shows "thermal_IsEnabled c = thermal_IsEnabled (thermal_new env flt)"
  using thermal.reaches_fixed [OF background_constructed(7) [OF assms, unfolded thermal_refreshMetrics_def [abs_def]]]
  by (simp add: thermal_IsEnabled_def)

lemma transceiver_registered:
  assumes "NewTransceiverCollector labelOk lib env flt clk ticks w = (Ok c, w')"
  shows "transceiver_IsEnabled c = transceiver_IsEnabled (transceiver_new env flt)"
  using transceiver.reaches_fixed [OF background_constructed(8) [OF assms, unfolded transceiver_refreshMetrics_def [abs_def]]]
  by (simp add: transceiver_IsEnabled_def)

lemma platform_registered:
  assumes "NewPlatformHealthCollector labelOk lib env flt clk ticks w = (Ok c, w')"
  shows "platform_IsEnabled c = platform_IsEnabled (platform_new env flt)"
  using platform.reaches_fixed [OF background_constructed(9) [OF assms, unfolded platform_refreshMetrics_def [abs_def]]]
  by (simp add: platform_IsEnabled_def)

lemma system_registered:
  assumes "NewSystemCollector labelOk host lib env flt clk ticks w = (Ok c, w')"
  shows "system_IsEnabled c = system_IsEnabled (system_new env flt)"
  using system.reaches_fixed [OF background_constructed(10) [OF assms, unfolded system_refreshMetrics_def [abs_def]]]
  by (simp add: system_IsEnabled_def)

lemma docker_registered:
  assumes "NewDockerCollector labelOk clock lib env flt clk ticks w = (Ok c, w')"
  shows "docker_IsEnabled c = docker_IsEnabled (docker_new env flt)"
  using docker.reaches_fixed [OF background_constructed(11) [OF assms, unfolded docker_refreshMetrics_def [abs_def]]]
  by (simp add: docker_IsEnabled_def)

subsection \<open>The second parse of the command line\<close>

text \<open>
  What the flag library does with a flag that is not on the command line it parses: it takes its default,
  whatever an earlier parse gave it. \<open>rootOf\<close> is the value of the node exporter's \<^verbatim>\<open>path.rootfs\<close>.
\<close>

definition rootfsFrom :: "string list \<Rightarrow> string" where
  "rootfsFrom args = (if readValues args ''path.rootfs'' = [] then ''/'' else last (readValues args ''path.rootfs''))"

definition parseSetsRootfs :: "('s, 'x) frrLib \<Rightarrow> ('s \<Rightarrow> string) \<Rightarrow> bool" where
  "parseSetsRootfs lib rootOf =
     ((\<forall>args s s'. parseFlags lib args s = (None, s') \<longrightarrow> rootOf s' = rootfsFrom args) \<and>
      (\<forall>s. rootOf (snd (newExporter lib s)) = rootOf s))"

lemma nodeCollectorArgs_rootfs: "rootfsFrom (nodeCollectorArgs rootfs) = rootfs"
  by (simp add: rootfsFrom_def readValues_def nodeCollectorArgs_def nodeCollectorNames_def hasPrefix_def trimPrefix_def)

lemma frr_args_no_rootfs: "rootfsFrom (buildFrrCollectorArgs config) = ''/''"
proof -
  have "\<not> hasPrefix a ''--path.rootfs=''" if "a \<in> set (buildFrrCollectorArgs config)" for a
  proof -
    from that obtain f where f: "f \<in> set (frrFlags config)" "a \<in> set (flagArgs f)"
      by (auto simp: buildFrrCollectorArgs_flags)
    have "plainName (flagName f)" "flagName f \<noteq> ''path.rootfs''"
      using f(1) by (auto simp: frrFlags_def plainName_def)
    moreover have "plainName ''path.rootfs''"
      by (simp add: plainName_def)
    ultimately show ?thesis
      using foreign_args [OF f(2), of "''path.rootfs''"] by simp
  qed
  then show ?thesis by (simp add: rootfsFrom_def readValues_def filter_empty_conv)
qed

text \<open>
  With FRR enabled the root file system given to the exporter is lost: the parse for FRR resets it to the default for the
  node exporter too. Without FRR it stays.
\<close>

lemma frr_resets_rootfs:
  assumes "parseSetsRootfs lib rootOf" "mainFlags lib env rootfs s = (Some c, s')"
  shows "(frr_IsEnabled c \<longrightarrow> rootOf s' = ''/'') \<and>
    (\<not> frr_enabled (loadFrrCollectorConfig env) \<longrightarrow> rootOf s' = rootfs)"
proof -
  have parse: "rootOf s2 = rootfsFrom args" if "parseFlags lib args s1 = (None, s2)" for args s1 s2
    using assms(1) that by (simp add: parseSetsRootfs_def)
  have new: "rootOf s2 = rootOf s1" if "newExporter lib s1 = (r, s2)" for r s1 s2
    using assms(1) that by (metis parseSetsRootfs_def snd_conv)
  obtain s1 where node: "parseFlags lib (nodeCollectorArgs rootfs) s = (None, s1)" "NewFrrCollector lib env s1 = (c, s')"
    using assms(2) by (auto simp: mainFlags_def split: prod.splits option.splits)
  have "rootOf s' = ''/''" if "frr_IsEnabled c"
  proof -
    from that obtain s2 x where "parseFlags lib (buildFrrCollectorArgs (loadFrrCollectorConfig env)) s1 = (None, s2)"
      "newExporter lib s2 = (Inr x, s')"
      using frr_enabled_cases [OF node(2)] by blast
    then show ?thesis using parse new frr_args_no_rootfs by metis
  qed
  moreover have "rootOf s' = rootfs" if "\<not> frr_enabled (loadFrrCollectorConfig env)"
  proof -
    have "s' = s1" using node(2) that by (simp add: NewFrrCollector_def Let_def)
    then show ?thesis using parse [OF node(1)] nodeCollectorArgs_rootfs by simp
  qed
  ultimately show ?thesis by blast
qed

text \<open>A flag library of that kind: its state is the command line parsed last.\<close>

definition lastLine :: "(string list, unit) frrLib" where
  "lastLine = \<lparr>parseFlags = (\<lambda>args s. (None, args)), newExporter = (\<lambda>s. (Inr (), s)), exporterDescribe = (\<lambda>_. []),
     exporterCollect = (\<lambda>_ s. ([], s))\<rparr>"

lemma frr_resets_rootfs_example:
  "\<exists>c s'. mainFlags lastLine ((\<lambda>_. None)(''FRR_ENABLED'' := Some ''true'')) ''/host'' [] = (Some c, s') \<and> rootfsFrom s' = ''/''"
proof -
  let ?env = "(\<lambda>_. None)(''FRR_ENABLED'' := Some ''true'')"
  have still: "parseSetsRootfs lastLine rootfsFrom"
    by (simp add: parseSetsRootfs_def lastLine_def)
  have "frr_enabled (loadFrrCollectorConfig ?env)"
    by code_simp
  then have run: "\<exists>c s'. mainFlags lastLine ?env ''/host'' [] = (Some c, s') \<and> frr_IsEnabled c"
    by (simp add: mainFlags_def lastLine_def NewFrrCollector_def frr_IsEnabled_def Let_def)
  with frr_resets_rootfs [OF still] show ?thesis by blast
qed

end
