(* ===== verification/NoPanic.thy ===== *)
theory NoPanic
  imports Exporter
begin

text \<open>
  No collector panics, if the client library takes every label value: neither the constructors with the refresh goroutines they start, none of which recovers, so that a
  panic would end the exporter, nor \<^verbatim>\<open>Collect\<close>. The panics of the model are those of \<^verbatim>\<open>MustNewConstMetric\<close> (a label
  too many or too few, or a value the library does not take), of an index out of range, of a nil client and of a ticker
  without a positive interval. The judgement \<open>calm\<close> has a rule for every construct, so that a computation is calm by its
  shape. The scrape-time collectors index into keys; they rely on the keys having the form of the pattern or the table.
\<close>

text \<open>
  With \<open>h\<close> the judgement also excludes a hang: a SCAN whose unfinished pages follow each other without end.
\<close>

definition orderly :: "bool \<Rightarrow> 'a outcome \<Rightarrow> bool" where
  "orderly h r = (case r of Ok _ \<Rightarrow> True | Fail _ \<Rightarrow> True | Panic _ \<Rightarrow> False | Hang \<Rightarrow> \<not> h)"

lemma orderly_simps [simp]:
  "orderly h (Ok x)" "orderly h (Fail e)" "\<not> orderly h (Panic p)" "orderly h Hang = (\<not> h)"
  by (simp_all add: orderly_def)

definition calm :: "bool \<Rightarrow> ('w, 'a) io \<Rightarrow> bool" where
  "calm h m = (\<forall>w. orderly h (fst (m w)))"

named_theorems calm_rules \<open>rules that show that a computation neither panics nor, if so asked, hangs\<close>

lemma calmI: "(\<And>w r w'. m w = (r, w') \<Longrightarrow> orderly h r) \<Longrightarrow> calm h m"
  by (metis calm_def prod.collapse)

lemma calmD: "calm h m \<Longrightarrow> m w = (r, w') \<Longrightarrow> orderly h r"
  by (metis calm_def fst_conv)

text \<open>A computation that changes an orderly outcome to an orderly one.\<close>

lemma calm_after:
  assumes "calm h m" "\<And>w r w'. m w = (r, w') \<Longrightarrow> orderly h r \<Longrightarrow> orderly h (fst (f w))"
  shows "calm h f"
  using assms by (metis calm_def calmD prod.collapse)

lemma returns_calm: "returns (\<lambda>_. True) m \<Longrightarrow> calm h m"
  unfolding calm_def by (metis returnsD TrueI orderly_simps(1))

lemma calm_return [calm_rules]: "calm h (io_return x)"
  by (simp add: calm_def io_return_def)

lemma calm_fail [calm_rules]: "calm h (io_fail e)"
  by (simp add: calm_def io_fail_def)

lemma calm_bind_post:
  assumes "calm h m" "post m Q" "\<And>x. Q x \<Longrightarrow> calm h (f x)"
  shows "calm h (io_bind m f)"
  using assms(1)
proof (rule calm_after)
  fix w r w'
  assume r: "m w = (r, w')" "orderly h r"
  show "orderly h (fst (io_bind m f w))"
  proof (cases r)
    case (Ok x)
    then have "calm h (f x)" using assms(3) postD [OF assms(2)] r by simp
    then show ?thesis using Ok r by (simp add: io_bind_def calm_def)
  qed (use r in \<open>simp_all add: io_bind_def\<close>)
qed

lemma calm_bind [calm_rules]: "calm h m \<Longrightarrow> (\<And>x. calm h (f x)) \<Longrightarrow> calm h (io_bind m f)"
  by (rule calm_bind_post [where Q = "\<lambda>_. True"]) (auto simp: post_def)

lemma calm_wrap [calm_rules]: "calm h m \<Longrightarrow> calm h (io_wrap msg args m)"
  by (erule calm_after) (auto simp: io_wrap_def orderly_def split: outcome.splits)

lemma calm_try [calm_rules]: "calm h m \<Longrightarrow> calm h (io_try m)"
  by (erule calm_after) (auto simp: io_try_def orderly_def split: outcome.splits)

lemma calm_defer [calm_rules]: "calm h m \<Longrightarrow> calm h (io_defer c m)"
  by (erule calm_after) (simp add: io_defer_def)

lemma calm_if [calm_rules]: "(b \<Longrightarrow> calm h m) \<Longrightarrow> (\<not> b \<Longrightarrow> calm h n) \<Longrightarrow> calm h (if b then m else n)"
  by simp

lemma calm_case_sum [calm_rules]:
  "(\<And>y. calm h (f y)) \<Longrightarrow> (\<And>y. calm h (g y)) \<Longrightarrow> calm h (case x of Inl y \<Rightarrow> f y | Inr y \<Rightarrow> g y)"
  by (cases x) auto

lemma calm_case_option [calm_rules]:
  "calm h m \<Longrightarrow> (\<And>y. calm h (f y)) \<Longrightarrow> calm h (case x of None \<Rightarrow> m | Some y \<Rightarrow> f y)"
  by (cases x) auto

lemma calm_case_prod [calm_rules]: "(\<And>y z. x = (y, z) \<Longrightarrow> calm h (f y z)) \<Longrightarrow> calm h (case x of (y, z) \<Rightarrow> f y z)"
  by (cases x) auto

lemma calm_case_loop [calm_rules]:
  "(\<And>a. calm h (f a)) \<Longrightarrow> (\<And>a. calm h (g a)) \<Longrightarrow> calm h (case r of Continue a \<Rightarrow> f a | Break a \<Rightarrow> g a)"
  by (cases r) auto

lemma calm_Let [calm_rules]: "(\<And>y. y = x \<Longrightarrow> calm h (f y)) \<Longrightarrow> calm h (let y = x in f y)"
  by simp

lemma calm_rangeLoop_mem: "(\<And>i x a. x \<in> set xs \<Longrightarrow> calm h (body i x a)) \<Longrightarrow> calm h (rangeLoop body i xs acc)"
  by (induction xs arbitrary: i acc) (auto intro!: calm_rules)

lemma calm_rangeLoop [calm_rules]: "(\<And>i x a. calm h (body i x a)) \<Longrightarrow> calm h (rangeLoop body i xs acc)"
  by (rule calm_rangeLoop_mem)

subsection \<open>The client and the metrics\<close>

lemma calm_command [calm_rules]: "calm h (command f)"
  by (auto simp: calm_def command_def split: prod.split sum.split)

text \<open>The client looked up after \<^verbatim>\<open>connect\<close> is there.\<close>

lemma calm_selectClient [calm_rules]: "calm h (selectClient cfg name)"
  unfolding calm_def selectClient_def connect_def lookupDb_def
  by (auto simp: io_bind_def io_fail_def io_return_def split: option.split)

lemma calm_HgetAll [calm_rules]: "calm h (HgetAllFromDb lib cfg name key)"
  unfolding HgetAllFromDb_def by (intro calm_rules)

lemma calm_Keys [calm_rules]: "calm h (KeysFromDb lib cfg name pattern)"
  unfolding KeysFromDb_def by (intro calm_rules)

text \<open>
  What the deadline of the context and the cursor of Redis give for one iteration: unfinished pages do not follow each
  other for ever.
\<close>

definition scansFinish :: "'s redisLib \<Rightarrow> bool" where
  "scansFinish lib = wf {(s', s). \<exists>client cursor pattern count keys next.
     scanCmd lib client cursor pattern count s = (Inr (keys, next), s') \<and> next \<noteq> 0}"

lemma scanLoop_finishes:
  assumes "scansFinish lib"
  shows "scanLoop lib client pattern count cursor keys s \<noteq> None"
  using assms unfolding scansFinish_def
proof (induction s arbitrary: cursor keys rule: wf_induct_rule)
  case (less s)
  show ?case
  proof (cases "scanCmd lib client cursor pattern count s")
    case (Pair r s')
    show ?thesis
    proof (cases r)
      case (Inr page)
      obtain ks n where page: "page = (ks, n)" by (cases page)
      have "scanLoop lib client pattern count n (keys @ ks) s' \<noteq> None" if "n \<noteq> 0"
        by (rule less) (use Pair Inr page that in blast)
      then show ?thesis by (subst scanLoop.simps) (simp add: Pair Inr page)
    qed (subst scanLoop.simps, simp add: Pair)
  qed
qed

lemma calm_ScanKeys [calm_rules]:
  assumes "h \<Longrightarrow> scansFinish lib"
  shows "calm h (ScanKeysFromDb lib cfg name pattern count)"
proof -
  have "calm h (\<lambda>w. case scanLoop lib client pattern count 0 [] (server w) of
      None \<Rightarrow> (Hang, w)
    | Some (Inl e, s') \<Rightarrow> (Fail e, w\<lparr>server := s'\<rparr>)
    | Some (Inr keys, s') \<Rightarrow> (Ok keys, w\<lparr>server := s'\<rparr>))" for client
    using scanLoop_finishes [OF assms]
    by (auto simp: calm_def simp del: not_None_eq split: option.split prod.split sum.split)
  then show ?thesis unfolding ScanKeysFromDb_def by (intro calm_rules)
qed

lemma calm_NewClient [calm_rules]: "calm h (NewClient lib)"
  by (auto simp: calm_def NewClient_def split: prod.split sum.split)

lemma calm_withRedis [calm_rules]: "(\<And>cfg. calm h (body cfg)) \<Longrightarrow> calm h (withRedis lib body)"
  unfolding withRedis_def by (intro calm_rules)

lemma calm_MustNew [calm_rules]: "length ls = length (d_labels d) \<Longrightarrow> calm h (MustNewConstMetric anyLabel d t v ls)"
  by (simp add: MustNewConstMetric_def calm_return list.pred_True)

lemma calm_emit [calm_rules]: "(b \<Longrightarrow> calm h mk) \<Longrightarrow> calm h (emit b mk ms)"
  by (auto simp: emit_def intro!: calm_rules)

lemma calm_emitValue [calm_rules]: "(\<And>v. calm h (mk v)) \<Longrightarrow> calm h (emitValue p b mk ms)"
  by (auto simp: emitValue_def intro!: calm_rules)

lemma calm_refresh: "calm h scrape \<Longrightarrow> calm h (refreshWith scrape assignments c)"
  by (erule calm_after) (auto simp: refreshWith_def orderly_def split: outcome.splits)

text \<open>A constructor is calm h when the scrape is, and the ticker's interval positive.\<close>

lemma calm_overTicks: "(\<And>clk c. calm h (refresh clk c)) \<Longrightarrow> calm h (overTicks refresh clks c)"
  by (induction clks arbitrary: c) (auto intro!: calm_rules)

subsection \<open>The scrapes\<close>

lemma calm_lldp: "(h \<Longrightarrow> scansFinish lib) \<Longrightarrow> calm h (lldp_scrapeMetrics anyLabel lib c)"
  unfolding lldp_scrapeMetrics_def lldp_entry_def Let_def
  by (intro calm_rules) simp_all

lemma calm_vlan: "(h \<Longrightarrow> scansFinish lib) \<Longrightarrow> calm h (vlan_scrapeMetrics anyLabel lib c)"
  unfolding vlan_scrapeMetrics_def vlan_member_def vlan_export_def vlan_exportMember_def Let_def
  by (intro calm_rules) simp_all

lemma calm_lag: "(h \<Longrightarrow> scansFinish lib) \<Longrightarrow> calm h (lag_scrapeMetrics anyLabel lib c)"
  unfolding lag_scrapeMetrics_def lag_member_def lag_export_def lag_exportMember_def Let_def
  by (intro calm_rules) simp_all

lemma calm_switch: "(h \<Longrightarrow> scansFinish lib) \<Longrightarrow> calm h (switch_scrapeMetrics anyLabel lib c)"
  unfolding switch_scrapeMetrics_def switch_entry_def switch_entryMetrics_def Let_def
  by (intro calm_rules) simp_all

lemma calm_thermal: "(h \<Longrightarrow> scansFinish lib) \<Longrightarrow> calm h (thermal_scrapeMetrics anyLabel lib c)"
  unfolding thermal_scrapeMetrics_def thermal_field_def Let_def
  by (intro calm_rules) simp_all

lemma calm_routing_keys:
  assumes "\<forall>k\<in>set keys. CHR ''|'' \<in> set k" "length (d_labels d) = 2"
  shows "calm h (rangeLoop (routing_emitCount anyLabel guard d counters) 0 keys metrics)"
proof (rule calm_rangeLoop_mem)
  fix i k ms
  assume "k \<in> set keys"
  then have "\<not> length (splitOn (CHR ''|'') k) < 2"
    using assms(1) splitOn_two [of "CHR ''|''" k] by (simp add: not_less Suc_le_eq)
  then show "calm h (routing_emitCount anyLabel guard d counters i k ms)"
    using assms(2) unfolding routing_emitCount_def Let_def by (intro calm_rules) simp_all
qed

definition barred :: "counts \<Rightarrow> bool" where
  "barred counters = (\<forall>k\<in>set (map fst counters). CHR ''|'' \<in> set k)"

lemma barred_increment: "barred counters \<Longrightarrow> CHR ''|'' \<in> set k \<Longrightarrow> barred (increment k counters)"
  by (auto simp: barred_def increment_def dom_update)

lemma barred_loop:
  assumes "\<And>i k a. barred (fst a) \<Longrightarrow> post (body i k a) (\<lambda>r. case r of Continue b \<Rightarrow> barred (fst b) | Break b \<Rightarrow> barred (fst b))"
  shows "post (rangeLoop body 0 keys ([], x)) (\<lambda>r. barred (fst r))"
  by (rule post_rangeLoop_inv) (use assms in \<open>simp_all add: barred_def\<close>)

lemma barred_neighbor:
  "barred (fst a) \<Longrightarrow> post (routing_neighbor lib cfg c n i k a) (\<lambda>r. case r of Continue b \<Rightarrow> barred (fst b) | Break b \<Rightarrow> barred (fst b))"
  unfolding routing_neighbor_def Let_def by (intro post_rules) (simp_all add: barred_increment)

lemma barred_route:
  "barred (fst a) \<Longrightarrow> post (routing_route lib cfg c n i k a) (\<lambda>r. case r of Continue b \<Rightarrow> barred (fst b) | Break b \<Rightarrow> barred (fst b))"
  unfolding routing_route_def Let_def by (intro post_rules) (simp_all add: barred_increment)

lemma calm_routing:
  assumes "h \<Longrightarrow> scansFinish lib"
  shows "calm h (routing_scrapeMetrics anyLabel lib c)"
proof -
  have entries: "calm h (routing_neighbor lib cfg c n i k a)" "calm h (routing_route lib cfg c n i k a)" for cfg n i k a
    unfolding routing_neighbor_def routing_route_def Let_def by (intro calm_rules)+
  have emits: "calm h (rangeLoop (routing_emitCount anyLabel guard d counters) 0 (sortedMapKeys counters) metrics)"
    if "barred counters" "length (d_labels d) = 2" for guard d counters metrics
    by (rule calm_routing_keys) (use that in \<open>simp_all add: barred_def sortedMapKeys_def\<close>)
  show ?thesis
    unfolding routing_scrapeMetrics_def Let_def
    by (intro calm_withRedis calm_bind [OF calm_wrap [OF calm_ScanKeys [OF assms]]]
        calm_bind_post [OF calm_rangeLoop [OF entries(1)] barred_loop [OF barred_neighbor]]
        calm_bind_post [OF calm_rangeLoop [OF entries(2)] barred_loop [OF barred_route]] calm_case_prod)
       (auto intro!: calm_bind emits calm_return)
qed

lemma calm_fdb: "(h \<Longrightarrow> scansFinish lib) \<Longrightarrow> calm h (fdb_scrapeMetrics anyLabel lib c)"
  unfolding fdb_scrapeMetrics_def portOidToNameMap_def bvidToVlanMap_def fdb_vlanObject_def bridgePortToPortMap_def fdb_bridgePort_def fdb_entry_def
    fdb_export_def fdb_emitLimited_def fdb_emitType_def Let_def
  by (intro calm_rules) simp_all

lemma calm_transceiver: "(h \<Longrightarrow> scansFinish lib) \<Longrightarrow> calm h (transceiver_scrapeMetrics anyLabel lib c)"
  unfolding transceiver_scrapeMetrics_def scrapeIdentityMetrics_def transceiver_identity_def transceiver_port_def readFlags_def
    appendTransceiverFlags_def transceiver_flag_def transceiver_statusField_def transceiver_threshold_def Let_def
  by (intro calm_rules) (simp_all add: identityFields_def domFlags_def statusFlags_def Let_def)

lemma calm_platform: "(h \<Longrightarrow> scansFinish lib) \<Longrightarrow> calm h (platform_scrapeMetrics anyLabel lib c)"
  unfolding platform_scrapeMetrics_def platform_process_def platform_storage_def platform_health_def Let_def
  by (intro calm_rules) simp_all

lemma calm_timeNow [calm_rules]: "calm h (timeNow clock)"
  by (simp add: calm_def timeNow_def)

lemma calm_docker: "(h \<Longrightarrow> scansFinish lib) \<Longrightarrow> calm h (docker_scrapeMetrics anyLabel clock lib c)"
  unfolding docker_scrapeMetrics_def docker_readLastUpdateTime_def docker_container_def emitRead_def Let_def
  by (intro calm_rules) simp_all

lemma calm_system: "(h \<Longrightarrow> scansFinish lib) \<Longrightarrow> calm h (system_scrapeMetrics anyLabel host lib c)"
  unfolding system_scrapeMetrics_def Let_def
  by (intro calm_rules returns_calm [OF loadMetadata_returns]) (simp_all add: systemIdentity_def systemSoftware_def)

subsection \<open>The constructors\<close>

lemma calm_constructor:
  assumes "\<And>clk c. calm h (refresh clk c)" "post (refresh clk c0) (\<lambda>c. 0 < interval c)"
  shows "calm h (if \<not> on then io_return c0 else io_bind (refresh clk c0) (\<lambda>c. tickerLoop (interval c) refresh ticks c))"
proof (rule calm_if)
  show "calm h (io_bind (refresh clk c0) (\<lambda>c. tickerLoop (interval c) refresh ticks c))"
    by (rule calm_bind_post [OF assms(1,2)]) (simp add: tickerLoop_pos calm_overTicks assms(1))
qed (rule calm_return)

lemma post_refresh: "(\<And>r. P (run (assignments r) c)) \<Longrightarrow> post (refreshWith m assignments c) P"
  by (auto simp: post_def refreshWith_def split: prod.splits outcome.splits)

lemma lldp_interval_pos: "0 < lldp_refreshInterval (lldp_config (lldp_new env flt))"
  by (simp add: lldp_new_def loadLldpCollectorConfig_def parseDurationEnv_pos)

lemma vlan_interval_pos: "0 < vlan_refreshInterval (vlan_config (vlan_new env flt))"
  by (simp add: vlan_new_def loadVlanCollectorConfig_def parseDurationEnv_pos)

lemma lag_interval_pos: "0 < lag_refreshInterval (lag_config (lag_new env flt))"
  by (simp add: lag_new_def loadLagCollectorConfig_def parseDurationEnv_pos)

lemma switch_interval_pos: "0 < switch_refreshInterval (switch_config (switch_new env flt))"
  by (simp add: switch_new_def loadSwitchCollectorConfig_def parseDurationEnv_pos)

lemma thermal_interval_pos: "0 < thermal_refreshInterval (thermal_config (thermal_new env flt))"
  by (simp add: thermal_new_def loadThermalCollectorConfig_def parseDurationEnv_pos)

lemma routing_interval_pos: "0 < routing_refreshInterval (routing_config (routing_new env flt))"
  by (simp add: routing_new_def loadRoutingCollectorConfig_def parseDurationEnv_pos)

lemma fdb_interval_pos: "0 < fdb_refreshInterval (fdb_config (fdb_new env flt))"
  by (simp add: fdb_new_def loadFdbCollectorConfig_def parseDurationEnv_pos)

lemma transceiver_interval_pos: "0 < transceiver_refreshInterval (transceiver_config (transceiver_new env flt))"
  by (simp add: transceiver_new_def loadTransceiverCollectorConfig_def parseDurationEnv_pos)

lemma platform_interval_pos: "0 < platform_refreshInterval (platform_config (platform_new env flt))"
  by (simp add: platform_new_def loadPlatformHealthCollectorConfig_def parseDurationEnv_pos)

lemma docker_interval_pos: "0 < docker_refreshInterval (docker_config (docker_new env flt))"
  by (simp add: docker_new_def loadDockerCollectorConfig_def parseDurationEnv_pos)

lemma system_interval_pos: "0 < system_refreshInterval (system_config (system_new env flt))"
  by (simp add: system_new_def loadSystemCollectorConfig_def parseDurationEnv_pos)

lemma calm_NewLldp: "(h \<Longrightarrow> scansFinish lib) \<Longrightarrow> calm h (NewLldpCollector anyLabel lib env flt clk ticks)"
  unfolding NewLldpCollector_def lldp_refreshLoop_def [abs_def] lldp_refreshMetrics_def [abs_def] Let_def
  by (rule calm_constructor [OF calm_refresh [OF calm_lldp] post_refresh], simp)
     (use lldp.run_fixed [OF order_refl, of _ _ "lldp_new env flt"] lldp_interval_pos in simp)

lemma calm_NewVlan: "(h \<Longrightarrow> scansFinish lib) \<Longrightarrow> calm h (NewVlanCollector anyLabel lib env flt clk ticks)"
  unfolding NewVlanCollector_def vlan_refreshLoop_def [abs_def] vlan_refreshMetrics_def [abs_def] Let_def
  by (rule calm_constructor [OF calm_refresh [OF calm_vlan] post_refresh], simp)
     (use vlan.run_fixed [OF order_refl, of _ _ "vlan_new env flt"] vlan_interval_pos in simp)

lemma calm_NewLag: "(h \<Longrightarrow> scansFinish lib) \<Longrightarrow> calm h (NewLagCollector anyLabel lib env flt clk ticks)"
  unfolding NewLagCollector_def lag_refreshLoop_def [abs_def] lag_refreshMetrics_def [abs_def] Let_def
  by (rule calm_constructor [OF calm_refresh [OF calm_lag] post_refresh], simp)
     (use lag.run_fixed [OF order_refl, of _ _ "lag_new env flt"] lag_interval_pos in simp)

lemma calm_NewSwitch: "(h \<Longrightarrow> scansFinish lib) \<Longrightarrow> calm h (NewSwitchCollector anyLabel lib env flt clk ticks)"
  unfolding NewSwitchCollector_def switch_refreshLoop_def [abs_def] switch_refreshMetrics_def [abs_def] Let_def
  by (rule calm_constructor [OF calm_refresh [OF calm_switch] post_refresh], simp)
     (use switch.run_fixed [OF order_refl, of _ _ "switch_new env flt"] switch_interval_pos in simp)

lemma calm_NewThermal: "(h \<Longrightarrow> scansFinish lib) \<Longrightarrow> calm h (NewThermalCollector anyLabel lib env flt clk ticks)"
  unfolding NewThermalCollector_def thermal_refreshLoop_def [abs_def] thermal_refreshMetrics_def [abs_def] Let_def
  by (rule calm_constructor [OF calm_refresh [OF calm_thermal] post_refresh], simp)
     (use thermal.run_fixed [OF order_refl, of _ _ "thermal_new env flt"] thermal_interval_pos in simp)

lemma calm_NewRouting: "(h \<Longrightarrow> scansFinish lib) \<Longrightarrow> calm h (NewRoutingCollector anyLabel lib env flt clk ticks)"
  unfolding NewRoutingCollector_def routing_refreshLoop_def [abs_def] routing_refreshMetrics_def [abs_def] Let_def
  by (rule calm_constructor [OF calm_refresh [OF calm_routing] post_refresh], simp)
     (use routing.run_fixed [OF order_refl, of _ _ "routing_new env flt"] routing_interval_pos in simp)

lemma calm_NewFdb: "(h \<Longrightarrow> scansFinish lib) \<Longrightarrow> calm h (NewFdbCollector anyLabel lib env flt clk ticks)"
  unfolding NewFdbCollector_def fdb_refreshLoop_def [abs_def] fdb_refreshMetrics_def [abs_def] Let_def
  by (rule calm_constructor [OF calm_refresh [OF calm_fdb] post_refresh], simp)
     (use fdb.run_fixed [OF order_refl, of _ _ "fdb_new env flt"] fdb_interval_pos in simp)

lemma calm_NewTransceiver: "(h \<Longrightarrow> scansFinish lib) \<Longrightarrow> calm h (NewTransceiverCollector anyLabel lib env flt clk ticks)"
  unfolding NewTransceiverCollector_def transceiver_refreshLoop_def [abs_def] transceiver_refreshMetrics_def [abs_def] Let_def
  by (rule calm_constructor [OF calm_refresh [OF calm_transceiver] post_refresh], simp)
     (use transceiver.run_fixed [OF order_refl, of _ _ "transceiver_new env flt"] transceiver_interval_pos in simp)

lemma calm_NewPlatformHealth: "(h \<Longrightarrow> scansFinish lib) \<Longrightarrow> calm h (NewPlatformHealthCollector anyLabel lib env flt clk ticks)"
  unfolding NewPlatformHealthCollector_def platform_refreshLoop_def [abs_def] platform_refreshMetrics_def [abs_def] Let_def
  by (rule calm_constructor [OF calm_refresh [OF calm_platform] post_refresh], simp)
     (use platform.run_fixed [OF order_refl, of _ _ "platform_new env flt"] platform_interval_pos in simp)

lemma calm_NewDocker: "(h \<Longrightarrow> scansFinish lib) \<Longrightarrow> calm h (NewDockerCollector anyLabel clock lib env flt clk ticks)"
  unfolding NewDockerCollector_def docker_refreshLoop_def [abs_def] docker_refreshMetrics_def [abs_def] Let_def
  by (rule calm_constructor [OF calm_refresh [OF calm_docker] post_refresh], simp)
     (use docker.run_fixed [OF order_refl, of _ _ "docker_new env flt"] docker_interval_pos in simp)

lemma calm_NewSystem: "(h \<Longrightarrow> scansFinish lib) \<Longrightarrow> calm h (NewSystemCollector anyLabel host lib env flt clk ticks)"
  unfolding NewSystemCollector_def system_refreshLoop_def [abs_def] system_refreshMetrics_def [abs_def] Let_def
  by (rule calm_constructor [OF calm_refresh [OF calm_system] post_refresh], simp)
     (use system.run_fixed [OF order_refl, of _ _ "system_new env flt"] system_interval_pos in simp)


subsection \<open>Collect of the background collectors\<close>

lemma calm_background_Collect:
  "calm h (lldp_Collect anyLabel now c1)" "calm h (vlan_Collect anyLabel now c2)" "calm h (lag_Collect anyLabel now c3)"
  "calm h (switch_Collect anyLabel now c4)" "calm h (thermal_Collect anyLabel now c5)" "calm h (routing_Collect anyLabel now c6)"
  "calm h (fdb_Collect anyLabel now c7)" "calm h (transceiver_Collect anyLabel now c8)" "calm h (platform_Collect anyLabel now c9)"
  "calm h (docker_Collect anyLabel sourceNow now c10)" "calm h (system_Collect anyLabel now c11)"
  unfolding lldp_Collect_def vlan_Collect_def lag_Collect_def switch_Collect_def thermal_Collect_def routing_Collect_def
    fdb_Collect_def transceiver_Collect_def platform_Collect_def docker_Collect_def system_Collect_def Let_def
  by - (intro calm_rules; simp)+

subsection \<open>The scrape-time collectors\<close>

lemma calm_onClient [calm_rules]: "calm h m \<Longrightarrow> calm h (onClient m)"
  by (auto simp: calm_def onClient_def split: prod.split) (metis fst_conv)

lemma calm_self [calm_rules]: "calm h self"
  by (auto simp: calm_def self_def)

lemma calm_assign [calm_rules]: "calm h (assign f)"
  by (auto simp: calm_def assign_def)

lemma calm_exportCached [calm_rules]: "length ls = length (d_labels d) \<Longrightarrow> calm h (exportCached anyLabel name d t v ls)"
  unfolding exportCached_def by (intro calm_rules)

lemma calm_exportParsed [calm_rules]: "length ls = length (d_labels d) \<Longrightarrow> calm h (exportParsed anyLabel name d p ls)"
  unfolding exportParsed_def by (intro calm_rules)

lemma calm_parsed [calm_rules]: "calm h (parsed str)"
  unfolding parsed_def by (intro calm_rules)

lemma calm_goIndex: "i < length xs \<Longrightarrow> calm h (goIndex xs i)"
  by (simp add: goIndex_def calm_return)

lemma calm_goFrom: "i \<le> length xs \<Longrightarrow> calm h (goFrom xs i)"
  by (simp add: goFrom_def calm_return)

lemma calm_forEach_mem: "(\<And>x. x \<in> set xs \<Longrightarrow> calm h (body x)) \<Longrightarrow> calm h (forEach body xs)"
  by (induction xs) (auto intro!: calm_rules)

lemma calm_forEach [calm_rules]: "(\<And>x. calm h (body x)) \<Longrightarrow> calm h (forEach body xs)"
  by (rule calm_forEach_mem)

lemma calm_attempt: "calm h m \<Longrightarrow> calm h (attempt m)"
  by (erule calm_after) (auto simp: attempt_def orderly_def split: outcome.splits)

lemma calm_collectWith:
  assumes "\<And>cfg. calm h (body cfg)" "d_labels durDesc = []" "d_labels okDesc = []"
  shows "calm h (collectWith anyLabel okName okDesc clk (scrapeWith anyLabel lib durName durDesc clk body))"
  unfolding collectWith_def scrapeWith_def
  by (intro calm_rules calm_attempt assms(1)) (simp_all add: assms)

text \<open>
  What Redis documents of \<^verbatim>\<open>KEYS\<close>: the keys match the pattern. For a pattern of letters and a last star they
  begin with the letters.
\<close>

definition literal :: "string \<Rightarrow> bool" where
  "literal p = list_all (\<lambda>c. c \<notin> set [CHR ''*'', CHR ''?'', CHR ''['', CHR '']'', CHR 0x5C]) p"

definition answersPattern :: "'s redisLib \<Rightarrow> bool" where
  "answersPattern lib =
     (\<forall>client p s keys s'. literal p \<longrightarrow> keysCmd lib client (p @ ''*'') s = (Inr keys, s') \<longrightarrow>
        list_all (\<lambda>k. hasPrefix k p) keys)"

text \<open>What SONiC writes into the name map of the queues: an interface and a number.\<close>

definition queuesNumbered :: "'s redisLib \<Rightarrow> bool" where
  "queuesNumbered lib =
     (\<forall>client s queues s'. hGetAll lib client ''COUNTERS_QUEUE_NAME_MAP'' s = (Inr queues, s') \<longrightarrow>
        list_all (\<lambda>(name, oid). CHR '':'' \<in> set name) queues)"

text \<open>A server with fixed keys that answers so.\<close>

definition keysOf :: "string list \<Rightarrow> string \<Rightarrow> string list" where
  "keysOf keys pattern = filter (\<lambda>k. hasPrefix k (butlast pattern)) keys"

lemma keysOf_answersPattern: "answersPattern (staticLib cfg db (\<lambda>n. keysOf keys))"
  by (auto simp: answersPattern_def staticLib_def keysOf_def list_all_iff)

lemma post_onClient [post_rules]: "post m P \<Longrightarrow> post (onClient m) P"
  by (auto simp: post_def onClient_def split: prod.splits)

lemma post_command: "(\<And>s x s'. f s = (Inr x, s') \<Longrightarrow> P x) \<Longrightarrow> post (command f) P"
  by (auto simp: post_def command_def split: prod.splits sum.splits)

lemma post_Keys:
  assumes "answersPattern lib" "pattern = p @ ''*''" "literal p" "c \<in> set p"
  shows "post (KeysFromDb lib cfg name pattern) (list_all (\<lambda>k. c \<in> set k))"
  unfolding KeysFromDb_def
proof (intro post_bind_any post_command)
  have prefixed: "set p \<subseteq> set k" if "hasPrefix k p" for k
    using hasPrefix_trim [OF that] by (metis Un_upper1 set_append)
  fix client s keys s'
  assume "keysCmd lib client pattern s = (Inr keys, s')"
  with assms(1-3) have "list_all (\<lambda>k. hasPrefix k p) keys"
    unfolding answersPattern_def by blast
  with assms(4) show "list_all (\<lambda>k. c \<in> set k) keys"
    using prefixed by (auto simp: list_all_iff)
qed

text \<open>A loop over the keys of a pattern: each key holds the letters before the star.\<close>

lemma calm_overKeys:
  assumes "answersPattern lib" "pattern = p @ ''*''" "literal p" "c \<in> set p" "\<And>k. c \<in> set k \<Longrightarrow> calm h (body k)"
  shows "calm h (io_bind (onClient (KeysFromDb lib cfg name pattern)) (forEach body))"
    and "calm h (io_bind (io_wrap msg args (onClient (KeysFromDb lib cfg name pattern))) (forEach body))"
proof -
  have each: "calm h (forEach body keys)" if "list_all (\<lambda>k. c \<in> set k) keys" for keys
    using that by (auto simp: list_all_iff intro!: calm_forEach_mem assms(5))
  show "calm h (io_bind (onClient (KeysFromDb lib cfg name pattern)) (forEach body))"
    by (rule calm_bind_post [OF calm_onClient [OF calm_Keys] post_onClient [OF post_Keys [OF assms(1-4)]] each])
  show "calm h (io_bind (io_wrap msg args (onClient (KeysFromDb lib cfg name pattern))) (forEach body))"
    by (rule calm_bind_post [OF calm_wrap [OF calm_onClient [OF calm_Keys]]
          post_wrap [OF post_onClient [OF post_Keys [OF assms(1-4)]]] each])
qed

lemma calm_crm:
  assumes "answersPattern lib"
  shows "calm h (crm_Collect anyLabel lib clk)"
proof -
  have group: "calm h (crm_aclGroup anyLabel lib cfg key)" if "CHR '':'' \<in> set key" for cfg key
    unfolding crm_aclGroup_def crm_aclStat_def Let_def
    by (intro calm_rules calm_goFrom) (use splitOn_two [OF that] in \<open>simp_all add: desc_defs NewDesc_def\<close>)
  have acl: "calm h (collectCrmAclStats anyLabel lib cfg)" for cfg
    unfolding collectCrmAclStats_def
    by (rule calm_overKeys [OF assms, where p = "''CRM:ACL_STATS:''" and c = "CHR '':''"])
       (simp_all add: literal_def group)
  have "calm h (crm_reads anyLabel lib cfg)" for cfg
    unfolding crm_reads_def collectCrmStatsCounters_def crm_stat_def Let_def
    by (intro calm_rules acl) (simp_all add: desc_defs NewDesc_def)
  then show ?thesis
    unfolding crm_Collect_def crm_scrapeMetrics_def
    by (intro calm_collectWith) (simp_all add: desc_defs NewDesc_def)
qed

lemma calm_hw:
  assumes "answersPattern lib"
  shows "calm h (hw_Collect anyLabel lib clk)"
proof -
  have psu: "calm h (collectPsuInfo anyLabel lib cfg)" for cfg
    unfolding collectPsuInfo_def hw_psu_def Let_def
    by (intro calm_rules) (simp_all add: desc_defs NewDesc_def)
  have entries: "calm h (hw_fan anyLabel lib cfg key)" "calm h (hw_chassis anyLabel lib cfg key)" if "CHR ''|'' \<in> set key" for cfg key
    unfolding hw_fan_def hw_chassis_def Let_def
    by ((intro calm_rules calm_goIndex splitOn_two [OF that]; simp add: desc_defs NewDesc_def)+)
  have fans: "calm h (collectFanInfo anyLabel lib cfg)" for cfg
    unfolding collectFanInfo_def
    by (rule calm_overKeys [OF assms, where p = "''FAN_INFO|''" and c = "CHR ''|''"])
       (simp_all add: literal_def entries)
  have chassis: "calm h (collectChassisInfo anyLabel lib cfg)" for cfg
    unfolding collectChassisInfo_def
    by (rule calm_overKeys [OF assms, where p = "''CHASSIS_INFO|''" and c = "CHR ''|''"])
       (simp_all add: literal_def entries)
  have "calm h (hw_reads anyLabel lib cfg)" for cfg
    unfolding hw_reads_def by (intro calm_rules psu fans chassis)
  then show ?thesis
    unfolding hw_Collect_def hw_scrapeMetrics_def
    by (intro calm_collectWith) (simp_all add: desc_defs NewDesc_def)
qed

lemma calm_interface:
  assumes "answersPattern lib"
  shows "calm h (interface_Collect anyLabel lib rangeOrder clk)"
proof -
  have optic: "calm h (interface_transceiver anyLabel lib cfg key)" if "CHR ''|'' \<in> set key" for cfg key
    unfolding interface_transceiver_def interface_reading_def Let_def
    by (intro calm_rules calm_goIndex splitOn_two [OF that]) (simp_all add: desc_defs NewDesc_def)
  have optics: "calm h (collectInterfaceOpticalInfo anyLabel lib cfg)" for cfg
    unfolding collectInterfaceOpticalInfo_def
    by (rule calm_overKeys [OF assms, where p = "''TRANSCEIVER_DOM_SENSOR|''" and c = "CHR ''|''"])
       (simp_all add: literal_def optic)
  have port: "calm h (interface_port anyLabel lib cfg order ports port)" for cfg order ports port
    unfolding interface_port_def collectInterfaceCounters_def collectInterfaceByteCounters_def collectInterfaceErrCounters_def
      collectInterfacePacketCounters_def collectInterfacePacketSizeCounters_def collectInterfaceInfo_def
      collectInterfaceConfigInfo_def collectInterfaceOperationInfo_def Let_def
    by (intro calm_rules) (simp_all add: desc_defs NewDesc_def)
  have "calm h (interface_reads anyLabel lib rangeOrder cfg)" for cfg
    unfolding interface_reads_def by (intro calm_rules port optics)
  then show ?thesis
    unfolding interface_Collect_def interface_scrapeMetrics_def
    by (intro calm_collectWith) (simp_all add: desc_defs NewDesc_def)
qed

lemma calm_queue:
  assumes "queuesNumbered lib"
  shows "calm h (queue_Collect anyLabel lib clk)"
proof -
  have entry: "calm h (queue_entry anyLabel lib cfg queues queue)" if "CHR '':'' \<in> set queue" for cfg queues queue
    unfolding queue_entry_def collectQueueCounters_def collectQueueWatermarks_def Let_def
    by (intro calm_rules calm_goIndex order.strict_trans [OF zero_less_one splitOn_two [OF that]] splitOn_two [OF that])
       (simp_all add: desc_defs NewDesc_def)
  have names: "post (HgetAllFromDb lib cfg ''COUNTERS_DB'' ''COUNTERS_QUEUE_NAME_MAP'') (list_all (\<lambda>(name, oid). CHR '':'' \<in> set name))" for cfg
    unfolding HgetAllFromDb_def
    by (intro post_bind_any post_command) (use assms in \<open>auto simp: queuesNumbered_def\<close>)
  have "calm h (queue_reads anyLabel lib cfg)" for cfg
    unfolding queue_reads_def
    by (rule calm_bind_post [OF calm_wrap [OF calm_onClient [OF calm_HgetAll]] post_wrap [OF post_onClient [OF names]]],
        rule calm_forEach_mem)
       (auto simp: list_all_iff mapKeys_def intro!: entry)
  then show ?thesis
    unfolding queue_Collect_def queue_scrapeMetrics_def
    by (intro calm_collectWith) (simp_all add: desc_defs NewDesc_def)
qed

text \<open>A queue name without a colon does panic.\<close>

lemma queue_name_without_colon_panics:
  assumes "CHR '':'' \<notin> set queue"
  shows "fst (queue_entry labelOk lib cfg queues queue w) = Panic ''index out of range''"
  using splitOn_no_sep [OF assms] by (simp add: queue_entry_def goIndex_def io_bind_def io_return_def)

end
