(* ===== verification/Startup.thy ===== *)
theory Startup
  imports NoPanic
begin

text \<open>
  \<^verbatim>\<open>func main\<close>: the command lines, the construction and the registration of the collectors in its order, the two
  routes of the page and the server. \<^verbatim>\<open>os.Exit(1)\<close> after an error is \<open>Fail\<close>. Of the libraries, \<open>mainLib\<close> holds
  \<^verbatim>\<open>kingpin\<close>'s parse of the exporter's own flags, the node exporter, the version collector, the default registry and the
  default \<^verbatim>\<open>http.ServeMux\<close>; Redis, the flags of the third-party exporters and the network are as in their theories.
\<close>

record mainFlagValues =
  flag_webConfig :: webFlags
  flag_webVRF :: string
  flag_metricsPath :: string
  flag_rootfs :: string

record ('f, 'g, 'm) mainLib =
  parseCommandLine :: "versionInfo \<Rightarrow> string list \<Rightarrow> goerr + mainFlagValues"
  newNodeCollector :: "string list \<Rightarrow> 'f \<Rightarrow> (goerr + desc list) \<times> 'f"
  versionCollector :: "versionInfo \<Rightarrow> desc list"
  registerDescs :: "desc list \<Rightarrow> 'g \<Rightarrow> goerr option \<times> 'g"
  handlePattern :: "string \<Rightarrow> 'm \<Rightarrow> string option \<times> 'm"

record ('s, 'f, 'g, 'm, 'n) mainWorld =
  mw_redis :: "'s world"
  mw_flags :: 'f
  mw_registry :: 'g
  mw_mux :: 'm
  mw_net :: "'n webWorld"

definition onRedis :: "('s, 'a) rio \<Rightarrow> (('s, 'f, 'g, 'm, 'n) mainWorld, 'a) io" where
  "onRedis m = (\<lambda>w. case m (mw_redis w) of (r, v) \<Rightarrow> (r, w\<lparr>mw_redis := v\<rparr>))"

definition onFlags :: "('f \<Rightarrow> 'a \<times> 'f) \<Rightarrow> (('s, 'f, 'g, 'm, 'n) mainWorld, 'a) io" where
  "onFlags f = (\<lambda>w. case f (mw_flags w) of (r, v) \<Rightarrow> (Ok r, w\<lparr>mw_flags := v\<rparr>))"

definition onNet :: "('n webWorld, 'a) io \<Rightarrow> (('s, 'f, 'g, 'm, 'n) mainWorld, 'a) io" where
  "onNet m = (\<lambda>w. case m (mw_net w) of (r, v) \<Rightarrow> (r, w\<lparr>mw_net := v\<rparr>))"

text \<open>\<^verbatim>\<open>prometheus.MustRegister\<close>, which panics on the error of \<^verbatim>\<open>Register\<close>, and \<^verbatim>\<open>http.Handle\<close>.\<close>

definition MustRegister :: "('f, 'g, 'm) mainLib \<Rightarrow> desc list \<Rightarrow> (('s, 'f, 'g, 'm, 'n) mainWorld, unit) io" where
  "MustRegister lib descs =
     (\<lambda>w. case registerDescs lib descs (mw_registry w) of
        (err, g) \<Rightarrow> (case err of None \<Rightarrow> Ok () | Some e \<Rightarrow> Panic ''MustRegister'', w\<lparr>mw_registry := g\<rparr>))"

definition Handle :: "('f, 'g, 'm) mainLib \<Rightarrow> string \<Rightarrow> (('s, 'f, 'g, 'm, 'n) mainWorld, unit) io" where
  "Handle lib pattern =
     (\<lambda>w. case handlePattern lib pattern (mw_mux w) of
        (err, m) \<Rightarrow> (case err of None \<Rightarrow> Ok () | Some msg \<Rightarrow> Panic msg, w\<lparr>mw_mux := m\<rparr>))"

text \<open>\<^verbatim>\<open>if c.IsEnabled() { prometheus.MustRegister(c) }\<close>, one after the other.\<close>

primrec registerEach :: "('f, 'g, 'm) mainLib \<Rightarrow> (bool \<times> desc list) list \<Rightarrow> (('s, 'f, 'g, 'm, 'n) mainWorld, unit) io" where
  "registerEach lib [] = io_return ()"
| "registerEach lib (c # cs) =
     io_bind (if fst c then MustRegister lib (snd c) else io_return ()) (\<lambda>_. registerEach lib cs)"

definition main ::
  "(string \<Rightarrow> bool) \<Rightarrow> 's redisLib \<Rightarrow> 's host \<Rightarrow> ('s \<Rightarrow> gotime) \<Rightarrow> ('f, 'x) frrLib \<Rightarrow> ('f, 'g, 'm) mainLib \<Rightarrow> 'n netLib
     \<Rightarrow> env \<Rightarrow> refreshClock \<Rightarrow> versionInfo \<Rightarrow> string list \<Rightarrow> (('s, 'f, 'g, 'm, 'n) mainWorld, unit) io" where
  "main labelOk rlib host clock flib lib nlib env clk version args =
     (let version = normalizeVersionMetadata version in
      case parseCommandLine lib version args of
        Inl err \<Rightarrow> io_fail err
      | Inr flags \<Rightarrow>
        io_bind (onFlags (parseFlags flib (nodeCollectorArgs (flag_rootfs flags)))) (\<lambda>err.
        case err of Some e \<Rightarrow> io_fail e | None \<Rightarrow>
        let metricFilter = NewMetricFilter env in
        io_bind (MustRegister lib (versionCollector lib version)) (\<lambda>_.
        io_bind (onRedis (NewLldpCollector labelOk rlib env metricFilter clk [])) (\<lambda>lldp.
        io_bind (onRedis (NewVlanCollector labelOk rlib env metricFilter clk [])) (\<lambda>vlan.
        io_bind (onRedis (NewLagCollector labelOk rlib env metricFilter clk [])) (\<lambda>lag.
        io_bind (onRedis (NewFdbCollector labelOk rlib env metricFilter clk [])) (\<lambda>fdb.
        io_bind (onRedis (NewRoutingCollector labelOk rlib env metricFilter clk [])) (\<lambda>routing.
        io_bind (onRedis (NewSwitchCollector labelOk rlib env metricFilter clk [])) (\<lambda>switch.
        io_bind (onRedis (NewThermalCollector labelOk rlib env metricFilter clk [])) (\<lambda>thermal.
        io_bind (onRedis (NewTransceiverCollector labelOk rlib env metricFilter clk [])) (\<lambda>transceiver.
        io_bind (onRedis (NewPlatformHealthCollector labelOk rlib env metricFilter clk [])) (\<lambda>platform.
        io_bind (onRedis (NewSystemCollector labelOk host rlib env metricFilter clk [])) (\<lambda>system.
        io_bind (onRedis (NewDockerCollector labelOk clock rlib env metricFilter clk [])) (\<lambda>docker.
        io_bind (onFlags (NewFrrCollector flib env)) (\<lambda>frr.
        io_bind (registerEach lib
          [(True, interface_Describe), (True, hw_Describe), (True, crm_Describe), (True, queue_Describe),
           (lldp_IsEnabled lldp, lldp_Describe), (vlan_IsEnabled vlan, vlan_Describe), (lag_IsEnabled lag, lag_Describe),
           (fdb_IsEnabled fdb, fdb_Describe), (routing_IsEnabled routing, routing_Describe),
           (switch_IsEnabled switch, switch_Describe), (thermal_IsEnabled thermal, thermal_Describe),
           (transceiver_IsEnabled transceiver, transceiver_Describe), (platform_IsEnabled platform, platform_Describe),
           (system_IsEnabled system, system_Describe), (docker_IsEnabled docker, docker_Describe),
           (frr_IsEnabled frr, frr_Describe flib frr)]) (\<lambda>_.
        io_bind (onFlags (newNodeCollector lib nodeCollectorNames)) (\<lambda>r.
        case r of Inl err \<Rightarrow> io_fail err | Inr nodeCollector \<Rightarrow>
        io_bind (MustRegister lib nodeCollector) (\<lambda>_.
        io_bind (Handle lib (flag_metricsPath flags)) (\<lambda>_.
        io_bind (Handle lib ''/'') (\<lambda>_.
        onNet (serve nlib (flag_webConfig flags) (flag_webVRF flags))))))))))))))))))))))"


subsection \<open>What the libraries promise\<close>

text \<open>
  The registry takes descriptions with new names and without repeated labels; \<open>names\<close> are those it has. The multiplexer takes
  a path, without wildcards and escapes, exactly when it has not got it, and no pattern without a slash: \<^verbatim>\<open>Handle\<close> panics on
  a conflict and on an invalid pattern.
\<close>

definition registryLaw :: "('f, 'g, 'm) mainLib \<Rightarrow> ('g \<Rightarrow> string list) \<Rightarrow> bool" where
  "registryLaw lib names =
     (\<forall>ds g. distinct (names g @ map fqName ds) \<and> list_all (\<lambda>d. distinct (d_labels d)) ds \<longrightarrow>
        (\<exists>g'. registerDescs lib ds g = (None, g') \<and> names g' = names g @ map fqName ds))"

definition plainPath :: "string \<Rightarrow> bool" where
  "plainPath p = (hasPrefix p ''/'' \<and> list_all (\<lambda>c. c \<notin> set [CHR ''{'', CHR ''%'', CHR '' '', CHR 0x09]) p)"

lemma plainPath_slash: "plainPath p \<Longrightarrow> CHR ''/'' \<in> set p"
  by (auto simp: plainPath_def hasPrefix_def elim!: prefixE)

definition muxLaw :: "('f, 'g, 'm) mainLib \<Rightarrow> ('m \<Rightarrow> string list) \<Rightarrow> bool" where
  "muxLaw lib routes =
     ((\<forall>p m. plainPath p \<longrightarrow>
        (if p \<in> set (routes m) then \<exists>msg m'. handlePattern lib p m = (Some msg, m')
         else \<exists>m'. handlePattern lib p m = (None, m') \<and> routes m' = p # routes m)) \<and>
     (\<forall>p m. CHR ''/'' \<notin> set p \<longrightarrow> (\<exists>msg m'. handlePattern lib p m = (Some msg, m'))))"

definition sonicSubsystems :: "string list" where
  "sonicSubsystems = [''interface'', ''hw'', ''crm'', ''queue'', ''lldp'', ''vlan'', ''lag'', ''fdb'', ''routing'', ''switch'',
     ''thermal'', ''transceiver'', ''platform'', ''system'', ''docker'']"

text \<open>
  The other collectors' descriptions and the names the registry has already: all names are different, and none is in a
  subsystem of SONiC.
\<close>

definition apart :: "string list \<Rightarrow> desc list \<Rightarrow> bool" where
  "apart known ds = (distinct (known @ map fqName ds) \<and> list_all (\<lambda>d. distinct (d_labels d)) ds \<and>
     list_all (\<lambda>n. subsystemOf n \<notin> set sonicSubsystems) (known @ map fqName ds))"

subsection \<open>The constructors return\<close>

lemma refresh_no_error: "fst (refreshWith scrape assignments c w) \<noteq> Fail e"
  by (simp add: refreshWith_def split: prod.split outcome.split)

lemma constructor_no_error:
  "fst ((if \<not> on then io_return c0
    else io_bind (refreshWith scrape assignments c0) (\<lambda>c. tickerLoop (interval c) refresh [] c)) v) \<noteq> Fail e"
  using refresh_no_error [of scrape assignments c0 v e]
  by (auto simp: io_bind_def io_return_def tickerLoop_def split: prod.split outcome.split)

lemma orderly_returns:
  assumes "calm True m" "\<And>e. fst (m v) \<noteq> Fail e" "\<And>c v'. m v = (Ok c, v') \<Longrightarrow> P c"
  shows "\<exists>c v'. m v = (Ok c, v') \<and> P c"
  using calmD [OF assms(1), of v] assms(2,3) by (cases "m v"; cases "fst (m v)") auto

lemma lldp_constructed:
  assumes "scansFinish lib"
  shows "\<exists>c v'. NewLldpCollector anyLabel lib env flt clk [] v = (Ok c, v') \<and> lldp_IsEnabled c = lldp_IsEnabled (lldp_new env flt)"
proof (rule orderly_returns)
  show "fst (NewLldpCollector anyLabel lib env flt clk [] v) \<noteq> Fail e" for e
    unfolding NewLldpCollector_def lldp_refreshMetrics_def lldp_refreshLoop_def [abs_def] Let_def by (rule constructor_no_error)
qed (use assms in \<open>simp_all add: calm_NewLldp lldp_registered\<close>)

lemma vlan_constructed:
  assumes "scansFinish lib"
  shows "\<exists>c v'. NewVlanCollector anyLabel lib env flt clk [] v = (Ok c, v') \<and> vlan_IsEnabled c = vlan_IsEnabled (vlan_new env flt)"
proof (rule orderly_returns)
  show "fst (NewVlanCollector anyLabel lib env flt clk [] v) \<noteq> Fail e" for e
    unfolding NewVlanCollector_def vlan_refreshMetrics_def vlan_refreshLoop_def [abs_def] Let_def by (rule constructor_no_error)
qed (use assms in \<open>simp_all add: calm_NewVlan vlan_registered\<close>)

lemma lag_constructed:
  assumes "scansFinish lib"
  shows "\<exists>c v'. NewLagCollector anyLabel lib env flt clk [] v = (Ok c, v') \<and> lag_IsEnabled c = lag_IsEnabled (lag_new env flt)"
proof (rule orderly_returns)
  show "fst (NewLagCollector anyLabel lib env flt clk [] v) \<noteq> Fail e" for e
    unfolding NewLagCollector_def lag_refreshMetrics_def lag_refreshLoop_def [abs_def] Let_def by (rule constructor_no_error)
qed (use assms in \<open>simp_all add: calm_NewLag lag_registered\<close>)

lemma fdb_constructed:
  assumes "scansFinish lib"
  shows "\<exists>c v'. NewFdbCollector anyLabel lib env flt clk [] v = (Ok c, v') \<and> fdb_IsEnabled c = fdb_IsEnabled (fdb_new env flt)"
proof (rule orderly_returns)
  show "fst (NewFdbCollector anyLabel lib env flt clk [] v) \<noteq> Fail e" for e
    unfolding NewFdbCollector_def fdb_refreshMetrics_def fdb_refreshLoop_def [abs_def] Let_def by (rule constructor_no_error)
qed (use assms in \<open>simp_all add: calm_NewFdb fdb_registered\<close>)

lemma routing_constructed:
  assumes "scansFinish lib"
  shows "\<exists>c v'. NewRoutingCollector anyLabel lib env flt clk [] v = (Ok c, v') \<and> routing_IsEnabled c = routing_IsEnabled (routing_new env flt)"
proof (rule orderly_returns)
  show "fst (NewRoutingCollector anyLabel lib env flt clk [] v) \<noteq> Fail e" for e
    unfolding NewRoutingCollector_def routing_refreshMetrics_def routing_refreshLoop_def [abs_def] Let_def by (rule constructor_no_error)
qed (use assms in \<open>simp_all add: calm_NewRouting routing_registered\<close>)

lemma switch_constructed:
  assumes "scansFinish lib"
  shows "\<exists>c v'. NewSwitchCollector anyLabel lib env flt clk [] v = (Ok c, v') \<and> switch_IsEnabled c = switch_IsEnabled (switch_new env flt)"
proof (rule orderly_returns)
  show "fst (NewSwitchCollector anyLabel lib env flt clk [] v) \<noteq> Fail e" for e
    unfolding NewSwitchCollector_def switch_refreshMetrics_def switch_refreshLoop_def [abs_def] Let_def by (rule constructor_no_error)
qed (use assms in \<open>simp_all add: calm_NewSwitch switch_registered\<close>)

lemma thermal_constructed:
  assumes "scansFinish lib"
  shows "\<exists>c v'. NewThermalCollector anyLabel lib env flt clk [] v = (Ok c, v') \<and> thermal_IsEnabled c = thermal_IsEnabled (thermal_new env flt)"
proof (rule orderly_returns)
  show "fst (NewThermalCollector anyLabel lib env flt clk [] v) \<noteq> Fail e" for e
    unfolding NewThermalCollector_def thermal_refreshMetrics_def thermal_refreshLoop_def [abs_def] Let_def by (rule constructor_no_error)
qed (use assms in \<open>simp_all add: calm_NewThermal thermal_registered\<close>)

lemma transceiver_constructed:
  assumes "scansFinish lib"
  shows "\<exists>c v'. NewTransceiverCollector anyLabel lib env flt clk [] v = (Ok c, v') \<and> transceiver_IsEnabled c = transceiver_IsEnabled (transceiver_new env flt)"
proof (rule orderly_returns)
  show "fst (NewTransceiverCollector anyLabel lib env flt clk [] v) \<noteq> Fail e" for e
    unfolding NewTransceiverCollector_def transceiver_refreshMetrics_def transceiver_refreshLoop_def [abs_def] Let_def by (rule constructor_no_error)
qed (use assms in \<open>simp_all add: calm_NewTransceiver transceiver_registered\<close>)

lemma platform_constructed:
  assumes "scansFinish lib"
  shows "\<exists>c v'. NewPlatformHealthCollector anyLabel lib env flt clk [] v = (Ok c, v') \<and> platform_IsEnabled c = platform_IsEnabled (platform_new env flt)"
proof (rule orderly_returns)
  show "fst (NewPlatformHealthCollector anyLabel lib env flt clk [] v) \<noteq> Fail e" for e
    unfolding NewPlatformHealthCollector_def platform_refreshMetrics_def platform_refreshLoop_def [abs_def] Let_def by (rule constructor_no_error)
qed (use assms in \<open>simp_all add: calm_NewPlatformHealth platform_registered\<close>)

lemma system_constructed:
  assumes "scansFinish lib"
  shows "\<exists>c v'. NewSystemCollector anyLabel host lib env flt clk [] v = (Ok c, v') \<and> system_IsEnabled c = system_IsEnabled (system_new env flt)"
proof (rule orderly_returns)
  show "fst (NewSystemCollector anyLabel host lib env flt clk [] v) \<noteq> Fail e" for e
    unfolding NewSystemCollector_def system_refreshMetrics_def system_refreshLoop_def [abs_def] Let_def by (rule constructor_no_error)
qed (use assms in \<open>simp_all add: calm_NewSystem system_registered\<close>)

lemma docker_constructed:
  assumes "scansFinish lib"
  shows "\<exists>c v'. NewDockerCollector anyLabel clock lib env flt clk [] v = (Ok c, v') \<and> docker_IsEnabled c = docker_IsEnabled (docker_new env flt)"
proof (rule orderly_returns)
  show "fst (NewDockerCollector anyLabel clock lib env flt clk [] v) \<noteq> Fail e" for e
    unfolding NewDockerCollector_def docker_refreshMetrics_def docker_refreshLoop_def [abs_def] Let_def by (rule constructor_no_error)
qed (use assms in \<open>simp_all add: calm_NewDocker docker_registered\<close>)

subsection \<open>Registration\<close>

definition chosen :: "(bool \<times> desc list) list \<Rightarrow> desc list" where
  "chosen cs = concat (map snd (filter fst cs))"

lemma chosen_simps [simp]: "chosen [] = []" "chosen ((on, ds) # cs) = (if on then ds @ chosen cs else chosen cs)"
  by (simp_all add: chosen_def)

text \<open>The computation succeeds and takes the registry from \<open>g\<close> to \<open>g'\<close>, whatever the rest of the world is.\<close>

type_synonym ('s, 'f, 'g, 'm, 'n) start = "(('s, 'f, 'g, 'm, 'n) mainWorld, unit) io"

definition takes :: "('s, 'f, 'g, 'm, 'n) start \<Rightarrow> 'g \<Rightarrow> 'g \<Rightarrow> bool" where
  "takes m g g' = (\<forall>w. mw_registry w = g \<longrightarrow> m w = (Ok (), w\<lparr>mw_registry := g'\<rparr>))"

lemma MustRegister_takes:
  assumes "registryLaw lib names" "distinct (names g @ map fqName ds)" "list_all (\<lambda>d. distinct (d_labels d)) ds"
  shows "\<exists>g'. takes (MustRegister lib ds) g g' \<and> names g' = names g @ map fqName ds"
proof -
  from assms obtain g' where "registerDescs lib ds g = (None, g')" "names g' = names g @ map fqName ds"
    unfolding registryLaw_def by blast
  then show ?thesis by (auto simp: takes_def MustRegister_def)
qed

lemma registerEach_takes:
  fixes lib :: "('f, 'g, 'm) mainLib"
  assumes "registryLaw lib names" "distinct (names g @ map fqName (chosen cs))" "list_all (\<lambda>d. distinct (d_labels d)) (chosen cs)"
  shows "\<exists>g'. takes (registerEach lib cs :: ('s, 'f, 'g, 'm, 'n) start) g g' \<and> names g' = names g @ map fqName (chosen cs)"
  using assms(2,3)
proof (induction cs arbitrary: g)
  case Nil
  show ?case by (intro exI [of _ g]) (auto simp: takes_def io_return_def)
next
  case (Cons c cs)
  obtain on ds where c: "c = (on, ds)" by (cases c)
  show ?case
  proof (cases on)
    case True
    have "distinct (names g @ map fqName ds)" "list_all (\<lambda>d. distinct (d_labels d)) ds"
      using Cons.prems by (auto simp: c True)
    from MustRegister_takes [OF assms(1) this] obtain g1 where first: "takes (MustRegister lib ds :: ('s, 'f, 'g, 'm, 'n) start) g g1" "names g1 = names g @ map fqName ds"
      by blast
    have "distinct (names g1 @ map fqName (chosen cs))" "list_all (\<lambda>d. distinct (d_labels d)) (chosen cs)"
      using Cons.prems by (simp_all add: c True first(2))
    from Cons.IH [OF this] obtain g' where "takes (registerEach lib cs :: ('s, 'f, 'g, 'm, 'n) start) g1 g'" "names g' = names g1 @ map fqName (chosen cs)"
      by blast
    with first show ?thesis
      by (intro exI [of _ g']) (simp add: takes_def c True io_bind_def)
  next
    case False
    then show ?thesis using Cons by (auto simp: takes_def c io_bind_def io_return_def)
  qed
qed

text \<open>The three registrations of \<^verbatim>\<open>main\<close>: the version collector, the loop over the enabled, the node exporter.\<close>

lemma registrations_take:
  fixes lib :: "('f, 'g, 'm) mainLib"
  assumes "registryLaw lib names" "distinct (names g @ map fqName (vs @ chosen cs @ ns))"
    "list_all (\<lambda>d. distinct (d_labels d)) (vs @ chosen cs @ ns)"
  shows "\<exists>g1 g2 g3. takes (MustRegister lib vs :: ('s, 'f, 'g, 'm, 'n) start) g g1 \<and> takes (registerEach lib cs :: ('s, 'f, 'g, 'm, 'n) start) g1 g2 \<and> takes (MustRegister lib ns :: ('s, 'f, 'g, 'm, 'n) start) g2 g3 \<and>
    names g3 = names g @ map fqName (vs @ chosen cs @ ns)"
proof -
  obtain g1 where g1: "takes (MustRegister lib vs :: ('s, 'f, 'g, 'm, 'n) start) g g1" "names g1 = names g @ map fqName vs"
    using MustRegister_takes [OF assms(1), of g vs] assms(2,3) by (auto simp: Int_Un_distrib)
  obtain g2 where g2: "takes (registerEach lib cs :: ('s, 'f, 'g, 'm, 'n) start) g1 g2" "names g2 = names g @ map fqName (vs @ chosen cs)"
    using registerEach_takes [OF assms(1), of g1 cs] assms(2,3) by (auto simp: g1(2) Int_Un_distrib Int_Un_distrib2)
  obtain g3 where g3: "takes (MustRegister lib ns :: ('s, 'f, 'g, 'm, 'n) start) g2 g3" "names g3 = names g @ map fqName (vs @ chosen cs @ ns)"
    using MustRegister_takes [OF assms(1), of g2 ns] assms(2,3) by (auto simp: g2(2) Int_Un_distrib Int_Un_distrib2)
  show ?thesis using g1(1) g2(1) g3 by blast
qed

text \<open>The list \<^verbatim>\<open>main\<close> registers, with the collectors it constructed.\<close>

definition mainRegistered :: "env \<Rightarrow> metricFilter \<Rightarrow> (bool \<times> desc list) list" where
  "mainRegistered env flt =
     [(True, interface_Describe), (True, hw_Describe), (True, crm_Describe), (True, queue_Describe),
      (lldp_IsEnabled (lldp_new env flt), lldp_Describe), (vlan_IsEnabled (vlan_new env flt), vlan_Describe),
      (lag_IsEnabled (lag_new env flt), lag_Describe), (fdb_IsEnabled (fdb_new env flt), fdb_Describe),
      (routing_IsEnabled (routing_new env flt), routing_Describe), (switch_IsEnabled (switch_new env flt), switch_Describe),
      (thermal_IsEnabled (thermal_new env flt), thermal_Describe),
      (transceiver_IsEnabled (transceiver_new env flt), transceiver_Describe),
      (platform_IsEnabled (platform_new env flt), platform_Describe), (system_IsEnabled (system_new env flt), system_Describe),
      (docker_IsEnabled (docker_new env flt), docker_Describe)]"

lemma chosen_append: "chosen (xs @ ys) = chosen xs @ chosen ys"
  by (simp add: chosen_def)

lemma mainRegistered_chosen: "chosen (mainRegistered env flt) = concat (map snd (mainCollectors env flt))"
  by (simp add: mainRegistered_def mainCollectors_def)

lemma mainCollectors_own: "(s, ds) \<in> set (mainCollectors env flt) \<Longrightarrow> ownNames s ds \<and> s \<in> set sonicSubsystems"
  unfolding mainCollectors_def sonicSubsystems_def
  using lldp_names vlan_names lag_names switch_names thermal_names routing_names fdb_names transceiver_names platform_names
    docker_names system_names queue_names crm_names hw_names interface_names
  by (auto split: if_splits)

lemma mainCollectors_distinct: "distinct (map fqName (concat (map snd (mainCollectors env flt))))"
  by (rule ownNames_distinct, drule mainCollectors_own, erule conjunct1) (rule mainCollectors_once)

lemma mainCollectors_labels:
  "list_all (\<lambda>d. distinct (d_labels d) \<and> subsystemOf (fqName d) \<in> set sonicSubsystems) (concat (map snd (mainCollectors env flt)))"
  using mainCollectors_own by (fastforce simp: list_all_iff ownNames_def)

text \<open>All descriptions together, with those of the other collectors around them.\<close>

lemma registered_distinct:
  assumes "apart known (vs @ fs @ ns)"
  shows "distinct (known @ map fqName (vs @ concat (map snd (mainCollectors env flt)) @ fs @ ns))"
    and "list_all (\<lambda>d. distinct (d_labels d)) (vs @ concat (map snd (mainCollectors env flt)) @ fs @ ns)"
proof -
  let ?sonic = "map fqName (concat (map snd (mainCollectors env flt)))"
  have "n \<noteq> n'" if "n \<in> set ?sonic" "n' \<in> set (known @ map fqName (vs @ fs @ ns))" for n n'
    using that mainCollectors_labels [of env flt] assms unfolding apart_def list_all_iff set_map image_iff by metis
  then have "set ?sonic \<inter> set (known @ map fqName (vs @ fs @ ns)) = {}"
    by blast
  then show "distinct (known @ map fqName (vs @ concat (map snd (mainCollectors env flt)) @ fs @ ns))"
    using assms mainCollectors_distinct [of env flt] unfolding apart_def map_append distinct_append set_append
    by (simp only: distinct_append set_append Int_Un_distrib Int_Un_distrib2 Un_empty Int_commute)
  show "list_all (\<lambda>d. distinct (d_labels d)) (vs @ concat (map snd (mainCollectors env flt)) @ fs @ ns)"
    using assms mainCollectors_labels [of env flt] by (auto simp: apart_def list_all_iff)
qed

lemma io_bind_onFlags: "io_bind (onFlags g) f w = (case g (mw_flags w) of (r, v) \<Rightarrow> f r (w\<lparr>mw_flags := v\<rparr>))"
  by (simp add: io_bind_def onFlags_def split: prod.split)

lemma io_bind_onRedis:
  "io_bind (onRedis m) f w =
    (case m (mw_redis w) of (r, v) \<Rightarrow>
      (case r of Ok x \<Rightarrow> f x (w\<lparr>mw_redis := v\<rparr>) | Fail e \<Rightarrow> (Fail e, w\<lparr>mw_redis := v\<rparr>) | Panic p \<Rightarrow> (Panic p, w\<lparr>mw_redis := v\<rparr>)
       | Hang \<Rightarrow> (Hang, w\<lparr>mw_redis := v\<rparr>)))"
  by (simp add: io_bind_def onRedis_def split: prod.split)

text \<open>The constructors, one after the other, each on the Redis world the one before leaves.\<close>

lemma collectors_constructed:
  assumes "scansFinish rlib"
  shows "\<exists>lldp vlan lag fdb routing switch thermal transceiver platform system docker v1 v2 v3 v4 v5 v6 v7 v8 v9 v10 v11.
    NewLldpCollector anyLabel rlib env flt clk [] v = (Ok lldp, v1) \<and> lldp_IsEnabled lldp = lldp_IsEnabled (lldp_new env flt) \<and>
    NewVlanCollector anyLabel rlib env flt clk [] v1 = (Ok vlan, v2) \<and> vlan_IsEnabled vlan = vlan_IsEnabled (vlan_new env flt) \<and>
    NewLagCollector anyLabel rlib env flt clk [] v2 = (Ok lag, v3) \<and> lag_IsEnabled lag = lag_IsEnabled (lag_new env flt) \<and>
    NewFdbCollector anyLabel rlib env flt clk [] v3 = (Ok fdb, v4) \<and> fdb_IsEnabled fdb = fdb_IsEnabled (fdb_new env flt) \<and>
    NewRoutingCollector anyLabel rlib env flt clk [] v4 = (Ok routing, v5) \<and> routing_IsEnabled routing = routing_IsEnabled (routing_new env flt) \<and>
    NewSwitchCollector anyLabel rlib env flt clk [] v5 = (Ok switch, v6) \<and> switch_IsEnabled switch = switch_IsEnabled (switch_new env flt) \<and>
    NewThermalCollector anyLabel rlib env flt clk [] v6 = (Ok thermal, v7) \<and> thermal_IsEnabled thermal = thermal_IsEnabled (thermal_new env flt) \<and>
    NewTransceiverCollector anyLabel rlib env flt clk [] v7 = (Ok transceiver, v8) \<and> transceiver_IsEnabled transceiver = transceiver_IsEnabled (transceiver_new env flt) \<and>
    NewPlatformHealthCollector anyLabel rlib env flt clk [] v8 = (Ok platform, v9) \<and> platform_IsEnabled platform = platform_IsEnabled (platform_new env flt) \<and>
    NewSystemCollector anyLabel host rlib env flt clk [] v9 = (Ok system, v10) \<and> system_IsEnabled system = system_IsEnabled (system_new env flt) \<and>
    NewDockerCollector anyLabel clock rlib env flt clk [] v10 = (Ok docker, v11) \<and> docker_IsEnabled docker = docker_IsEnabled (docker_new env flt)"
proof -
  obtain lldp v1 where 1: "NewLldpCollector anyLabel rlib env flt clk [] v = (Ok lldp, v1)"
      "lldp_IsEnabled lldp = lldp_IsEnabled (lldp_new env flt)"
    using lldp_constructed [OF assms] by blast
  obtain vlan v2 where 2: "NewVlanCollector anyLabel rlib env flt clk [] v1 = (Ok vlan, v2)"
      "vlan_IsEnabled vlan = vlan_IsEnabled (vlan_new env flt)"
    using vlan_constructed [OF assms] by blast
  obtain lag v3 where 3: "NewLagCollector anyLabel rlib env flt clk [] v2 = (Ok lag, v3)"
      "lag_IsEnabled lag = lag_IsEnabled (lag_new env flt)"
    using lag_constructed [OF assms] by blast
  obtain fdb v4 where 4: "NewFdbCollector anyLabel rlib env flt clk [] v3 = (Ok fdb, v4)"
      "fdb_IsEnabled fdb = fdb_IsEnabled (fdb_new env flt)"
    using fdb_constructed [OF assms] by blast
  obtain routing v5 where 5: "NewRoutingCollector anyLabel rlib env flt clk [] v4 = (Ok routing, v5)"
      "routing_IsEnabled routing = routing_IsEnabled (routing_new env flt)"
    using routing_constructed [OF assms] by blast
  obtain switch v6 where 6: "NewSwitchCollector anyLabel rlib env flt clk [] v5 = (Ok switch, v6)"
      "switch_IsEnabled switch = switch_IsEnabled (switch_new env flt)"
    using switch_constructed [OF assms] by blast
  obtain thermal v7 where 7: "NewThermalCollector anyLabel rlib env flt clk [] v6 = (Ok thermal, v7)"
      "thermal_IsEnabled thermal = thermal_IsEnabled (thermal_new env flt)"
    using thermal_constructed [OF assms] by blast
  obtain transceiver v8 where 8: "NewTransceiverCollector anyLabel rlib env flt clk [] v7 = (Ok transceiver, v8)"
      "transceiver_IsEnabled transceiver = transceiver_IsEnabled (transceiver_new env flt)"
    using transceiver_constructed [OF assms] by blast
  obtain platform v9 where 9: "NewPlatformHealthCollector anyLabel rlib env flt clk [] v8 = (Ok platform, v9)"
      "platform_IsEnabled platform = platform_IsEnabled (platform_new env flt)"
    using platform_constructed [OF assms] by blast
  obtain system v10 where 10: "NewSystemCollector anyLabel host rlib env flt clk [] v9 = (Ok system, v10)"
      "system_IsEnabled system = system_IsEnabled (system_new env flt)"
    using system_constructed [OF assms] by blast
  obtain docker v11 where 11: "NewDockerCollector anyLabel clock rlib env flt clk [] v10 = (Ok docker, v11)"
      "docker_IsEnabled docker = docker_IsEnabled (docker_new env flt)"
    using docker_constructed [OF assms] by blast
  show ?thesis
    by (intro exI conjI; fact)
qed

text \<open>Everything before the routes.\<close>

lemma main_registers:
  fixes w :: "('s, 'f, 'g, 'm, 'n) mainWorld"
  assumes "scansFinish rlib" "registryLaw lib names"
    and "parseCommandLine lib (normalizeVersionMetadata version) args = Inr flags"
    and "parseFlags flib (nodeCollectorArgs (flag_rootfs flags)) (mw_flags w) = (None, f1)"
    and "NewFrrCollector flib env f1 = (frr, f2)" "newNodeCollector lib nodeCollectorNames f2 = (Inr node, f3)"
    and "apart (names (mw_registry w)) (versionCollector lib (normalizeVersionMetadata version) @ frr_Describe flib frr @ node)"
  shows "\<exists>v g. names g = names (mw_registry w) @ map fqName (versionCollector lib (normalizeVersionMetadata version) @
        concat (map snd (mainCollectors env (NewMetricFilter env))) @ frr_Describe flib frr @ node) \<and>
      main anyLabel rlib host clock flib lib nlib env clk version args w =
        io_bind (Handle lib (flag_metricsPath flags)) (\<lambda>_. io_bind (Handle lib ''/'') (\<lambda>_.
          onNet (serve nlib (flag_webConfig flags) (flag_webVRF flags)))) (w\<lparr>mw_flags := f3, mw_redis := v, mw_registry := g\<rparr>)"
proof -
  let ?flt = "NewMetricFilter env" and ?version = "normalizeVersionMetadata version"
  let ?cs = "mainRegistered env ?flt @ [(frr_IsEnabled frr, frr_Describe flib frr)]"
  have "frr_Describe flib frr = []" if "\<not> frr_IsEnabled frr"
    using that by (simp add: frr_Describe_def)
  then have cs: "chosen ?cs = concat (map snd (mainCollectors env ?flt)) @ frr_Describe flib frr"
    by (simp add: chosen_append mainRegistered_chosen)
  have all: "distinct (names (mw_registry w) @ map fqName (versionCollector lib ?version @ chosen ?cs @ node))"
    "list_all (\<lambda>d. distinct (d_labels d)) (versionCollector lib ?version @ chosen ?cs @ node)"
    unfolding cs append_assoc using registered_distinct [OF assms(7), of env ?flt] by (simp_all only: append_assoc)
  obtain g1 g2 g3 where g: "takes (MustRegister lib (versionCollector lib ?version) :: ('s, 'f, 'g, 'm, 'n) start) (mw_registry w) g1"
      "takes (registerEach lib ?cs :: ('s, 'f, 'g, 'm, 'n) start) g1 g2" "takes (MustRegister lib node :: ('s, 'f, 'g, 'm, 'n) start) g2 g3"
    and names: "names g3 = names (mw_registry w) @ map fqName (versionCollector lib ?version @ chosen ?cs @ node)"
    using registrations_take [OF assms(2) all] by blast
  obtain lldp vlan lag fdb routing switch thermal transceiver platform system docker v1 v2 v3 v4 v5 v6 v7 v8 v9 v10 v11 where
    built: "NewLldpCollector anyLabel rlib env ?flt clk [] (mw_redis w) = (Ok lldp, v1) \<and> lldp_IsEnabled lldp = lldp_IsEnabled (lldp_new env ?flt) \<and>
    NewVlanCollector anyLabel rlib env ?flt clk [] v1 = (Ok vlan, v2) \<and> vlan_IsEnabled vlan = vlan_IsEnabled (vlan_new env ?flt) \<and>
    NewLagCollector anyLabel rlib env ?flt clk [] v2 = (Ok lag, v3) \<and> lag_IsEnabled lag = lag_IsEnabled (lag_new env ?flt) \<and>
    NewFdbCollector anyLabel rlib env ?flt clk [] v3 = (Ok fdb, v4) \<and> fdb_IsEnabled fdb = fdb_IsEnabled (fdb_new env ?flt) \<and>
    NewRoutingCollector anyLabel rlib env ?flt clk [] v4 = (Ok routing, v5) \<and> routing_IsEnabled routing = routing_IsEnabled (routing_new env ?flt) \<and>
    NewSwitchCollector anyLabel rlib env ?flt clk [] v5 = (Ok switch, v6) \<and> switch_IsEnabled switch = switch_IsEnabled (switch_new env ?flt) \<and>
    NewThermalCollector anyLabel rlib env ?flt clk [] v6 = (Ok thermal, v7) \<and> thermal_IsEnabled thermal = thermal_IsEnabled (thermal_new env ?flt) \<and>
    NewTransceiverCollector anyLabel rlib env ?flt clk [] v7 = (Ok transceiver, v8) \<and> transceiver_IsEnabled transceiver = transceiver_IsEnabled (transceiver_new env ?flt) \<and>
    NewPlatformHealthCollector anyLabel rlib env ?flt clk [] v8 = (Ok platform, v9) \<and> platform_IsEnabled platform = platform_IsEnabled (platform_new env ?flt) \<and>
    NewSystemCollector anyLabel host rlib env ?flt clk [] v9 = (Ok system, v10) \<and> system_IsEnabled system = system_IsEnabled (system_new env ?flt) \<and>
    NewDockerCollector anyLabel clock rlib env ?flt clk [] v10 = (Ok docker, v11) \<and> docker_IsEnabled docker = docker_IsEnabled (docker_new env ?flt)"
    using collectors_constructed [OF assms(1), of env ?flt clk "mw_redis w" host clock] by (elim exE) (erule that)
  have order: "w\<lparr>mw_registry := x, mw_redis := y, mw_flags := z\<rparr> = w\<lparr>mw_flags := z, mw_redis := y, mw_registry := x\<rparr>"
    "w\<lparr>mw_flags := a, mw_redis := y, mw_registry := x, mw_flags := z\<rparr> = w\<lparr>mw_flags := z, mw_redis := y, mw_registry := x\<rparr>" for a x y z
    by simp_all
  have steps: "MustRegister lib (versionCollector lib ?version) (w\<lparr>mw_flags := f1\<rparr>) = (Ok (), w\<lparr>mw_flags := f1, mw_registry := g1\<rparr>)"
    "registerEach lib ?cs (w\<lparr>mw_flags := f2, mw_redis := v11, mw_registry := g1\<rparr>) = (Ok (), w\<lparr>mw_flags := f2, mw_redis := v11, mw_registry := g2\<rparr>)"
    "MustRegister lib node (w\<lparr>mw_flags := f3, mw_redis := v11, mw_registry := g2\<rparr>) = (Ok (), w\<lparr>mw_flags := f3, mw_redis := v11, mw_registry := g3\<rparr>)"
    using g unfolding takes_def by (simp_all del: registerEach.simps)
  have "main anyLabel rlib host clock flib lib nlib env clk version args w =
        io_bind (Handle lib (flag_metricsPath flags)) (\<lambda>_. io_bind (Handle lib ''/'') (\<lambda>_.
          onNet (serve nlib (flag_webConfig flags) (flag_webVRF flags)))) (w\<lparr>mw_flags := f3, mw_redis := v11, mw_registry := g3\<rparr>)"
    using steps by (simp add: main_def Let_def order assms(3-6) io_bind_onFlags io_bind_onRedis built mainRegistered_def
        io_bind_def [of "MustRegister lib ds" for ds] io_bind_def [of "registerEach lib ds" for ds] del: registerEach.simps)
  then show ?thesis
    by (intro exI [of _ v11] exI [of _ g3]) (use names in \<open>simp add: cs\<close>)
qed

text \<open>The two routes on an empty multiplexer.\<close>

lemma handle_both:
  assumes "muxLaw lib routes" "routes m0 = []" "plainPath path" "path \<noteq> ''/''"
  shows "\<exists>m m'. handlePattern lib path m0 = (None, m) \<and> handlePattern lib ''/'' m = (None, m') \<and> routes m' = [''/'', path]"
proof -
  have "plainPath ''/''"
    by (simp add: plainPath_def hasPrefix_def)
  then show ?thesis
    using assms unfolding muxLaw_def by (metis empty_iff empty_set set_ConsD)
qed

lemma handle_twice:
  assumes "muxLaw lib routes" "routes m0 = []" "plainPath path"
  shows "\<exists>m msg m'. handlePattern lib path m0 = (None, m) \<and> handlePattern lib path m = (Some msg, m')"
  using assms unfolding muxLaw_def by (metis empty_iff empty_set list.set_intros(1))

text \<open>
  C13. When the command lines parse, the node exporter can be made, the registry takes descriptions with new names, SCAN
  comes to its end and the client library takes the label values, \<^verbatim>\<open>main\<close> gets past its constructors and registers, after
  what the registry has already and in this order, the version collector, the enabled collectors of SONiC, that of FRR and the
  node exporter's. Then, for a metrics path other than the root, without wildcards and escapes, its end is the server's, with the page on
  its two paths. If the path is the root, the second route conflicts with the first, and if it has no slash, it is no pattern:
  in both cases the exporter panics before it listens.
\<close>

theorem main_outcome:
  fixes w :: "('s, 'f, 'g, 'm, 'n) mainWorld"
  assumes "scansFinish rlib" "registryLaw lib names" "muxLaw lib routes" "routes (mw_mux w) = []"
    and "parseCommandLine lib (normalizeVersionMetadata version) args = Inr flags"
    and "parseFlags flib (nodeCollectorArgs (flag_rootfs flags)) (mw_flags w) = (None, f1)"
    and "NewFrrCollector flib env f1 = (frr, f2)" "newNodeCollector lib nodeCollectorNames f2 = (Inr node, f3)"
    and "apart (names (mw_registry w)) (versionCollector lib (normalizeVersionMetadata version) @ frr_Describe flib frr @ node)"
  shows "case main anyLabel rlib host clock flib lib nlib env clk version args w of
    (r, w') \<Rightarrow>
      names (mw_registry w') = names (mw_registry w) @ map fqName (versionCollector lib (normalizeVersionMetadata version) @
        concat (map snd (mainCollectors env (NewMetricFilter env))) @ frr_Describe flib frr @ node) \<and>
      (plainPath (flag_metricsPath flags) \<and> flag_metricsPath flags \<noteq> ''/'' \<longrightarrow>
         r = fst (serve nlib (flag_webConfig flags) (flag_webVRF flags) (mw_net w)) \<and>
         routes (mw_mux w') = [''/'', flag_metricsPath flags]) \<and>
      (flag_metricsPath flags = ''/'' \<or> CHR ''/'' \<notin> set (flag_metricsPath flags) \<longrightarrow>
         (\<exists>msg. r = Panic msg) \<and> mw_net w' = mw_net w)"
proof -
  let ?path = "flag_metricsPath flags"
  obtain v g where
    names: "names g = names (mw_registry w) @ map fqName (versionCollector lib (normalizeVersionMetadata version) @
        concat (map snd (mainCollectors env (NewMetricFilter env))) @ frr_Describe flib frr @ node)"
    and run: "main anyLabel rlib host clock flib lib nlib env clk version args w =
        io_bind (Handle lib ?path) (\<lambda>_. io_bind (Handle lib ''/'') (\<lambda>_.
          onNet (serve nlib (flag_webConfig flags) (flag_webVRF flags)))) (w\<lparr>mw_flags := f3, mw_redis := v, mw_registry := g\<rparr>)"
    using main_registers [OF assms(1,2,5-9)] by metis
  have root: "plainPath ''/''"
    by (simp add: plainPath_def hasPrefix_def)
  have known: "mw_registry (snd (main anyLabel rlib host clock flib lib nlib env clk version args w)) = g"
    unfolding run by (simp add: io_bind_def Handle_def onNet_def split: prod.split option.split)
  consider (root) "?path = ''/''" | (slashless) "CHR ''/'' \<notin> set ?path" | (served) "plainPath ?path" "?path \<noteq> ''/''"
    | (other) "CHR ''/'' \<in> set ?path" "\<not> plainPath ?path"
    using root by metis
  then show ?thesis
  proof cases
    case root
    obtain m msg m' where "handlePattern lib ''/'' (mw_mux w) = (None, m)" "handlePattern lib ''/'' m = (Some msg, m')"
      using handle_twice [OF assms(3,4) \<open>plainPath ''/''\<close>] by blast
    then show ?thesis
      using root by (simp add: run names Handle_def io_bind_def)
  next
    case slashless
    then obtain msg m where "handlePattern lib ?path (mw_mux w) = (Some msg, m)"
      using assms(3) unfolding muxLaw_def by blast
    then show ?thesis
      using slashless plainPath_slash [of ?path] by (auto simp: run names Handle_def io_bind_def)
  next
    case served
    obtain m m' where "handlePattern lib ?path (mw_mux w) = (None, m)" "handlePattern lib ''/'' m = (None, m')" "routes m' = [''/'', ?path]"
      using handle_both [OF assms(3,4) served] by blast
    then show ?thesis
      using served plainPath_slash [of ?path] by (auto simp: run names Handle_def io_bind_def onNet_def split: prod.split)
  next
    case other
    then show ?thesis
      using known names root by (auto split: prod.split)
  qed
qed

text \<open>Libraries of that kind: the registry and the multiplexer are the lists of what they have.\<close>

definition demoFlags :: "string \<Rightarrow> mainFlagValues" where
  "demoFlags path =
     \<lparr>flag_webConfig = \<lparr>web_listenAddresses = ['':9101''], web_systemdSocket = False\<rparr>,
      flag_webVRF = [], flag_metricsPath = path, flag_rootfs = ''/''\<rparr>"

definition demoMain :: "string \<Rightarrow> (string list, string list, string list) mainLib" where
  "demoMain path =
     \<lparr>parseCommandLine = (\<lambda>_ _. Inr (demoFlags path)),
      newNodeCollector = (\<lambda>_ s. (Inr [NewDesc ''node'' ''cpu'' ''seconds_total'' [] [''cpu'', ''mode'']], s)),
      versionCollector = (\<lambda>_. [NewDesc ''sonic'' ''exporter'' ''build_info'' [] []]),
      registerDescs = (\<lambda>ds g. if distinct (g @ map fqName ds) then (None, g @ map fqName ds) else (Some (Errorf ''duplicate'' []), g)),
      handlePattern = (\<lambda>p m. if CHR ''/'' \<notin> set p then (Some ''invalid'', m) else if p \<in> set m then (Some ''conflict'', m) else (None, p # m))\<rparr>"

definition demoNet :: "unit netLib" where
  "demoNet =
     \<lparr>listenTCP = (\<lambda>_ _ s. (Inr 0, s)), rawControl = (\<lambda>s. ((None, None), s)), setSocketOption = (\<lambda>_ _ _ _ s. (None, s)),
      closeListener = (\<lambda>_ s. (None, s)), listenAndServe = (\<lambda>_ s. (None, s)), serveMultiple = (\<lambda>_ _ s. (None, s))\<rparr>"

definition demoWorld :: "(unit, string list, string list, string list, unit) mainWorld" where
  "demoWorld =
     \<lparr>mw_redis = \<lparr>server = (), databases = []\<rparr>, mw_flags = [], mw_registry = [''go_goroutines'', ''process_cpu_seconds_total''], mw_mux = [],
      mw_net = \<lparr>net_state = (), net_opened = [], net_closed = []\<rparr>\<rparr>"

theorem main_outcome_witness:
  "let start = (\<lambda>path. main anyLabel (staticLib localRedis (\<lambda>_ _. []) (\<lambda>_ _. [])) system_demoHost (\<lambda>_. 0) lastLine (demoMain path) demoNet
      (\<lambda>_. None) \<lparr>t_start = 1, t_scraped = 2, t_stored = 3\<rparr>
      \<lparr>ver_Version = [], ver_Branch = [], ver_BuildUser = [], ver_BuildDate = []\<rparr> [] demoWorld)
   in fst (start ''/metrics'') = Ok () \<and> (\<exists>msg. fst (start ''/'') = Panic msg) \<and> (\<exists>msg. fst (start ''metrics'') = Panic msg)"
proof -
  let ?rlib = "staticLib localRedis (\<lambda>_ _. []) (\<lambda>_ _. [])" and ?env = "\<lambda>_. None :: string option"
  let ?version = "\<lparr>ver_Version = [], ver_Branch = [], ver_BuildUser = [], ver_BuildDate = []\<rparr>"
  have scans: "scansFinish ?rlib"
    by (simp add: scansFinish_def staticLib_def)
  have registry: "registryLaw (demoMain path) (\<lambda>g. g)" for path
    by (simp add: registryLaw_def demoMain_def)
  have mux: "muxLaw (demoMain path) (\<lambda>m. m)" for path
    by (auto simp: muxLaw_def demoMain_def dest: plainPath_slash)
  have off: "frr_enabled (loadFrrCollectorConfig ?env) = False"
    by code_simp
  have frr: "NewFrrCollector lastLine ?env args = (\<lparr>frr_config = loadFrrCollectorConfig ?env, frr_exporter = None\<rparr>, args)" for args
    by (simp add: NewFrrCollector_def off Let_def)
  have others: "apart (mw_registry demoWorld) (versionCollector (demoMain path) version @ frr_Describe lastLine \<lparr>frr_config = loadFrrCollectorConfig ?env, frr_exporter = None\<rparr> @
      [NewDesc ''node'' ''cpu'' ''seconds_total'' [] [''cpu'', ''mode'']])" for path version
    by (simp add: apart_def demoMain_def demoWorld_def frr_Describe_def frr_IsEnabled_def off subsystemOf_def sonicSubsystems_def)
  have flags: "parseCommandLine (demoMain path) version args = Inr (demoFlags path)" for path version args
    by (simp add: demoMain_def)
  have "flag_rootfs (demoFlags path) = ''/''" for path
    by (simp add: demoFlags_def)
  then have node: "parseFlags lastLine (nodeCollectorArgs (flag_rootfs (demoFlags path))) (mw_flags demoWorld) = (None, nodeCollectorArgs ''/'')"
    "newNodeCollector (demoMain path) nodeCollectorNames s = (Inr [NewDesc ''node'' ''cpu'' ''seconds_total'' [] [''cpu'', ''mode'']], s)" for path s
    by (simp_all add: lastLine_def demoMain_def)
  have empty: "mw_mux demoWorld = []"
    by (simp add: demoWorld_def)
  note outcome = main_outcome [where host = system_demoHost and clock = "\<lambda>_. 0" and nlib = demoNet and version = ?version
      and clk = "\<lparr>t_start = 1, t_scraped = 2, t_stored = 3\<rparr>" and args = "[]" and w = demoWorld, OF scans registry mux empty
      flags node(1) frr node(2) others]
  have "fst (serve demoNet (flag_webConfig (demoFlags ''/metrics'')) (flag_webVRF (demoFlags ''/metrics'')) (mw_net demoWorld)) = Ok ()"
    by (simp add: serve_def demoFlags_def demoNet_def io_bind_def netCall_def returnErr_def io_return_def)
  moreover have "plainPath (flag_metricsPath (demoFlags ''/metrics''))"
    by (simp add: demoFlags_def plainPath_def hasPrefix_def)
  ultimately show ?thesis
    using outcome [of "''/metrics''"] outcome [of "''/''"] outcome [of "''metrics''"]
    by (auto simp: Let_def demoFlags_def split: prod.splits)
qed

end
