(* ===== verification/NoDuplicates.thy ===== *)
theory NoDuplicates
  imports Exporter
begin

text \<open>
  While the database holds still, no collector sends a time series twice, whatever refreshes it has made: the cached
  metrics have different series, and the gauges \<^verbatim>\<open>Collect\<close> adds have other names than they.
\<close>

lemma refreshWith_ok:
  "fst (scrape w) = Ok x \<Longrightarrow> \<exists>w'. refreshWith scrape assignments c w = (Ok (run (assignments (Inr x)) c), w')"
  by (cases "scrape w") (auto simp: refreshWith_def)

definition cachedOnce :: "string \<Rightarrow> string list \<Rightarrow> metric list \<Rightarrow> bool" where
  "cachedOnce s names ms =
     (distinct (map series ms) \<and>
      list_all (\<lambda>m. subsystemOf (fqName (m_desc m)) = s \<and> fqName (m_desc m) \<notin> set names) ms)"

lemma cachedOnceI:
  assumes "distinct (map series ms)"
    and "\<And>m. m \<in> set ms \<Longrightarrow> subsystemOf (fqName (m_desc m)) = s \<and> fqName (m_desc m) \<notin> set names"
  shows "cachedOnce s names ms"
  using assms by (simp add: cachedOnce_def list_all_iff)

lemma cachedOnce_Nil: "cachedOnce s names []"
  by (simp add: cachedOnce_def)

definition gaugeNames :: "(desc \<times> f64) list \<Rightarrow> string list" where
  "gaugeNames dvs = map (\<lambda>(d, v). fqName d) dvs"

lemma sent_once:
  assumes "cachedOnce s (gaugeNames dvs) ms" "distinct (gaugeNames dvs)" "\<forall>n\<in>set (gaugeNames dvs). subsystemOf n = s"
  shows "seriesTagged subsystemOf s (ms @ gauges flt dvs)"
proof -
  have "map series (gauges flt dvs) = map (\<lambda>n. (n, [])) (gaugeNames (filter (\<lambda>(d, v). Enabled flt (fqName d)) dvs))"
    by (simp add: gauges_def gaugeNames_def)
  moreover have "distinct (gaugeNames (filter P dvs))" for P
    using assms(2) unfolding gaugeNames_def by (rule distinct_map_filter)
  ultimately have "distinct (map series (gauges flt dvs))"
    by (simp add: distinct_map inj_on_def)
  moreover have own: "fqName (m_desc m) \<in> set (gaugeNames dvs)" if "m \<in> set (gauges flt dvs)" for m
    using that by (force simp: gauges_def gaugeNames_def)
  moreover have cached: "distinct (map series ms)"
    "\<And>m. m \<in> set ms \<Longrightarrow> subsystemOf (fqName (m_desc m)) = s \<and> fqName (m_desc m) \<notin> set (gaugeNames dvs)"
    using assms(1) by (auto simp: cachedOnce_def list_all_iff)
  moreover have apart: "series m \<noteq> series m'" if "m \<in> set ms" "m' \<in> set (gauges flt dvs)" for m m'
    using cached(2) [OF that(1)] own [OF that(2)] by (auto simp: series_def)
  have "set (map series ms) \<inter> set (map series (gauges flt dvs)) = {}"
    by (auto simp: disjoint_iff) (metis apart)
  ultimately have "distinct (map series (ms @ gauges flt dvs))"
    by simp
  moreover have "subsystemOf (fqName (m_desc m)) = s" if "m \<in> set (ms @ gauges flt dvs)" for m
    using that cached(2) own assms(3) by auto
  ultimately show ?thesis
    by (simp add: seriesTagged_def list_all_iff)
qed

text \<open>From the cached metrics to the ones sent.\<close>

lemma collected_once:
  assumes "cachedOnce s (gaugeNames dvs) ms" "distinct (gaugeNames dvs)" "\<forall>n\<in>set (gaugeNames dvs). subsystemOf n = s"
    and "on \<Longrightarrow> yields (\<lambda>_. True) m (ms @ gauges flt dvs)" "\<not> on \<Longrightarrow> m = io_return []"
  shows "\<exists>sent. fst (m w) = Ok sent \<and> seriesTagged subsystemOf s sent"
proof (cases on)
  case True
  then show ?thesis
    using yieldsD [OF assms(4), of w] sent_once [OF assms(1-3)] by auto
next
  case False
  then show ?thesis by (simp add: assms(5) io_return_def seriesTagged_def)
qed

subsection \<open>The collectors\<close>

lemma lldp_gaugeNames:
  "gaugeNames (lldp_health now c) = [''sonic_lldp_neighbors'', ''sonic_lldp_scrape_duration_seconds'', ''sonic_lldp_collector_success'', ''sonic_lldp_cache_age_seconds'', ''sonic_lldp_entries_skipped'']"
  by (simp add: gaugeNames_def lldp_health_def)

lemma vlan_gaugeNames:
  "gaugeNames (vlan_health now c) = [''sonic_vlan_scrape_duration_seconds'', ''sonic_vlan_collector_success'', ''sonic_vlan_cache_age_seconds'', ''sonic_vlan_entries_skipped'']"
  by (simp add: gaugeNames_def vlan_health_def)

lemma lag_gaugeNames:
  "gaugeNames (lag_health now c) = [''sonic_lag_scrape_duration_seconds'', ''sonic_lag_collector_success'', ''sonic_lag_cache_age_seconds'', ''sonic_lag_entries_skipped'']"
  by (simp add: gaugeNames_def lag_health_def)

lemma switch_gaugeNames:
  "gaugeNames (switch_health now c) = [''sonic_switch_entries_skipped'', ''sonic_switch_entries_truncated'', ''sonic_switch_scrape_duration_seconds'', ''sonic_switch_collector_success'', ''sonic_switch_cache_age_seconds'']"
  by (simp add: gaugeNames_def switch_health_def)

lemma thermal_gaugeNames:
  "gaugeNames (thermal_health now c) = [''sonic_thermal_entries_skipped'', ''sonic_thermal_scrape_duration_seconds'', ''sonic_thermal_collector_success'', ''sonic_thermal_cache_age_seconds'']"
  by (simp add: gaugeNames_def thermal_health_def)

lemma routing_gaugeNames:
  "gaugeNames (routing_health now c) = [''sonic_routing_entries_skipped'', ''sonic_routing_entries_truncated'', ''sonic_routing_scrape_duration_seconds'', ''sonic_routing_collector_success'', ''sonic_routing_cache_age_seconds'']"
  by (simp add: gaugeNames_def routing_health_def)

lemma fdb_gaugeNames:
  "gaugeNames (fdb_health now c) = [''sonic_fdb_entries_skipped'', ''sonic_fdb_entries_truncated'', ''sonic_fdb_scrape_duration_seconds'', ''sonic_fdb_collector_success'', ''sonic_fdb_cache_age_seconds'']"
  by (simp add: gaugeNames_def fdb_health_def)

lemma transceiver_gaugeNames:
  "gaugeNames (transceiver_health now c) = [''sonic_transceiver_entries_skipped'', ''sonic_transceiver_entries_truncated'', ''sonic_transceiver_scrape_duration_seconds'', ''sonic_transceiver_collector_success'', ''sonic_transceiver_cache_age_seconds'']"
  by (simp add: gaugeNames_def transceiver_health_def)

lemma platform_gaugeNames:
  "gaugeNames (platform_gauges now c) = [''sonic_platform_entries_skipped'', ''sonic_platform_entries_truncated'', ''sonic_platform_scrape_duration_seconds'', ''sonic_platform_collector_success'', ''sonic_platform_cache_age_seconds'']"
  by (simp add: gaugeNames_def platform_gauges_def)

lemma docker_gaugeNames:
  "gaugeNames (docker_gauges sourceNow now c) = [''sonic_docker_containers'', ''sonic_docker_source_last_update_timestamp_seconds'', ''sonic_docker_source_age_seconds'', ''sonic_docker_source_stale'', ''sonic_docker_entries_skipped'', ''sonic_docker_scrape_duration_seconds'', ''sonic_docker_collector_success'', ''sonic_docker_cache_age_seconds'']"
  by (simp add: gaugeNames_def docker_gauges_def)

lemma system_gaugeNames:
  "gaugeNames (system_gauges now c) = [''sonic_system_scrape_duration_seconds'', ''sonic_system_collector_success'', ''sonic_system_cache_age_seconds'']"
  by (simp add: gaugeNames_def system_gauges_def)

lemma lldp_own:
  "m \<in> set (fst (lldp_spec c db scan)) \<Longrightarrow>
    subsystemOf (fqName (m_desc m)) = ''lldp'' \<and> fqName (m_desc m) \<notin> set [''sonic_lldp_neighbors'', ''sonic_lldp_scrape_duration_seconds'', ''sonic_lldp_collector_success'', ''sonic_lldp_cache_age_seconds'', ''sonic_lldp_entries_skipped'']"
  by (auto simp: lldp_spec_def lldp_neighborMetric_def Let_def subsystemOf_def split: if_splits)

lemma vlan_own:
  "m \<in> set (fst (vlan_spec c db scan)) \<Longrightarrow>
    subsystemOf (fqName (m_desc m)) = ''vlan'' \<and> fqName (m_desc m) \<notin> set [''sonic_vlan_scrape_duration_seconds'', ''sonic_vlan_collector_success'', ''sonic_vlan_cache_age_seconds'', ''sonic_vlan_entries_skipped'']"
  by (auto simp: vlan_spec_def vlan_block_def vlan_memberMetric_def Let_def subsystemOf_def dest!: limitedGroups_mem split: if_splits)

lemma lag_own:
  "m \<in> set (fst (lag_spec c db scan)) \<Longrightarrow>
    subsystemOf (fqName (m_desc m)) = ''lag'' \<and> fqName (m_desc m) \<notin> set [''sonic_lag_scrape_duration_seconds'', ''sonic_lag_collector_success'', ''sonic_lag_cache_age_seconds'', ''sonic_lag_entries_skipped'']"
  by (auto simp: lag_spec_def lag_block_def lag_memberMetric_def Let_def subsystemOf_def dest!: limitedGroups_mem split: if_splits)

lemma switch_own:
  "m \<in> set (fst (switch_spec c db scan)) \<Longrightarrow>
    subsystemOf (fqName (m_desc m)) = ''switch'' \<and> fqName (m_desc m) \<notin> set [''sonic_switch_entries_skipped'', ''sonic_switch_entries_truncated'', ''sonic_switch_scrape_duration_seconds'', ''sonic_switch_collector_success'', ''sonic_switch_cache_age_seconds'']"
  by (auto simp: switch_spec_def switch_metricsOf_def Let_def in_optMetric subsystemOf_def split: if_splits)

lemma thermal_own:
  "m \<in> set (fst (thermal_spec c db)) \<Longrightarrow>
    subsystemOf (fqName (m_desc m)) = ''thermal'' \<and> fqName (m_desc m) \<notin> set [''sonic_thermal_entries_skipped'', ''sonic_thermal_scrape_duration_seconds'', ''sonic_thermal_collector_success'', ''sonic_thermal_cache_age_seconds'']"
  by (auto simp: thermal_spec_def thermal_fieldMetrics_def Let_def in_optMetric subsystemOf_def split: if_splits)

lemma routing_own:
  "m \<in> set (fst (routing_spec c db scan)) \<Longrightarrow>
    subsystemOf (fqName (m_desc m)) = ''routing'' \<and> fqName (m_desc m) \<notin> set [''sonic_routing_entries_skipped'', ''sonic_routing_entries_truncated'', ''sonic_routing_scrape_duration_seconds'', ''sonic_routing_collector_success'', ''sonic_routing_cache_age_seconds'']"
  by (auto simp: routing_spec_def countMetrics_def Let_def subsystemOf_def split: if_splits)

lemma fdb_own:
  "m \<in> set (fst (fdb_spec c db scan)) \<Longrightarrow>
    subsystemOf (fqName (m_desc m)) = ''fdb'' \<and> fqName (m_desc m) \<notin> set [''sonic_fdb_entries_skipped'', ''sonic_fdb_entries_truncated'', ''sonic_fdb_scrape_duration_seconds'', ''sonic_fdb_collector_success'', ''sonic_fdb_cache_age_seconds'']"
  by (auto simp: fdb_spec_def labelGauges_def Let_def subsystemOf_def split: if_splits)

lemma transceiver_own:
  "m \<in> set (fst (transceiver_spec c db scan)) \<Longrightarrow>
    subsystemOf (fqName (m_desc m)) = ''transceiver'' \<and> fqName (m_desc m) \<notin> set [''sonic_transceiver_entries_skipped'', ''sonic_transceiver_entries_truncated'', ''sonic_transceiver_scrape_duration_seconds'', ''sonic_transceiver_collector_success'', ''sonic_transceiver_cache_age_seconds'']"
  by (auto simp: transceiver_spec_def transceiver_idMetric_def transceiver_portMetrics_def Let_def groupMetrics_def flagMetrics_def fieldMetrics_def in_optMetric domFlags_def statusFlags_def subsystemOf_def split: if_splits option.splits)

lemma platform_own:
  "m \<in> set (fst (platform_spec c db scan)) \<Longrightarrow>
    subsystemOf (fqName (m_desc m)) = ''platform'' \<and> fqName (m_desc m) \<notin> set [''sonic_platform_entries_skipped'', ''sonic_platform_entries_truncated'', ''sonic_platform_scrape_duration_seconds'', ''sonic_platform_collector_success'', ''sonic_platform_cache_age_seconds'']"
  by (auto simp: platform_spec_def process_metrics_def storage_metrics_def Let_def in_optMetric subsystemOf_def split: if_splits)

lemma docker_own:
  "m \<in> set (fst (docker_spec c db scan t)) \<Longrightarrow>
    subsystemOf (fqName (m_desc m)) = ''docker'' \<and> fqName (m_desc m) \<notin> set [''sonic_docker_containers'', ''sonic_docker_source_last_update_timestamp_seconds'', ''sonic_docker_source_age_seconds'', ''sonic_docker_source_stale'', ''sonic_docker_entries_skipped'', ''sonic_docker_scrape_duration_seconds'', ''sonic_docker_collector_success'', ''sonic_docker_cache_age_seconds'']"
  by (auto simp: docker_spec_def docker_metrics_def docker_readings_def Let_def in_optMetric subsystemOf_def split: if_splits)

lemma system_own:
  "m \<in> set (system_metrics c i s u) \<Longrightarrow>
    subsystemOf (fqName (m_desc m)) = ''system'' \<and> fqName (m_desc m) \<notin> set [''sonic_system_scrape_duration_seconds'', ''sonic_system_collector_success'', ''sonic_system_cache_age_seconds'']"
  by (auto simp: system_metrics_def Let_def subsystemOf_def split: if_splits)

subsection \<open>The platform summary\<close>

text \<open>
  A summary whose labels differ keeps the series of the platform collector apart. A process is told by the key it has,
  a device likewise.
\<close>

definition summaryLabels :: "fields \<Rightarrow> string list" where
  "summaryLabels health = map (\<lambda>f. trimSpace (f @ ''='' @ field health f)) (mapKeys health)"

definition platformGroup :: "string \<Rightarrow> string" where
  "platformGroup name = takeWhile (\<lambda>c. c \<noteq> CHR ''_'') (drop (length ''sonic_platform_'') name)"

lemma distinct_blocks:
  assumes "distinct keys" "\<And>k. k \<in> set keys \<Longrightarrow> hasPrefix k p" "\<And>k. distinct (map series (block k))"
    "\<And>k m. m \<in> set (block k) \<Longrightarrow> hd (m_labels m) = trimPrefix k p"
  shows "distinct (map series (concat (map block keys)))"
proof -
  have "distinct (concat (map (\<lambda>k. map series (block k)) keys))"
  proof (rule distinct_concat_tagged [where tag = "\<lambda>s. p @ hd (snd s)"])
    show "p @ hd (snd s) = k" if "k \<in> set keys" "s \<in> set (map series (block k))" for k s
      using that hasPrefix_trim [OF assms(2) [OF that(1)]] by (auto simp: series_def dest: assms(4))
  qed (use assms(1,3) in auto)
  then show ?thesis by (simp add: map_concat o_def)
qed

lemma process_block:
  "distinct (map series (process_metrics c db k))"
  "m \<in> set (process_metrics c db k) \<Longrightarrow> hd (m_labels m) = trimPrefix k ''PROCESS_STATS|'' \<and> platformGroup (fqName (m_desc m)) = ''process''"
  unfolding process_metrics_def Let_def
  by (simp add: distinct_optMetric, auto simp: in_optMetric) (auto simp: in_optMetric platformGroup_def split: if_splits)

lemma storage_block:
  "distinct (map series (storage_metrics c db k))"
  "m \<in> set (storage_metrics c db k) \<Longrightarrow> hd (m_labels m) = trimPrefix k ''STORAGE_INFO|'' \<and> platformGroup (fqName (m_desc m)) = ''storage''"
  unfolding storage_metrics_def Let_def
  by (simp add: distinct_optMetric, auto simp: in_optMetric) (auto simp: in_optMetric platformGroup_def split: if_splits)

lemma platform_spec_series:
  assumes "distinct (scan 6 ''PROCESS_STATS|*'')" "distinct (scan 6 ''STORAGE_INFO|*'')"
    "distinct (summaryLabels (db 6 ''SYSTEM_HEALTH_INFO''))"
  shows "distinct (map series (fst (platform_spec c db scan)))"
proof -
  have three: "distinct (map series (a @ b @ x))"
    if "seriesTagged platformGroup ''process'' a" "seriesTagged platformGroup ''storage'' b"
      "seriesTagged platformGroup ''system'' x" for a b x
    using that seriesTagged_concat [of platformGroup "[(''process'', a), (''storage'', b), (''system'', x)]"] by simp
  have processes: "seriesTagged platformGroup ''process'' (concat (map (process_metrics c d) (take n (filter (process_valid d) (filter P (sort (scan 6 ''PROCESS_STATS|*'')))))))"
    for d n P
    unfolding seriesTagged_def
  proof
    show "distinct (map series (concat (map (process_metrics c d) (take n (filter (process_valid d) (filter P (sort (scan 6 ''PROCESS_STATS|*''))))))))"
      by (rule distinct_blocks [where p = "''PROCESS_STATS|''"])
         (use assms(1) process_block in \<open>auto simp: process_valid_def named_def intro!: distinct_take dest!: in_set_takeD\<close>)
  qed (auto simp: list_all_iff dest: process_block(2))
  have devices: "seriesTagged platformGroup ''storage'' (concat (map (storage_metrics c d) (take n (filter Q (filter (\<lambda>k. \<not> storage_ignored k) (sort (scan 6 ''STORAGE_INFO|*'')))))))"
    for d n Q
    unfolding seriesTagged_def
  proof
    show "distinct (map series (concat (map (storage_metrics c d) (take n (filter Q (filter (\<lambda>k. \<not> storage_ignored k) (sort (scan 6 ''STORAGE_INFO|*''))))))))"
      by (rule distinct_blocks [where p = "''STORAGE_INFO|''"])
         (use assms(2) storage_block in \<open>auto simp: storage_ignored_def named_def intro!: distinct_take dest!: in_set_takeD\<close>)
  qed (auto simp: list_all_iff dest: storage_block(2))
  have "distinct (map (\<lambda>f. trimSpace (f @ ''='' @ field health f)) (sort (mapKeys health)))" if "distinct (summaryLabels health)" for health
    using that by (simp add: summaryLabels_def distinct_map)
  from this [OF assms(3)] have summary: "seriesTagged platformGroup ''system''
      (map (\<lambda>f. constMetric platformSystemHealthInfo GaugeValue f64_1 [trimSpace (f @ ''='' @ field (db 6 ''SYSTEM_HEALTH_INFO'') f)])
        (sort (mapKeys (db 6 ''SYSTEM_HEALTH_INFO''))))"
    by (simp add: seriesTagged_def list_all_iff platformGroup_def distinct_map inj_on_def)
  show ?thesis
    unfolding platform_spec_def Let_def fst_conv
    by (rule three [OF processes devices seriesTagged_if [OF summary]])
qed

subsection \<open>What the collectors send\<close>

lemma lldp_sent_once:
  assumes "serves lib cfg db scan" "reaches (lldp_refreshMetrics anyLabel lib) (lldp_new env flt) c"
    "distinct (scan 0 ''LLDP_ENTRY_TABLE:*'')"
  shows "\<exists>ms. fst (lldp_Collect anyLabel now c w) = Ok ms \<and> seriesTagged subsystemOf ''lldp'' ms"
proof -
  let ?names = "[''sonic_lldp_neighbors'', ''sonic_lldp_scrape_duration_seconds'', ''sonic_lldp_collector_success'', ''sonic_lldp_cache_age_seconds'', ''sonic_lldp_entries_skipped'']"
  have once: "cachedOnce ''lldp'' ?names (fst x)"
    if fixed: "(lldp_config c, lldp_filter c) = (lldp_config (lldp_new env flt), lldp_filter (lldp_new env flt))"
      and result: "lldp_scrapeMetrics anyLabel lib c w = (Ok x, w')" for c x w w'
  proof -
    have "0 < lldp_maxNeighbors (lldp_config c)"
      using fixed by (intro lldp_maxNeighbors_pos [of c env]) (simp add: lldp_new_def)
    then have spec: "x = lldp_spec c db scan"
      using lldp_scrape_spec [OF assms(1), of c w] result by simp
    show ?thesis unfolding spec by (rule cachedOnceI, rule lldp_spec_series, (rule assms)+, erule lldp_own)
  qed
  have "cachedOnce ''lldp'' ?names (cachedMetrics (cacheState.truncate c))"
    by (rule lldp.reaches_cached [where P = "cachedOnce ''lldp'' ?names", OF assms(2) [unfolded lldp_refreshMetrics_def [abs_def]], THEN conjunct2])
       (simp add: cachedOnce_Nil lldp_new_def cacheState.truncate_def, erule (1) once)
  moreover have "lldp_Collect anyLabel now c = io_return []" if "\<not> lldp_IsEnabled c"
    using that by (simp only: lldp_Collect_def lldp_IsEnabled_def not_False_eq_True if_True)
  ultimately show ?thesis
    by (intro collected_once [of "''lldp''" "lldp_health now c", OF _ _ _ lldp_Collect_yields])
       (simp_all add: lldp_gaugeNames subsystemOf_def cacheState.truncate_def)
qed

lemma vlan_sent_once:
  assumes "serves lib cfg db scan" "reaches (vlan_refreshMetrics anyLabel lib) (vlan_new env flt) c"
    "distinct (scan 4 ''VLAN_MEMBER|*'')"
  shows "\<exists>ms. fst (vlan_Collect anyLabel now c w) = Ok ms \<and> seriesTagged subsystemOf ''vlan'' ms"
proof -
  let ?names = "[''sonic_vlan_scrape_duration_seconds'', ''sonic_vlan_collector_success'', ''sonic_vlan_cache_age_seconds'', ''sonic_vlan_entries_skipped'']"
  have once: "cachedOnce ''vlan'' ?names (fst x)"
    if fixed: "(vlan_config c, vlan_filter c) = (vlan_config (vlan_new env flt), vlan_filter (vlan_new env flt))"
      and result: "vlan_scrapeMetrics anyLabel lib c w = (Ok x, w')" for c x w w'
  proof -
    have spec: "x = vlan_spec c db scan"
      using vlan_scrape_spec [OF assms(1), of c w] result by simp
    show ?thesis unfolding spec by (rule cachedOnceI, rule vlan_spec_series, (rule assms)+, erule vlan_own)
  qed
  have "cachedOnce ''vlan'' ?names (cachedMetrics (cacheState.truncate c))"
    by (rule vlan.reaches_cached [where P = "cachedOnce ''vlan'' ?names", OF assms(2) [unfolded vlan_refreshMetrics_def [abs_def]], THEN conjunct2])
       (simp add: cachedOnce_Nil vlan_new_def cacheState.truncate_def, erule (1) once)
  moreover have "vlan_Collect anyLabel now c = io_return []" if "\<not> vlan_IsEnabled c"
    using that by (simp only: vlan_Collect_def vlan_IsEnabled_def not_False_eq_True if_True)
  ultimately show ?thesis
    by (intro collected_once [of "''vlan''" "vlan_health now c", OF _ _ _ vlan_Collect_yields])
       (simp_all add: vlan_gaugeNames subsystemOf_def cacheState.truncate_def)
qed

lemma lag_sent_once:
  assumes "serves lib cfg db scan" "reaches (lag_refreshMetrics anyLabel lib) (lag_new env flt) c"
    "distinct (scan 0 ''LAG_MEMBER_TABLE:*'')"
  shows "\<exists>ms. fst (lag_Collect anyLabel now c w) = Ok ms \<and> seriesTagged subsystemOf ''lag'' ms"
proof -
  let ?names = "[''sonic_lag_scrape_duration_seconds'', ''sonic_lag_collector_success'', ''sonic_lag_cache_age_seconds'', ''sonic_lag_entries_skipped'']"
  have once: "cachedOnce ''lag'' ?names (fst x)"
    if fixed: "(lag_config c, lag_filter c) = (lag_config (lag_new env flt), lag_filter (lag_new env flt))"
      and result: "lag_scrapeMetrics anyLabel lib c w = (Ok x, w')" for c x w w'
  proof -
    have spec: "x = lag_spec c db scan"
      using lag_scrape_spec [OF assms(1), of c w] result by simp
    show ?thesis unfolding spec by (rule cachedOnceI, rule lag_spec_series, (rule assms)+, erule lag_own)
  qed
  have "cachedOnce ''lag'' ?names (cachedMetrics (cacheState.truncate c))"
    by (rule lag.reaches_cached [where P = "cachedOnce ''lag'' ?names", OF assms(2) [unfolded lag_refreshMetrics_def [abs_def]], THEN conjunct2])
       (simp add: cachedOnce_Nil lag_new_def cacheState.truncate_def, erule (1) once)
  moreover have "lag_Collect anyLabel now c = io_return []" if "\<not> lag_IsEnabled c"
    using that by (simp only: lag_Collect_def lag_IsEnabled_def not_False_eq_True if_True)
  ultimately show ?thesis
    by (intro collected_once [of "''lag''" "lag_health now c", OF _ _ _ lag_Collect_yields])
       (simp_all add: lag_gaugeNames subsystemOf_def cacheState.truncate_def)
qed

lemma switch_sent_once:
  assumes "serves lib cfg db scan" "reaches (switch_refreshMetrics anyLabel lib) (switch_new env flt) c"
    "distinct (scan 0 ''SWITCH_TABLE:*'')"
  shows "\<exists>ms. fst (switch_Collect anyLabel now c w) = Ok ms \<and> seriesTagged subsystemOf ''switch'' ms"
proof -
  let ?names = "[''sonic_switch_entries_skipped'', ''sonic_switch_entries_truncated'', ''sonic_switch_scrape_duration_seconds'', ''sonic_switch_collector_success'', ''sonic_switch_cache_age_seconds'']"
  have once: "cachedOnce ''switch'' ?names (fst x)"
    if fixed: "(switch_config c, switch_filter c) = (switch_config (switch_new env flt), switch_filter (switch_new env flt))"
      and result: "switch_scrapeMetrics anyLabel lib c w = (Ok x, w')" for c x w w'
  proof -
    have spec: "x = switch_spec c db scan"
      using switch_scrape_spec [OF assms(1), of c w] result by simp
    show ?thesis unfolding spec by (rule cachedOnceI, rule switch_spec_series, (rule assms)+, erule switch_own)
  qed
  have "cachedOnce ''switch'' ?names (cachedMetrics (cacheState.truncate c))"
    by (rule switch.reaches_cached [where P = "cachedOnce ''switch'' ?names", OF assms(2) [unfolded switch_refreshMetrics_def [abs_def]], THEN conjunct2])
       (simp add: cachedOnce_Nil switch_new_def cacheState.truncate_def, erule (1) once)
  moreover have "switch_Collect anyLabel now c = io_return []" if "\<not> switch_IsEnabled c"
    using that by (simp only: switch_Collect_def switch_IsEnabled_def not_False_eq_True if_True)
  ultimately show ?thesis
    by (intro collected_once [of "''switch''" "switch_health now c", OF _ _ _ switch_Collect_yields])
       (simp_all add: switch_gaugeNames subsystemOf_def cacheState.truncate_def)
qed

lemma thermal_sent_once:
  assumes "serves lib cfg db scan" "reaches (thermal_refreshMetrics anyLabel lib) (thermal_new env flt) c"
    "distinct (map fst (db 6 ''ASIC_TEMPERATURE_INFO''))"
  shows "\<exists>ms. fst (thermal_Collect anyLabel now c w) = Ok ms \<and> seriesTagged subsystemOf ''thermal'' ms"
proof -
  let ?names = "[''sonic_thermal_entries_skipped'', ''sonic_thermal_scrape_duration_seconds'', ''sonic_thermal_collector_success'', ''sonic_thermal_cache_age_seconds'']"
  have once: "cachedOnce ''thermal'' ?names (fst x)"
    if fixed: "(thermal_config c, thermal_filter c) = (thermal_config (thermal_new env flt), thermal_filter (thermal_new env flt))"
      and result: "thermal_scrapeMetrics anyLabel lib c w = (Ok x, w')" for c x w w'
  proof -
    have spec: "x = thermal_spec c db"
      using thermal_scrape_spec [OF assms(1), of c w] result by simp
    show ?thesis unfolding spec by (rule cachedOnceI, rule thermal_spec_series, (rule assms)+, erule thermal_own)
  qed
  have "cachedOnce ''thermal'' ?names (cachedMetrics (cacheState.truncate c))"
    by (rule thermal.reaches_cached [where P = "cachedOnce ''thermal'' ?names", OF assms(2) [unfolded thermal_refreshMetrics_def [abs_def]], THEN conjunct2])
       (simp add: cachedOnce_Nil thermal_new_def cacheState.truncate_def, erule (1) once)
  moreover have "thermal_Collect anyLabel now c = io_return []" if "\<not> thermal_IsEnabled c"
    using that by (simp only: thermal_Collect_def thermal_IsEnabled_def not_False_eq_True if_True)
  ultimately show ?thesis
    by (intro collected_once [of "''thermal''" "thermal_health now c", OF _ _ _ thermal_Collect_yields])
       (simp_all add: thermal_gaugeNames subsystemOf_def cacheState.truncate_def)
qed

lemma routing_sent_once:
  assumes "serves lib cfg db scan" "reaches (routing_refreshMetrics anyLabel lib) (routing_new env flt) c"
    "\<forall>k\<in>set (scan 0 ''NEIGH_TABLE:*''). plainCounter (neigh_counter (db 0) k)"
    "\<forall>k\<in>set (scan 0 ''ROUTE_TABLE:*''). plainCounter (route_counter (db 0) k)"
  shows "\<exists>ms. fst (routing_Collect anyLabel now c w) = Ok ms \<and> seriesTagged subsystemOf ''routing'' ms"
proof -
  let ?names = "[''sonic_routing_entries_skipped'', ''sonic_routing_entries_truncated'', ''sonic_routing_scrape_duration_seconds'', ''sonic_routing_collector_success'', ''sonic_routing_cache_age_seconds'']"
  have once: "cachedOnce ''routing'' ?names (fst x)"
    if fixed: "(routing_config c, routing_filter c) = (routing_config (routing_new env flt), routing_filter (routing_new env flt))"
      and result: "routing_scrapeMetrics anyLabel lib c w = (Ok x, w')" for c x w w'
  proof -
    have spec: "x = routing_spec c db scan"
      using routing_scrape_spec [OF assms(1), of c w] result by simp
    show ?thesis unfolding spec by (rule cachedOnceI, rule routing_spec_series, (rule assms)+, erule routing_own)
  qed
  have "cachedOnce ''routing'' ?names (cachedMetrics (cacheState.truncate c))"
    by (rule routing.reaches_cached [where P = "cachedOnce ''routing'' ?names", OF assms(2) [unfolded routing_refreshMetrics_def [abs_def]], THEN conjunct2])
       (simp add: cachedOnce_Nil routing_new_def cacheState.truncate_def, erule (1) once)
  moreover have "routing_Collect anyLabel now c = io_return []" if "\<not> routing_IsEnabled c"
    using that by (simp only: routing_Collect_def routing_IsEnabled_def not_False_eq_True if_True)
  ultimately show ?thesis
    by (intro collected_once [of "''routing''" "routing_health now c", OF _ _ _ routing_Collect_yields])
       (simp_all add: routing_gaugeNames subsystemOf_def cacheState.truncate_def)
qed

lemma fdb_sent_once:
  assumes "serves lib cfg db scan" "reaches (fdb_refreshMetrics anyLabel lib) (fdb_new env flt) c"
    "length (scan 1 (asciiFDBEntryPrefix @ ''*'')) < 2 ^ 53"
  shows "\<exists>ms. fst (fdb_Collect anyLabel now c w) = Ok ms \<and> seriesTagged subsystemOf ''fdb'' ms"
proof -
  let ?names = "[''sonic_fdb_entries_skipped'', ''sonic_fdb_entries_truncated'', ''sonic_fdb_scrape_duration_seconds'', ''sonic_fdb_collector_success'', ''sonic_fdb_cache_age_seconds'']"
  have once: "cachedOnce ''fdb'' ?names (fst x)"
    if fixed: "(fdb_config c, fdb_filter c) = (fdb_config (fdb_new env flt), fdb_filter (fdb_new env flt))"
      and result: "fdb_scrapeMetrics anyLabel lib c w = (Ok x, w')" for c x w w'
  proof -
    have spec: "x = fdb_spec c db scan"
      using fdb_scrape_spec [OF assms(1,3), of c w] result by simp
    show ?thesis unfolding spec by (rule cachedOnceI, rule fdb_spec_series, erule fdb_own)
  qed
  have "cachedOnce ''fdb'' ?names (cachedMetrics (cacheState.truncate c))"
    by (rule fdb.reaches_cached [where P = "cachedOnce ''fdb'' ?names", OF assms(2) [unfolded fdb_refreshMetrics_def [abs_def]], THEN conjunct2])
       (simp add: cachedOnce_Nil fdb_new_def cacheState.truncate_def, erule (1) once)
  moreover have "fdb_Collect anyLabel now c = io_return []" if "\<not> fdb_IsEnabled c"
    using that by (simp only: fdb_Collect_def fdb_IsEnabled_def not_False_eq_True if_True)
  ultimately show ?thesis
    by (intro collected_once [of "''fdb''" "fdb_health now c", OF _ _ _ fdb_Collect_yields])
       (simp_all add: fdb_gaugeNames subsystemOf_def cacheState.truncate_def)
qed

lemma transceiver_sent_once:
  assumes "serves lib cfg db scan" "reaches (transceiver_refreshMetrics anyLabel lib) (transceiver_new env flt) c"
    "distinct (scan 6 ''TRANSCEIVER_INFO|*'')" "distinct (scan 6 ''TRANSCEIVER_STATUS|*'')"
    "\<forall>k. distinct (map fst (db 6 k))"
  shows "\<exists>ms. fst (transceiver_Collect anyLabel now c w) = Ok ms \<and> seriesTagged subsystemOf ''transceiver'' ms"
proof -
  let ?names = "[''sonic_transceiver_entries_skipped'', ''sonic_transceiver_entries_truncated'', ''sonic_transceiver_scrape_duration_seconds'', ''sonic_transceiver_collector_success'', ''sonic_transceiver_cache_age_seconds'']"
  have once: "cachedOnce ''transceiver'' ?names (fst x)"
    if fixed: "(transceiver_config c, transceiver_filter c) = (transceiver_config (transceiver_new env flt), transceiver_filter (transceiver_new env flt))"
      and result: "transceiver_scrapeMetrics anyLabel lib c w = (Ok x, w')" for c x w w'
  proof -
    have spec: "x = transceiver_spec c db scan"
      using transceiver_scrape_spec [OF assms(1), of c w] result by simp
    show ?thesis unfolding spec by (rule cachedOnceI, rule transceiver_spec_series, (rule assms)+, erule transceiver_own)
  qed
  have "cachedOnce ''transceiver'' ?names (cachedMetrics (cacheState.truncate c))"
    by (rule transceiver.reaches_cached [where P = "cachedOnce ''transceiver'' ?names", OF assms(2) [unfolded transceiver_refreshMetrics_def [abs_def]], THEN conjunct2])
       (simp add: cachedOnce_Nil transceiver_new_def cacheState.truncate_def, erule (1) once)
  moreover have "transceiver_Collect anyLabel now c = io_return []" if "\<not> transceiver_IsEnabled c"
    using that by (simp only: transceiver_Collect_def transceiver_IsEnabled_def not_False_eq_True if_True)
  ultimately show ?thesis
    by (intro collected_once [of "''transceiver''" "transceiver_health now c", OF _ _ _ transceiver_Collect_yields])
       (simp_all add: transceiver_gaugeNames subsystemOf_def cacheState.truncate_def)
qed

lemma platform_sent_once:
  assumes "serves lib cfg db scan" "reaches (platform_refreshMetrics anyLabel lib) (platform_new env flt) c"
    "distinct (scan 6 ''PROCESS_STATS|*'')" "distinct (scan 6 ''STORAGE_INFO|*'')"
    "distinct (summaryLabels (db 6 ''SYSTEM_HEALTH_INFO''))"
  shows "\<exists>ms. fst (platform_Collect anyLabel now c w) = Ok ms \<and> seriesTagged subsystemOf ''platform'' ms"
proof -
  let ?names = "[''sonic_platform_entries_skipped'', ''sonic_platform_entries_truncated'', ''sonic_platform_scrape_duration_seconds'', ''sonic_platform_collector_success'', ''sonic_platform_cache_age_seconds'']"
  have once: "cachedOnce ''platform'' ?names (fst x)"
    if fixed: "(platform_config c, platform_filter c) = (platform_config (platform_new env flt), platform_filter (platform_new env flt))"
      and result: "platform_scrapeMetrics anyLabel lib c w = (Ok x, w')" for c x w w'
  proof -
    have spec: "x = platform_spec c db scan"
      using platform_scrape_spec [OF assms(1), of c w] result by simp
    show ?thesis unfolding spec by (rule cachedOnceI, rule platform_spec_series, (rule assms)+, erule platform_own)
  qed
  have "cachedOnce ''platform'' ?names (cachedMetrics (cacheState.truncate c))"
    by (rule platform.reaches_cached [where P = "cachedOnce ''platform'' ?names", OF assms(2) [unfolded platform_refreshMetrics_def [abs_def]], THEN conjunct2])
       (simp add: cachedOnce_Nil platform_new_def cacheState.truncate_def, erule (1) once)
  moreover have "platform_Collect anyLabel now c = io_return []" if "\<not> platform_IsEnabled c"
    using that by (simp only: platform_Collect_def platform_IsEnabled_def not_False_eq_True if_True)
  ultimately show ?thesis
    by (intro collected_once [of "''platform''" "platform_gauges now c", OF _ _ _ platform_Collect_yields])
       (simp_all add: platform_gaugeNames subsystemOf_def cacheState.truncate_def)
qed

lemma docker_sent_once:
  assumes "serves lib cfg db scan" "reaches (docker_refreshMetrics anyLabel clock lib) (docker_new env flt) c"
    "distinct (map (docker_name (db 6)) (filter (docker_valid (db 6)) (scan 6 ''DOCKER_STATS|*'')))"
  shows "\<exists>ms. fst (docker_Collect anyLabel sourceNow now c w) = Ok ms \<and> seriesTagged subsystemOf ''docker'' ms"
proof -
  let ?names = "[''sonic_docker_containers'', ''sonic_docker_source_last_update_timestamp_seconds'', ''sonic_docker_source_age_seconds'', ''sonic_docker_source_stale'', ''sonic_docker_entries_skipped'', ''sonic_docker_scrape_duration_seconds'', ''sonic_docker_collector_success'', ''sonic_docker_cache_age_seconds'']"
  have once: "cachedOnce ''docker'' ?names (fst x)"
    if fixed: "(docker_config c, docker_filter c) = (docker_config (docker_new env flt), docker_filter (docker_new env flt))"
      and result: "docker_scrapeMetrics anyLabel clock lib c w = (Ok x, w')" for c x w w'
  proof -
    obtain t where spec: "x = docker_spec c db scan t"
      using docker_scrape_spec [OF assms(1), of clock c w] result by auto
    show ?thesis unfolding spec by (rule cachedOnceI, rule docker_spec_series, (rule assms)+, erule docker_own)
  qed
  have "cachedOnce ''docker'' ?names (cachedMetrics (cacheState.truncate c))"
    by (rule docker.reaches_cached [where P = "cachedOnce ''docker'' ?names", OF assms(2) [unfolded docker_refreshMetrics_def [abs_def]], THEN conjunct2])
       (simp add: cachedOnce_Nil docker_new_def cacheState.truncate_def, erule (1) once)
  moreover have "docker_Collect anyLabel sourceNow now c = io_return []" if "\<not> docker_IsEnabled c"
    using that by (simp only: docker_Collect_def docker_IsEnabled_def not_False_eq_True if_True)
  ultimately show ?thesis
    by (intro collected_once [of "''docker''" "docker_gauges sourceNow now c", OF _ _ _ docker_Collect_yields])
       (simp_all add: docker_gaugeNames subsystemOf_def cacheState.truncate_def)
qed

lemma system_sent_once:
  assumes "reaches (system_refreshMetrics anyLabel host lib) (system_new env flt) c"
  shows "\<exists>ms. fst (system_Collect anyLabel now c w) = Ok ms \<and> seriesTagged subsystemOf ''system'' ms"
proof -
  let ?names = "[''sonic_system_scrape_duration_seconds'', ''sonic_system_collector_success'', ''sonic_system_cache_age_seconds'']"
  have once: "cachedOnce ''system'' ?names (x)"
    if fixed: "(system_config c, system_filter c) = (system_config (system_new env flt), system_filter (system_new env flt))"
      and result: "system_scrapeMetrics anyLabel host lib c w = (Ok x, w')" for c x w w'
  proof -
    obtain i s u where spec: "x = system_metrics c i s u"
      using system_scrape_complete [of host lib c w] result by auto
    show ?thesis unfolding spec by (rule cachedOnceI, rule system_metrics_series, erule system_own)
  qed
  have "cachedOnce ''system'' ?names (cachedMetrics (cacheState.truncate c))"
    by (rule system.reaches_cached [where P = "cachedOnce ''system'' ?names", OF assms(1) [unfolded system_refreshMetrics_def [abs_def]], THEN conjunct2])
       (simp add: cachedOnce_Nil system_new_def cacheState.truncate_def, erule (1) once)
  moreover have "system_Collect anyLabel now c = io_return []" if "\<not> system_IsEnabled c"
    using that by (simp only: system_Collect_def system_IsEnabled_def not_False_eq_True if_True)
  ultimately show ?thesis
    by (intro collected_once [of "''system''" "system_gauges now c", OF _ _ _ system_Collect_yields])
       (simp_all add: system_gaugeNames subsystemOf_def cacheState.truncate_def)
qed

end
