(* ===== verification/Spec2Isabelle.thy ===== *)
theory Spec2Isabelle
  imports Startup NoDuplicates
begin

text \<open>
  sonic-exporter is a Prometheus exporter for SONiC network switches: it reads the switch's Redis
  databases and exports what it finds as metrics. This library models its collectors and the code
  they rest on, and proves what they send.

  \<^bold>\<open>The program.\<close> \<^verbatim>\<open>cmd/sonic-exporter/main.go\<close> builds one metric filter and one collector per
  subsystem of the switch and registers them with the Prometheus client library, which calls
  \<^verbatim>\<open>Describe\<close> and, at every scrape, \<^verbatim>\<open>Collect\<close>. All collectors read Redis through
  \<^verbatim>\<open>pkg/redis/client.go\<close>. There are two kinds (\<^verbatim>\<open>docs/architecture.md\<close>):
  \<^item> \<^emph>\<open>background\<close> collectors (LLDP, VLAN, LAG, switch, thermal, routing, FDB, transceiver, platform health,
    system, Docker) refresh a cache
    from a ticker goroutine; \<^verbatim>\<open>Collect\<close> only copies the cache, under a read-write lock, and adds
    gauges on the health of the refresh. A failed refresh keeps the metrics of the last success;
  \<^item> \<^emph>\<open>scrape-time\<close> collectors (queue, CRM, interface, hardware) read Redis inside \<^verbatim>\<open>Collect\<close>, under
    one mutex, unless the last successful scrape is younger than 15 seconds.

  The system collector also reads files and runs commands of the machine. Routing state of the FRR suite comes from
  a third-party exporter that \<^verbatim>\<open>frr_collector.go\<close> wraps. The page is served on listeners bound to a VRF
  (\<^verbatim>\<open>listener.go\<close>).

  \<^bold>\<open>The theories.\<close>
  \<^item> \<open>Prelude\<close>: strings and maps of Go as lists, rule collections, list lemmas. \<open>GoStrings\<close>,
    \<open>GoConv\<close>, \<open>GoFloat\<close>, \<open>GoTime\<close>, \<open>GoLayout\<close>, \<open>GoDuration\<close>,
    \<open>GoMatch\<close>: what the program uses of \<^verbatim>\<open>strings\<close>, \<^verbatim>\<open>strconv\<close>,
    \<^verbatim>\<open>time\<close> and \<^verbatim>\<open>path\<close> (binary64 values with correct rounding, durations with their overflow
    checks, \<^verbatim>\<open>time.Parse\<close> by the chunks of a layout, the text of a duration read back
    to the nanosecond, \<^verbatim>\<open>path.Match\<close> statement by statement and its agreement with a declarative glob).
  \<^item> \<open>Effects\<close>: effectful code as state-passing computations whose outcome is a return, an error, a
    panic or a hang; the judgements \<open>post\<close>, \<open>keeps\<close> and \<open>yields\<close> and their rules.
  \<^item> \<open>RedisClient\<close>: \<^verbatim>\<open>pkg/redis/client.go\<close> with its map of connections and the SCAN loop; the
    specification of a scan is the relation \<open>scanRun\<close> of the pages a cursor run fetches.
  \<^item> \<open>Helpers\<close>: \<^verbatim>\<open>helpers.go\<close>, \<^verbatim>\<open>redis_value_helpers.go\<close> and the environment readers;
    \<open>MetricFilter\<close>: \<^verbatim>\<open>metric_filter.go\<close>; \<open>Metrics\<close>: descriptions, constant metrics and what a
    well-formed metric is (\<open>goodMetric\<close>).
  \<^item> \<open>Snapshot\<close>: the cache of a background collector, its refresh, its ticker loop and the lock
    protocol as a step relation \<open>rwStep\<close> whose interleavings are single assignments and single
    field copies. The locale \<open>refresh_contract\<close> says what a refresh does to the cache, and
    \<open>metric_source\<close> what its scrape and \<^verbatim>\<open>Collect\<close> promise; every background collector interprets both.
  \<^item> \<open>GoJson\<close>: the grammar and the string decoding of \<^verbatim>\<open>encoding/json\<close>: a document as a value (the platform
    summary) and \<^verbatim>\<open>json.Unmarshal\<close> into a struct of strings (the FDB keys).
  \<^item> \<open>Counters\<close>, \<open>MemberGroups\<close>: the counting maps of the routing and FDB collectors, the loops with a limit, and the
    grouping and limiting the VLAN and LAG collectors share.
  \<^item> \<open>Lldp\<close>, \<open>Vlan\<close>, \<open>Lag\<close>, \<open>Switch\<close>, \<open>Thermal\<close>, \<open>Routing\<close>, \<open>Fdb\<close>, \<open>Transceiver\<close>,
    \<open>PlatformHealth\<close>, \<open>System\<close>, \<open>Docker\<close>: one file of
    \<^verbatim>\<open>internal/collector\<close> each: its configuration and collector as records with the source's fields,
    its descriptions, the constructor, the loop bodies and \<^verbatim>\<open>scrapeMetrics\<close>, the assignments of
    \<^verbatim>\<open>refreshMetrics\<close> and the copies of \<^verbatim>\<open>Collect\<close> in their order. A \<open>_spec\<close> function states
    declaratively what a refresh returns, and a refinement theorem that it does.
  \<^item> \<open>ScrapeCache\<close>: the cache of a scrape-time collector; a computation runs on the Redis world together
    with the collector, so what a failed scrape leaves in the cache is part of its meaning. The locale
    \<open>scrape_cache\<close> is its contract; the judgement \<open>adds\<close> says which metrics a computation appends, errors included.
    A specification of a scrape is a list of pieces, metrics or a value that does not parse: \<open>sentBefore\<close> is what
    comes before the first such value, \<open>allParse\<close> that there is none, and the judgement \<open>pieces\<close>, with a rule for every
    construct, that a computation appends the one and succeeds exactly in the other case.
    \<open>Queue\<close>, \<open>Crm\<close>, \<open>Hw\<close>, \<open>Interface\<close>: the file of \<^verbatim>\<open>internal/collector\<close> of that name each, the
    regular expressions of the last two as functions on strings.
  \<^item> \<open>Frr\<close>: \<^verbatim>\<open>frr_collector.go\<close>, the settings and the flags they become; \<open>Listener\<close>:
    \<^verbatim>\<open>listener.go\<close> and its two platform files; \<open>Exporter\<close>: of \<^verbatim>\<open>main.go\<close> the registration, the
    version defaults, the node exporter's arguments, the two parses of the global command line, and what the
    constructors return, a state reached by refreshes.
  \<^item> \<open>NoPanic\<close>: the judgement \<open>calm\<close>, with a rule for every construct, and that all collectors are.
    \<open>Startup\<close>: \<^verbatim>\<open>func main\<close> in its order, from the command line to the server.
    \<open>NoDuplicates\<close>: what a background collector's \<^verbatim>\<open>Collect\<close> sends has no time series twice.
  \<^item> this theory: properties that span collectors.

  \<^bold>\<open>What is shown.\<close> Refinement: on a server that holds still during a refresh, and where the client library
  takes the label values (\<open>anyLabel\<close>), each collector returns exactly the metrics, skip counts and truncation flags its
  specification states, the queue, CRM, hardware and interface scrapes also when a value does not parse. Safety, for a server
  that answers anything: only announced, enabled, well-formed metrics are sent; where the client
  library takes the label values and SCAN comes to its end, no collector panics or hangs; connections are closed on every way out and belong to the database of
  their name. The start of the program: what \<^verbatim>\<open>main\<close> registers after what the registry has already, that it then ends as
  its server does for a metrics path without wildcards and escapes, and that it panics for the root and for a path without a
  slash. One page, under the conditions of C12: what the background collectors send together holds no time series twice.
  Concurrency: a \<^verbatim>\<open>Collect\<close> reads the
  state after whole refreshes. Bounds: limits hold, and nothing is dropped uncounted. Equivalence: the
  filter's lookup and glob loop against the declarative glob. Liveness and termination: scans end, a failed
  scrape is retried at once and recovers. Errors: where the code repeats a series; a refresh of the system collector
  never fails, and panics only at a label the client library does not take. Round trips: time stamps, counters, FDB keys and FRR settings arrive as they were written.

  \<^bold>\<open>Parameters.\<close> The go-redis library with the server behind it is the record \<open>redisLib\<close>, whose
  functions may answer differently, or fail, at every call; the label values the Prometheus library takes
  are \<open>labelOk\<close>; environment, clock readings and map iteration order are arguments (an association list
  is a Go map in the order one \<^verbatim>\<open>range\<close> visits it, so a theorem about every list covers every order).
  The machine of the system collector is the record \<open>host\<close>, the clock of the Docker collector a function of the
  server's state, the flag library with the FRR exporter \<open>frrLib\<close>, sockets and the web toolkit \<open>netLib\<close>; \<open>mainLib\<close> is
  the rest of what \<^verbatim>\<open>main\<close> calls, and \<open>registryLaw\<close> and \<open>muxLaw\<close> say what the registry and the
  multiplexer promise; \<open>apart\<close> says that the names of the third parties are new to the registry, which may hold others
  (as the default one holds those of the Go runtime and the process), and differ from the exporter's.
  \<open>serves\<close> and \<open>servesKeys\<close> describe a server that holds still, \<open>scanDeadline\<close> the context's deadline, \<open>answersPattern\<close> one
  whose \<^verbatim>\<open>KEYS\<close> answers matching keys, \<open>queuesNumbered\<close> one whose queue names hold a number,
  \<open>scansFinish\<close> one whose SCAN cursors come to their end;
  \<open>staticLib\<close> and \<open>timedLib\<close> are concrete libraries that satisfy them.

  \<^bold>\<open>Bounds and fuel.\<close> The JSON parser takes fuel, twice the length of the text and two, and a depth, the
  10000 of the package; \<open>json_fuel\<close> shows that more fuel changes nothing. The SCAN loop is a \<^theory_text>\<open>partial_function\<close> whose
  \<open>None\<close> is a run that never meets cursor 0 or an error (\<open>Hang\<close>); under \<open>scanDeadline\<close> it returns.
  All other loops run over lists or decreasing strings. Integers from the environment are checked against
  int64; the SCAN cursor is a 64-bit word; floats are binary64.

  \<^bold>\<open>Not modelled.\<close> Logging, and the texts the \<^verbatim>\<open>%q\<close> of errors would quote. Of \<^verbatim>\<open>main.go\<close> what is a library's: the
  parse of its own flags, the node exporter and the version collector are in \<open>mainLib\<close>, the metrics handler is
  not there, since only its registration is the program's.
  Time passes only at the points where the code reads a clock or the server; the contexts' deadlines appear as errors
  of the libraries. Case mapping is the ASCII one.
\<close>

subsection \<open>Every collector sends only metrics it announced\<close>

lemma lldp_sent_good:
  assumes "reaches (lldp_refreshMetrics labelOk lib) (lldp_new env flt) c" "lldp_Collect labelOk now c w = (Ok ms, w')"
  shows "list_all (goodMetric labelOk flt lldp_Describe) ms"
proof -
  have "reaches (\<lambda>clk c. refreshWith (lldp_scrapeMetrics labelOk lib c) (lldp_assignments clk) c) (lldp_new env flt) c"
    using assms(1) by (simp add: lldp_refreshMetrics_def [abs_def])
  from lldp_source.sent_good [OF this _ assms(2)] show ?thesis
    by (simp add: lldp_new_def cacheState.truncate_def)
qed

lemma vlan_sent_good:
  assumes "reaches (vlan_refreshMetrics labelOk lib) (vlan_new env flt) c" "vlan_Collect labelOk now c w = (Ok ms, w')"
  shows "list_all (goodMetric labelOk flt vlan_Describe) ms"
proof -
  have "reaches (\<lambda>clk c. refreshWith (vlan_scrapeMetrics labelOk lib c) (vlan_assignments clk) c) (vlan_new env flt) c"
    using assms(1) by (simp add: vlan_refreshMetrics_def [abs_def])
  from vlan_source.sent_good [OF this _ assms(2)] show ?thesis
    by (simp add: vlan_new_def cacheState.truncate_def)
qed

lemma lag_sent_good:
  assumes "reaches (lag_refreshMetrics labelOk lib) (lag_new env flt) c" "lag_Collect labelOk now c w = (Ok ms, w')"
  shows "list_all (goodMetric labelOk flt lag_Describe) ms"
proof -
  have "reaches (\<lambda>clk c. refreshWith (lag_scrapeMetrics labelOk lib c) (lag_assignments clk) c) (lag_new env flt) c"
    using assms(1) by (simp add: lag_refreshMetrics_def [abs_def])
  from lag_source.sent_good [OF this _ assms(2)] show ?thesis
    by (simp add: lag_new_def cacheState.truncate_def)
qed

lemma switch_sent_good:
  assumes "reaches (switch_refreshMetrics labelOk lib) (switch_new env flt) c" "switch_Collect labelOk now c w = (Ok ms, w')"
  shows "list_all (goodMetric labelOk flt switch_Describe) ms"
proof -
  have "reaches (\<lambda>clk c. refreshWith (switch_scrapeMetrics labelOk lib c) (switch_assignments clk) c) (switch_new env flt) c"
    using assms(1) by (simp add: switch_refreshMetrics_def [abs_def])
  from switch_source.sent_good [OF this _ assms(2)] show ?thesis
    by (simp add: switch_new_def cacheState.truncate_def)
qed

lemma thermal_sent_good:
  assumes "reaches (thermal_refreshMetrics labelOk lib) (thermal_new env flt) c" "thermal_Collect labelOk now c w = (Ok ms, w')"
  shows "list_all (goodMetric labelOk flt thermal_Describe) ms"
proof -
  have "reaches (\<lambda>clk c. refreshWith (thermal_scrapeMetrics labelOk lib c) (thermal_assignments clk) c) (thermal_new env flt) c"
    using assms(1) by (simp add: thermal_refreshMetrics_def [abs_def])
  from thermal_source.sent_good [OF this _ assms(2)] show ?thesis
    by (simp add: thermal_new_def cacheState.truncate_def)
qed

lemma routing_sent_good:
  assumes "reaches (routing_refreshMetrics labelOk lib) (routing_new env flt) c" "routing_Collect labelOk now c w = (Ok ms, w')"
  shows "list_all (goodMetric labelOk flt routing_Describe) ms"
proof -
  have "reaches (\<lambda>clk c. refreshWith (routing_scrapeMetrics labelOk lib c) (routing_assignments clk) c) (routing_new env flt) c"
    using assms(1) by (simp add: routing_refreshMetrics_def [abs_def])
  from routing_source.sent_good [OF this _ assms(2)] show ?thesis
    by (simp add: routing_new_def cacheState.truncate_def)
qed

lemma fdb_sent_good:
  assumes "reaches (fdb_refreshMetrics labelOk lib) (fdb_new env flt) c" "fdb_Collect labelOk now c w = (Ok ms, w')"
  shows "list_all (goodMetric labelOk flt fdb_Describe) ms"
proof -
  have "reaches (\<lambda>clk c. refreshWith (fdb_scrapeMetrics labelOk lib c) (fdb_assignments clk) c) (fdb_new env flt) c"
    using assms(1) by (simp add: fdb_refreshMetrics_def [abs_def])
  from fdb_source.sent_good [OF this _ assms(2)] show ?thesis
    by (simp add: fdb_new_def cacheState.truncate_def)
qed

lemma transceiver_sent_good:
  assumes "reaches (transceiver_refreshMetrics labelOk lib) (transceiver_new env flt) c" "transceiver_Collect labelOk now c w = (Ok ms, w')"
  shows "list_all (goodMetric labelOk flt transceiver_Describe) ms"
proof -
  have "reaches (\<lambda>clk c. refreshWith (transceiver_scrapeMetrics labelOk lib c) (transceiver_assignments clk) c) (transceiver_new env flt) c"
    using assms(1) by (simp add: transceiver_refreshMetrics_def [abs_def])
  from transceiver_source.sent_good [OF this _ assms(2)] show ?thesis
    by (simp add: transceiver_new_def cacheState.truncate_def)
qed

lemma platform_sent_good:
  assumes "reaches (platform_refreshMetrics labelOk lib) (platform_new env flt) c" "platform_Collect labelOk now c w = (Ok ms, w')"
  shows "list_all (goodMetric labelOk flt platform_Describe) ms"
proof -
  have "reaches (\<lambda>clk c. refreshWith (platform_scrapeMetrics labelOk lib c) (platform_assignments clk) c) (platform_new env flt) c"
    using assms(1) by (simp add: platform_refreshMetrics_def [abs_def])
  from platform_source.sent_good [OF this _ assms(2)] show ?thesis
    by (simp add: platform_new_def cacheState.truncate_def)
qed

lemma docker_sent_good:
  assumes "reaches (docker_refreshMetrics labelOk clock lib) (docker_new env flt) c" "docker_Collect labelOk sourceNow now c w = (Ok ms, w')"
  shows "list_all (goodMetric labelOk flt docker_Describe) ms"
proof -
  have "reaches (\<lambda>clk c. refreshWith (docker_scrapeMetrics labelOk clock lib c) (docker_assignments clk) c) (docker_new env flt) c"
    using assms(1) by (simp add: docker_refreshMetrics_def [abs_def])
  from docker_source.sent_good [OF this _ assms(2)] show ?thesis
    by (simp add: docker_new_def cacheState.truncate_def)
qed

lemma system_sent_good:
  assumes "reaches (system_refreshMetrics labelOk host lib) (system_new env flt) c" "system_Collect labelOk now c w = (Ok ms, w')"
  shows "list_all (goodMetric labelOk flt system_Describe) ms"
proof -
  have "reaches (\<lambda>clk c. refreshWith (system_scrapeMetrics labelOk host lib c) (system_assignments clk) c) (system_new env flt) c"
    using assms(1) by (simp add: system_refreshMetrics_def [abs_def])
  from system_source.sent_good [OF this _ assms(2)] show ?thesis
    by (simp add: system_new_def cacheState.truncate_def)
qed

lemma queue_sent_good:
  assumes "collected (queue_Collect labelOk lib) (NewQueueCollector flt) c" "queue_Collect labelOk lib clk (w, c) = (Ok ms, wc)"
  shows "list_all (goodMetric labelOk flt queue_Describe) ms"
  using queue.sent_good [OF assms(1), of clk w ms "fst wc" "snd wc"] assms(2)
  by (simp add: NewQueueCollector_def scrape_new_def)

lemma crm_sent_good:
  assumes "collected (crm_Collect labelOk lib) (NewCrmCollector flt) c" "crm_Collect labelOk lib clk (w, c) = (Ok ms, wc)"
  shows "list_all (goodMetric labelOk flt crm_Describe) ms"
  using crm.sent_good [OF assms(1), of clk w ms "fst wc" "snd wc"] assms(2)
  by (simp add: NewCrmCollector_def scrape_new_def)

lemma hw_sent_good:
  assumes "collected (hw_Collect labelOk lib) (NewHwCollector flt) c" "hw_Collect labelOk lib clk (w, c) = (Ok ms, wc)"
  shows "list_all (goodMetric labelOk flt hw_Describe) ms"
  using hw.sent_good [OF assms(1), of clk w ms "fst wc" "snd wc"] assms(2)
  by (simp add: NewHwCollector_def scrape_new_def)

lemma interface_sent_good:
  assumes "collected (interface_Collect labelOk lib rangeOrder) (NewInterfaceCollector flt) c" "interface_Collect labelOk lib rangeOrder clk (w, c) = (Ok ms, wc)"
  shows "list_all (goodMetric labelOk flt interface_Describe) ms"
  using interface.sent_good [OF assms(1), of clk w ms "fst wc" "snd wc"] assms(2)
  by (simp add: NewInterfaceCollector_def scrape_new_def)

text \<open>
  C2. Whatever Redis answered, failed to answer or held in any refresh or scrape, a collector that still
  runs, with the partial results of failed scrapes in its cache if it scrapes when asked, sends only metrics it announced in \<^verbatim>\<open>Describe\<close>, none that \<^verbatim>\<open>SONIC_DISABLED_METRICS\<close>
  disables, each with one accepted value for every label.
\<close>

theorem collectors_send_only_good_metrics:
  "(reaches (lldp_refreshMetrics labelOk lib) (lldp_new env flt) c1 \<and> lldp_Collect labelOk now c1 w = (Ok ms, w') \<longrightarrow>
       list_all (goodMetric labelOk flt lldp_Describe) ms) \<and>
    (reaches (vlan_refreshMetrics labelOk lib) (vlan_new env flt) c2 \<and> vlan_Collect labelOk now c2 w = (Ok ms, w') \<longrightarrow>
       list_all (goodMetric labelOk flt vlan_Describe) ms) \<and>
    (reaches (lag_refreshMetrics labelOk lib) (lag_new env flt) c3 \<and> lag_Collect labelOk now c3 w = (Ok ms, w') \<longrightarrow>
       list_all (goodMetric labelOk flt lag_Describe) ms) \<and>
    (reaches (switch_refreshMetrics labelOk lib) (switch_new env flt) c4 \<and> switch_Collect labelOk now c4 w = (Ok ms, w') \<longrightarrow>
       list_all (goodMetric labelOk flt switch_Describe) ms) \<and>
    (reaches (thermal_refreshMetrics labelOk lib) (thermal_new env flt) c5 \<and> thermal_Collect labelOk now c5 w = (Ok ms, w') \<longrightarrow>
       list_all (goodMetric labelOk flt thermal_Describe) ms) \<and>
    (reaches (routing_refreshMetrics labelOk lib) (routing_new env flt) c6 \<and> routing_Collect labelOk now c6 w = (Ok ms, w') \<longrightarrow>
       list_all (goodMetric labelOk flt routing_Describe) ms) \<and>
    (reaches (fdb_refreshMetrics labelOk lib) (fdb_new env flt) c7 \<and> fdb_Collect labelOk now c7 w = (Ok ms, w') \<longrightarrow>
       list_all (goodMetric labelOk flt fdb_Describe) ms) \<and>
    (reaches (transceiver_refreshMetrics labelOk lib) (transceiver_new env flt) c8 \<and> transceiver_Collect labelOk now c8 w = (Ok ms, w') \<longrightarrow>
       list_all (goodMetric labelOk flt transceiver_Describe) ms) \<and>
    (reaches (platform_refreshMetrics labelOk lib) (platform_new env flt) c9 \<and> platform_Collect labelOk now c9 w = (Ok ms, w') \<longrightarrow>
       list_all (goodMetric labelOk flt platform_Describe) ms) \<and>
    (reaches (docker_refreshMetrics labelOk clock lib) (docker_new env flt) c10 \<and> docker_Collect labelOk sourceNow now c10 w = (Ok ms, w') \<longrightarrow>
       list_all (goodMetric labelOk flt docker_Describe) ms) \<and>
    (reaches (system_refreshMetrics labelOk host lib) (system_new env flt) c11 \<and> system_Collect labelOk now c11 w = (Ok ms, w') \<longrightarrow>
       list_all (goodMetric labelOk flt system_Describe) ms) \<and>
    (collected (queue_Collect labelOk lib) (NewQueueCollector flt) c12 \<and>
      queue_Collect labelOk lib clk (w, c12) = (Ok ms, wc12) \<longrightarrow>
       list_all (goodMetric labelOk flt queue_Describe) ms) \<and>
    (collected (crm_Collect labelOk lib) (NewCrmCollector flt) c13 \<and>
      crm_Collect labelOk lib clk (w, c13) = (Ok ms, wc13) \<longrightarrow>
       list_all (goodMetric labelOk flt crm_Describe) ms) \<and>
    (collected (hw_Collect labelOk lib) (NewHwCollector flt) c14 \<and>
      hw_Collect labelOk lib clk (w, c14) = (Ok ms, wc14) \<longrightarrow>
       list_all (goodMetric labelOk flt hw_Describe) ms) \<and>
    (collected (interface_Collect labelOk lib rangeOrder) (NewInterfaceCollector flt) c15 \<and>
      interface_Collect labelOk lib rangeOrder clk (w, c15) = (Ok ms, wc15) \<longrightarrow>
       list_all (goodMetric labelOk flt interface_Describe) ms)"
  by (intro conjI impI; elim conjE;
      (rule lldp_sent_good | rule vlan_sent_good | rule lag_sent_good | rule switch_sent_good |
       rule thermal_sent_good | rule routing_sent_good | rule fdb_sent_good |
       rule transceiver_sent_good |
       rule platform_sent_good |
       rule docker_sent_good |
       rule system_sent_good |
       rule queue_sent_good | rule crm_sent_good | rule hw_sent_good | rule interface_sent_good); assumption)

theorem collectors_send_only_good_metrics_witness:
  "\<exists>c ms w'. reaches (thermal_refreshMetrics anyLabel (staticLib localRedis thermal_demoDb (\<lambda>_ _. [])))
       (thermal_new (\<lambda>_. None) (NewMetricFilter (\<lambda>_. None))) c \<and>
     thermal_Collect anyLabel 5 c \<lparr>server = (), databases = []\<rparr> = (Ok ms, w') \<and>
     list_all (goodMetric anyLabel (NewMetricFilter (\<lambda>_. None)) thermal_Describe) ms \<and> ms \<noteq> []"
proof -
  let ?flt = "NewMetricFilter (\<lambda>_. None)" and ?w = "\<lparr>server = (), databases = []\<rparr>"
  let ?c = "thermal_new (\<lambda>_. None) ?flt"
  let ?lib = "staticLib localRedis thermal_demoDb (\<lambda>_ _. [])"
  have start: "reaches (thermal_refreshMetrics anyLabel ?lib) ?c ?c"
    by (rule reaches_start)
  have "thermal_IsEnabled ?c"
    by (simp add: thermal_IsEnabled_def thermal_new_def loadThermalCollectorConfig_def parseBoolEnv_def setEnv_def)
  then have "\<exists>w'. thermal_Collect anyLabel 5 ?c ?w =
      (Ok (cachedMetrics ?c @ gauges (thermal_filter ?c) (thermal_health 5 ?c)), w') \<and> True"
    by (rule thermal_Collect_yields [of _ "\<lambda>_. True", unfolded yields_def, THEN spec, THEN mp, OF _ TrueI])
  then obtain w' where sent: "thermal_Collect anyLabel 5 ?c ?w =
      (Ok (cachedMetrics ?c @ gauges (thermal_filter ?c) (thermal_health 5 ?c)), w')"
    by (elim exE conjE) (rule that)
  have some: "gauges (thermal_filter ?c) (thermal_health 5 ?c) \<noteq> []"
    by (simp add: gauges_def thermal_health_def thermal_new_def Enabled_empty)
  note good = collectors_send_only_good_metrics [THEN conjunct2, THEN conjunct2, THEN conjunct2, THEN conjunct2,
      THEN conjunct1, THEN mp, OF conjI [OF start sent]]
  show ?thesis
    by (intro exI conjI, rule start, rule sent, rule good) (use some in simp)
qed

subsection \<open>Tickers and descriptions\<close>

text \<open>The ticker's interval is always positive, so the loop is its refreshes, one a tick.\<close>

lemma refresh_loops_start:
  "lldp_refreshLoop labelOk lib ticks (lldp_new env flt) =
      overTicks (lldp_refreshMetrics labelOk lib) ticks (lldp_new env flt) \<and>
    vlan_refreshLoop labelOk lib ticks (vlan_new env flt) =
      overTicks (vlan_refreshMetrics labelOk lib) ticks (vlan_new env flt) \<and>
    lag_refreshLoop labelOk lib ticks (lag_new env flt) =
      overTicks (lag_refreshMetrics labelOk lib) ticks (lag_new env flt) \<and>
    switch_refreshLoop labelOk lib ticks (switch_new env flt) =
      overTicks (switch_refreshMetrics labelOk lib) ticks (switch_new env flt) \<and>
    thermal_refreshLoop labelOk lib ticks (thermal_new env flt) =
      overTicks (thermal_refreshMetrics labelOk lib) ticks (thermal_new env flt) \<and>
    routing_refreshLoop labelOk lib ticks (routing_new env flt) =
      overTicks (routing_refreshMetrics labelOk lib) ticks (routing_new env flt) \<and>
    fdb_refreshLoop labelOk lib ticks (fdb_new env flt) =
      overTicks (fdb_refreshMetrics labelOk lib) ticks (fdb_new env flt) \<and>
    transceiver_refreshLoop labelOk lib ticks (transceiver_new env flt) =
      overTicks (transceiver_refreshMetrics labelOk lib) ticks (transceiver_new env flt) \<and>
    platform_refreshLoop labelOk lib ticks (platform_new env flt) =
      overTicks (platform_refreshMetrics labelOk lib) ticks (platform_new env flt) \<and>
    docker_refreshLoop labelOk clock lib ticks (docker_new env flt) =
      overTicks (docker_refreshMetrics labelOk clock lib) ticks (docker_new env flt) \<and>
    system_refreshLoop labelOk host lib ticks (system_new env flt) =
      overTicks (system_refreshMetrics labelOk host lib) ticks (system_new env flt)"
  unfolding lldp_refreshLoop_def vlan_refreshLoop_def lag_refreshLoop_def switch_refreshLoop_def thermal_refreshLoop_def
    routing_refreshLoop_def fdb_refreshLoop_def transceiver_refreshLoop_def platform_refreshLoop_def docker_refreshLoop_def system_refreshLoop_def
  by (simp only: tickerLoop_pos [OF lldp_interval_pos] tickerLoop_pos [OF vlan_interval_pos]
      tickerLoop_pos [OF lag_interval_pos] tickerLoop_pos [OF switch_interval_pos]
      tickerLoop_pos [OF thermal_interval_pos] tickerLoop_pos [OF routing_interval_pos]
      tickerLoop_pos [OF fdb_interval_pos]
      tickerLoop_pos [OF transceiver_interval_pos]
      tickerLoop_pos [OF platform_interval_pos]
      tickerLoop_pos [OF docker_interval_pos]
      tickerLoop_pos [OF system_interval_pos] simp_thms)

text \<open>
  C11. As long as the metrics library takes the label values, and whatever Redis, the host and the environment answer: no background
  collector panics, neither its constructor with the refresh goroutine it starts, which does not hang either if every SCAN
  comes to its end, nor its \<^verbatim>\<open>Collect\<close>, which always returns; nor, when \<^verbatim>\<open>KEYS\<close> answers keys of the pattern, does
  a scrape of the CRM, hardware or interface collector; nor, when every queue has a number, a scrape of the queue collector.
\<close>

theorem collectors_neither_panic_nor_hang:
  "calm (scansFinish lib) (NewLldpCollector anyLabel lib env flt clk ticks) \<and> calm (scansFinish lib) (NewVlanCollector anyLabel lib env flt clk ticks) \<and>
    calm (scansFinish lib) (NewLagCollector anyLabel lib env flt clk ticks) \<and> calm (scansFinish lib) (NewSwitchCollector anyLabel lib env flt clk ticks) \<and>
    calm (scansFinish lib) (NewThermalCollector anyLabel lib env flt clk ticks) \<and> calm (scansFinish lib) (NewRoutingCollector anyLabel lib env flt clk ticks) \<and>
    calm (scansFinish lib) (NewFdbCollector anyLabel lib env flt clk ticks) \<and> calm (scansFinish lib) (NewTransceiverCollector anyLabel lib env flt clk ticks) \<and>
    calm (scansFinish lib) (NewPlatformHealthCollector anyLabel lib env flt clk ticks) \<and>
    calm (scansFinish lib) (NewDockerCollector anyLabel clock lib env flt clk ticks) \<and>
    calm (scansFinish lib) (NewSystemCollector anyLabel host lib env flt clk ticks) \<and>
    calm True (lldp_Collect anyLabel now c1) \<and> calm True (vlan_Collect anyLabel now c2) \<and> calm True (lag_Collect anyLabel now c3) \<and>
    calm True (switch_Collect anyLabel now c4) \<and> calm True (thermal_Collect anyLabel now c5) \<and> calm True (routing_Collect anyLabel now c6) \<and>
    calm True (fdb_Collect anyLabel now c7) \<and> calm True (transceiver_Collect anyLabel now c8) \<and> calm True (platform_Collect anyLabel now c9) \<and>
    calm True (docker_Collect anyLabel sourceNow now c10) \<and> calm True (system_Collect anyLabel now c11) \<and>
    (answersPattern lib \<longrightarrow> calm True (crm_Collect anyLabel lib sclk) \<and> calm True (hw_Collect anyLabel lib sclk) \<and>
       calm True (interface_Collect anyLabel lib rangeOrder sclk)) \<and>
    (queuesNumbered lib \<longrightarrow> calm True (queue_Collect anyLabel lib sclk))"
  by (simp add: calm_NewLldp calm_NewVlan calm_NewLag calm_NewSwitch calm_NewThermal calm_NewRouting calm_NewFdb calm_NewTransceiver
      calm_NewPlatformHealth calm_NewDocker calm_NewSystem calm_background_Collect calm_crm calm_hw calm_interface calm_queue)

theorem collectors_neither_panic_nor_hang_witness:
  "let lib = staticLib localRedis queue_demoDb (\<lambda>n. keysOf [''CRM:ACL_STATS:INGRESS:PORT'', ''FAN_INFO|PSU1 fan1'']);
       env = (\<lambda>_. Some ''true''); flt = NewMetricFilter env; clk = \<lparr>t_start = 1, t_scraped = 2, t_stored = 3\<rparr> in
    calm True (NewLldpCollector anyLabel lib env flt clk [clk]) \<and> calm True (NewVlanCollector anyLabel lib env flt clk [clk]) \<and>
    calm True (NewLagCollector anyLabel lib env flt clk [clk]) \<and> calm True (NewSwitchCollector anyLabel lib env flt clk [clk]) \<and>
    calm True (NewThermalCollector anyLabel lib env flt clk [clk]) \<and> calm True (NewRoutingCollector anyLabel lib env flt clk [clk]) \<and>
    calm True (NewFdbCollector anyLabel lib env flt clk [clk]) \<and> calm True (NewTransceiverCollector anyLabel lib env flt clk [clk]) \<and>
    calm True (NewPlatformHealthCollector anyLabel lib env flt clk [clk]) \<and> calm True (NewDockerCollector anyLabel (\<lambda>_. 0) lib env flt clk [clk]) \<and>
    calm True (NewSystemCollector anyLabel system_demoHost lib env flt clk [clk]) \<and> calm True (lldp_Collect anyLabel 5 (lldp_new env flt)) \<and>
    calm True (vlan_Collect anyLabel 5 (vlan_new env flt)) \<and> calm True (lag_Collect anyLabel 5 (lag_new env flt)) \<and>
    calm True (switch_Collect anyLabel 5 (switch_new env flt)) \<and> calm True (thermal_Collect anyLabel 5 (thermal_new env flt)) \<and>
    calm True (routing_Collect anyLabel 5 (routing_new env flt)) \<and> calm True (fdb_Collect anyLabel 5 (fdb_new env flt)) \<and>
    calm True (transceiver_Collect anyLabel 5 (transceiver_new env flt)) \<and> calm True (platform_Collect anyLabel 5 (platform_new env flt)) \<and>
    calm True (docker_Collect anyLabel 5 5 (docker_new env flt)) \<and> calm True (system_Collect anyLabel 5 (system_new env flt)) \<and>
    calm True (crm_Collect anyLabel lib (demoClock 0)) \<and> calm True (hw_Collect anyLabel lib (demoClock 0)) \<and>
    calm True (interface_Collect anyLabel lib (\<lambda>_ kvs. kvs) (demoClock 0)) \<and> calm True (queue_Collect anyLabel lib (demoClock 0))"
proof -
  let ?lib = "staticLib localRedis queue_demoDb (\<lambda>n. keysOf [''CRM:ACL_STATS:INGRESS:PORT'', ''FAN_INFO|PSU1 fan1''])"
  let ?env = "\<lambda>_. Some ''true''" and ?clk = "\<lparr>t_start = 1, t_scraped = 2, t_stored = 3\<rparr>"
  let ?flt = "NewMetricFilter ?env"
  have numbered: "queuesNumbered ?lib"
    by (auto simp: queuesNumbered_def staticLib_def queue_demoDb_def)
  have scans: "scansFinish ?lib"
    by (simp add: scansFinish_def staticLib_def)
  note holds = scans [THEN eqTrueI] numbered [THEN eqTrueI] keysOf_answersPattern [THEN eqTrueI]
  show ?thesis
    unfolding Let_def
    by (rule collectors_neither_panic_nor_hang [where lib = ?lib and env = ?env and flt = ?flt and clk = ?clk and ticks = "[?clk]"
      and clock = "\<lambda>_. 0" and host = system_demoHost and now = 5 and sourceNow = 5 and sclk = "demoClock 0" and rangeOrder = "\<lambda>_ kvs. kvs"
      and ?c1.0 = "lldp_new ?env ?flt" and ?c2.0 = "vlan_new ?env ?flt" and ?c3.0 = "lag_new ?env ?flt" and ?c4.0 = "switch_new ?env ?flt" and ?c5.0 = "thermal_new ?env ?flt" and ?c6.0 = "routing_new ?env ?flt" and ?c7.0 = "fdb_new ?env ?flt" and ?c8.0 = "transceiver_new ?env ?flt" and ?c9.0 = "platform_new ?env ?flt" and ?c10.0 = "docker_new ?env ?flt" and ?c11.0 = "system_new ?env ?flt", unfolded holds simp_thms conj_assoc])
qed

text \<open>
  C22. Whatever collectors the environment enables: no two descriptions of the collectors \<^verbatim>\<open>main\<close> registers have the
  same metric name, no description has a label twice, and every name belongs to its collector's subsystem, so
  registering them together does not clash.
\<close>

theorem descriptions_do_not_clash:
  "distinct (map fqName (concat (map snd (mainCollectors env flt)))) \<and>
   list_all (\<lambda>d. distinct (d_labels d)) (concat (map snd (mainCollectors env flt))) \<and>
   list_all (\<lambda>(s, ds). list_all (\<lambda>d. subsystemOf (fqName d) = s) ds) (mainCollectors env flt)"
proof (intro conjI)
  show "distinct (map fqName (concat (map snd (mainCollectors env flt))))"
    by (rule mainCollectors_distinct)
  show "list_all (\<lambda>d. distinct (d_labels d)) (concat (map snd (mainCollectors env flt)))"
    using mainCollectors_labels by (fastforce simp: list_all_iff)
  show "list_all (\<lambda>(s, ds). list_all (\<lambda>d. subsystemOf (fqName d) = s) ds) (mainCollectors env flt)"
    using mainCollectors_own by (fastforce simp: list_all_iff ownNames_def)
qed

subsection \<open>No time series twice\<close>

definition separatorFree :: "(int \<Rightarrow> string \<Rightarrow> fields) \<Rightarrow> (int \<Rightarrow> string \<Rightarrow> string list) \<Rightarrow> bool" where
  "separatorFree db scan =
     ((\<forall>k\<in>set (scan 0 ''NEIGH_TABLE:*''). plainCounter (neigh_counter (db 0) k)) \<and>
      (\<forall>k\<in>set (scan 0 ''ROUTE_TABLE:*''). plainCounter (route_counter (db 0) k)))"

text \<open>
  On a server that holds still, one refresh of the ten background collectors below exports no time series twice, within
  one collector and across them.
\<close>

lemma refreshes_export_no_series_twice:
  assumes "serves lib cfg db scan" "\<forall>n p. distinct (scan n p)" "\<forall>n k. distinct (map fst (db n k))"
    "separatorFree db scan" "length (scan 1 (asciiFDBEntryPrefix @ ''*'')) < 2 ^ 53"
    "lldp_config c1 = loadLldpCollectorConfig env"
    "distinct (map (docker_name (db 6)) (filter (docker_valid (db 6)) (scan 6 ''DOCKER_STATS|*'')))"
  shows "\<exists>r1 r2 r3 r4 r5 r6 r7 r8 r9 r10.
    fst (lldp_scrapeMetrics anyLabel lib c1 w) = Ok r1 \<and> fst (vlan_scrapeMetrics anyLabel lib c2 w) = Ok r2 \<and>
    fst (lag_scrapeMetrics anyLabel lib c3 w) = Ok r3 \<and> fst (switch_scrapeMetrics anyLabel lib c4 w) = Ok r4 \<and>
    fst (thermal_scrapeMetrics anyLabel lib c5 w) = Ok r5 \<and> fst (routing_scrapeMetrics anyLabel lib c6 w) = Ok r6 \<and>
    fst (fdb_scrapeMetrics anyLabel lib c7 w) = Ok r7 \<and> fst (transceiver_scrapeMetrics anyLabel lib c8 w) = Ok r8 \<and>
    fst (docker_scrapeMetrics anyLabel clock lib c9 w) = Ok r9 \<and> fst (system_scrapeMetrics anyLabel host lib c10 w) = Ok r10 \<and>
    distinct (map series (fst r1 @ fst r2 @ fst r3 @ fst r4 @ fst r5 @ fst r6 @ fst r7 @ fst r8 @ fst r9 @ r10))"
proof -
  note serves = assms(1)
  note specs = lldp_scrape_spec [OF serves lldp_maxNeighbors_pos [OF assms(6)], of w] vlan_scrape_spec [OF serves, of c2 w]
    lag_scrape_spec [OF serves, of c3 w] switch_scrape_spec [OF serves, of c4 w] thermal_scrape_spec [OF serves, of c5 w]
    routing_scrape_spec [OF serves, of c6 w] fdb_scrape_spec [OF serves assms(5), of c7 w]
    transceiver_scrape_spec [OF serves, of c8 w]
  obtain t where docker: "fst (docker_scrapeMetrics anyLabel clock lib c9 w) = Ok (docker_spec c9 db scan t)"
    using docker_scrape_spec [OF serves] by blast
  obtain i s u where system: "fst (system_scrapeMetrics anyLabel host lib c10 w) = Ok (system_metrics c10 i s u)"
    using system_scrape_complete by blast
  have good: "list_all P (fst x)" if "post m (\<lambda>r. list_all P (fst r))" "fst (m w) = Ok x"
    for P and m :: "('a, metric list \<times> 'x) rio" and x
    using that by (metis postD prod.collapse)
  have whole: "P x" if "post m P" "fst (m w) = Ok x" for P and m :: "('a, metric list) rio" and x
    using that by (metis postD prod.collapse)
  let ?tagged = "seriesTagged subsystemOf"
  have "?tagged ''lldp'' (fst (lldp_spec c1 db scan))"
    by (rule seriesTagged_own [OF lldp_spec_series good [OF lldp_source.scrape_good specs(1)] lldp_names]) (simp add: assms(2))
  moreover have "?tagged ''vlan'' (fst (vlan_spec c2 db scan))"
    by (rule seriesTagged_own [OF vlan_spec_series good [OF vlan_source.scrape_good specs(2)] vlan_names]) (simp add: assms(2))
  moreover have "?tagged ''lag'' (fst (lag_spec c3 db scan))"
    by (rule seriesTagged_own [OF lag_spec_series good [OF lag_source.scrape_good specs(3)] lag_names]) (simp add: assms(2))
  moreover have "?tagged ''switch'' (fst (switch_spec c4 db scan))"
    by (rule seriesTagged_own [OF switch_spec_series good [OF switch_source.scrape_good specs(4)] switch_names]) (simp add: assms(2))
  moreover have "?tagged ''thermal'' (fst (thermal_spec c5 db))"
    by (rule seriesTagged_own [OF thermal_spec_series good [OF thermal_source.scrape_good specs(5)] thermal_names]) (simp add: assms(3))
  moreover have "?tagged ''routing'' (fst (routing_spec c6 db scan))"
    by (rule seriesTagged_own [OF routing_spec_series good [OF routing_source.scrape_good specs(6)] routing_names])
      (use assms(4) in \<open>simp_all add: separatorFree_def\<close>)
  moreover have "?tagged ''fdb'' (fst (fdb_spec c7 db scan))"
    by (rule seriesTagged_own [OF fdb_spec_series good [OF fdb_source.scrape_good specs(7)] fdb_names])
  moreover have "?tagged ''transceiver'' (fst (transceiver_spec c8 db scan))"
    by (rule seriesTagged_own [OF transceiver_spec_series good [OF transceiver_source.scrape_good specs(8)] transceiver_names])
      (simp_all add: assms(2,3))
  moreover have "?tagged ''docker'' (fst (docker_spec c9 db scan t))"
    by (rule seriesTagged_own [OF docker_spec_series good [OF docker_source.scrape_good docker] docker_names]) (rule assms(7))
  moreover have "?tagged ''system'' (system_metrics c10 i s u)"
    by (rule seriesTagged_own [OF system_metrics_series whole [OF system_source.scrape_good system] system_names])
  ultimately have "distinct (map series (fst (lldp_spec c1 db scan) @ fst (vlan_spec c2 db scan) @
      fst (lag_spec c3 db scan) @ fst (switch_spec c4 db scan) @ fst (thermal_spec c5 db) @
      fst (routing_spec c6 db scan) @ fst (fdb_spec c7 db scan) @ fst (transceiver_spec c8 db scan) @
      fst (docker_spec c9 db scan t) @ system_metrics c10 i s u))"
    using seriesTagged_concat [of subsystemOf "[(''lldp'', fst (lldp_spec c1 db scan)), (''vlan'', fst (vlan_spec c2 db scan)),
        (''lag'', fst (lag_spec c3 db scan)), (''switch'', fst (switch_spec c4 db scan)), (''thermal'', fst (thermal_spec c5 db)),
        (''routing'', fst (routing_spec c6 db scan)), (''fdb'', fst (fdb_spec c7 db scan)),
        (''transceiver'', fst (transceiver_spec c8 db scan)), (''docker'', fst (docker_spec c9 db scan t)),
        (''system'', system_metrics c10 i s u)]"]
    by simp
  with specs docker system show ?thesis by blast
qed

text \<open>
  C12. Where the metrics library takes the label values and while the database holds still, whose scans repeat no key and whose
  hashes no field, which has no separator of the routing counters in its names and fewer than \<open>2 ^ 53\<close> FDB keys, and gives
  containers different names and the fields of the health summary different labels: whatever refreshes the eleven background
  collectors have made since they were constructed, what their \<^verbatim>\<open>Collect\<close>s send together, cached metrics and health
  gauges, has no time series twice.
\<close>

theorem collectors_send_no_series_twice:
  assumes "serves lib cfg db scan" "\<forall>n p. distinct (scan n p)" "\<forall>n k. distinct (map fst (db n k))"
    "separatorFree db scan" "length (scan 1 (asciiFDBEntryPrefix @ ''*'')) < 2 ^ 53"
    "distinct (map (docker_name (db 6)) (filter (docker_valid (db 6)) (scan 6 ''DOCKER_STATS|*'')))"
    "distinct (summaryLabels (db 6 ''SYSTEM_HEALTH_INFO''))"
    "reaches (lldp_refreshMetrics anyLabel lib) (lldp_new env flt) c1"
    "reaches (vlan_refreshMetrics anyLabel lib) (vlan_new env flt) c2"
    "reaches (lag_refreshMetrics anyLabel lib) (lag_new env flt) c3"
    "reaches (switch_refreshMetrics anyLabel lib) (switch_new env flt) c4"
    "reaches (thermal_refreshMetrics anyLabel lib) (thermal_new env flt) c5"
    "reaches (routing_refreshMetrics anyLabel lib) (routing_new env flt) c6"
    "reaches (fdb_refreshMetrics anyLabel lib) (fdb_new env flt) c7"
    "reaches (transceiver_refreshMetrics anyLabel lib) (transceiver_new env flt) c8"
    "reaches (platform_refreshMetrics anyLabel lib) (platform_new env flt) c9"
    "reaches (docker_refreshMetrics anyLabel clock lib) (docker_new env flt) c10"
    "reaches (system_refreshMetrics anyLabel host lib) (system_new env flt) c11"
  shows "\<exists>ms1 ms2 ms3 ms4 ms5 ms6 ms7 ms8 ms9 ms10 ms11.
    fst (lldp_Collect anyLabel now c1 w) = Ok ms1 \<and> fst (vlan_Collect anyLabel now c2 w) = Ok ms2 \<and>
    fst (lag_Collect anyLabel now c3 w) = Ok ms3 \<and> fst (switch_Collect anyLabel now c4 w) = Ok ms4 \<and>
    fst (thermal_Collect anyLabel now c5 w) = Ok ms5 \<and> fst (routing_Collect anyLabel now c6 w) = Ok ms6 \<and>
    fst (fdb_Collect anyLabel now c7 w) = Ok ms7 \<and> fst (transceiver_Collect anyLabel now c8 w) = Ok ms8 \<and>
    fst (platform_Collect anyLabel now c9 w) = Ok ms9 \<and> fst (docker_Collect anyLabel sourceNow now c10 w) = Ok ms10 \<and>
    fst (system_Collect anyLabel now c11 w) = Ok ms11 \<and>
    distinct (map series (ms1 @ ms2 @ ms3 @ ms4 @ ms5 @ ms6 @ ms7 @ ms8 @ ms9 @ ms10 @ ms11))"
proof -
  have scans: "distinct (scan n p)" and hashes: "distinct (map fst (db n k))" "\<forall>k. distinct (map fst (db n k))" for n p k
    using assms(2,3) by simp_all
  note plain = assms(4) [unfolded separatorFree_def, THEN conjunct1] assms(4) [unfolded separatorFree_def, THEN conjunct2]
  obtain ms1 ms2 ms3 where "fst (lldp_Collect anyLabel now c1 w) = Ok ms1" "seriesTagged subsystemOf ''lldp'' ms1"
    and "fst (vlan_Collect anyLabel now c2 w) = Ok ms2" "seriesTagged subsystemOf ''vlan'' ms2"
    and "fst (lag_Collect anyLabel now c3 w) = Ok ms3" "seriesTagged subsystemOf ''lag'' ms3"
    using lldp_sent_once [where now = now and w = w, OF assms(1,8) scans] vlan_sent_once [where now = now and w = w, OF assms(1,9) scans] lag_sent_once [where now = now and w = w, OF assms(1,10) scans] by blast
  moreover obtain ms4 ms5 ms6 where "fst (switch_Collect anyLabel now c4 w) = Ok ms4" "seriesTagged subsystemOf ''switch'' ms4"
    and "fst (thermal_Collect anyLabel now c5 w) = Ok ms5" "seriesTagged subsystemOf ''thermal'' ms5"
    and "fst (routing_Collect anyLabel now c6 w) = Ok ms6" "seriesTagged subsystemOf ''routing'' ms6"
    using switch_sent_once [where now = now and w = w, OF assms(1,11) scans] thermal_sent_once [where now = now and w = w, OF assms(1,12) hashes(1)]
      routing_sent_once [where now = now and w = w, OF assms(1,13) plain] by blast
  moreover obtain ms7 ms8 ms9 where "fst (fdb_Collect anyLabel now c7 w) = Ok ms7" "seriesTagged subsystemOf ''fdb'' ms7"
    and "fst (transceiver_Collect anyLabel now c8 w) = Ok ms8" "seriesTagged subsystemOf ''transceiver'' ms8"
    and "fst (platform_Collect anyLabel now c9 w) = Ok ms9" "seriesTagged subsystemOf ''platform'' ms9"
    using fdb_sent_once [where now = now and w = w, OF assms(1,14,5)] transceiver_sent_once [where now = now and w = w, OF assms(1,15) scans scans hashes(2)]
      platform_sent_once [where now = now and w = w, OF assms(1,16) scans scans assms(7)] by blast
  moreover obtain ms10 ms11 where "fst (docker_Collect anyLabel sourceNow now c10 w) = Ok ms10" "seriesTagged subsystemOf ''docker'' ms10"
    and "fst (system_Collect anyLabel now c11 w) = Ok ms11" "seriesTagged subsystemOf ''system'' ms11"
    using docker_sent_once [where sourceNow = sourceNow and now = now and w = w, OF assms(1,17,6)] system_sent_once [where now = now and w = w, OF assms(18)] by blast
  ultimately show ?thesis
    using seriesTagged_concat [of subsystemOf "[(''lldp'', ms1), (''vlan'', ms2), (''lag'', ms3), (''switch'', ms4), (''thermal'', ms5),
        (''routing'', ms6), (''fdb'', ms7), (''transceiver'', ms8), (''platform'', ms9), (''docker'', ms10), (''system'', ms11)]"]
    by (intro exI conjI) (assumption | simp)+
qed

text \<open>A switch with three LLDP keys and two FDB keys, both collectors enabled and refreshed once.\<close>

definition page_db :: "int \<Rightarrow> string \<Rightarrow> fields" where
  "page_db n = (if n = 1 \<or> n = 2 then fdb_demoDb n else lldp_demoDb n)"

definition page_scan :: "int \<Rightarrow> string \<Rightarrow> string list" where
  "page_scan n p =
     (if n = 1 then fdb_demoScan n p else if p = ''LLDP_ENTRY_TABLE:*'' then lldp_demoScan n p else [])"

definition page_env :: env where
  "page_env k = (if k = ''FDB_ENABLED'' then Some ''true'' else None)"

lemma page_holds:
  "\<forall>n p. distinct (page_scan n p)" "\<forall>n k. distinct (map fst (page_db n k))" "separatorFree page_db page_scan"
  "length (page_scan 1 (asciiFDBEntryPrefix @ ''*'')) < 2 ^ 53"
  "distinct (map (docker_name (page_db 6)) (filter (docker_valid (page_db 6)) (page_scan 6 ''DOCKER_STATS|*'')))"
  "distinct (summaryLabels (page_db 6 ''SYSTEM_HEALTH_INFO''))"
proof -
  have "fdb_demoKey ''oid:0x26'' ''AA:01'' \<noteq> fdb_demoKey ''oid:0x99'' ''AA:02''"
    by code_simp
  then show "\<forall>n p. distinct (page_scan n p)"
    by (simp add: page_scan_def fdb_demoScan_def lldp_demoScan_def)
  show "\<forall>n k. distinct (map fst (page_db n k))"
    by (simp add: page_db_def fdb_demoDb_def lldp_demoDb_def)
qed (simp_all add: separatorFree_def page_scan_def page_db_def fdb_demoScan_def lldp_demoDb_def summaryLabels_def mapKeys_def)

lemma lldp_exported_some:
  "k \<in> set keys \<Longrightarrow> \<not> lldp_passedOver c k \<Longrightarrow> lldp_valid db k \<Longrightarrow> 0 < n \<Longrightarrow> lldp_exported c db n keys \<noteq> []"
  by (auto simp: lldp_exported_def filter_empty_conv)

lemma page_lldp: "fst (lldp_spec (lldp_new page_env (NewMetricFilter page_env)) page_db page_scan) \<noteq> []"
proof -
  have on: "Enabled (NewMetricFilter page_env) name" for name
    by (rule Enabled_empty) (simp add: page_env_def)
  have config: "lldp_maxNeighbors (loadLldpCollectorConfig page_env) = 512" "lldp_includeMgmt (loadLldpCollectorConfig page_env)"
    by (simp_all add: loadLldpCollectorConfig_def parseIntEnv_def parseBoolEnv_def setEnv_def page_env_def)
  have "lldp_exported (lldp_new page_env (NewMetricFilter page_env)) (page_db 0) 512 (sort (page_scan 0 ''LLDP_ENTRY_TABLE:*'')) \<noteq> []"
  proof (rule lldp_exported_some)
    show "''LLDP_ENTRY_TABLE:Ethernet0'' \<in> set (sort (page_scan 0 ''LLDP_ENTRY_TABLE:*''))"
      unfolding set_sort by (simp add: page_scan_def lldp_demoScan_def)
  qed (simp_all add: lldp_passedOver_def lldp_valid_def config lldp_new_def page_db_def lldp_demoDb_def hasPrefix_def)
  then show ?thesis
    by (simp add: lldp_spec_def Let_def on config lldp_new_def)
qed

lemma page_fdb: "fst (fdb_spec (fdb_new page_env (NewMetricFilter page_env)) page_db page_scan) \<noteq> []"
proof -
  have "Enabled (NewMetricFilter page_env) ''sonic_fdb_entries''"
    by (rule Enabled_empty) (simp add: page_env_def)
  then show ?thesis
    by (simp add: fdb_spec_def Let_def fdb_new_def)
qed

lemma page_enabled: "lldp_IsEnabled (lldp_new page_env flt)" "fdb_IsEnabled (fdb_new page_env flt)"
proof -
  have "ParseBool ''true'' = Some True"
    by code_simp
  then show "lldp_IsEnabled (lldp_new page_env flt)" "fdb_IsEnabled (fdb_new page_env flt)"
    by (simp_all add: lldp_IsEnabled_def lldp_new_def loadLldpCollectorConfig_def fdb_IsEnabled_def fdb_new_def
        loadFdbCollectorConfig_def parseBoolEnv_def setEnv_def page_env_def)
qed

lemma page_refreshed:
  fixes w :: "unit world"
  obtains c1 w1 c7 w7 where
    "lldp_refreshMetrics anyLabel (staticLib localRedis page_db page_scan) clk (lldp_new page_env (NewMetricFilter page_env)) w = (Ok c1, w1)"
    "cachedMetrics c1 \<noteq> []" "lldp_IsEnabled c1"
    "fdb_refreshMetrics anyLabel (staticLib localRedis page_db page_scan) clk (fdb_new page_env (NewMetricFilter page_env)) w = (Ok c7, w7)"
    "cachedMetrics c7 \<noteq> []" "fdb_IsEnabled c7"
proof -
  let ?lib = "staticLib localRedis page_db page_scan" and ?flt = "NewMetricFilter page_env"
  let ?c1 = "lldp_new page_env ?flt" and ?c7 = "fdb_new page_env ?flt"
  note serves = staticLib_serves [of localRedis page_db page_scan]
  have pos: "lldp_config ?c1 = loadLldpCollectorConfig page_env"
    by (simp add: lldp_new_def)
  obtain w1 where r1: "lldp_refreshMetrics anyLabel ?lib clk ?c1 w =
      (Ok (run (lldp_assignments clk (Inr (lldp_spec ?c1 page_db page_scan))) ?c1), w1)"
    unfolding lldp_refreshMetrics_def
    using refreshWith_ok [where scrape = "lldp_scrapeMetrics anyLabel ?lib ?c1" and w = w and assignments = "lldp_assignments clk" and c = ?c1, OF lldp_scrape_spec [OF serves lldp_maxNeighbors_pos [OF pos], of w]]
    by blast
  obtain w7 where r7: "fdb_refreshMetrics anyLabel ?lib clk ?c7 w =
      (Ok (run (fdb_assignments clk (Inr (fdb_spec ?c7 page_db page_scan))) ?c7), w7)"
    unfolding fdb_refreshMetrics_def
    using refreshWith_ok [where scrape = "fdb_scrapeMetrics anyLabel ?lib ?c7" and w = w and assignments = "fdb_assignments clk" and c = ?c7, OF fdb_scrape_spec [OF serves page_holds(4), of ?c7 w]]
    by blast
  show ?thesis
    by (rule that [OF r1 _ _ r7])
      (use page_lldp page_fdb page_enabled [of ?flt] in
        \<open>auto simp: run_def lldp_assignments_def fdb_assignments_def lldp_IsEnabled_def fdb_IsEnabled_def split: prod.splits\<close>)
qed

theorem collectors_send_no_series_twice_witness:
  "\<exists>c1 c7 ms1 ms7. let lib = staticLib localRedis page_db page_scan; flt = NewMetricFilter page_env; w = \<lparr>server = (), databases = []\<rparr>;
       clk = \<lparr>t_start = 1, t_scraped = 2, t_stored = 3\<rparr> in
    fst (lldp_refreshMetrics anyLabel lib clk (lldp_new page_env flt) w) = Ok c1 \<and>
    fst (fdb_refreshMetrics anyLabel lib clk (fdb_new page_env flt) w) = Ok c7 \<and>
    cachedMetrics c1 \<noteq> [] \<and> cachedMetrics c7 \<noteq> [] \<and>
    fst (lldp_Collect anyLabel 5 c1 w) = Ok ms1 \<and> fst (fdb_Collect anyLabel 5 c7 w) = Ok ms7 \<and>
    set (cachedMetrics c1) \<subseteq> set ms1 \<and> set (cachedMetrics c7) \<subseteq> set ms7 \<and> distinct (map series (ms1 @ ms7))"
proof -
  let ?lib = "staticLib localRedis page_db page_scan" and ?flt = "NewMetricFilter page_env" and ?env = page_env
  let ?w = "\<lparr>server = (), databases = []\<rparr> :: unit world" and ?clk = "\<lparr>t_start = 1, t_scraped = 2, t_stored = 3\<rparr>"
  obtain c1 w1 c7 w7 where
    r1: "lldp_refreshMetrics anyLabel ?lib ?clk (lldp_new ?env ?flt) ?w = (Ok c1, w1)" "cachedMetrics c1 \<noteq> []" "lldp_IsEnabled c1" and
    r7: "fdb_refreshMetrics anyLabel ?lib ?clk (fdb_new ?env ?flt) ?w = (Ok c7, w7)" "cachedMetrics c7 \<noteq> []" "fdb_IsEnabled c7"
    by (rule page_refreshed)
  have refreshed: "reaches (lldp_refreshMetrics anyLabel ?lib) (lldp_new ?env ?flt) c1"
    "reaches (fdb_refreshMetrics anyLabel ?lib) (fdb_new ?env ?flt) c7"
    by (rule reaches_refresh, rule reaches_start, rule r1(1)) (rule reaches_refresh, rule reaches_start, rule r7(1))
  from collectors_send_no_series_twice [OF staticLib_serves page_holds refreshed(1)
      reaches_start [of "vlan_refreshMetrics anyLabel ?lib" "vlan_new ?env ?flt"]
      reaches_start [of "lag_refreshMetrics anyLabel ?lib" "lag_new ?env ?flt"]
      reaches_start [of "switch_refreshMetrics anyLabel ?lib" "switch_new ?env ?flt"]
      reaches_start [of "thermal_refreshMetrics anyLabel ?lib" "thermal_new ?env ?flt"]
      reaches_start [of "routing_refreshMetrics anyLabel ?lib" "routing_new ?env ?flt"]
      refreshed(2) reaches_start [of "transceiver_refreshMetrics anyLabel ?lib" "transceiver_new ?env ?flt"]
      reaches_start [of "platform_refreshMetrics anyLabel ?lib" "platform_new ?env ?flt"]
      reaches_start [of "docker_refreshMetrics anyLabel (\<lambda>_. 0) ?lib" "docker_new ?env ?flt"]
      reaches_start [of "system_refreshMetrics anyLabel system_demoHost ?lib" "system_new ?env ?flt"], of 5 ?w 0]
  obtain ms1 ms7 where "fst (lldp_Collect anyLabel 5 c1 ?w) = Ok ms1" "fst (fdb_Collect anyLabel 5 c7 ?w) = Ok ms7"
    "distinct (map series (ms1 @ ms7))"
    by (elim exE conjE) (rule that, assumption, assumption, simp add: Int_Un_distrib)
  then show ?thesis
    using r1 r7 yieldsD [OF lldp_Collect_yields [OF r1(3)], of "\<lambda>_. True" ?w] yieldsD [OF fdb_Collect_yields [OF r7(3)], of "\<lambda>_. True" ?w]
    unfolding Let_def by (intro exI [of _ c1] exI [of _ c7] exI [of _ ms1] exI [of _ ms7]) auto
qed

end
